(* ===== verification/Prelude.thy ===== *)
theory Prelude
  imports Main
begin

text \<open>
  Shared vocabulary of the development: the names of the model's basic types, the theorem
  collections the component theories fill, and generic facts on lists and finite maps.

  A Go \<open>string\<close> and a Go \<open>[]byte\<close> are both sequences of bytes; both are \<^typ>\<open>string\<close>
  here, since an Isabelle \<^typ>\<open>char\<close> is an 8-bit byte. A \<open>time.Time\<close> is an \<^typ>\<open>int\<close>
  (nanoseconds since the epoch); a reading of the clock is an argument of the operation
  that takes it. A libp2p \<open>peer.ID\<close> is a byte string.
\<close>

section \<open>Types\<close>

type_synonym time = int
type_synonym peer_id = string
type_synonym addr = string

section \<open>Theorem collections\<close>

named_theorems go_defs \<open>definitions unfolded together when a branch is computed\<close>
named_theorems inv_intros \<open>preservation lemmas of the component invariants\<close>

section \<open>Lists\<close>

text \<open>Removing the first element that satisfies a predicate: the \<open>append(xs[:i], xs[i+1:]...)\<close>
  idiom after a linear search.\<close>

fun remove_first :: "('a \<Rightarrow> bool) \<Rightarrow> 'a list \<Rightarrow> 'a list" where
  "remove_first p [] = []"
| "remove_first p (x # xs) = (if p x then xs else x # remove_first p xs)"

lemma set_remove_first_subset: "set (remove_first p xs) \<subseteq> set xs"
  by (induction xs) auto

lemma remove_first_map_subset: "set (map f (remove_first p xs)) \<subseteq> set (map f xs)"
  by (induction xs) auto

lemma distinct_map_remove_first [intro]:
  "distinct (map f xs) \<Longrightarrow> distinct (map f (remove_first p xs))"
proof (induction xs)
  case (Cons x xs)
  then show ?case using remove_first_map_subset [of f p xs] by auto
qed simp

lemma remove_first_id [simp]: "(\<And>x. x \<in> set xs \<Longrightarrow> \<not> p x) \<Longrightarrow> remove_first p xs = xs"
  by (induction xs) auto

lemma map_of_remove_first:
  "distinct (map fst xs) \<Longrightarrow>
     map_of (remove_first (\<lambda>(i, _). i = k) xs) = (map_of xs)(k := None)"
proof (induction xs)
  case (Cons x xs)
  obtain i c where x: "x = (i, c)" by (cases x)
  show ?case
  proof (cases "i = k")
    case True
    with Cons.prems x have "map_of xs k = None" by (auto simp: map_of_eq_None_iff)
    with True x show ?thesis by (auto simp: fun_eq_iff)
  next
    case False
    with Cons x show ?thesis by (auto simp: fun_eq_iff)
  qed
qed (simp add: fun_eq_iff)

lemma map_of_snoc_fresh: "k \<notin> fst ` set xs \<Longrightarrow> map_of (xs @ [(k, v)]) = (map_of xs)(k \<mapsto> v)"
  by (induction xs) (auto simp: fun_eq_iff)

lemma map_of_map_snd:
  "map_of (map (\<lambda>(i, c). (i, f c)) xs) k = map_option f (map_of xs k)"
  by (induction xs) auto

lemma map_of_rev_distinct: "distinct (map fst xs) \<Longrightarrow> map_of (rev xs) = map_of xs"
  by (rule map_of_inject_set [THEN iffD2]) (auto simp: rev_map [symmetric])

text \<open>Linear search for the first element that satisfies a predicate (a Go \<open>for range\<close> loop
  with an early return).\<close>

lemma find_Some_set: "List.find p xs = Some x \<Longrightarrow> x \<in> set xs \<and> p x"
  by (auto simp: find_Some_iff)

lemma find_None_set: "List.find p xs = None \<longleftrightarrow> (\<forall>x\<in>set xs. \<not> p x)"
  by (auto simp: find_None_iff)

lemma find_unique:
  assumes "distinct (map f xs)" and "x \<in> set xs" and "f x = k"
  shows "List.find (\<lambda>y. f y = k) xs = Some x"
  using assms by (induction xs) (auto simp: rev_image_eqI)

lemma distinct_map_snoc [simp]:
  "distinct (map f (xs @ [x])) \<longleftrightarrow> distinct (map f xs) \<and> f x \<notin> f ` set xs"
  by auto

section \<open>Go maps\<close>

text \<open>A Go map whose keys the program ranges over is an association list with distinct keys
  (the order carries no meaning; Go's iteration order is unspecified). A lookup is \<^const>\<open>map_of\<close>,
  \<open>m[k] = v\<close> is \<open>mput\<close> and \<open>delete(m, k)\<close> is \<open>mdel\<close>.\<close>

definition mdel :: "'k \<Rightarrow> ('k \<times> 'v) list \<Rightarrow> ('k \<times> 'v) list" where
  "mdel k m = filter (\<lambda>p. fst p \<noteq> k) m"

definition mput :: "'k \<Rightarrow> 'v \<Rightarrow> ('k \<times> 'v) list \<Rightarrow> ('k \<times> 'v) list" where
  "mput k v m = (k, v) # mdel k m"

lemma map_of_mdel [simp]: "map_of (mdel k m) = (map_of m)(k := None)"
  by (induction m) (auto simp: mdel_def fun_eq_iff)

lemma map_of_mput [simp]: "map_of (mput k v m) = (map_of m)(k \<mapsto> v)"
  by (simp add: mput_def fun_eq_iff)

lemma distinct_mdel [simp, intro]: "distinct (map fst m) \<Longrightarrow> distinct (map fst (mdel k m))"
  by (induction m) (auto simp: mdel_def)

lemma set_mdel [simp]: "set (mdel k m) = {p \<in> set m. fst p \<noteq> k}"
  by (auto simp: mdel_def)

lemma distinct_mput [simp, intro]: "distinct (map fst m) \<Longrightarrow> distinct (map fst (mput k v m))"
  by (auto simp: mput_def)

lemma set_mput [simp]: "set (mput k v m) = insert (k, v) {p \<in> set m. fst p \<noteq> k}"
  by (auto simp: mput_def)

section \<open>Transition systems\<close>

text \<open>An invariant that holds at the start and that every step keeps holds along every run.
  The operations are a datatype of the component and \<open>apply_op\<close> runs one of them.\<close>

locale machine =
  fixes apply_op :: "'op \<Rightarrow> 's \<Rightarrow> 's"
    and invar :: "'s \<Rightarrow> bool"
  assumes invar_step: "invar s \<Longrightarrow> invar (apply_op x s)"
begin

lemma invar_run: "invar s \<Longrightarrow> invar (fold apply_op xs s)"
  by (induction xs arbitrary: s) (auto intro: invar_step)

lemma invar_prefix: "invar s \<Longrightarrow> xs = ys @ zs \<Longrightarrow> invar (fold apply_op ys s)"
  by (rule invar_run)

end

lemma find_snoc_new: "\<forall>x\<in>set xs. \<not> P x \<Longrightarrow> P y \<Longrightarrow> find P (xs @ [y]) = Some y"
  by (induction xs) auto

end
