(* ===== verification/Go_Strings.thy ===== *)
theory Go_Strings
  imports Prelude
begin

text \<open>
  The parts of Go's standard library that the text formats of the program rest on: UTF-8 decoding,
  \<open>strings.ToUpper/ToLower/TrimSpace/Split/Join/Cut\<close>, \<open>net/url\<close> query escaping, decimal integers and
  base64. A Go string is a list of bytes, here a list of \<open>char\<close>. The case tables of package
  \<open>unicode\<close> beyond ASCII are data files of the Go distribution; a function on runes stands for them.
\<close>

section \<open>Bytes and runes\<close>

abbreviation byte :: "char \<Rightarrow> nat" where "byte c \<equiv> of_char c"

type_synonym rune = nat

definition RuneError :: rune where "RuneError = 65533"

text \<open>The range of the second byte of a multi-byte sequence, by its first byte.\<close>

definition second_ok :: "nat \<Rightarrow> nat \<Rightarrow> bool" where
  "second_ok b0 b1 \<longleftrightarrow>
    (if b0 = 224 then 160 \<le> b1 \<and> b1 \<le> 191
     else if b0 = 237 then 128 \<le> b1 \<and> b1 \<le> 159
     else if b0 = 240 then 144 \<le> b1 \<and> b1 \<le> 191
     else if b0 = 244 then 128 \<le> b1 \<and> b1 \<le> 143
     else 128 \<le> b1 \<and> b1 \<le> 191)"

definition cont_ok :: "nat \<Rightarrow> bool" where "cont_ok b \<longleftrightarrow> 128 \<le> b \<and> b \<le> 191"

text \<open>\<open>utf8.DecodeRuneInString\<close> on a non-empty string: the rune and its width.\<close>

fun decode_rune :: "string \<Rightarrow> rune \<times> nat" where
  "decode_rune [] = (RuneError, 0)"
| "decode_rune (c0 # s) =
    (let b0 = byte c0 in
     if b0 < 128 then (b0, 1)
     else if 194 \<le> b0 \<and> b0 \<le> 223 then
       (case s of
          c1 # _ \<Rightarrow> if cont_ok (byte c1) then ((b0 - 192) * 64 + (byte c1 - 128), 2) else (RuneError, 1)
        | _ \<Rightarrow> (RuneError, 1))
     else if 224 \<le> b0 \<and> b0 \<le> 239 then
       (case s of
          c1 # c2 # _ \<Rightarrow>
            if second_ok b0 (byte c1) \<and> cont_ok (byte c2)
            then ((b0 - 224) * 4096 + (byte c1 - 128) * 64 + (byte c2 - 128), 3) else (RuneError, 1)
        | _ \<Rightarrow> (RuneError, 1))
     else if 240 \<le> b0 \<and> b0 \<le> 244 then
       (case s of
          c1 # c2 # c3 # _ \<Rightarrow>
            if second_ok b0 (byte c1) \<and> cont_ok (byte c2) \<and> cont_ok (byte c3)
            then ((b0 - 240) * 262144 + (byte c1 - 128) * 4096 + (byte c2 - 128) * 64 + (byte c3 - 128), 4)
            else (RuneError, 1)
        | _ \<Rightarrow> (RuneError, 1))
     else (RuneError, 1))"

definition encode_rune :: "rune \<Rightarrow> string" where
  "encode_rune r0 =
    (let r = (if (55296 \<le> r0 \<and> r0 \<le> 57343) \<or> 1114111 < r0 then RuneError else r0) in
     if r < 128 then [char_of r]
     else if r < 2048 then map char_of [192 + r div 64, 128 + r mod 64]
     else if r < 65536 then map char_of [224 + r div 4096, 128 + r div 64 mod 64, 128 + r mod 64]
     else map char_of [240 + r div 262144, 128 + r div 4096 mod 64, 128 + r div 64 mod 64, 128 + r mod 64])"

lemma decode_rune_width: "s \<noteq> [] \<Longrightarrow> 1 \<le> snd (decode_rune s)"
  by (cases s) (auto simp: Let_def split: list.splits)

lemma decode_rune_width_pos: "decode_rune s = (r, w) \<Longrightarrow> s \<noteq> [] \<Longrightarrow> 0 < w"
  using decode_rune_width [of s] by simp

lemma decode_rune_shrink: "(r, w) = decode_rune s \<Longrightarrow> s \<noteq> [] \<Longrightarrow> length s - w < length s"
  using decode_rune_width_pos [of s r w] by simp

lemma decode_rune_ascii [simp]: "byte c < 128 \<Longrightarrow> decode_rune (c # s) = (byte c, 1)"
  by simp

lemma encode_rune_ascii [simp]: "r < 128 \<Longrightarrow> encode_rune r = [char_of r]"
  by (simp add: encode_rune_def)

function runes :: "string \<Rightarrow> rune list" where
  "runes s = (if s = [] then [] else fst (decode_rune s) # runes (drop (snd (decode_rune s)) s))"
  by pat_completeness auto
termination
  by (relation "measure length") (use decode_rune_width in \<open>auto simp: Suc_le_eq\<close>)

declare runes.simps [simp del]

text \<open>\<open>strings.Map\<close>: invalid bytes come out as an encoded \<open>RuneError\<close>.\<close>

definition str_map :: "(rune \<Rightarrow> rune) \<Rightarrow> string \<Rightarrow> string" where
  "str_map f s = concat (map (\<lambda>r. encode_rune (f r)) (runes s))"

definition ToUpper :: "(rune \<Rightarrow> rune) \<Rightarrow> string \<Rightarrow> string" where
  "ToUpper uni = str_map (\<lambda>r. if r < 128 then (if 97 \<le> r \<and> r \<le> 122 then r - 32 else r) else uni r)"

definition ToLower :: "(rune \<Rightarrow> rune) \<Rightarrow> string \<Rightarrow> string" where
  "ToLower uni = str_map (\<lambda>r. if r < 128 then (if 65 \<le> r \<and> r \<le> 90 then r + 32 else r) else uni r)"

text \<open>\<open>unicode.IsSpace\<close>.\<close>

definition is_space :: "rune \<Rightarrow> bool" where
  "is_space r \<longleftrightarrow> r \<in> {9, 10, 11, 12, 13, 32, 133, 160, 5760, 8232, 8233, 8239, 8287, 12288} \<or> (8192 \<le> r \<and> r \<le> 8202)"

function trim_left :: "string \<Rightarrow> string" where
  "trim_left s =
    (if s = [] then []
     else if is_space (fst (decode_rune s)) then trim_left (drop (snd (decode_rune s)) s) else s)"
  by pat_completeness auto
termination
  by (relation "measure length") (use decode_rune_width in \<open>auto simp: Suc_le_eq\<close>)

declare trim_left.simps [simp del]

text \<open>\<open>utf8.DecodeLastRuneInString\<close>: step back over at most three continuation bytes.\<close>

fun back_to_start :: "nat \<Rightarrow> string \<Rightarrow> nat" where
  "back_to_start 0 r = 0"
| "back_to_start (Suc k) [] = 0"
| "back_to_start (Suc k) (c # cs) = (if cont_ok (byte c) then Suc (back_to_start k cs) else 0)"

definition decode_last_rune :: "string \<Rightarrow> rune \<times> nat" where
  "decode_last_rune s =
    (if s = [] then (RuneError, 0)
     else if byte (last s) < 128 then (byte (last s), 1)
     else
       let n = Suc (Suc (back_to_start 2 (tl (rev s))));
           start = length s - min n (length s);
           (r, w) = decode_rune (drop start s)
       in if start + w = length s then (r, w) else (RuneError, 1))"

function trim_right :: "string \<Rightarrow> string" where
  "trim_right s =
    (if s = [] \<or> snd (decode_last_rune s) = 0 then s
     else if is_space (fst (decode_last_rune s)) then trim_right (take (length s - snd (decode_last_rune s)) s) else s)"
  by pat_completeness auto
termination
  by (relation "measure length") auto

declare trim_right.simps [simp del]

definition TrimSpace :: "string \<Rightarrow> string" where
  "TrimSpace s = trim_right (trim_left s)"

section \<open>Splitting\<close>

definition TrimPrefix :: "string \<Rightarrow> string \<Rightarrow> string" where
  "TrimPrefix p s = (if take (length p) s = p then drop (length p) s else s)"

text \<open>\<open>strings.Split\<close> with a one-byte separator; the result is never empty.\<close>

fun split_on :: "char \<Rightarrow> string \<Rightarrow> string list" where
  "split_on d [] = [[]]"
| "split_on d (c # cs) =
    (if c = d then [] # split_on d cs
     else (c # hd (split_on d cs)) # tl (split_on d cs))"

fun join :: "string \<Rightarrow> string list \<Rightarrow> string" where
  "join sep [] = []"
| "join sep [x] = x"
| "join sep (x # y # xs) = x @ sep @ join sep (y # xs)"

text \<open>\<open>strings.Cut\<close> with a one-byte separator.\<close>

definition cut :: "char \<Rightarrow> string \<Rightarrow> string \<times> string" where
  "cut d s = (takeWhile (\<lambda>c. c \<noteq> d) s, drop 1 (dropWhile (\<lambda>c. c \<noteq> d) s))"

lemma split_on_nonempty [simp]: "split_on d s \<noteq> []"
  by (cases s) auto

lemma split_on_append:
  "d \<notin> set x \<Longrightarrow> split_on d (x @ d # s) = x # split_on d s"
  by (induction x) auto

lemma split_on_none: "d \<notin> set x \<Longrightarrow> split_on d x = [x]"
  by (induction x) auto

lemma split_join:
  "xs \<noteq> [] \<Longrightarrow> (\<forall>x\<in>set xs. d \<notin> set x) \<Longrightarrow> split_on d (join [d] xs) = xs"
  by (induction "[d]" xs rule: join.induct) (auto simp: split_on_none split_on_append)

lemma join_split: "join [d] (split_on d s) = s"
proof (induction s)
  case (Cons c cs)
  obtain y ys where "split_on d cs = y # ys" by (meson neq_Nil_conv split_on_nonempty)
  with Cons show ?case by (cases ys) auto
qed simp

lemma cut_append [simp]: "d \<notin> set x \<Longrightarrow> cut d (x @ d # s) = (x, s)"
  unfolding cut_def by (induction x) auto

lemma cut_none [simp]: "d \<notin> set x \<Longrightarrow> cut d x = (x, [])"
  unfolding cut_def by (induction x) auto

section \<open>ASCII text\<close>

definition ascii :: "string \<Rightarrow> bool" where
  "ascii s \<longleftrightarrow> (\<forall>c\<in>set s. byte c < 128)"

lemma runes_ascii: "ascii s \<Longrightarrow> runes s = map byte s"
proof (induction s)
  case (Cons c cs)
  then show ?case by (subst runes.simps) (simp add: ascii_def)
qed (simp add: runes.simps)

lemma runes_Cons_ascii: "byte c < 128 \<Longrightarrow> runes (c # cs) = byte c # runes cs"
  by (subst runes.simps) simp

lemma str_map_prefix:
  "ascii p \<Longrightarrow> (\<And>c. c \<in> set p \<Longrightarrow> f (byte c) = byte c) \<Longrightarrow> str_map f (p @ s) = p @ str_map f s"
  by (induction p) (auto simp: ascii_def str_map_def runes_Cons_ascii)

lemma str_map_ascii:
  assumes "ascii s" and "\<And>c. c \<in> set s \<Longrightarrow> f (byte c) < 128"
  shows "str_map f s = map (\<lambda>c. char_of (f (byte c))) s"
proof -
  have "concat (map (\<lambda>c. encode_rune (f (byte c))) s) = map (\<lambda>c. char_of (f (byte c))) s"
    using assms(2) by (induction s) auto
  then show ?thesis using runes_ascii [OF assms(1)] by (simp add: str_map_def comp_def)
qed

lemma str_map_id: "ascii s \<Longrightarrow> (\<And>c. c \<in> set s \<Longrightarrow> f (byte c) = byte c) \<Longrightarrow> str_map f s = s"
  by (subst str_map_ascii) (auto simp: ascii_def map_idI)

lemma decode_last_ascii: "ascii s \<Longrightarrow> s \<noteq> [] \<Longrightarrow> decode_last_rune s = (byte (last s), 1)"
  by (simp add: decode_last_rune_def ascii_def)

lemma TrimSpace_id:
  assumes "ascii s" and "s \<noteq> []" and "\<not> is_space (byte (hd s))" and "\<not> is_space (byte (last s))"
  shows "TrimSpace s = s"
proof -
  have "trim_left s = s" using assms(1-3) by (subst trim_left.simps) (cases s; simp add: ascii_def)
  moreover have "trim_right s = s" using assms by (subst trim_right.simps) (simp add: decode_last_ascii)
  ultimately show ?thesis by (simp add: TrimSpace_def)
qed

section \<open>Decimal integers\<close>

definition digit :: "nat \<Rightarrow> char" where "digit n = char_of (48 + n)"

fun fmt_nat :: "nat \<Rightarrow> string" where
  "fmt_nat n = (if n < 10 then [digit n] else fmt_nat (n div 10) @ [digit (n mod 10)])"

declare fmt_nat.simps [simp del]

text \<open>\<open>strconv.FormatInt(i, 10)\<close> and \<open>strconv.ParseInt(s, 10, 64)\<close>.\<close>

definition FormatInt :: "int \<Rightarrow> string" where
  "FormatInt i = (if i < 0 then CHR ''-'' # fmt_nat (nat (- i)) else fmt_nat (nat i))"

definition is_digit :: "char \<Rightarrow> bool" where "is_digit c \<longleftrightarrow> 48 \<le> byte c \<and> byte c \<le> 57"

definition digits_value :: "string \<Rightarrow> nat" where
  "digits_value s = foldl (\<lambda>acc c. acc * 10 + (byte c - 48)) 0 s"

definition ParseInt :: "string \<Rightarrow> int option" where
  "ParseInt s =
    (let neg = (s \<noteq> [] \<and> hd s = CHR ''-'');
         ds = (if s \<noteq> [] \<and> hd s \<in> {CHR ''-'', CHR ''+''} then tl s else s)
     in if ds = [] \<or> \<not> list_all is_digit ds then None
        else if \<not> neg \<and> digits_value ds \<ge> 2 ^ 63 then None
        else if neg \<and> digits_value ds > 2 ^ 63 then None
        else Some (if neg then - int (digits_value ds) else int (digits_value ds)))"

lemma digit_range: "n < 10 \<Longrightarrow> is_digit (digit n) \<and> byte (digit n) - 48 = n"
  by (simp add: is_digit_def digit_def)

lemma fmt_nat_ok: "fmt_nat n \<noteq> [] \<and> list_all is_digit (fmt_nat n) \<and> digits_value (fmt_nat n) = n"
proof (induction n rule: fmt_nat.induct)
  case (1 n)
  show ?case
  proof (cases "n < 10")
    case True
    then show ?thesis by (subst (1 2 3) fmt_nat.simps) (use digit_range in \<open>simp add: digits_value_def\<close>)
  next
    case False
    with 1 digit_range [of "n mod 10"] show ?thesis
      by (subst (1 2 3) fmt_nat.simps) (simp add: digits_value_def)
  qed
qed

lemma digit_not_sign: "is_digit c \<Longrightarrow> c \<noteq> CHR ''-'' \<and> c \<noteq> CHR ''+'' \<and> c \<noteq> CHR ''%'' \<and> byte c < 128"
  by (auto simp: is_digit_def)

lemma ParseInt_FormatInt:
  assumes "- (2 ^ 63) \<le> i" and "i < 2 ^ 63"
  shows "ParseInt (FormatInt i) = Some i"
proof (cases "i < 0")
  case True
  with assms fmt_nat_ok [of "nat (- i)"] show ?thesis
    by (simp add: ParseInt_def FormatInt_def Let_def nat_le_iff)
next
  case False
  have "hd (fmt_nat (nat i)) \<noteq> CHR ''-'' \<and> hd (fmt_nat (nat i)) \<noteq> CHR ''+''"
    using fmt_nat_ok [of "nat i"] digit_not_sign by (cases "fmt_nat (nat i)") auto
  with False assms fmt_nat_ok [of "nat i"] show ?thesis
    by (simp add: ParseInt_def FormatInt_def Let_def)
qed

lemma FormatInt_nonempty [simp]: "FormatInt i \<noteq> []"
  using fmt_nat_ok by (simp add: FormatInt_def)

end
