(* ===== verification/Go_Encoding.thy ===== *)
theory Go_Encoding
  imports Go_Strings
begin

text \<open>
  The standard encodings the program uses: \<open>encoding/base64\<close> (\<open>StdEncoding\<close> with padding and
  \<open>RawURLEncoding\<close> without), \<open>encoding/hex\<close>, and the query strings of \<open>net/url\<close>. Decoding follows
  Go: base64 skips line breaks and ignores trailing bits, \<open>ParseQuery\<close> keeps going after a bad
  pair and reports the first error at the end.
\<close>

section \<open>Base64\<close>

text \<open>\<open>True\<close> selects the URL alphabet.\<close>

definition b64_char :: "bool \<Rightarrow> nat \<Rightarrow> char" where
  "b64_char url i =
    (if i < 26 then char_of (65 + i) else if i < 52 then char_of (71 + i) else if i < 62 then char_of (i - 4)
     else if i = 62 then (if url then CHR ''-'' else CHR ''+'') else (if url then CHR ''_'' else CHR ''/''))"

definition b64_val :: "bool \<Rightarrow> char \<Rightarrow> nat option" where
  "b64_val url c =
    (let b = byte c in
     if 65 \<le> b \<and> b \<le> 90 then Some (b - 65) else if 97 \<le> b \<and> b \<le> 122 then Some (b - 71)
     else if 48 \<le> b \<and> b \<le> 57 then Some (b + 4)
     else if c = (if url then CHR ''-'' else CHR ''+'') then Some 62
     else if c = (if url then CHR ''_'' else CHR ''/'') then Some 63 else None)"

fun b64_encode :: "bool \<Rightarrow> string \<Rightarrow> string" where
  "b64_encode url [] = []"
| "b64_encode url [a] =
    (let v = byte a * 65536 in
     [b64_char url (v div 262144), b64_char url (v div 4096 mod 64)] @ (if url then [] else ''==''))"
| "b64_encode url [a, b] =
    (let v = byte a * 65536 + byte b * 256 in
     [b64_char url (v div 262144), b64_char url (v div 4096 mod 64), b64_char url (v div 64 mod 64)]
     @ (if url then [] else ''=''))"
| "b64_encode url (a # b # c # s) =
    (let v = byte a * 65536 + byte b * 256 + byte c in
     [b64_char url (v div 262144), b64_char url (v div 4096 mod 64), b64_char url (v div 64 mod 64), b64_char url (v mod 64)]
     @ b64_encode url s)"

definition sextets :: "nat \<Rightarrow> nat \<Rightarrow> nat \<Rightarrow> nat \<Rightarrow> nat" where
  "sextets a b c d = a * 262144 + b * 4096 + c * 64 + d"

definition octets :: "nat \<Rightarrow> string" where
  "octets v = [char_of (v div 65536), char_of (v div 256 mod 256), char_of (v mod 256)]"

text \<open>The quanta of a text without line breaks. Without padding (the URL alphabet) the last one may
  be short; with padding it is filled up with \<open>=\<close>.\<close>

fun b64_quanta :: "bool \<Rightarrow> string \<Rightarrow> string option" where
  "b64_quanta url [] = Some []"
| "b64_quanta url [c0] = None"
| "b64_quanta url [c0, c1] =
    (if \<not> url then None
     else case (b64_val url c0, b64_val url c1) of
       (Some a, Some b) \<Rightarrow> Some (take 1 (octets (sextets a b 0 0))) | _ \<Rightarrow> None)"
| "b64_quanta url [c0, c1, c2] =
    (if \<not> url then None
     else case (b64_val url c0, b64_val url c1, b64_val url c2) of
       (Some a, Some b, Some c) \<Rightarrow> Some (take 2 (octets (sextets a b c 0))) | _ \<Rightarrow> None)"
| "b64_quanta url (c0 # c1 # c2 # c3 # s) =
    (case (b64_val url c0, b64_val url c1) of
       (Some a, Some b) \<Rightarrow>
         if \<not> url \<and> c2 = CHR ''='' then
           (if c3 = CHR ''='' \<and> s = [] then Some (take 1 (octets (sextets a b 0 0))) else None)
         else (case b64_val url c2 of
           None \<Rightarrow> None
         | Some c \<Rightarrow>
             if \<not> url \<and> c3 = CHR ''='' then (if s = [] then Some (take 2 (octets (sextets a b c 0))) else None)
             else (case (b64_val url c3, b64_quanta url s) of
                (Some d, Some rest) \<Rightarrow> Some (octets (sextets a b c d) @ rest) | _ \<Rightarrow> None))
     | _ \<Rightarrow> None)"

definition b64_decode :: "bool \<Rightarrow> string \<Rightarrow> string option" where
  "b64_decode url s = b64_quanta url (filter (\<lambda>c. c \<noteq> CHR 0x0A \<and> c \<noteq> CHR 0x0D) s)"

abbreviation std_encode :: "string \<Rightarrow> string" where "std_encode \<equiv> b64_encode False"
abbreviation std_decode :: "string \<Rightarrow> string option" where "std_decode \<equiv> b64_decode False"
abbreviation rawurl_encode :: "string \<Rightarrow> string" where "rawurl_encode \<equiv> b64_encode True"
abbreviation rawurl_decode :: "string \<Rightarrow> string option" where "rawurl_decode \<equiv> b64_decode True"

lemma b64_val_char [simp]: "i < 64 \<Longrightarrow> b64_val url (b64_char url i) = Some i"
  by (auto simp: b64_val_def b64_char_def Let_def)

lemma b64_char_plain:
  "b64_char url i \<noteq> CHR ''='' \<and> b64_char url i \<noteq> CHR 0x0A \<and> b64_char url i \<noteq> CHR 0x0D"
proof -
  have "byte (b64_char url i) \<notin> {61, 10, 13}" by (auto simp: b64_char_def)
  then show ?thesis by force
qed

lemma sextets_split:
  "sextets (v div 262144) (v div 4096 mod 64) (v div 64 mod 64) (v mod 64) = v"
proof -
  have "v div 4096 = v div 64 div 64" "v div 262144 = v div 64 div 64 div 64" by (simp_all add: div_mult2_eq)
  moreover have "v = q * 64 + r \<Longrightarrow> q = q' * 64 + r' \<Longrightarrow> q' = q'' * 64 + r'' \<Longrightarrow> sextets q'' r'' r' r = v" for q r q' r' q'' r''
    by (simp add: sextets_def)
  ultimately show ?thesis by (metis div_mult_mod_eq)
qed

lemma byte_less [simp]: "byte c < 256"
  using of_char_mod_256 [of c, where 'a = nat] by (metis mod_less_divisor zero_less_numeral)

lemma byte_div16 [simp]: "byte c div 16 < 16"
  using byte_less [of c] by linarith

lemma byte_div4 [simp]: "byte c div 4 < 64"
  using byte_less [of c] by linarith

lemma octets_join: "octets (byte a * 65536 + byte b * 256 + byte c) = [a, b, c]"
proof -
  let ?v = "byte a * 65536 + byte b * 256 + byte c"
  have "byte b \<le> 255" "byte c \<le> 255" using byte_less [of b] byte_less [of c] by linarith+
  then have "byte b * 256 + byte c < 65536" by linarith
  then have "?v div 65536 = byte a" by (subst div_nat_eqI) auto
  moreover have "?v div 256 = byte a * 256 + byte b" using byte_less [of c] by (subst div_nat_eqI) auto
  moreover have "?v = (byte a * 256 + byte b) * 256 + byte c" by simp
  then have "?v mod 256 = byte c" using byte_less [of c] by (metis mod_less mod_mult_self3)
  ultimately show ?thesis by (simp add: octets_def)
qed

lemma sextet_bounds:
  fixes v :: nat
  assumes "v < 16777216"
  shows "v div 262144 < 64" "v div 4096 mod 64 < 64" "v div 64 mod 64 < 64" "v mod 64 < 64"
  using assms by auto

lemma triple_bound: "byte a * 65536 + byte b * 256 + byte c < 16777216"
  using byte_less [of a] byte_less [of b] byte_less [of c] by linarith

lemma b64_encode_plain:
  "c \<in> set (b64_encode url s) \<Longrightarrow> c \<noteq> CHR 0x0A \<and> c \<noteq> CHR 0x0D"
  by (induction url s rule: b64_encode.induct) (use b64_char_plain in \<open>auto simp: Let_def split: if_splits\<close>)

lemma quanta_encode: "b64_quanta url (b64_encode url s) = Some s"
proof (induction url s rule: b64_encode.induct)
  case (2 url a)
  note bd = sextet_bounds [OF triple_bound [of a "CHR 0x00" "CHR 0x00"]]
  have "sextets (byte a * 65536 div 262144) (byte a * 65536 div 4096 mod 64) 0 0 = byte a * 65536"
    using sextets_split [of "byte a * 65536"] by simp
  then show ?case using bd b64_char_plain octets_join [of a "CHR 0x00" "CHR 0x00"] by (simp add: Let_def)
next
  case (3 url a b)
  note bd = sextet_bounds [OF triple_bound [of a b "CHR 0x00"]]
  let ?v = "byte a * 65536 + byte b * 256"
  have "?v = 64 * (byte a * 1024 + byte b * 4)" by simp
  then have "?v mod 64 = 0" by (metis mod_mult_self1_is_0)
  then have "sextets (?v div 262144) (?v div 4096 mod 64) (?v div 64 mod 64) 0 = ?v"
    using sextets_split [of ?v] by simp
  then show ?case using bd b64_char_plain octets_join [of a b "CHR 0x00"] by (simp add: Let_def)
next
  case (4 url a b c s)
  note bd = sextet_bounds [OF triple_bound [of a b c]]
  show ?case using 4 bd b64_char_plain octets_join [of a b c] sextets_split by (simp add: Let_def)
qed simp

lemma b64_roundtrip [simp]: "b64_decode url (b64_encode url s) = Some s"
proof -
  have "filter (\<lambda>c. c \<noteq> CHR 0x0A \<and> c \<noteq> CHR 0x0D) (b64_encode url s) = b64_encode url s"
    using b64_encode_plain by (intro filter_True) auto
  then show ?thesis by (simp add: b64_decode_def quanta_encode)
qed

lemma b64_encode_inj: "b64_encode url s = b64_encode url s' \<Longrightarrow> s = s'"
  by (metis b64_roundtrip option.inject)

lemma b64_encode_empty [simp]: "b64_encode url s = [] \<longleftrightarrow> s = []"
  by (cases "(url, s)" rule: b64_encode.cases) (auto simp: Let_def)

section \<open>Query strings\<close>

definition unreserved :: "char \<Rightarrow> bool" where
  "unreserved c \<longleftrightarrow>
    (let b = byte c in (97 \<le> b \<and> b \<le> 122) \<or> (65 \<le> b \<and> b \<le> 90) \<or> (48 \<le> b \<and> b \<le> 57) \<or> c \<in> set ''-_.~'')"

definition hex_upper :: "nat \<Rightarrow> char" where
  "hex_upper n = (if n < 10 then char_of (48 + n) else char_of (55 + n))"

definition unhex :: "char \<Rightarrow> nat option" where
  "unhex c =
    (let b = byte c in
     if 48 \<le> b \<and> b \<le> 57 then Some (b - 48)
     else if 97 \<le> b \<and> b \<le> 102 then Some (b - 87)
     else if 65 \<le> b \<and> b \<le> 70 then Some (b - 55) else None)"

definition escape_char :: "char \<Rightarrow> string" where
  "escape_char c =
    (if c = CHR '' '' then ''+'' else if unreserved c then [c]
     else [CHR ''%'', hex_upper (byte c div 16), hex_upper (byte c mod 16)])"

definition QueryEscape :: "string \<Rightarrow> string" where
  "QueryEscape s = concat (map escape_char s)"

fun QueryUnescape :: "string \<Rightarrow> string option" where
  "QueryUnescape [] = Some []"
| "QueryUnescape (c # s) =
    (if c = CHR ''%'' then
       (case s of
          h # l # rest \<Rightarrow>
            (case (unhex h, unhex l, QueryUnescape rest) of
               (Some x, Some y, Some r) \<Rightarrow> Some (char_of (x * 16 + y) # r)
             | _ \<Rightarrow> None)
        | _ \<Rightarrow> None)
     else map_option (Cons (if c = CHR ''+'' then CHR '' '' else c)) (QueryUnescape s))"

text \<open>\<open>url.ParseQuery\<close>: the values in order, and whether any pair was refused.\<close>

definition parse_pair :: "string \<Rightarrow> (string \<times> string) list \<times> bool" where
  "parse_pair piece =
    (if CHR '';'' \<in> set piece then ([], True)
     else if piece = [] then ([], False)
     else let (k, v) = cut (CHR ''='') piece in
       case (QueryUnescape k, QueryUnescape v) of
         (Some k', Some v') \<Rightarrow> ([(k', v')], False)
       | _ \<Rightarrow> ([], True))"

definition ParseQuery :: "string \<Rightarrow> (string \<times> string) list option" where
  "ParseQuery q =
    (let ps = map parse_pair (split_on (CHR ''&'') q)
     in if list_ex snd ps then None else Some (concat (map fst ps)))"

text \<open>\<open>Values.Get\<close>: the first value, or the empty string. \<open>Values.Encode\<close> of one value per key, the
  keys given in order.\<close>

definition query_get :: "(string \<times> string) list \<Rightarrow> string \<Rightarrow> string" where
  "query_get vs k = (case map_of vs k of None \<Rightarrow> [] | Some v \<Rightarrow> v)"

definition encode_values :: "(string \<times> string) list \<Rightarrow> string" where
  "encode_values vs = join ''&'' (map (\<lambda>(k, v). QueryEscape k @ ''='' @ QueryEscape v) vs)"

lemma unhex_upper [simp]: "n < 16 \<Longrightarrow> unhex (hex_upper n) = Some n"
  by (auto simp: unhex_def hex_upper_def Let_def)

lemma QueryUnescape_escape_char: "QueryUnescape (escape_char c @ s) = map_option (Cons c) (QueryUnescape s)"
proof -
  have "(char_of :: nat \<Rightarrow> char) (byte c div 16 * 16 + byte c mod 16) = c"
    unfolding div_mult_mod_eq by simp
  moreover have "unhex (hex_upper (byte c div 16)) = Some (byte c div 16)"
    "unhex (hex_upper (byte c mod 16)) = Some (byte c mod 16)"
    by simp_all
  ultimately show ?thesis
    by (cases "c = CHR '' ''"; cases "c = CHR ''+''"; cases "c = CHR ''%''")
      (auto simp: escape_char_def unreserved_def split: option.splits)
qed

lemma QueryUnescape_QueryEscape [simp]: "QueryUnescape (QueryEscape s) = Some s"
  by (induction s) (auto simp: QueryEscape_def QueryUnescape_escape_char)

lemma hex_upper_alnum: "n < 16 \<Longrightarrow> hex_upper n \<notin> set ''&=;''"
proof -
  have "byte (hex_upper n) \<notin> {38, 61, 59}" if "n < 16" using that by (auto simp: hex_upper_def)
  then show "n < 16 \<Longrightarrow> ?thesis" by force
qed

lemma QueryEscape_clean: "set (QueryEscape s) \<inter> set ''&=;'' = {}"
proof -
  have "c \<notin> set ''&=;''" if "c \<in> set (escape_char d)" for c d
    using that hex_upper_alnum [of "byte d div 16"] hex_upper_alnum [of "byte d mod 16"] byte_less [of d]
    by (auto simp: escape_char_def unreserved_def less_mult_imp_div_less split: if_splits)
  then show ?thesis by (fastforce simp: QueryEscape_def)
qed

lemma ParseQuery_encode_values:
  assumes "vs \<noteq> []"
  shows "ParseQuery (encode_values vs) = Some vs"
proof -
  let ?f = "\<lambda>(k, v). QueryEscape k @ ''='' @ QueryEscape v"
  have pair: "parse_pair (?f p) = ([p], False)" for p
    using QueryEscape_clean [of "fst p"] QueryEscape_clean [of "snd p"]
    by (cases p) (auto simp: parse_pair_def Let_def)
  have "CHR ''&'' \<notin> set (?f p)" for p
    using QueryEscape_clean [of "fst p"] QueryEscape_clean [of "snd p"] by (cases p) auto
  then have "split_on (CHR ''&'') (encode_values vs) = map ?f vs"
    unfolding encode_values_def using assms by (intro split_join) auto
  then show ?thesis
    using pair by (auto simp: ParseQuery_def Let_def comp_def list_ex_iff)
qed

section \<open>Hexadecimal\<close>

definition hex_lower :: "nat \<Rightarrow> char" where
  "hex_lower n = (if n < 10 then char_of (48 + n) else char_of (87 + n))"

definition hex_encode :: "string \<Rightarrow> string" where
  "hex_encode s = concat (map (\<lambda>c. [hex_lower (byte c div 16), hex_lower (byte c mod 16)]) s)"

end
