(* ===== verification/Sealed.thy ===== *)
theory Sealed
  imports Go_Encoding
begin

text \<open>
  The blob format that invite records and discovery records share
  (\<open>signature(64) || nonce(24) || ciphertext\<close>, built by \<open>Encode\<close> and taken apart by \<open>Decode\<close> in
  \<open>internal/invite/record.go\<close> and \<open>internal/discovery/record.go\<close>).

  The cryptography is not part of the repository. \<open>keys\<close> holds what the code asks of libp2p's keys:
  signing, verifying, (un)marshalling a public key, the peer ID of a public key and its text form.
  \<open>aead\<close> holds XChaCha20-Poly1305 over marshalled records: sealing takes the record that is
  marshalled, and opening gives \<open>None\<close> when authentication fails and otherwise the record the
  plaintext unmarshals to, if any. Hypotheses about them are stated where they are used.
\<close>

record ('priv, 'pub) keys =
  k_sign :: "'priv \<Rightarrow> string \<Rightarrow> string option"
  k_verify :: "'pub \<Rightarrow> string \<Rightarrow> string \<Rightarrow> bool"
  k_public :: "'priv \<Rightarrow> 'pub"
  k_marshalPub :: "'pub \<Rightarrow> string option"
  k_unmarshalPub :: "string \<Rightarrow> 'pub option"
  k_idFromPub :: "'pub \<Rightarrow> peer_id option"
  k_idStr :: "peer_id \<Rightarrow> string"

record 'r aead =
  a_seal :: "string \<Rightarrow> string \<Rightarrow> 'r \<Rightarrow> string"
  a_open :: "string \<Rightarrow> string \<Rightarrow> string \<Rightarrow> 'r option option"

datatype record_error =
    ErrMalformedRecord
  | ErrSignatureInvalid
  | ErrUnsupportedVersion int
  | ErrExpired
  | ErrStale
  | ErrConstructAEAD
  | ErrNonce
  | ErrSigning
  | ErrSignatureLength nat

definition signatureLen :: nat where "signatureLen = 64"
definition nonceLen :: nat where "nonceLen = 24"
definition minBlobLen :: nat where "minBlobLen = signatureLen + nonceLen + 16"

text \<open>\<open>nonce\<close> is what \<open>rand.Read\<close> delivers, \<open>None\<close> when it fails.\<close>

definition sealed_encode ::
    "('priv, 'pub) keys \<Rightarrow> 'r aead \<Rightarrow> 'r \<Rightarrow> string \<Rightarrow> 'priv \<Rightarrow> string option \<Rightarrow> record_error + string" where
  "sealed_encode K A r encKey signer nonce =
    (if length encKey \<noteq> 32 then Inl ErrConstructAEAD
     else case nonce of
       None \<Rightarrow> Inl ErrNonce
     | Some n \<Rightarrow>
         let signed = n @ a_seal A encKey n r in
         (case k_sign K signer signed of
            None \<Rightarrow> Inl ErrSigning
          | Some sig \<Rightarrow>
              if length sig \<noteq> signatureLen then Inl (ErrSignatureLength (length sig)) else Inr (sig @ signed)))"

definition sealed_open :: "'r aead \<Rightarrow> string \<Rightarrow> string \<Rightarrow> record_error + 'r" where
  "sealed_open A blob encKey =
    (let signed = drop signatureLen blob; nonce = take nonceLen signed; ct = drop nonceLen signed in
     if length encKey \<noteq> 32 then Inl ErrConstructAEAD
     else case a_open A encKey nonce ct of
       None \<Rightarrow> Inl ErrSignatureInvalid
     | Some None \<Rightarrow> Inl ErrMalformedRecord
     | Some (Some r) \<Rightarrow> Inr r)"

definition sealed_decode ::
    "('priv, 'pub) keys \<Rightarrow> 'r aead \<Rightarrow> string \<Rightarrow> string \<Rightarrow> 'pub \<Rightarrow> record_error + 'r" where
  "sealed_decode K A blob encKey signerPub =
    (if length blob < minBlobLen then Inl ErrMalformedRecord
     else if \<not> k_verify K signerPub (drop signatureLen blob) (take signatureLen blob) then Inl ErrSignatureInvalid
     else sealed_open A blob encKey)"

section \<open>What the code relies on\<close>

text \<open>Ed25519 signatures are 64 bytes and verify under the signer's public key; public keys survive
  marshalling; the ciphertext of a record is at least as long as its tag, and opening it gives the
  record back.\<close>

definition keys_ok :: "('priv, 'pub) keys \<Rightarrow> bool" where
  "keys_ok K \<longleftrightarrow>
    (\<forall>priv m s. k_sign K priv m = Some s \<longrightarrow> length s = signatureLen \<and> k_verify K (k_public K priv) m s) \<and>
    (\<forall>pub b. k_marshalPub K pub = Some b \<longrightarrow> k_unmarshalPub K b = Some pub)"

definition aead_ok :: "'r aead \<Rightarrow> 'r \<Rightarrow> bool" where
  "aead_ok A r \<longleftrightarrow> (\<forall>k n. 16 \<le> length (a_seal A k n r) \<and> a_open A k n (a_seal A k n r) = Some (Some r))"

section \<open>Lemmas\<close>

lemma sealed_encode_length:
  assumes "sealed_encode K A r k priv (Some n) = Inr blob" and "aead_ok A r" and "length n = nonceLen"
  shows "minBlobLen \<le> length blob"
proof -
  have "16 \<le> length (a_seal A k n r)" using assms(2) by (simp add: aead_ok_def)
  then show ?thesis
    using assms(1,3) by (auto simp: sealed_encode_def minBlobLen_def Let_def split: if_splits option.splits)
qed

text \<open>Decoding what the owner of the key encoded gives the record back.\<close>

lemma sealed_roundtrip:
  assumes "keys_ok K" and "aead_ok A r" and "length n = nonceLen" and "sealed_encode K A r k priv (Some n) = Inr blob"
  shows "sealed_decode K A blob k (k_public K priv) = Inr r" "sealed_open A blob k = Inr r"
proof -
  obtain sig where s: "k_sign K priv (n @ a_seal A k n r) = Some sig" "length sig = signatureLen"
    "blob = sig @ n @ a_seal A k n r" "length k = 32"
    using assms(4) by (auto simp: sealed_encode_def Let_def split: if_splits option.splits)
  show op: "sealed_open A blob k = Inr r"
    using s assms(2,3) by (simp add: sealed_open_def aead_ok_def Let_def)
  show "sealed_decode K A blob k (k_public K priv) = Inr r"
    using op s assms(1) sealed_encode_length [OF assms(4,2,3)] by (simp add: sealed_decode_def keys_ok_def)
qed

lemma sealed_decode_authentic:
  "sealed_decode K A blob k pub = Inr r \<Longrightarrow>
     k_verify K pub (drop signatureLen blob) (take signatureLen blob) \<and> sealed_open A blob k = Inr r
     \<and> minBlobLen \<le> length blob"
  by (auto simp: sealed_decode_def split: if_splits)

end
