(* ===== verification/Iox.thy ===== *)
theory Iox
  imports Prelude
begin

text \<open>
  \<open>internal/iox/atomicfile.go\<close>: writing a file by way of a temporary file and a rename.

  The file system is a map from paths to contents. The stores of the program write a value
  they marshal to JSON, so a complete file is \<open>Data v\<close> for the marshalled value \<open>v\<close>;
  \<open>Partial\<close> is a file that does not hold all the bytes (just created, or a write that failed
  half way) and that no unmarshaller accepts. Each system call may fail: an \<open>io_env\<close> says
  which ones do in one invocation, and which name \<open>os.CreateTemp\<close> picks.
\<close>

datatype 'c content = Data 'c | Partial

type_synonym 'c fs = "string \<rightharpoonup> 'c content"

record io_env =
  mkdir_ok :: bool
  temp_name :: "string option"
  chmod_ok :: bool
  write_ok :: bool
  close_ok :: bool
  rename_ok :: bool

datatype io_error = ErrMkdir | ErrCreateTemp | ErrChmod | ErrWrite | ErrClose | ErrRename

text \<open>The deferred \<open>os.Remove(tmpName)\<close> runs on every path that created the temporary file;
  after a successful rename that name no longer exists.\<close>

definition AtomicWriteFile ::
    "string \<Rightarrow> 'c \<Rightarrow> io_env \<Rightarrow> 'c fs \<Rightarrow> (io_error + unit) \<times> 'c fs" where
  "AtomicWriteFile path data env fs =
    (if \<not> mkdir_ok env then (Inl ErrMkdir, fs)
     else case temp_name env of
       None \<Rightarrow> (Inl ErrCreateTemp, fs)
     | Some tmp \<Rightarrow>
         let created = fs(tmp \<mapsto> Partial); cleanup = (\<lambda>f. f(tmp := None)) in
         if \<not> chmod_ok env then (Inl ErrChmod, cleanup created)
         else if \<not> write_ok env then (Inl ErrWrite, cleanup created)
         else let written = created(tmp \<mapsto> Data data) in
           if \<not> close_ok env then (Inl ErrClose, cleanup written)
           else if \<not> rename_ok env then (Inl ErrRename, cleanup written)
           else let renamed = (written(tmp := None))(path \<mapsto> Data data) in
             (Inr (), if tmp = path then renamed else cleanup renamed))"

text \<open>\<open>os.CreateTemp\<close> opens with \<open>O_EXCL\<close>: the name it picks was not in use. The pattern
  \<open>.tmp-*\<close> never names one of the program's own files.\<close>

definition fresh_temp :: "string \<Rightarrow> io_env \<Rightarrow> 'c fs \<Rightarrow> bool" where
  "fresh_temp path env fs \<longleftrightarrow>
     (case temp_name env of None \<Rightarrow> True | Some tmp \<Rightarrow> tmp \<noteq> path \<and> fs tmp = None)"

definition io_success :: "io_env \<Rightarrow> bool" where
  "io_success env \<longleftrightarrow> mkdir_ok env \<and> temp_name env \<noteq> None \<and> chmod_ok env \<and> write_ok env
     \<and> close_ok env \<and> rename_ok env"

lemma AtomicWriteFile_ok:
  assumes "fresh_temp path env fs" and "io_success env"
  shows "AtomicWriteFile path data env fs = (Inr (), fs(path \<mapsto> Data data))"
  using assms
  by (auto simp: AtomicWriteFile_def fresh_temp_def io_success_def Let_def fun_eq_iff
      split: option.splits)

lemma AtomicWriteFile_fail:
  assumes "fresh_temp path env fs" and "\<not> io_success env"
  shows "\<exists>e. AtomicWriteFile path data env fs = (Inl e, fs)"
  using assms
  by (auto simp: AtomicWriteFile_def fresh_temp_def io_success_def Let_def fun_eq_iff
      split: option.splits)

lemma AtomicWriteFile_cases:
  assumes "fresh_temp path env fs"
  obtains "io_success env" "AtomicWriteFile path data env fs = (Inr (), fs(path \<mapsto> Data data))"
  | e where "\<not> io_success env" "AtomicWriteFile path data env fs = (Inl e, fs)"
  using AtomicWriteFile_ok [OF assms] AtomicWriteFile_fail [OF assms] by blast

end
