(* ===== verification/Disk_Mirror.thy ===== *)
theory Disk_Mirror
  imports Iox
begin

text \<open>
  The pattern of the invite store and the peer cache: a map in memory is the truth, every change
  writes a snapshot of it to a file, write errors are ignored, and opening the file rebuilds the
  map. The interface asks that a successful flush writes a file from which the same map is
  rebuilt, and that a failed one leaves the file system alone; its lemmas say what a restart
  recovers after any history of flushes.
\<close>

locale disk_mirror =
  fixes file_of :: "'s \<Rightarrow> string"
    and mem :: "'s \<Rightarrow> 'k \<Rightarrow> 'v option"
    and flush :: "io_env \<Rightarrow> 's \<Rightarrow> 'c fs \<Rightarrow> 'c fs"
    and reopen :: "string \<Rightarrow> 'c fs \<Rightarrow> 's"
    and wf :: "'s \<Rightarrow> bool"
  assumes flush_success: "wf s \<Longrightarrow> fresh_temp (file_of s) env fs \<Longrightarrow> io_success env \<Longrightarrow>
      \<exists>c. flush env s fs = fs(file_of s \<mapsto> c)
        \<and> (\<forall>fs'. fs' (file_of s) = Some c \<longrightarrow> mem (reopen (file_of s) fs') = mem s)"
    and flush_failure: "fresh_temp (file_of s) env fs \<Longrightarrow> \<not> io_success env \<Longrightarrow> flush env s fs = fs"
begin

lemma restart_after_success:
  "wf s \<Longrightarrow> fresh_temp (file_of s) env fs \<Longrightarrow> io_success env \<Longrightarrow>
     mem (reopen (file_of s) (flush env s fs)) = mem s"
  using flush_success by fastforce

lemma flush_frame:
  assumes "wf s" and "fresh_temp (file_of s) env fs" and "q \<noteq> file_of s"
  shows "flush env s fs q = fs q"
  using assms flush_success [OF assms(1,2)] flush_failure [OF assms(2)] by (cases "io_success env") auto

text \<open>After any history of states and flushes of one file, a restart recovers the memory of the
  last flush that succeeded, or what was on disk before if none did.\<close>

lemma restart_after_history:
  assumes "\<forall>(env, s)\<in>set hist. wf s \<and> file_of s = p \<and> fresh_temp p env fs"
  shows "mem (reopen p (fold (\<lambda>(env, s). flush env s) hist fs)) =
    (let good = filter (\<lambda>(env, s). io_success env) hist
     in if good = [] then mem (reopen p fs) else mem (snd (last good)))"
  using assms
proof (induction hist arbitrary: fs)
  case (Cons x hist)
  obtain env s where x: "x = (env, s)" by fastforce
  with Cons.prems have s: "wf s" "file_of s = p" "fresh_temp p env fs" by auto
  have "fresh_temp p env' (flush env s fs)" if "(env', s') \<in> set hist" for env' s'
  proof -
    have "fresh_temp p env' fs" using Cons.prems that by fastforce
    then show ?thesis using flush_frame [of s env fs] s by (auto simp: fresh_temp_def split: option.splits)
  qed
  then have IH: "mem (reopen p (fold (\<lambda>(env, s). flush env s) hist (flush env s fs))) =
    (let good = filter (\<lambda>(env, s). io_success env) hist
     in if good = [] then mem (reopen p (flush env s fs)) else mem (snd (last good)))"
    using Cons.prems by (intro Cons.IH) fastforce
  have "mem (reopen p (flush env s fs)) = (if io_success env then mem s else mem (reopen p fs))"
    using restart_after_success [of s env fs] flush_failure [of s env fs] s by auto
  with IH x show ?case by (simp add: Let_def)
qed simp

end

end
