(* ===== verification/Discovery_Cache.thy ===== *)
theory Discovery_Cache
  imports Disk_Mirror Go_Encoding
begin

text \<open>
  \<open>internal/discovery/cache.go\<close>: the disk-backed cache of peer addresses. On disk the keys are
  base64 texts of the peer IDs; a key that does not decode is skipped when the file is loaded.
\<close>

record CacheEntry =
  ce_Addresses :: "string list"
  ce_FetchedAt :: time

record Cache =
  ca_path :: string
  ca_entries :: "(peer_id \<times> CacheEntry) list"

record cacheFile =
  cf_Version :: int
  cf_Entries :: "(string \<times> CacheEntry) list"

type_synonym cache_fs = "cacheFile fs"

definition cacheVersion :: int where "cacheVersion = 1"

definition cache_load :: "(string \<times> CacheEntry) list \<Rightarrow> (peer_id \<times> CacheEntry) list" where
  "cache_load es =
    fold (\<lambda>(k, e) m. case std_decode k of None \<Rightarrow> m | Some raw \<Rightarrow> mput raw e m) es []"

text \<open>\<open>readable\<close> is false when reading fails for another reason than a missing file.\<close>

definition OpenCache :: "string \<Rightarrow> bool \<Rightarrow> cache_fs \<Rightarrow> Cache option" where
  "OpenCache path readable fs =
    (if \<not> readable then None
     else case fs path of
       None \<Rightarrow> Some \<lparr>ca_path = path, ca_entries = []\<rparr>
     | Some Partial \<Rightarrow> Some \<lparr>ca_path = path, ca_entries = []\<rparr>
     | Some (Data f) \<Rightarrow>
         if cf_Version f \<noteq> cacheVersion then Some \<lparr>ca_path = path, ca_entries = []\<rparr>
         else Some \<lparr>ca_path = path, ca_entries = cache_load (cf_Entries f)\<rparr>)"

definition cache_Get :: "peer_id \<Rightarrow> Cache \<Rightarrow> CacheEntry option" where
  "cache_Get p c = map_of (ca_entries c) p"

definition cache_flush :: "io_env \<Rightarrow> Cache \<Rightarrow> cache_fs \<Rightarrow> cache_fs" where
  "cache_flush env c fs =
    snd (AtomicWriteFile (ca_path c)
      \<lparr>cf_Version = cacheVersion, cf_Entries = map (\<lambda>(k, e). (std_encode k, e)) (ca_entries c)\<rparr> env fs)"

definition cache_Set ::
    "peer_id \<Rightarrow> string list \<Rightarrow> time \<Rightarrow> io_env \<Rightarrow> Cache \<times> cache_fs \<Rightarrow> Cache \<times> cache_fs" where
  "cache_Set p addrs now env = (\<lambda>(c, fs).
    let c' = c\<lparr>ca_entries := mput p \<lparr>ce_Addresses = addrs, ce_FetchedAt = now\<rparr> (ca_entries c)\<rparr>
    in (c', cache_flush env c' fs))"

definition Invalidate :: "peer_id \<Rightarrow> io_env \<Rightarrow> Cache \<times> cache_fs \<Rightarrow> Cache \<times> cache_fs" where
  "Invalidate p env = (\<lambda>(c, fs).
    let c' = c\<lparr>ca_entries := mdel p (ca_entries c)\<rparr> in (c', cache_flush env c' fs))"

section \<open>Lemmas\<close>

definition cache_inv :: "Cache \<Rightarrow> bool" where
  "cache_inv c \<longleftrightarrow> distinct (map fst (ca_entries c))"

datatype cache_op = CSet peer_id "string list" time io_env | CInvalid peer_id io_env

fun cache_step :: "cache_op \<Rightarrow> Cache \<times> cache_fs \<Rightarrow> Cache \<times> cache_fs" where
  "cache_step (CSet p addrs now env) s = cache_Set p addrs now env s"
| "cache_step (CInvalid p env) s = Invalidate p env s"

lemma cache_step_inv: "cache_inv (fst s) \<Longrightarrow> cache_inv (fst (cache_step x s))"
  by (cases x; cases s) (auto simp: cache_Set_def Invalidate_def cache_inv_def Let_def)

interpretation cachemach: machine cache_step "\<lambda>s. cache_inv (fst s)"
  by unfold_locales (rule cache_step_inv)

lemma cache_load_saved:
  assumes "cache_inv c"
  shows "map_of (cache_load (map (\<lambda>(k, e). (std_encode k, e)) (ca_entries c))) = map_of (ca_entries c)"
proof -
  have "map_of (fold (\<lambda>(k, e) m. case std_decode k of None \<Rightarrow> m | Some raw \<Rightarrow> mput raw e m) (map (\<lambda>(k, e). (std_encode k, e)) es) m)
      = map_of m ++ map_of (rev es)" for es and m :: "(peer_id \<times> CacheEntry) list"
    by (induction es arbitrary: m) (auto simp: fun_eq_iff map_add_def split: option.splits)
  from this [of "ca_entries c" "[]"] show ?thesis
    using assms map_of_rev_distinct [of "ca_entries c"] by (simp add: cache_load_def cache_inv_def)
qed

abbreviation cache_reopened :: "string \<Rightarrow> cache_fs \<Rightarrow> Cache" where
  "cache_reopened path fs \<equiv> the (OpenCache path True fs)"

interpretation cachedisk: disk_mirror ca_path "\<lambda>c. map_of (ca_entries c)" cache_flush cache_reopened cache_inv
proof
  fix s :: Cache and env :: io_env and fs :: cache_fs
  let ?f = "\<lparr>cf_Version = cacheVersion, cf_Entries = map (\<lambda>(k, e). (std_encode k, e)) (ca_entries s)\<rparr>"
  assume t: "fresh_temp (ca_path s) env fs"
  show "\<exists>c. cache_flush env s fs = fs(ca_path s \<mapsto> c)
      \<and> (\<forall>fs'. fs' (ca_path s) = Some c \<longrightarrow> map_of (ca_entries (cache_reopened (ca_path s) fs')) = map_of (ca_entries s))"
    if "cache_inv s" and "io_success env"
    using AtomicWriteFile_ok [OF t that(2)] cache_load_saved [OF that(1)]
    by (intro exI [of _ "Data ?f"]) (simp add: cache_flush_def OpenCache_def)
  show "cache_flush env s fs = fs" if "\<not> io_success env"
    using AtomicWriteFile_fail [OF t that, of ?f] by (auto simp: cache_flush_def)
qed

end
