(* ===== verification/Friends_Store.thy ===== *)
theory Friends_Store
  imports Iox "HOL-Library.List_Lexorder" "HOL-Library.Char_ord"
begin

text \<open>
  \<open>internal/friends/store.go\<close>: the persistent list of trusted peers.

  A \<open>Store\<close> is its path and the in-memory slice; every mutation rewrites the file with
  \<open>AtomicWriteFile\<close>, whose outcome (an \<open>io_env\<close>) is an argument. The mutex makes every
  operation atomic, so each is one state transformer on the store and the file system.
\<close>

record Friend =
  fr_Name :: string
  fr_PeerID :: peer_id
  fr_PublicKey :: string
  fr_AddedAt :: time
  fr_RendezvousHint :: string

datatype friends_error =
    ErrFriendNotFound string
  | ErrFriendNameTaken string
  | ErrFriendPeerIDTaken peer_id string
  | ErrPersist io_error
  | ErrReading
  | ErrParsing

record Store =
  st_path :: string
  st_friends :: "Friend list"

type_synonym friends_fs = "Friend list fs"

definition persistLocked ::
    "io_env \<Rightarrow> Store \<Rightarrow> friends_fs \<Rightarrow> (friends_error + unit) \<times> friends_fs" where
  "persistLocked env s fs =
    (case AtomicWriteFile (st_path s) (st_friends s) env fs of
       (Inl e, fs') \<Rightarrow> (Inl (ErrPersist e), fs')
     | (Inr _, fs') \<Rightarrow> (Inr (), fs'))"

text \<open>\<open>Open\<close>: \<open>readable\<close> is false when \<open>os.ReadFile\<close> fails for another reason than a missing
  file. A missing file is created holding the empty list.\<close>

definition Open_Store ::
    "string \<Rightarrow> bool \<Rightarrow> io_env \<Rightarrow> friends_fs \<Rightarrow> (friends_error + Store) \<times> friends_fs" where
  "Open_Store path readable env fs =
    (if \<not> readable then (Inl ErrReading, fs)
     else case fs path of
       None \<Rightarrow>
         (case AtomicWriteFile path [] env fs of
            (Inl e, fs') \<Rightarrow> (Inl (ErrPersist e), fs')
          | (Inr _, fs') \<Rightarrow> (Inr \<lparr>st_path = path, st_friends = []\<rparr>, fs'))
     | Some Partial \<Rightarrow> (Inl ErrParsing, fs)
     | Some (Data xs) \<Rightarrow> (Inr \<lparr>st_path = path, st_friends = xs\<rparr>, fs))"

text \<open>The duplicate scan of \<open>Add\<close>: the first entry that clashes decides the error, and for one
  entry the name is compared before the peer ID.\<close>

fun add_conflict :: "Friend \<Rightarrow> Friend list \<Rightarrow> friends_error option" where
  "add_conflict f [] = None"
| "add_conflict f (x # xs) =
    (if fr_Name x = fr_Name f then Some (ErrFriendNameTaken (fr_Name f))
     else if fr_PeerID x = fr_PeerID f then Some (ErrFriendPeerIDTaken (fr_PeerID f) (fr_Name x))
     else add_conflict f xs)"

definition Add ::
    "Friend \<Rightarrow> io_env \<Rightarrow> Store \<Rightarrow> friends_fs \<Rightarrow> (friends_error + unit) \<times> Store \<times> friends_fs" where
  "Add f env s fs =
    (case add_conflict f (st_friends s) of
       Some e \<Rightarrow> (Inl e, s, fs)
     | None \<Rightarrow>
         let s' = s\<lparr>st_friends := st_friends s @ [f]\<rparr>; (r, fs') = persistLocked env s' fs
         in (r, s', fs'))"

definition List_friends :: "Store \<Rightarrow> Friend list" where
  "List_friends s = sort_key fr_Name (st_friends s)"

definition Get_friend :: "string \<Rightarrow> Store \<Rightarrow> Friend option" where
  "Get_friend name s = List.find (\<lambda>f. fr_Name f = name) (st_friends s)"

definition GetByPeerID :: "peer_id \<Rightarrow> Store \<Rightarrow> Friend option" where
  "GetByPeerID pid s = List.find (\<lambda>f. fr_PeerID f = pid) (st_friends s)"

definition Remove_friend ::
    "string \<Rightarrow> io_env \<Rightarrow> Store \<Rightarrow> friends_fs \<Rightarrow> (friends_error + unit) \<times> Store \<times> friends_fs" where
  "Remove_friend name env s fs =
    (if \<exists>f\<in>set (st_friends s). fr_Name f = name then
       let s' = s\<lparr>st_friends := remove_first (\<lambda>f. fr_Name f = name) (st_friends s)\<rparr>;
           (r, fs') = persistLocked env s' fs
       in (r, s', fs')
     else (Inl (ErrFriendNotFound name), s, fs))"

text \<open>The scan of \<open>Rename\<close>: the last index that holds the old name, unless the new name is met
  anywhere (also at the entry being renamed), which ends the scan with an error.\<close>

fun rename_scan ::
    "string \<Rightarrow> string \<Rightarrow> nat \<Rightarrow> nat option \<Rightarrow> Friend list \<Rightarrow> friends_error + nat option" where
  "rename_scan old new i idx [] = Inr idx"
| "rename_scan old new i idx (f # fs) =
    (let idx' = if fr_Name f = old then Some i else idx in
     if fr_Name f = new then Inl (ErrFriendNameTaken new)
     else rename_scan old new (Suc i) idx' fs)"

definition Rename ::
    "string \<Rightarrow> string \<Rightarrow> io_env \<Rightarrow> Store \<Rightarrow> friends_fs \<Rightarrow> (friends_error + unit) \<times> Store \<times> friends_fs" where
  "Rename old new env s fs =
    (case rename_scan old new 0 None (st_friends s) of
       Inl e \<Rightarrow> (Inl e, s, fs)
     | Inr None \<Rightarrow> (Inl (ErrFriendNotFound old), s, fs)
     | Inr (Some i) \<Rightarrow>
         let xs = st_friends s;
             s' = s\<lparr>st_friends := xs[i := (xs ! i)\<lparr>fr_Name := new\<rparr>]\<rparr>;
             (r, fs') = persistLocked env s' fs
         in (r, s', fs'))"

definition PeerIDs :: "Store \<Rightarrow> peer_id list" where
  "PeerIDs s = map fr_PeerID (st_friends s)"

section \<open>Invariant\<close>

text \<open>Names and peer IDs are unique.\<close>

definition friends_inv :: "Store \<Rightarrow> bool" where
  "friends_inv s \<longleftrightarrow> distinct (map fr_Name (st_friends s)) \<and> distinct (map fr_PeerID (st_friends s))"

text \<open>One mutation of the store, with its write outcome, as run by the daemon.\<close>

datatype friends_op =
    OpAdd Friend io_env
  | OpRemove string io_env
  | OpRename string string io_env

fun friends_step :: "friends_op \<Rightarrow> Store \<times> friends_fs \<Rightarrow> Store \<times> friends_fs" where
  "friends_step (OpAdd f env) (s, fs) = snd (Add f env s fs)"
| "friends_step (OpRemove name env) (s, fs) = snd (Remove_friend name env s fs)"
| "friends_step (OpRename old new env) (s, fs) = snd (Rename old new env s fs)"

text \<open>The abstract store: a finite map from names to records, with the same three operations.
  Nothing here knows of slices, positions or files.\<close>

fun friends_spec :: "friends_op \<Rightarrow> (string \<rightharpoonup> Friend) \<Rightarrow> (string \<rightharpoonup> Friend)" where
  "friends_spec (OpAdd f _) m =
    (if fr_Name f \<in> dom m \<or> fr_PeerID f \<in> fr_PeerID ` ran m then m else m(fr_Name f \<mapsto> f))"
| "friends_spec (OpRemove name _) m = m(name := None)"
| "friends_spec (OpRename old new _) m =
    (if new \<in> dom m then m
     else case m old of None \<Rightarrow> m | Some f \<Rightarrow> m(old := None, new \<mapsto> f\<lparr>fr_Name := new\<rparr>))"

fun op_env :: "friends_op \<Rightarrow> io_env" where
  "op_env (OpAdd _ env) = env"
| "op_env (OpRemove _ env) = env"
| "op_env (OpRename _ _ env) = env"

section \<open>Lemmas\<close>

lemma persistLocked_ok:
  "fresh_temp (st_path s) env fs \<Longrightarrow> io_success env \<Longrightarrow>
     persistLocked env s fs = (Inr (), fs(st_path s \<mapsto> Data (st_friends s)))"
  by (simp add: persistLocked_def AtomicWriteFile_ok)

lemma persistLocked_fail:
  "fresh_temp (st_path s) env fs \<Longrightarrow> \<not> io_success env \<Longrightarrow>
     \<exists>e. persistLocked env s fs = (Inl (ErrPersist e), fs)"
  using AtomicWriteFile_fail [of "st_path s" env fs "st_friends s"] by (auto simp: persistLocked_def)

lemma add_conflict_None:
  "add_conflict f xs = None \<longleftrightarrow>
     fr_Name f \<notin> fr_Name ` set xs \<and> fr_PeerID f \<notin> fr_PeerID ` set xs"
  by (induction xs) auto

lemma add_conflict_Some:
  "add_conflict f xs = Some e \<Longrightarrow>
     e = ErrFriendNameTaken (fr_Name f) \<and> fr_Name f \<in> fr_Name ` set xs \<or>
     (\<exists>x\<in>set xs. e = ErrFriendPeerIDTaken (fr_PeerID f) (fr_Name x) \<and> fr_PeerID x = fr_PeerID f)"
  by (induction xs) (auto split: if_splits)

lemma add_conflict_again:
  "add_conflict f xs = None \<Longrightarrow> add_conflict f (xs @ [f]) = Some (ErrFriendNameTaken (fr_Name f))"
  by (induction xs) (auto split: if_splits)

lemma rename_scan_new_taken:
  "new \<in> fr_Name ` set xs \<Longrightarrow> rename_scan old new i idx xs = Inl (ErrFriendNameTaken new)"
  by (induction xs arbitrary: i idx) (auto simp: Let_def)

lemma rename_scan_free:
  "new \<notin> fr_Name ` set xs \<Longrightarrow> old \<notin> fr_Name ` set xs \<Longrightarrow> rename_scan old new i idx xs = Inr idx"
  by (induction xs arbitrary: i idx) (auto simp: Let_def)

lemma rename_scan_found:
  assumes "new \<notin> fr_Name ` set xs" and "distinct (map fr_Name xs)" and "k < length xs"
    and "fr_Name (xs ! k) = old"
  shows "rename_scan old new i idx xs = Inr (Some (i + k))"
  using assms
proof (induction xs arbitrary: i idx k)
  case (Cons x xs)
  show ?case
  proof (cases k)
    case 0
    with Cons.prems have "old \<notin> fr_Name ` set xs" by auto
    with 0 Cons.prems show ?thesis by (auto simp: Let_def rename_scan_free)
  next
    case (Suc j)
    with Cons.prems have "old \<in> fr_Name ` set xs" by (auto intro!: image_eqI [of _ _ "xs ! j"])
    with Cons.prems have "fr_Name x \<noteq> old" by auto
    with Cons Suc show ?thesis by (auto simp: Let_def)
  qed
qed simp

lemma friends_inv_append:
  "friends_inv s \<Longrightarrow> add_conflict f (st_friends s) = None \<Longrightarrow>
     friends_inv (s\<lparr>st_friends := st_friends s @ [f]\<rparr>)"
  by (auto simp: friends_inv_def add_conflict_None)

lemma map_list_update_same:
  "k < length xs \<Longrightarrow> g y = g (xs ! k) \<Longrightarrow> map g (xs[k := y]) = map g xs"
  by (metis list_update_id map_update)

lemma distinct_list_update_new:
  "distinct (map g xs) \<Longrightarrow> g y \<notin> g ` set xs \<Longrightarrow> distinct (map g (xs[k := y]))"
  by (simp add: map_update distinct_list_update)


lemma friends_inv_Add: "friends_inv s \<Longrightarrow> friends_inv (fst (snd (Add f env s fs)))"
  by (auto simp: Add_def Let_def friends_inv_append split: option.splits prod.splits)

lemma friends_inv_Remove:
  "friends_inv s \<Longrightarrow> friends_inv (fst (snd (Remove_friend name env s fs)))"
  by (auto simp: Remove_friend_def Let_def friends_inv_def split: prod.splits)

lemma rename_scan_Some:
  assumes "rename_scan old new i idx xs = Inr (Some k)" and "\<And>j. idx = Some j \<Longrightarrow> j < i"
  shows "new \<notin> fr_Name ` set xs \<and> k < i + length xs"
  using assms
proof (induction xs arbitrary: i idx)
  case (Cons x xs)
  let ?idx = "if fr_Name x = old then Some i else idx"
  from Cons.prems have step: "rename_scan old new (Suc i) ?idx xs = Inr (Some k)" "fr_Name x \<noteq> new"
    by (auto simp: Let_def split: if_splits)
  have "\<And>j. ?idx = Some j \<Longrightarrow> j < Suc i" using Cons.prems(2) by (fastforce split: if_splits)
  with Cons.IH [OF step(1)] step(2) show ?case by auto
qed auto

lemma friends_inv_rename_at:
  assumes "friends_inv s" and "i < length (st_friends s)" and "new \<notin> fr_Name ` set (st_friends s)"
  shows "friends_inv (s\<lparr>st_friends := (st_friends s)[i := (st_friends s ! i)\<lparr>fr_Name := new\<rparr>]\<rparr>)"
  using assms
  by (auto simp: friends_inv_def map_list_update_same intro!: distinct_list_update_new)

lemma friends_inv_Rename: "friends_inv s \<Longrightarrow> friends_inv (fst (snd (Rename old new env s fs)))"
  using rename_scan_Some [of old new 0 None "st_friends s"]
  by (auto simp: Rename_def Let_def friends_inv_rename_at split: sum.splits option.splits prod.splits)

lemmas friends_inv_ops [inv_intros] = friends_inv_Add friends_inv_Remove friends_inv_Rename

lemma friends_inv_step: "friends_inv (fst p) \<Longrightarrow> friends_inv (fst (friends_step x p))"
  by (cases p; cases x) (auto intro: inv_intros)

interpretation fstore: machine friends_step "\<lambda>p. friends_inv (fst p)"
  by unfold_locales (rule friends_inv_step)

lemma st_path_step [simp]: "st_path (fst (friends_step x (s, fs))) = st_path s"
  by (cases x)
     (auto simp: Add_def Remove_friend_def Rename_def Let_def
       split: option.splits prod.splits sum.splits)

section \<open>The directory interface\<close>

text \<open>
  What the other components use of the store: the resolver and the publisher walk \<open>List\<close>, the
  notifier resolves a peer ID, the IPC methods resolve a name. \<open>entries\<close> is the list a client
  can walk, \<open>by_name\<close> and \<open>by_peer\<close> the two lookups.
\<close>

locale friend_directory =
  fixes entries :: "'s \<Rightarrow> Friend list"
    and by_name :: "string \<Rightarrow> 's \<Rightarrow> Friend option"
    and by_peer :: "peer_id \<Rightarrow> 's \<Rightarrow> Friend option"
    and ok :: "'s \<Rightarrow> bool"
  assumes by_name_iff: "ok s \<Longrightarrow> by_name n s = Some f \<longleftrightarrow> f \<in> set (entries s) \<and> fr_Name f = n"
    and by_peer_iff: "ok s \<Longrightarrow> by_peer p s = Some f \<longleftrightarrow> f \<in> set (entries s) \<and> fr_PeerID f = p"
begin

lemma by_name_inj: "ok s \<Longrightarrow> by_name n s = Some f \<Longrightarrow> by_name m s = Some f \<Longrightarrow> n = m"
  by (auto simp: by_name_iff)

lemma names_unique:
  "ok s \<Longrightarrow> f \<in> set (entries s) \<Longrightarrow> g \<in> set (entries s) \<Longrightarrow> fr_Name f = fr_Name g \<Longrightarrow> f = g"
  by (metis by_name_iff option.inject)

lemma peers_unique:
  "ok s \<Longrightarrow> f \<in> set (entries s) \<Longrightarrow> g \<in> set (entries s) \<Longrightarrow> fr_PeerID f = fr_PeerID g \<Longrightarrow> f = g"
  by (metis by_peer_iff option.inject)

text \<open>A client that scans \<open>entries\<close> for a peer ID finds what the indexed lookup returns.\<close>

lemma scan_by_peer:
  assumes "ok s"
  shows "List.find (\<lambda>f. fr_PeerID f = p) (entries s) = by_peer p s"
proof (cases "List.find (\<lambda>f. fr_PeerID f = p) (entries s)")
  case None
  then have "\<forall>f\<in>set (entries s). fr_PeerID f \<noteq> p" by (simp add: find_None_set)
  then have "by_peer p s \<noteq> Some f" for f using assms by (auto simp: by_peer_iff)
  with None show ?thesis by (cases "by_peer p s") auto
next
  case (Some f)
  from find_Some_set [OF Some] assms have "by_peer p s = Some f" by (simp add: by_peer_iff)
  with Some show ?thesis by simp
qed

end

lemma find_distinct_iff:
  "distinct (map g xs) \<Longrightarrow> List.find (\<lambda>x. g x = k) xs = Some x \<longleftrightarrow> x \<in> set xs \<and> g x = k"
  using find_unique [of g xs x k] find_Some_set [of "\<lambda>x. g x = k" xs x] by blast

lemma Get_friend_iff:
  "friends_inv s \<Longrightarrow> Get_friend n s = Some f \<longleftrightarrow> f \<in> set (st_friends s) \<and> fr_Name f = n"
  by (simp add: friends_inv_def Get_friend_def find_distinct_iff)

lemma GetByPeerID_iff:
  "friends_inv s \<Longrightarrow> GetByPeerID p s = Some f \<longleftrightarrow> f \<in> set (st_friends s) \<and> fr_PeerID f = p"
  by (simp add: friends_inv_def GetByPeerID_def find_distinct_iff)

lemma set_List_friends [simp]: "set (List_friends s) = set (st_friends s)"
  by (simp add: List_friends_def)

interpretation fdir: friend_directory List_friends Get_friend GetByPeerID friends_inv
  by unfold_locales (simp_all add: Get_friend_iff GetByPeerID_iff)

section \<open>Properties\<close>

text \<open>The abstraction function: the map a lookup by name sees.\<close>

abbreviation friends_abs :: "Store \<Rightarrow> string \<rightharpoonup> Friend" where
  "friends_abs s \<equiv> \<lambda>n. Get_friend n s"

lemma friends_abs_eqI:
  assumes "friends_inv s"
    and "\<And>n g. g \<in> set (st_friends s) \<and> fr_Name g = n \<longleftrightarrow> m n = Some g"
  shows "friends_abs s = m"
proof
  fix n
  have "Get_friend n s = Some g \<longleftrightarrow> m n = Some g" for g
    using assms by (simp add: Get_friend_iff)
  then show "Get_friend n s = m n" by (cases "m n"; cases "Get_friend n s") auto
qed

lemma Get_friend_append:
  assumes "friends_inv s" and "add_conflict f (st_friends s) = None"
  shows "friends_abs (s\<lparr>st_friends := st_friends s @ [f]\<rparr>) = (friends_abs s)(fr_Name f \<mapsto> f)"
  using assms
  by (intro friends_abs_eqI friends_inv_append)
     (auto simp: Get_friend_iff add_conflict_None image_iff split: if_splits)

lemma set_remove_first_unique:
  "distinct (map g xs) \<Longrightarrow> set (remove_first (\<lambda>x. g x = k) xs) = {x \<in> set xs. g x \<noteq> k}"
  by (induction xs) (auto simp: image_iff)

lemma Get_friend_remove:
  assumes "friends_inv s"
  shows "friends_abs (s\<lparr>st_friends := remove_first (\<lambda>f. fr_Name f = name) (st_friends s)\<rparr>)
       = (friends_abs s)(name := None)"
proof (rule friends_abs_eqI)
  show "friends_inv (s\<lparr>st_friends := remove_first (\<lambda>f. fr_Name f = name) (st_friends s)\<rparr>)"
    using assms by (auto simp: friends_inv_def)
  show "g \<in> set (st_friends (s\<lparr>st_friends := remove_first (\<lambda>f. fr_Name f = name) (st_friends s)\<rparr>))
        \<and> fr_Name g = n \<longleftrightarrow> ((friends_abs s)(name := None)) n = Some g" for n g
    using assms set_remove_first_unique [of fr_Name "st_friends s" name]
    by (auto simp: Get_friend_iff friends_inv_def)
qed

lemma set_rename_at:
  assumes inv: "friends_inv s" and i: "i < length (st_friends s)"
  shows "set ((st_friends s)[i := f]) = insert f {g \<in> set (st_friends s). fr_Name g \<noteq> fr_Name (st_friends s ! i)}"
proof -
  have "distinct (st_friends s)" using inv by (simp add: friends_inv_def distinct_map)
  then have "set ((st_friends s)[i := f]) = insert f (set (st_friends s) - {st_friends s ! i})"
    using i by (rule set_update_distinct)
  moreover have "g \<in> set (st_friends s) \<Longrightarrow> fr_Name g = fr_Name (st_friends s ! i) \<longleftrightarrow> g = st_friends s ! i" for g
    using inv i fdir.names_unique [of s g "st_friends s ! i"] by auto
  ultimately show ?thesis by auto
qed

lemma Get_friend_rename:
  assumes inv: "friends_inv s" and i: "i < length (st_friends s)"
    and old: "fr_Name (st_friends s ! i) = old" and new: "new \<notin> fr_Name ` set (st_friends s)"
  shows "friends_abs (s\<lparr>st_friends := (st_friends s)[i := (st_friends s ! i)\<lparr>fr_Name := new\<rparr>]\<rparr>)
       = (friends_abs s)(old := None, new \<mapsto> (st_friends s ! i)\<lparr>fr_Name := new\<rparr>)"
proof (rule friends_abs_eqI)
  show "friends_inv (s\<lparr>st_friends := (st_friends s)[i := (st_friends s ! i)\<lparr>fr_Name := new\<rparr>]\<rparr>)"
    using inv i new by (rule friends_inv_rename_at)
  show "g \<in> set (st_friends (s\<lparr>st_friends := (st_friends s)[i := (st_friends s ! i)\<lparr>fr_Name := new\<rparr>]\<rparr>))
        \<and> fr_Name g = n \<longleftrightarrow>
        ((friends_abs s)(old := None, new \<mapsto> (st_friends s ! i)\<lparr>fr_Name := new\<rparr>)) n = Some g" for n g
    using inv i old new by (auto simp: set_rename_at Get_friend_iff split: if_splits)
qed

lemma dom_friends_abs: "friends_inv s \<Longrightarrow> dom (friends_abs s) = fr_Name ` set (st_friends s)"
  by (auto simp: dom_def Get_friend_iff)

lemma ran_friends_abs: "friends_inv s \<Longrightarrow> ran (friends_abs s) = set (st_friends s)"
  by (auto simp: ran_def Get_friend_iff)

lemma Add_result:
  assumes "Add f env s fs = (Inr u, s', fs')"
  shows "st_friends s' = st_friends s @ [f] \<and> fr_Name f \<notin> fr_Name ` set (st_friends s) \<and> fr_PeerID f \<notin> fr_PeerID ` set (st_friends s)"
  using assms by (auto simp: Add_def Let_def add_conflict_None split: option.splits prod.splits)

lemma Add_spec:
  assumes "friends_inv s"
  shows "friends_abs (fst (snd (Add f env s fs))) = friends_spec (OpAdd f env) (friends_abs s)"
proof (cases "add_conflict f (st_friends s)")
  case None
  then have "fr_Name f \<notin> fr_Name ` set (st_friends s)" "fr_PeerID f \<notin> fr_PeerID ` set (st_friends s)"
    by (simp_all add: add_conflict_None)
  with None Get_friend_append [OF assms None] assms show ?thesis
    by (simp add: Add_def Let_def dom_friends_abs ran_friends_abs split: prod.splits)
next
  case (Some e)
  then have "fr_Name f \<in> fr_Name ` set (st_friends s) \<or> fr_PeerID f \<in> fr_PeerID ` set (st_friends s)"
    using add_conflict_None [of f "st_friends s"] by auto
  with Some assms show ?thesis by (simp add: Add_def dom_friends_abs ran_friends_abs)
qed

lemma Remove_spec:
  assumes "friends_inv s"
  shows "friends_abs (fst (snd (Remove_friend name env s fs))) = friends_spec (OpRemove name env) (friends_abs s)"
proof (cases "name \<in> fr_Name ` set (st_friends s)")
  case True
  then show ?thesis using Get_friend_remove [OF assms, of name]
    by (auto simp: Remove_friend_def Let_def split: prod.splits)
next
  case False
  with assms have "Get_friend name s = None" by (auto simp: dom_friends_abs [symmetric] dom_def)
  with False show ?thesis by (auto simp: Remove_friend_def Let_def fun_eq_iff)
qed

lemma Rename_spec:
  assumes inv: "friends_inv s"
  shows "friends_abs (fst (snd (Rename old new env s fs))) = friends_spec (OpRename old new env) (friends_abs s)"
proof (cases "new \<in> fr_Name ` set (st_friends s)")
  case True
  with inv show ?thesis by (auto simp: Rename_def rename_scan_new_taken dom_friends_abs)
next
  case new: False
  show ?thesis
  proof (cases "Get_friend old s")
    case None
    with inv have "old \<notin> fr_Name ` set (st_friends s)" by (auto simp: dom_friends_abs [symmetric] dom_def)
    with new inv None show ?thesis by (auto simp: Rename_def rename_scan_free dom_friends_abs)
  next
    case (Some f)
    with inv obtain i where i: "i < length (st_friends s)" "st_friends s ! i = f" "fr_Name f = old"
      by (auto simp: Get_friend_iff in_set_conv_nth)
    have "rename_scan old new 0 None (st_friends s) = Inr (Some (0 + i))"
      using new inv i by (intro rename_scan_found) (auto simp: friends_inv_def)
    with new inv Some i Get_friend_rename [OF inv i(1) _ new] show ?thesis
      by (auto simp: Rename_def Let_def dom_friends_abs split: prod.splits)
  qed
qed

lemma friends_step_spec:
  "friends_inv s \<Longrightarrow> friends_abs (fst (friends_step x (s, fs))) = friends_spec x (friends_abs s)"
  by (cases x) (simp_all only: friends_step.simps Add_spec Remove_spec Rename_spec)

text \<open>The write of one operation, when it succeeds, stores the new slice and touches no other
  file.\<close>

definition synced :: "Store \<times> friends_fs \<Rightarrow> bool" where
  "synced p \<longleftrightarrow> snd p (st_path (fst p)) = Some (Data (st_friends (fst p)))"

lemma friends_step_synced:
  assumes "synced (s, fs)" and "fresh_temp (st_path s) (op_env x) fs" and "io_success (op_env x)"
  shows "synced (friends_step x (s, fs)) \<and> (\<forall>t. t \<noteq> st_path s \<longrightarrow> snd (friends_step x (s, fs)) t = fs t)"
  using assms
  by (cases x)
     (auto simp: synced_def Add_def Remove_friend_def Rename_def Let_def persistLocked_ok
       split: option.splits sum.splits)

lemma friends_run_synced:
  assumes "synced (s, fs)"
    and "\<And>x. x \<in> set xs \<Longrightarrow> fresh_temp (st_path s) (op_env x) fs \<and> io_success (op_env x)"
  shows "synced (fold friends_step xs (s, fs)) \<and> st_path (fst (fold friends_step xs (s, fs))) = st_path s"
  using assms
proof (induction xs arbitrary: s fs)
  case (Cons x xs)
  obtain s' fs' where p: "friends_step x (s, fs) = (s', fs')" by fastforce
  have path: "st_path s' = st_path s" using st_path_step [of x s fs] p by simp
  have "synced (s', fs') \<and> (\<forall>t. t \<noteq> st_path s \<longrightarrow> fs' t = fs t)"
    using friends_step_synced [of s fs x] Cons.prems p by auto
  then have "fresh_temp (st_path s') (op_env y) fs'" if "y \<in> set xs" for y
    using Cons.prems(2) [of y] that path by (auto simp: fresh_temp_def split: option.splits)
  with Cons.IH [of s' fs'] Cons.prems(2) p path \<open>synced (s', fs') \<and> _\<close> show ?case by simp
qed simp


definition ex_io :: io_env where
  "ex_io = \<lparr>mkdir_ok = True, temp_name = Some ''.tmp-1'', chmod_ok = True, write_ok = True,
     close_ok = True, rename_ok = True\<rparr>"

definition ex_friend :: "string \<Rightarrow> peer_id \<Rightarrow> Friend" where
  "ex_friend n p = \<lparr>fr_Name = n, fr_PeerID = p, fr_PublicKey = ''k'', fr_AddedAt = 0, fr_RendezvousHint = []\<rparr>"

definition ex_store :: Store where
  "ex_store = \<lparr>st_path = ''friends.json'', st_friends = [ex_friend ''bob'' ''P1'']\<rparr>"

definition ex_fs :: friends_fs where
  "ex_fs = [''friends.json'' \<mapsto> Data [ex_friend ''bob'' ''P1'']]"

definition ex_ops :: "friends_op list" where
  "ex_ops = [OpAdd (ex_friend ''amy'' ''P2'') ex_io, OpRename ''bob'' ''rob'' ex_io, OpRemove ''amy'' ex_io]"

lemmas ex_friends_defs = ex_io_def ex_friend_def ex_store_def ex_fs_def ex_ops_def


text \<open>Nothing is lost on disk. If the file holds the current list, and each call of a sequence
  of Add, Remove and Rename runs on a disk that works, then opening the file again (a daemon
  restart) yields the store the sequence left in memory.\<close>

theorem friends_store_reopen:
  assumes "synced (s, fs)"
    and "\<And>x. x \<in> set xs \<Longrightarrow> fresh_temp (st_path s) (op_env x) fs \<and> io_success (op_env x)"
    and "fold friends_step xs (s, fs) = (s', fs')"
  shows "Open_Store (st_path s) True env fs' = (Inr \<lparr>st_path = st_path s, st_friends = st_friends s'\<rparr>, fs')"
proof -
  have "synced (s', fs') \<and> st_path s' = st_path s"
    using friends_run_synced [of s fs xs, OF assms(1)] assms(2,3) by simp
  then have "fs' (st_path s) = Some (Data (st_friends s'))" by (auto simp: synced_def)
  then show ?thesis by (simp add: Open_Store_def)
qed

theorem friends_store_reopen_witness:
  "\<exists>s' fs'. fold friends_step ex_ops (ex_store, ex_fs) = (s', fs') \<and> map fr_Name (st_friends s') = [''rob'']
     \<and> Open_Store ''friends.json'' True ex_io fs' = (Inr \<lparr>st_path = ''friends.json'', st_friends = st_friends s'\<rparr>, fs')"
proof -
  obtain s' fs' where run: "fold friends_step ex_ops (ex_store, ex_fs) = (s', fs')" by fastforce
  have "synced (ex_store, ex_fs)" by (simp add: synced_def ex_friends_defs)
  moreover have "fresh_temp (st_path ex_store) (op_env x) ex_fs \<and> io_success (op_env x)" if "x \<in> set ex_ops" for x
    using that by (auto simp: fresh_temp_def io_success_def ex_friends_defs)
  ultimately have "Open_Store (st_path ex_store) True ex_io fs'
      = (Inr \<lparr>st_path = st_path ex_store, st_friends = st_friends s'\<rparr>, fs')"
    using run by (rule friends_store_reopen)
  moreover have "map fr_Name (st_friends s') = [''rob'']"
    using run by (auto simp: ex_friends_defs Add_def Rename_def Remove_friend_def Let_def
        persistLocked_def AtomicWriteFile_def split: prod.splits)
  ultimately show ?thesis using run by (simp add: ex_store_def)
qed

text \<open>When the write fails, Add reports an error but keeps the friend in memory: the file is
  unchanged, a lookup finds the friend, and a later Add of the same record on a healthy disk is
  refused because the name is taken.\<close>

lemma Add_write_failure_keeps_friend:
  assumes "friends_inv s" and "add_conflict f (st_friends s) = None"
    and "fresh_temp (st_path s) env fs" and "\<not> io_success env"
  shows "\<exists>e s'. Add f env s fs = (Inl (ErrPersist e), s', fs) \<and> Get_friend (fr_Name f) s' = Some f
    \<and> (\<forall>env'. Add f env' s' fs = (Inl (ErrFriendNameTaken (fr_Name f)), s', fs))"
proof -
  let ?s' = "s\<lparr>st_friends := st_friends s @ [f]\<rparr>"
  obtain e where e: "persistLocked env ?s' fs = (Inl (ErrPersist e), fs)"
    using persistLocked_fail [of ?s' env fs] assms(3,4) by auto
  have taken: "add_conflict f (st_friends s @ [f]) = Some (ErrFriendNameTaken (fr_Name f))"
    using assms(2) by (rule add_conflict_again)
  have "Get_friend (fr_Name f) ?s' = Some f"
    using fun_cong [OF Get_friend_append [OF assms(1,2)], of "fr_Name f"] by simp
  with e taken assms(2) show ?thesis by (auto simp: Add_def Let_def)
qed

end
