(* ===== verification/Discovery.thy ===== *)
theory Discovery
  imports Sealed Discovery_Cache Friends_Store "HOL-Library.List_Lexorder" "HOL-Library.Char_ord"
begin

text \<open>
  \<open>internal/discovery/keys.go\<close>, \<open>record.go\<close>, \<open>publisher.go\<close> and \<open>resolver.go\<close>, with the key
  conversions of \<open>internal/identity/x25519.go\<close>: friends find each other's addresses through encrypted
  records in a DHT.

  \<open>ecdh\<close> holds what the code asks of libp2p and of the curve and hash libraries. Byte order on strings
  is the lexicographic order of \<open>bytes.Compare\<close>. The DHT is a function from keys to values for a
  lookup, and a list of successful puts for a publication round. Times are nanoseconds.
\<close>

unbundle bit_operations_syntax

record ('priv, 'pub) ecdh =
  ec_privIsEd :: "'priv \<Rightarrow> bool"
  ec_privRaw :: "'priv \<Rightarrow> string option"
  ec_pubIsEd :: "'pub \<Rightarrow> bool"
  ec_pubRaw :: "'pub \<Rightarrow> string option"
  ec_getPublic :: "'priv \<Rightarrow> 'pub"
  ec_montgomery :: "string \<Rightarrow> string option"
  ec_sha512 :: "string \<Rightarrow> string"
  ec_x25519 :: "string \<Rightarrow> string \<Rightarrow> string option"
  ec_sha256 :: "string \<Rightarrow> string"
  ec_hkdf :: "string \<Rightarrow> string \<Rightarrow> string"

section \<open>Keys\<close>

definition ToX25519Public :: "('priv, 'pub) ecdh \<Rightarrow> string \<Rightarrow> string option" where
  "ToX25519Public E pub =
    (if length pub \<noteq> 32 then None
     else case ec_montgomery E pub of None \<Rightarrow> None | Some mont \<Rightarrow> if length mont \<noteq> 32 then None else Some mont)"

definition clamp :: "string \<Rightarrow> string" where
  "clamp s =
    (let s1 = s[0 := char_of (byte (s ! 0) AND 248)];
         s2 = s1[31 := char_of (byte (s1 ! 31) AND 127)]
     in s2[31 := char_of (byte (s2 ! 31) OR 64)])"

definition ToX25519Private :: "('priv, 'pub) ecdh \<Rightarrow> string \<Rightarrow> string option" where
  "ToX25519Private E priv =
    (if length priv \<noteq> 64 then None else Some (clamp (take 32 (ec_sha512 E (take 32 priv)))))"

definition edPrivFromLibp2p :: "('priv, 'pub) ecdh \<Rightarrow> 'priv \<Rightarrow> string option" where
  "edPrivFromLibp2p E k =
    (if \<not> ec_privIsEd E k then None
     else case ec_privRaw E k of None \<Rightarrow> None | Some raw \<Rightarrow> if length raw \<noteq> 64 then None else Some raw)"

definition edPubFromLibp2p :: "('priv, 'pub) ecdh \<Rightarrow> 'pub \<Rightarrow> string option" where
  "edPubFromLibp2p E k =
    (if \<not> ec_pubIsEd E k then None
     else case ec_pubRaw E k of None \<Rightarrow> None | Some raw \<Rightarrow> if length raw \<noteq> 32 then None else Some raw)"

definition DeriveSharedSecret :: "('priv, 'pub) ecdh \<Rightarrow> 'priv \<Rightarrow> 'pub \<Rightarrow> string option" where
  "DeriveSharedSecret E myPriv theirPub =
    (case edPrivFromLibp2p E myPriv of
       None \<Rightarrow> None
     | Some myEdPriv \<Rightarrow>
         (case edPubFromLibp2p E theirPub of
            None \<Rightarrow> None
          | Some theirEdPub \<Rightarrow>
              if ec_pubRaw E (ec_getPublic E myPriv) = Some theirEdPub then None
              else (case ToX25519Private E myEdPriv of
                None \<Rightarrow> None
              | Some myXPriv \<Rightarrow>
                  (case ToX25519Public E theirEdPub of
                     None \<Rightarrow> None
                   | Some theirXPub \<Rightarrow> ec_x25519 E myXPriv theirXPub))))"

definition canonicalOrder :: "string \<Rightarrow> string \<Rightarrow> string \<times> string" where
  "canonicalOrder a b = (if a < b then (a, b) else (b, a))"

definition discovery_DeriveDHTKey :: "('priv, 'pub) ecdh \<Rightarrow> string \<Rightarrow> 'pub \<Rightarrow> 'pub \<Rightarrow> string option" where
  "discovery_DeriveDHTKey E s myPub theirPub =
    (case (ec_pubRaw E myPub, ec_pubRaw E theirPub) of
       (Some myRaw, Some theirRaw) \<Rightarrow>
         let (a, b) = canonicalOrder myRaw theirRaw
         in Some (''/opencom-discovery/v1/'' @ hex_encode (ec_sha256 E (''opencom-discovery-v1'' @ s @ a @ b)))
     | _ \<Rightarrow> None)"

definition discovery_DeriveEncryptionKey :: "('priv, 'pub) ecdh \<Rightarrow> string \<Rightarrow> string" where
  "discovery_DeriveEncryptionKey E s = ec_hkdf E s ''opencom-record-v1''"

section \<open>Records\<close>

record DiscRecord =
  dr_Version :: int
  dr_Addresses :: "string list"
  dr_Timestamp :: int

definition discovery_RecordVersion :: int where "discovery_RecordVersion = 1"

text \<open>\<open>time.Since\<close>: a difference of times as a 64-bit duration, saturated.\<close>

definition since :: "time \<Rightarrow> time \<Rightarrow> time" where
  "since now t = max (- (2 ^ 63)) (min (2 ^ 63 - 1) (now - t))"

definition discovery_Encode ::
    "('priv, 'pub) keys \<Rightarrow> DiscRecord aead \<Rightarrow> DiscRecord \<Rightarrow> string \<Rightarrow> 'priv \<Rightarrow> string option \<Rightarrow> record_error + string" where
  "discovery_Encode K A r encKey signer nonce = sealed_encode K A r encKey signer nonce"

definition discovery_Decode ::
    "('priv, 'pub) keys \<Rightarrow> DiscRecord aead \<Rightarrow> string \<Rightarrow> string \<Rightarrow> 'pub \<Rightarrow> time \<Rightarrow> time \<Rightarrow> record_error + DiscRecord" where
  "discovery_Decode K A blob encKey signerPub maxAge now =
    (case sealed_decode K A blob encKey signerPub of
       Inl e \<Rightarrow> Inl e
     | Inr r \<Rightarrow>
         if dr_Version r \<noteq> discovery_RecordVersion then Inl (ErrUnsupportedVersion (dr_Version r))
         else if since now (dr_Timestamp r * 1000000000) > maxAge then Inl ErrStale
         else Inr r)"

section \<open>The publisher\<close>

definition unmarshalFriendPubKey :: "('priv, 'pub) keys \<Rightarrow> string \<Rightarrow> 'pub option" where
  "unmarshalFriendPubKey K s =
    (if s = [] then None
     else case std_decode s of None \<Rightarrow> None | Some raw \<Rightarrow> k_unmarshalPub K raw)"

record ('priv, 'pub) Publisher =
  pu_keys :: "('priv, 'pub) keys"
  pu_ecdh :: "('priv, 'pub) ecdh"
  pu_aead :: "DiscRecord aead"
  pu_signer :: 'priv
  pu_signerPub :: 'pub

text \<open>One friend of a round: the put that succeeded, if any. \<open>nonce\<close> is the randomness of this record,
  \<open>putOK\<close> the outcome of the DHT's \<open>PutValue\<close>.\<close>

definition publish_friend ::
    "('priv, 'pub) Publisher \<Rightarrow> DiscRecord \<Rightarrow> Friend \<Rightarrow> string option \<Rightarrow> bool \<Rightarrow> (string \<times> string) option" where
  "publish_friend P r f nonce putOK =
    (case unmarshalFriendPubKey (pu_keys P) (fr_PublicKey f) of
       None \<Rightarrow> None
     | Some friendPub \<Rightarrow>
         (case DeriveSharedSecret (pu_ecdh P) (pu_signer P) friendPub of
            None \<Rightarrow> None
          | Some secret \<Rightarrow>
              (case discovery_DeriveDHTKey (pu_ecdh P) secret (pu_signerPub P) friendPub of
                 None \<Rightarrow> None
               | Some key \<Rightarrow>
                   (case discovery_Encode (pu_keys P) (pu_aead P) r (discovery_DeriveEncryptionKey (pu_ecdh P) secret) (pu_signer P) nonce of
                      Inl _ \<Rightarrow> None
                    | Inr blob \<Rightarrow> if putOK then Some (key, blob) else None))))"

text \<open>One round: \<open>env i\<close> is the nonce and the outcome of the put for the friend at position \<open>i\<close>.\<close>

definition PublishOnce ::
    "('priv, 'pub) Publisher \<Rightarrow> Friend list \<Rightarrow> string list \<Rightarrow> time \<Rightarrow> (nat \<Rightarrow> string option \<times> bool) \<Rightarrow> (string \<times> string) list" where
  "PublishOnce P friends addrs now env =
    (let r = \<lparr>dr_Version = discovery_RecordVersion, dr_Addresses = addrs, dr_Timestamp = now div 1000000000\<rparr>
     in List.map_filter (\<lambda>(i, f). publish_friend P r f (fst (env i)) (snd (env i))) (List.enumerate 0 friends))"

section \<open>The resolver\<close>

record ('priv, 'pub) Resolver =
  rs_keys :: "('priv, 'pub) keys"
  rs_ecdh :: "('priv, 'pub) ecdh"
  rs_aead :: "DiscRecord aead"
  rs_multiaddr :: "string \<Rightarrow> addr option"
  rs_myPriv :: 'priv
  rs_myPub :: 'pub
  rs_ttl :: time

datatype resolve_error = ErrNotFriend | ErrFriendPubkey | ErrSharedSecret | ErrDHTKey | ErrLookupFailed

definition findFriend :: "Friend list \<Rightarrow> peer_id \<Rightarrow> Friend option" where
  "findFriend fs target = List.find (\<lambda>f. fr_PeerID f = target) fs"

definition parseMultiaddrs :: "(string \<Rightarrow> addr option) \<Rightarrow> string list \<Rightarrow> addr list" where
  "parseMultiaddrs mk strs = List.map_filter mk strs"

text \<open>\<open>get\<close> is the DHT's \<open>GetValue\<close>; \<open>cache\<close> is \<open>None\<close> when the resolver has none. The clock is read for
  the cache entry's age, for the record's age and for the new cache entry.\<close>

record resolve_env =
  rz_get :: "string \<Rightarrow> string option"
  rz_now :: time
  rz_decodeAt :: time
  rz_setAt :: time
  rz_io :: io_env

definition cached :: "('priv, 'pub) Resolver \<Rightarrow> time \<Rightarrow> peer_id \<Rightarrow> (Cache \<times> cache_fs) option \<Rightarrow> string list option" where
  "cached R now target cache =
    (case cache of
       None \<Rightarrow> None
     | Some (c, _) \<Rightarrow>
         (case cache_Get target c of
            None \<Rightarrow> None
          | Some entry \<Rightarrow> if since now (ce_FetchedAt entry) < rs_ttl R then Some (ce_Addresses entry) else None))"

definition Resolve ::
    "('priv, 'pub) Resolver \<Rightarrow> resolve_env \<Rightarrow> Friend list \<Rightarrow> peer_id \<Rightarrow> (Cache \<times> cache_fs) option
      \<Rightarrow> (resolve_error + addr list) \<times> (Cache \<times> cache_fs) option" where
  "Resolve R z friends target cache =
    (case cached R (rz_now z) target cache of
       Some addrs \<Rightarrow> (Inr (parseMultiaddrs (rs_multiaddr R) addrs), cache)
     | None \<Rightarrow>
         (case findFriend friends target of
            None \<Rightarrow> (Inl ErrNotFriend, cache)
          | Some friend \<Rightarrow>
              (case unmarshalFriendPubKey (rs_keys R) (fr_PublicKey friend) of
                 None \<Rightarrow> (Inl ErrFriendPubkey, cache)
               | Some friendPub \<Rightarrow>
                   (case DeriveSharedSecret (rs_ecdh R) (rs_myPriv R) friendPub of
                      None \<Rightarrow> (Inl ErrSharedSecret, cache)
                    | Some secret \<Rightarrow>
                        (case discovery_DeriveDHTKey (rs_ecdh R) secret (rs_myPub R) friendPub of
                           None \<Rightarrow> (Inl ErrDHTKey, cache)
                         | Some key \<Rightarrow>
                             (case rz_get z key of
                                None \<Rightarrow> (Inl ErrLookupFailed, cache)
                              | Some blob \<Rightarrow>
                                  (case discovery_Decode (rs_keys R) (rs_aead R) blob (discovery_DeriveEncryptionKey (rs_ecdh R) secret)
                                          friendPub (rs_ttl R) (rz_decodeAt z) of
                                     Inl _ \<Rightarrow> (Inl ErrLookupFailed, cache)
                                   | Inr r \<Rightarrow>
                                       (Inr (parseMultiaddrs (rs_multiaddr R) (dr_Addresses r)),
                                        map_option (cache_Set target (dr_Addresses r) (rz_setAt z) (rz_io z)) cache))))))))"

definition InvalidateCache ::
    "peer_id \<Rightarrow> io_env \<Rightarrow> (Cache \<times> cache_fs) option \<Rightarrow> (Cache \<times> cache_fs) option" where
  "InvalidateCache target env cache = map_option (Invalidate target env) cache"

section \<open>What the code relies on\<close>

text \<open>An identity key in the shape libp2p makes them: ed25519, 64 private and 32 public bytes, a public
  key that is a point of the curve.\<close>

definition ed_identity :: "('priv, 'pub) ecdh \<Rightarrow> 'priv \<Rightarrow> bool" where
  "ed_identity E k \<longleftrightarrow> ec_privIsEd E k \<and> ec_pubIsEd E (ec_getPublic E k) \<and>
    (\<exists>raw. ec_privRaw E k = Some raw \<and> length raw = 64) \<and>
    (\<exists>pub mont. ec_pubRaw E (ec_getPublic E k) = Some pub \<and> length pub = 32 \<and> ec_montgomery E pub = Some mont \<and> length mont = 32)"

text \<open>Diffie-Hellman: the X25519 of one's own scalar and the other's point is the same on both sides.\<close>

definition dh_commutes :: "('priv, 'pub) ecdh \<Rightarrow> 'priv \<Rightarrow> 'priv \<Rightarrow> bool" where
  "dh_commutes E a b \<longleftrightarrow>
    (\<forall>ra rb pa pb xa xb ma mb. ec_privRaw E a = Some ra \<and> ec_privRaw E b = Some rb
       \<and> ec_pubRaw E (ec_getPublic E a) = Some pa \<and> ec_pubRaw E (ec_getPublic E b) = Some pb
       \<and> ToX25519Private E ra = Some xa \<and> ToX25519Private E rb = Some xb
       \<and> ec_montgomery E pa = Some ma \<and> ec_montgomery E pb = Some mb \<longrightarrow> ec_x25519 E xa mb = ec_x25519 E xb ma)"

section \<open>Lemmas\<close>

lemma canonicalOrder_commute: "canonicalOrder a b = canonicalOrder b a"
  by (auto simp: canonicalOrder_def)

lemma DeriveDHTKey_commute: "discovery_DeriveDHTKey E s p q = discovery_DeriveDHTKey E s q p"
  by (simp add: discovery_DeriveDHTKey_def canonicalOrder_commute [of "the (ec_pubRaw E p)"] split: option.splits)
    (simp add: canonicalOrder_commute)

lemma DeriveDHTKey_defined:
  "ec_pubRaw E p = Some x \<Longrightarrow> ec_pubRaw E q = Some y \<Longrightarrow> \<exists>key. discovery_DeriveDHTKey E s p q = Some key"
  by (cases "canonicalOrder x y") (simp add: discovery_DeriveDHTKey_def)

lemma DeriveSharedSecret_commute:
  assumes "ed_identity E a" and "ed_identity E b" and "dh_commutes E a b"
  shows "DeriveSharedSecret E a (ec_getPublic E b) = DeriveSharedSecret E b (ec_getPublic E a)"
proof -
  obtain ra pa ma where a: "ec_privIsEd E a" "ec_pubIsEd E (ec_getPublic E a)" "ec_privRaw E a = Some ra" "length ra = 64"
    "ec_pubRaw E (ec_getPublic E a) = Some pa" "length pa = 32" "ec_montgomery E pa = Some ma" "length ma = 32"
    using assms(1) by (auto simp: ed_identity_def)
  obtain rb pb mb where b: "ec_privIsEd E b" "ec_pubIsEd E (ec_getPublic E b)" "ec_privRaw E b = Some rb" "length rb = 64"
    "ec_pubRaw E (ec_getPublic E b) = Some pb" "length pb = 32" "ec_montgomery E pb = Some mb" "length mb = 32"
    using assms(2) by (auto simp: ed_identity_def)
  have "ec_x25519 E (clamp (take 32 (ec_sha512 E (take 32 ra)))) mb = ec_x25519 E (clamp (take 32 (ec_sha512 E (take 32 rb)))) ma"
    using assms(3) a b by (simp add: dh_commutes_def ToX25519Private_def)
  with a b show ?thesis
    by (auto simp: DeriveSharedSecret_def edPrivFromLibp2p_def edPubFromLibp2p_def ToX25519Private_def ToX25519Public_def)
qed

lemma unmarshalFriendPubKey_marshalled:
  "keys_ok K \<Longrightarrow> k_marshalPub K pub = Some b \<Longrightarrow> b \<noteq> [] \<Longrightarrow> unmarshalFriendPubKey K (std_encode b) = Some pub"
  by (simp add: unmarshalFriendPubKey_def keys_ok_def)

lemma map_filter_enumerate:
  assumes "i < length xs" and "g (i, xs ! i) = Some y"
  shows "y \<in> set (List.map_filter g (List.enumerate 0 xs))"
proof -
  have "(i, xs ! i) \<in> set (List.enumerate 0 xs)" using assms(1) by (auto simp: in_set_enumerate_eq)
  with assms(2) show ?thesis by (force simp: map_filter_def)
qed

text \<open>A lookup that went to the DHT and succeeded.\<close>

lemma Resolve_from_dht:
  assumes "Resolve R z friends target cache = (Inr addrs, cache')" and "cached R (rz_now z) target cache = None"
  obtains f pub secret key blob r where "findFriend friends target = Some f"
    and "unmarshalFriendPubKey (rs_keys R) (fr_PublicKey f) = Some pub"
    and "DeriveSharedSecret (rs_ecdh R) (rs_myPriv R) pub = Some secret"
    and "discovery_DeriveDHTKey (rs_ecdh R) secret (rs_myPub R) pub = Some key" and "rz_get z key = Some blob"
    and "discovery_Decode (rs_keys R) (rs_aead R) blob (discovery_DeriveEncryptionKey (rs_ecdh R) secret) pub (rs_ttl R) (rz_decodeAt z) = Inr r"
    and "addrs = parseMultiaddrs (rs_multiaddr R) (dr_Addresses r)"
    and "cache' = map_option (cache_Set target (dr_Addresses r) (rz_setAt z) (rz_io z)) cache"
  using assms by (auto simp: Resolve_def split: option.splits sum.splits)

lemma discovery_Decode_sound:
  "discovery_Decode K A blob k pub maxAge now = Inr r \<Longrightarrow>
     k_verify K pub (drop signatureLen blob) (take signatureLen blob) \<and> dr_Version r = discovery_RecordVersion
     \<and> sealed_open A blob k = Inr r \<and> since now (dr_Timestamp r * 1000000000) \<le> maxAge"
  by (auto simp: discovery_Decode_def split: sum.splits if_splits dest!: sealed_decode_authentic)

section \<open>An example world\<close>

text \<open>Keys are single characters; a signature repeats the signer's.\<close>

definition dx_keys :: "(char, char) keys" where
  "dx_keys = \<lparr>k_sign = (\<lambda>p _. Some (replicate 64 p)), k_verify = (\<lambda>p _ s. s = replicate 64 p), k_public = id,
     k_marshalPub = (\<lambda>p. Some [p]), k_unmarshalPub = (\<lambda>b. if b = [] then None else Some (hd b)), k_idFromPub = (\<lambda>p. Some [p]), k_idStr = id\<rparr>"

definition dx_ecdh :: "(char, char) ecdh" where
  "dx_ecdh = \<lparr>ec_privIsEd = (\<lambda>_. True), ec_privRaw = (\<lambda>p. Some (replicate 64 p)), ec_pubIsEd = (\<lambda>_. True),
     ec_pubRaw = (\<lambda>p. Some (replicate 32 p)), ec_getPublic = id, ec_montgomery = Some, ec_sha512 = (\<lambda>s. s @ s), ec_x25519 = (\<lambda>_ _. Some ''shared''),
     ec_sha256 = id, ec_hkdf = (\<lambda>_ _. replicate 32 (CHR ''k''))\<rparr>"

definition dx_rec :: DiscRecord where
  "dx_rec = \<lparr>dr_Version = discovery_RecordVersion, dr_Addresses = [''/ip4/a''], dr_Timestamp = 0\<rparr>"

definition dx_aead :: "DiscRecord aead" where
  "dx_aead = \<lparr>a_seal = (\<lambda>_ _ _. replicate 16 (CHR ''c'')), a_open = (\<lambda>_ _ _. Some (Some dx_rec))\<rparr>"

definition dx_friend :: "char \<Rightarrow> Friend" where
  "dx_friend c = \<lparr>fr_Name = [c], fr_PeerID = [c], fr_PublicKey = std_encode [c], fr_AddedAt = 0, fr_RendezvousHint = []\<rparr>"

definition dx_resolver :: "char \<Rightarrow> (char, char) Resolver" where
  "dx_resolver c = \<lparr>rs_keys = dx_keys, rs_ecdh = dx_ecdh, rs_aead = dx_aead, rs_multiaddr = Some, rs_myPriv = c, rs_myPub = c, rs_ttl = 100\<rparr>"

definition dx_publisher :: "char \<Rightarrow> (char, char) Publisher" where
  "dx_publisher c = \<lparr>pu_keys = dx_keys, pu_ecdh = dx_ecdh, pu_aead = dx_aead, pu_signer = c, pu_signerPub = c\<rparr>"

definition dx_puts :: "(string \<times> string) list" where
  "dx_puts = PublishOnce (dx_publisher (CHR ''a'')) [dx_friend (CHR ''b'')] [''/ip4/a''] 0 (\<lambda>_. (Some (replicate 24 (CHR ''n'')), True))"

definition dx_env :: resolve_env where
  "dx_env = \<lparr>rz_get = map_of dx_puts, rz_now = 0, rz_decodeAt = 0, rz_setAt = 0,
     rz_io = \<lparr>mkdir_ok = True, temp_name = None, chmod_ok = True, write_ok = True, close_ok = True, rename_ok = True\<rparr>\<rparr>"

lemma dx_ok: "keys_ok dx_keys" "ed_identity dx_ecdh c" "dh_commutes dx_ecdh c d" "aead_ok dx_aead dx_rec"
  "length (discovery_DeriveEncryptionKey dx_ecdh s) = 32" "ec_getPublic dx_ecdh = id" "k_public dx_keys = id"
  "k_marshalPub dx_keys c = Some [c]" "k_sign dx_keys c m \<noteq> None"
  by (simp_all add: keys_ok_def dx_keys_def ed_identity_def dx_ecdh_def dh_commutes_def aead_ok_def dx_aead_def
      discovery_DeriveEncryptionKey_def signatureLen_def)

lemma dx_secret: "c \<noteq> d \<Longrightarrow> DeriveSharedSecret dx_ecdh c d = Some ''shared''"
  by (simp add: DeriveSharedSecret_def dx_ecdh_def edPrivFromLibp2p_def edPubFromLibp2p_def ToX25519Private_def ToX25519Public_def)

lemma dx_friendKey: "unmarshalFriendPubKey dx_keys (fr_PublicKey (dx_friend c)) = Some c"
  using unmarshalFriendPubKey_marshalled [OF dx_ok(1,8), of c] by (simp add: dx_friend_def del: b64_encode.simps)

lemma dx_friend_sel [simp]: "fr_PeerID (dx_friend c) = [c]" "fr_PublicKey (dx_friend c) = std_encode [c]"
  by (simp_all add: dx_friend_def del: b64_encode.simps)

lemma dx_sel [simp]:
  "rs_keys (dx_resolver c) = dx_keys" "rs_ecdh (dx_resolver c) = dx_ecdh" "rs_aead (dx_resolver c) = dx_aead" "rs_myPriv (dx_resolver c) = c"
  "rs_myPub (dx_resolver c) = c" "rs_ttl (dx_resolver c) = 100" "pu_keys (dx_publisher c) = dx_keys" "pu_ecdh (dx_publisher c) = dx_ecdh"
  "pu_aead (dx_publisher c) = dx_aead" "pu_signer (dx_publisher c) = c" "pu_signerPub (dx_publisher c) = c" "rs_multiaddr (dx_resolver c) = Some"
  by (simp_all add: dx_resolver_def dx_publisher_def)

lemma dx_findFriend [simp]: "findFriend [dx_friend c] [c] = Some (dx_friend c)"
  by (simp add: findFriend_def)

section \<open>Properties\<close>

text \<open>What one friend publishes, the other resolves. A round of the publisher puts, for a friend with a
  valid key, a record under a key that the friend's resolver derives too; when the DHT returns that
  record, it is fresh and the friend has nothing cached, the resolver decrypts and verifies it,
  returns the published addresses and caches them.\<close>

theorem published_addresses_resolve:
  fixes K :: "('priv, 'pub) keys"
  assumes libs: "pu_keys P = K" "rs_keys R = K" "pu_ecdh P = E" "rs_ecdh R = E" "pu_aead P = A" "rs_aead R = A"
    and ok: "keys_ok K" "dh_commutes E (pu_signer P) (rs_myPriv R)" "ed_identity E (pu_signer P)" "ed_identity E (rs_myPriv R)"
      "\<And>s. length (discovery_DeriveEncryptionKey E s) = 32"
    and keys: "ec_getPublic E (pu_signer P) = pu_signerPub P" "k_public K (pu_signer P) = pu_signerPub P"
      "ec_getPublic E (rs_myPriv R) = rs_myPub R"
    and rec: "r = \<lparr>dr_Version = discovery_RecordVersion, dr_Addresses = addrs, dr_Timestamp = now div 1000000000\<rparr>" "aead_ok A r"
    and bob: "i < length fa" "k_marshalPub K (rs_myPub R) = Some bb" "bb \<noteq> []" "fr_PublicKey (fa ! i) = std_encode bb"
      "env i = (Some n, True)" "length n = nonceLen" "\<And>m. k_sign K (pu_signer P) m \<noteq> None"
    and alice: "findFriend fb target = Some f" "k_marshalPub K (pu_signerPub P) = Some ab" "ab \<noteq> []" "fr_PublicKey f = std_encode ab"
    and secret: "DeriveSharedSecret E (rs_myPriv R) (pu_signerPub P) \<noteq> None"
    and fresh: "cached R (rz_now z) target cache = None" "since (rz_decodeAt z) (now div 1000000000 * 1000000000) \<le> rs_ttl R"
  shows "\<exists>key blob. (key, blob) \<in> set (PublishOnce P fa addrs now env)
    \<and> (rz_get z key = Some blob \<longrightarrow>
         Resolve R z fb target cache =
           (Inr (parseMultiaddrs (rs_multiaddr R) addrs), map_option (cache_Set target addrs (rz_setAt z) (rz_io z)) cache))"
proof -
  obtain s where s: "DeriveSharedSecret E (rs_myPriv R) (pu_signerPub P) = Some s" using secret by auto
  then have s': "DeriveSharedSecret E (pu_signer P) (rs_myPub R) = Some s"
    using DeriveSharedSecret_commute [OF ok(3,4,2)] keys by simp
  obtain key where key: "discovery_DeriveDHTKey E s (pu_signerPub P) (rs_myPub R) = Some key"
    using ok(3,4) keys DeriveDHTKey_defined unfolding ed_identity_def by metis
  let ?k = "discovery_DeriveEncryptionKey E s"
  obtain sig where sig: "k_sign K (pu_signer P) (n @ a_seal A ?k n r) = Some sig" using bob(7) by (metis option.exhaust)
  then have "length sig = signatureLen" using ok(1) by (auto simp: keys_ok_def)
  then obtain blob where blob: "discovery_Encode K A r ?k (pu_signer P) (Some n) = Inr blob"
    using sig ok(5) by (simp add: discovery_Encode_def sealed_encode_def Let_def)
  have "unmarshalFriendPubKey K (fr_PublicKey (fa ! i)) = Some (rs_myPub R)"
    using unmarshalFriendPubKey_marshalled [OF ok(1) bob(2,3)] bob(4) by simp
  then have "publish_friend P r (fa ! i) (Some n) True = Some (key, blob)"
    using s' key blob libs by (simp add: publish_friend_def)
  then have "(key, blob) \<in> set (PublishOnce P fa addrs now env)"
    unfolding PublishOnce_def rec(1) [symmetric] Let_def using bob(5)
    by (intro map_filter_enumerate [OF bob(1)]) (simp only: prod.case fst_conv snd_conv)
  moreover have "sealed_decode K A blob ?k (pu_signerPub P) = Inr r"
    using sealed_roundtrip(1) [OF ok(1) rec(2) bob(6) blob [unfolded discovery_Encode_def]] keys(2) by simp
  then have "discovery_Decode K A blob ?k (pu_signerPub P) (rs_ttl R) (rz_decodeAt z) = Inr r"
    using fresh(2) rec(1) by (simp add: discovery_Decode_def)
  moreover have "unmarshalFriendPubKey K (fr_PublicKey f) = Some (pu_signerPub P)"
    using unmarshalFriendPubKey_marshalled [OF ok(1) alice(2,3)] alice(4) by simp
  moreover have "discovery_DeriveDHTKey E s (rs_myPub R) (pu_signerPub P) = Some key"
    using key DeriveDHTKey_commute [of E s] by metis
  ultimately show ?thesis
    using fresh(1) alice(1) s libs rec(1) by (intro exI [of _ key] exI [of _ blob]) (simp add: Resolve_def)
qed

theorem published_addresses_resolve_witness:
  "Resolve (dx_resolver (CHR ''b'')) dx_env [dx_friend (CHR ''a'')] ''a'' None = (Inr [''/ip4/a''], None)"
proof -
  obtain key blob where kb: "(key, blob) \<in> set dx_puts"
    "rz_get dx_env key = Some blob \<longrightarrow> Resolve (dx_resolver (CHR ''b'')) dx_env [dx_friend (CHR ''a'')] ''a'' None =
       (Inr (parseMultiaddrs Some [''/ip4/a'']), map_option (cache_Set ''a'' [''/ip4/a''] (rz_setAt dx_env) (rz_io dx_env)) None)"
    using published_addresses_resolve [of "dx_publisher (CHR ''a'')" dx_keys "dx_resolver (CHR ''b'')" dx_ecdh dx_aead dx_rec "[''/ip4/a'']" 0
        0 "[dx_friend (CHR ''b'')]" "[CHR ''b'']" "\<lambda>_. (Some (replicate 24 (CHR ''n'')), True)" "replicate 24 (CHR ''n'')"
        "[dx_friend (CHR ''a'')]" "''a''" "dx_friend (CHR ''a'')" "[CHR ''a'']" dx_env None] dx_ok(4) [unfolded dx_rec_def]
    by (auto simp: dx_ok dx_secret dx_puts_def dx_rec_def nonceLen_def cached_def since_def dx_env_def simp del: b64_encode.simps)
  have "\<exists>p. dx_puts = [] \<or> dx_puts = [p]"
    by (auto simp: dx_puts_def PublishOnce_def Let_def map_filter_def)
  with kb(1) have "dx_puts = [(key, blob)]" by (metis empty_iff empty_set set_ConsD)
  moreover have "rz_get dx_env = map_of dx_puts" by (simp add: dx_env_def)
  moreover have "map_of [(key, blob)] key = Some blob" by simp
  ultimately have "rz_get dx_env key = Some blob" by metis
  with kb(2) show ?thesis by (simp add: parseMultiaddrs_def map_filter_def)
qed

text \<open>Two friends cannot both look each other up. The DHT key of a pair of friends is the same in both
  directions, so whatever the DHT holds, one value answers both lookups; it is signed by one of the
  two, and the lookup that expects the other's signature fails. (No signature verifies under two
  different keys; neither side has a fresh cache entry.)\<close>

theorem mutual_lookups_exclude_each_other:
  fixes K :: "('priv, 'pub) keys"
  assumes libs: "rs_keys Ra = K" "rs_keys Rb = K" "rs_ecdh Ra = E" "rs_ecdh Rb = E"
    and ids: "ed_identity E (rs_myPriv Ra)" "ed_identity E (rs_myPriv Rb)" "dh_commutes E (rs_myPriv Ra) (rs_myPriv Rb)"
      "ec_getPublic E (rs_myPriv Ra) = rs_myPub Ra" "ec_getPublic E (rs_myPriv Rb) = rs_myPub Rb"
    and friends: "findFriend friendsA bob = Some fb" "unmarshalFriendPubKey K (fr_PublicKey fb) = Some (rs_myPub Rb)"
      "findFriend friendsB alice = Some fa" "unmarshalFriendPubKey K (fr_PublicKey fa) = Some (rs_myPub Ra)"
    and dht: "rz_get za = rz_get zb"
    and cold: "cached Ra (rz_now za) bob ca = None" "cached Rb (rz_now zb) alice cb = None"
    and unforgeable: "\<And>m s. \<not> (k_verify K (rs_myPub Ra) m s \<and> k_verify K (rs_myPub Rb) m s)"
  shows "isl (fst (Resolve Ra za friendsA bob ca)) \<or> isl (fst (Resolve Rb zb friendsB alice cb))"
proof (rule ccontr)
  assume "\<not> ?thesis"
  then obtain x ca' y cb' where a: "Resolve Ra za friendsA bob ca = (Inr x, ca')" and b: "Resolve Rb zb friendsB alice cb = (Inr y, cb')"
    by (cases "Resolve Ra za friendsA bob ca"; cases "Resolve Rb zb friendsB alice cb") (auto simp: isl_def, metis sum.exhaust)
  obtain sa ka blob ra where a': "DeriveSharedSecret E (rs_myPriv Ra) (rs_myPub Rb) = Some sa"
    "discovery_DeriveDHTKey E sa (rs_myPub Ra) (rs_myPub Rb) = Some ka" "rz_get za ka = Some blob"
    "k_verify K (rs_myPub Rb) (drop signatureLen blob) (take signatureLen blob)"
    using Resolve_from_dht [OF a cold(1)] libs friends(1,2) discovery_Decode_sound by (metis option.inject)
  obtain sb kb blob' rb where b': "DeriveSharedSecret E (rs_myPriv Rb) (rs_myPub Ra) = Some sb"
    "discovery_DeriveDHTKey E sb (rs_myPub Rb) (rs_myPub Ra) = Some kb" "rz_get zb kb = Some blob'"
    "k_verify K (rs_myPub Ra) (drop signatureLen blob') (take signatureLen blob')"
    using Resolve_from_dht [OF b cold(2)] libs friends(3,4) discovery_Decode_sound by (metis option.inject)
  have "sa = sb" using DeriveSharedSecret_commute [OF ids(1-3)] ids(4,5) a'(1) b'(1) by simp
  then have "ka = kb" using a'(2) b'(2) DeriveDHTKey_commute by (metis option.inject)
  then have "blob = blob'" using a'(3) b'(3) dht by simp
  with a'(4) b'(4) unforgeable show False by blast
qed

theorem mutual_lookups_exclude_each_other_witness:
  "isl (fst (Resolve (dx_resolver (CHR ''a'')) dx_env [dx_friend (CHR ''b'')] ''b'' None))
   \<or> isl (fst (Resolve (dx_resolver (CHR ''b'')) dx_env [dx_friend (CHR ''a'')] ''a'' None))"
  by (rule mutual_lookups_exclude_each_other [where K = dx_keys and E = dx_ecdh and fa = "dx_friend (CHR ''a'')" and fb = "dx_friend (CHR ''b'')"])
    (use dx_friendKey in \<open>simp_all add: dx_ok cached_def del: b64_encode.simps\<close>, simp add: dx_keys_def)

text \<open>C33: The resolver trusts only friends and signatures. A fresh cache entry is returned as it is; without
  one, a peer that is not a friend is refused whatever the DHT holds; a failed lookup never changes
  the cache; and what a successful lookup returns and caches comes from a record that verified under
  the friend's own key and is younger than the TTL.\<close>

theorem resolve_trusts_only_friends:
  "(\<forall>a. cached R (rz_now z) target cache = Some a \<longrightarrow> Resolve R z friends target cache = (Inr (parseMultiaddrs (rs_multiaddr R) a), cache))
   \<and> (cached R (rz_now z) target cache = None \<and> (\<forall>f\<in>set friends. fr_PeerID f \<noteq> target) \<longrightarrow>
        Resolve R z friends target cache = (Inl ErrNotFriend, cache))
   \<and> (\<forall>e cache'. Resolve R z friends target cache = (Inl e, cache') \<longrightarrow> cache' = cache)
   \<and> (\<forall>addrs cache'. Resolve R z friends target cache = (Inr addrs, cache') \<and> cached R (rz_now z) target cache = None \<longrightarrow>
        (\<exists>f pub blob (r :: DiscRecord). f \<in> set friends \<and> fr_PeerID f = target \<and> unmarshalFriendPubKey (rs_keys R) (fr_PublicKey f) = Some pub
          \<and> k_verify (rs_keys R) pub (drop signatureLen blob) (take signatureLen blob)
          \<and> (\<exists>key secret. DeriveSharedSecret (rs_ecdh R) (rs_myPriv R) pub = Some secret \<and> rz_get z key = Some blob
               \<and> sealed_open (rs_aead R) blob (discovery_DeriveEncryptionKey (rs_ecdh R) secret) = Inr r)
          \<and> since (rz_decodeAt z) (dr_Timestamp r * 1000000000) \<le> rs_ttl R
          \<and> addrs = parseMultiaddrs (rs_multiaddr R) (dr_Addresses r)
          \<and> cache' = map_option (cache_Set target (dr_Addresses r) (rz_setAt z) (rz_io z)) cache))"
proof (intro conjI allI impI)
  fix a
  assume "cached R (rz_now z) target cache = Some a"
  then show "Resolve R z friends target cache = (Inr (parseMultiaddrs (rs_multiaddr R) a), cache)" by (simp add: Resolve_def)
next
  assume "cached R (rz_now z) target cache = None \<and> (\<forall>f\<in>set friends. fr_PeerID f \<noteq> target)"
  then show "Resolve R z friends target cache = (Inl ErrNotFriend, cache)"
    using find_None_set [of "\<lambda>f. fr_PeerID f = target" friends] by (simp add: Resolve_def findFriend_def)
next
  fix e cache'
  assume "Resolve R z friends target cache = (Inl e, cache')"
  then show "cache' = cache" by (auto simp: Resolve_def split: option.splits sum.splits)
next
  fix addrs cache'
  assume a: "Resolve R z friends target cache = (Inr addrs, cache') \<and> cached R (rz_now z) target cache = None"
  from a obtain f pub secret key blob r where x: "findFriend friends target = Some f"
    "unmarshalFriendPubKey (rs_keys R) (fr_PublicKey f) = Some pub"
    "DeriveSharedSecret (rs_ecdh R) (rs_myPriv R) pub = Some secret" "rz_get z key = Some blob"
    "discovery_Decode (rs_keys R) (rs_aead R) blob (discovery_DeriveEncryptionKey (rs_ecdh R) secret) pub (rs_ttl R) (rz_decodeAt z) = Inr r"
    "addrs = parseMultiaddrs (rs_multiaddr R) (dr_Addresses r)"
    "cache' = map_option (cache_Set target (dr_Addresses r) (rz_setAt z) (rz_io z)) cache"
    by (elim conjE Resolve_from_dht)
  have "f \<in> set friends \<and> fr_PeerID f = target" using x(1) find_Some_set unfolding findFriend_def by fast
  with x discovery_Decode_sound [OF x(5)]
  show "\<exists>f pub blob (r :: DiscRecord). f \<in> set friends \<and> fr_PeerID f = target \<and> unmarshalFriendPubKey (rs_keys R) (fr_PublicKey f) = Some pub
          \<and> k_verify (rs_keys R) pub (drop signatureLen blob) (take signatureLen blob)
          \<and> (\<exists>key secret. DeriveSharedSecret (rs_ecdh R) (rs_myPriv R) pub = Some secret \<and> rz_get z key = Some blob
               \<and> sealed_open (rs_aead R) blob (discovery_DeriveEncryptionKey (rs_ecdh R) secret) = Inr r)
          \<and> since (rz_decodeAt z) (dr_Timestamp r * 1000000000) \<le> rs_ttl R
          \<and> addrs = parseMultiaddrs (rs_multiaddr R) (dr_Addresses r)
          \<and> cache' = map_option (cache_Set target (dr_Addresses r) (rz_setAt z) (rz_io z)) cache"
    by (intro exI [of _ f] exI [of _ pub] exI [of _ blob] exI [of _ r]) auto
qed

theorem resolve_trusts_only_friends_witness:
  "Resolve (dx_resolver (CHR ''b'')) dx_env [dx_friend (CHR ''a'')] ''z'' None = (Inl ErrNotFriend, None)"
  using resolve_trusts_only_friends [of "dx_resolver (CHR ''b'')" dx_env "''z''" None "[dx_friend (CHR ''a'')]"]
  by (simp add: cached_def)

end
