(* ===== verification/Go_Chan.thy ===== *)
theory Go_Chan
  imports Prelude
begin

text \<open>
  Buffered Go channels and the subscription buses built on them.

  A channel made by \<open>make(chan T, n)\<close> is its capacity, its queued values (head first out)
  and a flag set by \<open>close\<close>. The program only ever sends with \<open>select { case ch <- v: default: }\<close>,
  which never blocks: the value is queued when there is room and dropped otherwise. A send on
  a closed channel panics in Go; \<open>send_nb\<close> leaves a closed channel alone and the buses
  carry the invariant that no subscribed channel is closed, so that branch is never taken.
\<close>

record 'a chan =
  ch_cap :: nat
  ch_buf :: "'a list"
  ch_closed :: bool

definition make_chan :: "nat \<Rightarrow> 'a chan" where
  "make_chan n = \<lparr>ch_cap = n, ch_buf = [], ch_closed = False\<rparr>"

definition ch_full :: "'a chan \<Rightarrow> bool" where
  "ch_full c \<longleftrightarrow> ch_cap c \<le> length (ch_buf c)"

definition send_nb :: "'a \<Rightarrow> 'a chan \<Rightarrow> 'a chan" where
  "send_nb v c = (if ch_closed c \<or> ch_full c then c else c\<lparr>ch_buf := ch_buf c @ [v]\<rparr>)"

definition close_chan :: "'a chan \<Rightarrow> 'a chan" where
  "close_chan c = c\<lparr>ch_closed := True\<rparr>"

text \<open>A non-blocking receive: the oldest queued value, if any.\<close>

definition recv_nb :: "'a chan \<Rightarrow> 'a option \<times> 'a chan" where
  "recv_nb c = (case ch_buf c of [] \<Rightarrow> (None, c) | v # vs \<Rightarrow> (Some v, c\<lparr>ch_buf := vs\<rparr>))"

text \<open>A channel is well formed when its queue fits its capacity, and open when not closed.\<close>

definition chan_ok :: "nat \<Rightarrow> 'a chan \<Rightarrow> bool" where
  "chan_ok n c \<longleftrightarrow> ch_cap c = n \<and> length (ch_buf c) \<le> n \<and> \<not> ch_closed c"

lemma chan_ok_make [simp, intro]: "chan_ok n (make_chan n)"
  by (simp add: chan_ok_def make_chan_def)

lemma chan_ok_send [intro]: "chan_ok n c \<Longrightarrow> chan_ok n (send_nb v c)"
  by (auto simp: chan_ok_def send_nb_def ch_full_def)

lemma chan_ok_recv [intro]: "chan_ok n c \<Longrightarrow> chan_ok n (snd (recv_nb c))"
  by (auto simp: chan_ok_def recv_nb_def split: list.splits)

lemma send_nb_room:
  "chan_ok n c \<Longrightarrow> length (ch_buf c) < n \<Longrightarrow> ch_buf (send_nb v c) = ch_buf c @ [v]"
  by (auto simp: chan_ok_def send_nb_def ch_full_def)

lemma send_nb_full: "chan_ok n c \<Longrightarrow> length (ch_buf c) = n \<Longrightarrow> send_nb v c = c"
  by (auto simp: chan_ok_def send_nb_def ch_full_def)

lemma send_nb_buf:
  "ch_buf (send_nb v c) = (if ch_closed c \<or> ch_full c then ch_buf c else ch_buf c @ [v])"
  by (simp add: send_nb_def)

lemma send_nb_const [simp]:
  "ch_cap (send_nb v c) = ch_cap c" "ch_closed (send_nb v c) = ch_closed c"
  by (auto simp: send_nb_def)

lemma recv_nb_buf:
  "recv_nb c = (r, c') \<Longrightarrow> (case r of None \<Rightarrow> ch_buf c = [] \<and> c' = c | Some v \<Rightarrow> ch_buf c = v # ch_buf c')"
  by (auto simp: recv_nb_def split: list.splits)

section \<open>Subscription buses\<close>

text \<open>
  Three places of the program keep a set of subscriber channels and push every event into all of
  them: \<open>call.Session\<close> and \<open>friends.Presence\<close> (a map from subscription id to channel) and
  \<open>call.Manager\<close> (a slice of channels). \<open>invite.Manager\<close> keeps a slice per code and is not one of them:
  an event goes only to the channels of its code. The interface:
  what a lookup of subscription \<open>i\<close> sees after each operation. \<open>cap\<close> is the capacity the
  constructor gives every channel.
\<close>

locale event_bus =
  fixes subs_of :: "'s \<Rightarrow> nat \<Rightarrow> 'e chan option"
    and next_sub :: "'s \<Rightarrow> nat"
    and subscribe :: "'s \<Rightarrow> 's"
    and unsubscribe :: "nat \<Rightarrow> 's \<Rightarrow> 's"
    and publish :: "'e \<Rightarrow> 's \<Rightarrow> 's"
    and receive :: "nat \<Rightarrow> 's \<Rightarrow> 's"
    and wf :: "'s \<Rightarrow> bool"
    and cap :: nat
  assumes wf_subscribe: "wf s \<Longrightarrow> wf (subscribe s)"
    and wf_unsubscribe: "wf s \<Longrightarrow> wf (unsubscribe i s)"
    and wf_publish: "wf s \<Longrightarrow> wf (publish e s)"
    and wf_receive: "wf s \<Longrightarrow> wf (receive i s)"
    and fresh: "wf s \<Longrightarrow> next_sub s \<le> i \<Longrightarrow> subs_of s i = None"
    and next_subscribe: "wf s \<Longrightarrow> next_sub (subscribe s) = Suc (next_sub s)"
    and next_other: "wf s \<Longrightarrow> next_sub (unsubscribe i s) = next_sub s"
      "wf s \<Longrightarrow> next_sub (publish e s) = next_sub s" "wf s \<Longrightarrow> next_sub (receive i s) = next_sub s"
    and subs_subscribe:
      "wf s \<Longrightarrow> subs_of (subscribe s) = (subs_of s)(next_sub s \<mapsto> make_chan cap)"
    and subs_unsubscribe: "wf s \<Longrightarrow> subs_of (unsubscribe i s) = (subs_of s)(i := None)"
    and subs_publish: "wf s \<Longrightarrow> subs_of (publish e s) i = map_option (send_nb e) (subs_of s i)"
    and subs_receive: "wf s \<Longrightarrow> subs_of (receive j s) i =
        (if i = j then map_option (snd \<circ> recv_nb) (subs_of s i) else subs_of s i)"
begin

definition bus_inv :: "'s \<Rightarrow> bool" where
  "bus_inv s \<longleftrightarrow> wf s \<and> (\<forall>i c. subs_of s i = Some c \<longrightarrow> chan_ok cap c)"

lemma bus_inv_wf: "bus_inv s \<Longrightarrow> wf s"
  by (simp add: bus_inv_def)

lemma bus_inv_chan: "bus_inv s \<Longrightarrow> subs_of s i = Some c \<Longrightarrow> chan_ok cap c"
  by (simp add: bus_inv_def)

lemma bus_inv_subscribe: "bus_inv s \<Longrightarrow> bus_inv (subscribe s)"
  by (auto simp: bus_inv_def wf_subscribe subs_subscribe split: if_splits)

lemma bus_inv_unsubscribe: "bus_inv s \<Longrightarrow> bus_inv (unsubscribe i s)"
  by (auto simp: bus_inv_def wf_unsubscribe subs_unsubscribe split: if_splits)

lemma bus_inv_publish: "bus_inv s \<Longrightarrow> bus_inv (publish e s)"
  by (auto simp: bus_inv_def wf_publish subs_publish)

lemma bus_inv_receive: "bus_inv s \<Longrightarrow> bus_inv (receive i s)"
  by (auto simp: bus_inv_def wf_receive subs_receive split: if_splits)

text \<open>A subscriber with room gets the event at the end of its queue; a full one keeps its
  queue and loses the event; nobody else is affected.\<close>

lemma publish_delivers:
  assumes "bus_inv s" and "subs_of s i = Some c" and "length (ch_buf c) < cap"
  shows "\<exists>c'. subs_of (publish e s) i = Some c' \<and> ch_buf c' = ch_buf c @ [e]"
  using assms by (auto simp: bus_inv_def subs_publish intro: send_nb_room)

lemma publish_drops:
  assumes "bus_inv s" and "subs_of s i = Some c" and "length (ch_buf c) = cap"
  shows "subs_of (publish e s) i = Some c"
proof -
  from bus_inv_chan [OF assms(1,2)] assms(3) have "send_nb e c = c" by (rule send_nb_full)
  with assms show ?thesis by (simp add: bus_inv_wf subs_publish)
qed

lemma subscribe_lookup:
  "wf s \<Longrightarrow> subs_of (subscribe s) (next_sub s) = Some (make_chan cap)"
  by (simp add: subs_subscribe)

text \<open>A subscriber that keeps up: as long as its backlog never exceeds the capacity, a run of
  publications appends exactly the published events, in order.\<close>

lemma publish_run:
  assumes "bus_inv s" and "subs_of s i = Some c" and "length (ch_buf c) + length es \<le> cap"
  shows "\<exists>c'. subs_of (fold publish es s) i = Some c' \<and> ch_buf c' = ch_buf c @ es"
  using assms
proof (induction es arbitrary: s c)
  case Nil
  then show ?case by auto
next
  case (Cons e es)
  from Cons.prems have "length (ch_buf c) < cap" by simp
  with Cons.prems publish_delivers obtain c1 where
    c1: "subs_of (publish e s) i = Some c1" "ch_buf c1 = ch_buf c @ [e]" by blast
  from Cons.prems have "bus_inv (publish e s)" by (auto intro: bus_inv_publish)
  from Cons.IH [OF this c1(1)] c1(2) Cons.prems show ?case by auto
qed

text \<open>After an unsubscription no later publication reaches the channel.\<close>

lemma unsubscribed_stays_silent:
  assumes "bus_inv s"
  shows "subs_of (fold publish es (unsubscribe i s)) i = None"
proof -
  have "subs_of t i = None \<Longrightarrow> bus_inv t \<Longrightarrow> subs_of (fold publish es t) i = None" for t
    by (induction es arbitrary: t) (auto simp: subs_publish bus_inv_publish bus_inv_wf)
  with assms show ?thesis by (simp add: subs_unsubscribe bus_inv_unsubscribe bus_inv_wf)
qed

end

end
