(* ===== verification/Ipc.thy ===== *)
theory Ipc
  imports Go_Chan
begin

text \<open>
  \<open>internal/ipc\<close>: the JSON-RPC protocol between the daemon and its clients (\<open>protocol.go\<close>, \<open>errors.go\<close>,
  \<open>conn.go\<close>, \<open>server.go\<close>, \<open>client.go\<close>).

  A line on the socket is the message it decodes to (\<open>None\<close> when it is not a message); JSON values are
  opaque, of type \<open>'j\<close>. A handler is a function on the daemon's state that also returns the events it emitted
  on the connection before it returned. The client's goroutines are steps: the start of a call, a line read, the end of the
  connection, the registration of a subscription.
\<close>

section \<open>Protocol\<close>

definition JSONRPCVersion :: string where "JSONRPCVersion = ''2.0''"
definition ProtocolVersion :: string where "ProtocolVersion = ''1''"

record rpc_error =
  er_Code :: int
  er_Message :: string

definition ErrCodeMethodNotFound :: int where "ErrCodeMethodNotFound = - 32601"
definition ErrCodeInvalidParams :: int where "ErrCodeInvalidParams = - 32602"
definition ErrCodeInternalError :: int where "ErrCodeInternalError = - 32603"
definition ErrCodeNoSuchFriend :: int where "ErrCodeNoSuchFriend = - 32002"
definition ErrCodeNoSuchCall :: int where "ErrCodeNoSuchCall = - 32003"

definition NewError :: "int \<Rightarrow> string \<Rightarrow> rpc_error" where
  "NewError code msg = \<lparr>er_Code = code, er_Message = msg\<rparr>"

record 'j Message =
  ms_JSONRPC :: string
  ms_ID :: "int option"
  ms_Method :: string
  ms_Params :: "'j option"
  ms_Result :: "'j option"
  ms_Error :: "rpc_error option"

definition IsRequest :: "'j Message \<Rightarrow> bool" where
  "IsRequest m \<longleftrightarrow> ms_Method m \<noteq> [] \<and> ms_ID m \<noteq> None"

definition IsNotification :: "'j Message \<Rightarrow> bool" where
  "IsNotification m \<longleftrightarrow> ms_Method m \<noteq> [] \<and> ms_ID m = None"

definition IsResponse :: "'j Message \<Rightarrow> bool" where
  "IsResponse m \<longleftrightarrow> ms_Method m = [] \<and> ms_ID m \<noteq> None"

record 'j Event =
  ev_Sub :: string
  ev_Kind :: string
  ev_Data :: 'j

record HelloParams =
  hp_Version :: string
  hp_DaemonVersion :: string

text \<open>The JSON encodings the protocol itself makes, with their decoders.\<close>

record 'j codec =
  co_hello :: "HelloParams \<Rightarrow> 'j"
  co_unhello :: "'j \<Rightarrow> HelloParams option"
  co_event :: "'j Event \<Rightarrow> 'j"
  co_unevent :: "'j \<Rightarrow> 'j Event option"

definition EmitEvent :: "'j codec \<Rightarrow> string \<Rightarrow> string \<Rightarrow> 'j \<Rightarrow> 'j Message" where
  "EmitEvent C subID kind data =
    \<lparr>ms_JSONRPC = JSONRPCVersion, ms_ID = None, ms_Method = ''event'',
     ms_Params = Some (co_event C \<lparr>ev_Sub = subID, ev_Kind = kind, ev_Data = data\<rparr>), ms_Result = None, ms_Error = None\<rparr>"

section \<open>Server\<close>

datatype handler_error = RpcErr rpc_error | OtherErr string

type_synonym ('j, 's) handler = "'j option \<Rightarrow> 's \<Rightarrow> (handler_error + 'j option) \<times> 's \<times> 'j Message list"

record ('j, 's) Server =
  sv_daemonVersion :: string
  sv_handlers :: "(string \<times> ('j, 's) handler) list"

definition NewServer :: "string \<Rightarrow> ('j, 's) Server" where
  "NewServer v = \<lparr>sv_daemonVersion = v, sv_handlers = []\<rparr>"

definition Register_method :: "string \<Rightarrow> ('j, 's) handler \<Rightarrow> ('j, 's) Server \<Rightarrow> ('j, 's) Server" where
  "Register_method m h sv = sv\<lparr>sv_handlers := mput m h (sv_handlers sv)\<rparr>"

definition sendHelloLocked :: "'j codec \<Rightarrow> ('j, 's) Server \<Rightarrow> 'j Message" where
  "sendHelloLocked C sv =
    \<lparr>ms_JSONRPC = JSONRPCVersion, ms_ID = None, ms_Method = ''hello'',
     ms_Params = Some (co_hello C \<lparr>hp_Version = ProtocolVersion, hp_DaemonVersion = sv_daemonVersion sv\<rparr>),
     ms_Result = None, ms_Error = None\<rparr>"

definition respondErrLocked :: "int option \<Rightarrow> rpc_error \<Rightarrow> 'j Message" where
  "respondErrLocked i e =
    \<lparr>ms_JSONRPC = JSONRPCVersion, ms_ID = i, ms_Method = [], ms_Params = None, ms_Result = None, ms_Error = Some e\<rparr>"

text \<open>A result is \<open>None\<close> when it cannot be marshalled.\<close>

definition respondOKLocked :: "int option \<Rightarrow> 'j option \<Rightarrow> 'j Message" where
  "respondOKLocked i result =
    (case result of
       None \<Rightarrow> respondErrLocked i (NewError ErrCodeInternalError ''marshalling result'')
     | Some raw \<Rightarrow> \<lparr>ms_JSONRPC = JSONRPCVersion, ms_ID = i, ms_Method = [], ms_Params = None, ms_Result = Some raw, ms_Error = None\<rparr>)"

text \<open>One line: what is written to the connection, in order. In the text of the error the method name stands between
  quotes; the escapes \<open>%q\<close> makes for characters that do not print are left out.\<close>

definition not_found :: "string \<Rightarrow> string" where
  "not_found m = ''method '' @ [CHR 0x22] @ m @ [CHR 0x22] @ '' not found''"

definition handle_line :: "('j, 's) Server \<Rightarrow> 'j Message option \<Rightarrow> 's \<Rightarrow> 'j Message list \<times> 's" where
  "handle_line sv line s =
    (case line of
       None \<Rightarrow> ([], s)
     | Some req \<Rightarrow>
         if \<not> IsRequest req \<and> \<not> IsNotification req then ([], s)
         else case map_of (sv_handlers sv) (ms_Method req) of
           None \<Rightarrow>
             (if IsRequest req then [respondErrLocked (ms_ID req) (NewError ErrCodeMethodNotFound (not_found (ms_Method req)))] else [], s)
         | Some h \<Rightarrow>
             (case h (ms_Params req) s of
                (result, s', evs) \<Rightarrow>
                  if \<not> IsRequest req then (evs, s')
                  else (evs @ [case result of
                          Inl (RpcErr e) \<Rightarrow> respondErrLocked (ms_ID req) e
                        | Inl (OtherErr e) \<Rightarrow> respondErrLocked (ms_ID req) (NewError ErrCodeInternalError e)
                        | Inr r \<Rightarrow> respondOKLocked (ms_ID req) r], s')))"

fun serve_lines :: "('j, 's) Server \<Rightarrow> 'j Message option list \<Rightarrow> 's \<Rightarrow> 'j Message list \<times> 's" where
  "serve_lines sv [] s = ([], s)"
| "serve_lines sv (l # ls) s =
    (case handle_line sv l s of (out, s1) \<Rightarrow> case serve_lines sv ls s1 of (outs, s2) \<Rightarrow> (out @ outs, s2))"

definition handleConn :: "'j codec \<Rightarrow> ('j, 's) Server \<Rightarrow> 'j Message option list \<Rightarrow> 's \<Rightarrow> 'j Message list \<times> 's" where
  "handleConn C sv ls s = (case serve_lines sv ls s of (outs, s') \<Rightarrow> (sendHelloLocked C sv # outs, s'))"

section \<open>Client\<close>

definition maxPendingEventsPerSub :: nat where "maxPendingEventsPerSub = 16"

text \<open>\<open>cl_chans\<close> are the reply channels of the calls, by id (a call keeps its channel after it left the pending
  map); \<open>cl_pending\<close>, \<open>cl_subs\<close> and \<open>cl_pendEvs\<close> are \<open>None\<close> once the read loop has ended.\<close>

record 'j Client =
  cl_daemonVersion :: string
  cl_nextID :: int
  cl_chans :: "int \<rightharpoonup> 'j Message chan"
  cl_pending :: "int set option"
  cl_subs :: "(string \<rightharpoonup> 'j Event chan) option"
  cl_pendEvs :: "string \<Rightarrow> 'j Event list"

datatype dial_error = ErrHelloRead | ErrHelloParse | ErrHelloExpected string | ErrHelloParams | ErrProtocolMismatch string

text \<open>\<open>Dial\<close> on an open connection: the first line that arrives (\<open>None\<close>: no line), \<open>Some None\<close> when it does not decode.\<close>

definition Dial :: "'j codec \<Rightarrow> 'j Message option option \<Rightarrow> dial_error + 'j Client" where
  "Dial C line =
    (case line of
       None \<Rightarrow> Inl ErrHelloRead
     | Some None \<Rightarrow> Inl ErrHelloParse
     | Some (Some hello) \<Rightarrow>
         if ms_Method hello \<noteq> ''hello'' then Inl (ErrHelloExpected (ms_Method hello))
         else case Option.bind (ms_Params hello) (co_unhello C) of
           None \<Rightarrow> Inl ErrHelloParams
         | Some hp \<Rightarrow>
             if hp_Version hp \<noteq> ProtocolVersion then Inl (ErrProtocolMismatch (hp_Version hp))
             else Inr \<lparr>cl_daemonVersion = hp_DaemonVersion hp, cl_nextID = 0, cl_chans = Map.empty, cl_pending = Some {},
                       cl_subs = Some Map.empty, cl_pendEvs = (\<lambda>_. [])\<rparr>)"

text \<open>The first half of \<open>Call\<close>: the request that is written, or \<open>None\<close> when the client is closed.\<close>

definition Call_begin :: "string \<Rightarrow> 'j option \<Rightarrow> 'j Client \<Rightarrow> 'j Message option \<times> 'j Client" where
  "Call_begin method params c =
    (let i = cl_nextID c + 1; c1 = c\<lparr>cl_nextID := i\<rparr> in
     case cl_pending c1 of
       None \<Rightarrow> (None, c1)
     | Some P \<Rightarrow>
         (Some \<lparr>ms_JSONRPC = JSONRPCVersion, ms_ID = Some i, ms_Method = method, ms_Params = params, ms_Result = None, ms_Error = None\<rparr>,
          c1\<lparr>cl_pending := Some (insert i P), cl_chans := (cl_chans c1)(i \<mapsto> make_chan 1)\<rparr>))"

text \<open>A write that failed, or a context that is done: the call is given up.\<close>

definition Call_abandon :: "int \<Rightarrow> 'j Client \<Rightarrow> 'j Client" where
  "Call_abandon i c = c\<lparr>cl_pending := map_option (\<lambda>P. P - {i}) (cl_pending c)\<rparr>"

datatype 'j call_result = CallOK "'j option" | CallRpcError rpc_error | CallClosed | CallWaiting

text \<open>The second half of \<open>Call\<close>: what the reply channel gives. Once the read loop has ended, the select may also
  take the branch of \<open>c.closed\<close>, which reports a closed client even when a reply waits.\<close>

definition Call_end :: "int \<Rightarrow> 'j Client \<Rightarrow> 'j call_result" where
  "Call_end i c =
    (case cl_chans c i of
       None \<Rightarrow> CallWaiting
     | Some ch \<Rightarrow>
         (case ch_buf ch of
            m # _ \<Rightarrow> (case ms_Error m of Some e \<Rightarrow> CallRpcError e | None \<Rightarrow> CallOK (ms_Result m))
          | [] \<Rightarrow> if ch_closed ch then CallClosed else CallWaiting))"

definition route_event :: "'j Event \<Rightarrow> 'j Client \<Rightarrow> 'j Client" where
  "route_event ev c =
    (case cl_subs c of
       None \<Rightarrow> c
     | Some S \<Rightarrow>
         (case S (ev_Sub ev) of
            Some ch \<Rightarrow> c\<lparr>cl_subs := Some (S(ev_Sub ev \<mapsto> send_nb ev ch))\<rparr>
          | None \<Rightarrow>
              if length (cl_pendEvs c (ev_Sub ev)) < maxPendingEventsPerSub
              then c\<lparr>cl_pendEvs := (cl_pendEvs c)(ev_Sub ev := cl_pendEvs c (ev_Sub ev) @ [ev])\<rparr>
              else c))"

definition readLoop_line :: "'j codec \<Rightarrow> 'j Message option \<Rightarrow> 'j Client \<Rightarrow> 'j Client" where
  "readLoop_line C line c =
    (case line of
       None \<Rightarrow> c
     | Some msg \<Rightarrow>
         if IsResponse msg
         then let i = the (ms_ID msg) in
           (case cl_pending c of
              None \<Rightarrow> c
            | Some P \<Rightarrow>
                if i \<in> P
                then c\<lparr>cl_pending := Some (P - {i}), cl_chans := (cl_chans c)(i := map_option (send_nb msg) (cl_chans c i))\<rparr>
                else c)
         else if IsNotification msg \<and> ms_Method msg = ''event''
         then (case Option.bind (ms_Params msg) (co_unevent C) of None \<Rightarrow> c | Some ev \<Rightarrow> route_event ev c)
         else c)"

definition readLoop_end :: "'j Client \<Rightarrow> 'j Client" where
  "readLoop_end c =
    c\<lparr>cl_chans := (\<lambda>i. if i \<in> (case cl_pending c of None \<Rightarrow> {} | Some P \<Rightarrow> P) then map_option close_chan (cl_chans c i) else cl_chans c i),
      cl_pending := None, cl_subs := None, cl_pendEvs := (\<lambda>_. [])\<rparr>"

text \<open>The second half of \<open>Subscribe\<close>, once the response named the subscription.\<close>

definition Subscribe_register :: "string \<Rightarrow> 'j Client \<Rightarrow> bool \<times> 'j Client" where
  "Subscribe_register sub c =
    (case cl_subs c of
       None \<Rightarrow> (False, c)
     | Some S \<Rightarrow>
         (True, c\<lparr>cl_subs := Some (S(sub \<mapsto> fold send_nb (cl_pendEvs c sub) (make_chan 16))),
                  cl_pendEvs := (cl_pendEvs c)(sub := [])\<rparr>))"

definition Subscription_Close :: "string \<Rightarrow> 'j Client \<Rightarrow> 'j Client" where
  "Subscription_Close sub c = c\<lparr>cl_subs := map_option (\<lambda>S. S(sub := None)) (cl_subs c)\<rparr>"

section \<open>Calls and answers\<close>

fun begin_all :: "(string \<times> 'j option) list \<Rightarrow> 'j Client \<Rightarrow> 'j Message list \<times> 'j Client" where
  "begin_all [] c = ([], c)"
| "begin_all ((m, p) # cs) c =
    (case Call_begin m p c of
       (None, c1) \<Rightarrow> begin_all cs c1
     | (Some r, c1) \<Rightarrow> (case begin_all cs c1 of (rs, c2) \<Rightarrow> (r # rs, c2)))"

text \<open>What the handlers answer to a sequence of calls, each on the state the previous one left.\<close>

fun answers :: "('j, 's) Server \<Rightarrow> (string \<times> 'j option) list \<Rightarrow> 's \<Rightarrow> 'j call_result list" where
  "answers sv [] s = []"
| "answers sv ((m, p) # cs) s =
    (case map_of (sv_handlers sv) m of
       None \<Rightarrow> CallRpcError (NewError ErrCodeMethodNotFound (not_found m)) # answers sv cs s
     | Some h \<Rightarrow>
         (case h p s of
            (r, s', _) \<Rightarrow>
              (case r of
                 Inl (RpcErr e) \<Rightarrow> CallRpcError e
               | Inl (OtherErr e) \<Rightarrow> CallRpcError (NewError ErrCodeInternalError e)
               | Inr None \<Rightarrow> CallRpcError (NewError ErrCodeInternalError ''marshalling result'')
               | Inr (Some v) \<Rightarrow> CallOK (Some v)) # answers sv cs s'))"

definition emits_notifications :: "('j, 's) Server \<Rightarrow> bool" where
  "emits_notifications sv \<longleftrightarrow> (\<forall>(_, h)\<in>set (sv_handlers sv). \<forall>p s. list_all IsNotification (snd (snd (h p s))))"

lemma EmitEvent_notification: "IsNotification (EmitEvent C sub kind data)"
  by (simp add: EmitEvent_def IsNotification_def)

lemma response_kinds:
  "IsResponse (respondErrLocked (Some i) e)" "IsResponse (respondOKLocked (Some i) r)"
  "ms_ID (respondErrLocked k e) = k" "ms_ID (respondOKLocked k r) = k"
  by (auto simp: IsResponse_def respondErrLocked_def respondOKLocked_def split: option.splits)

lemma route_event_calls [simp]:
  "cl_chans (route_event ev c) = cl_chans c" "cl_pending (route_event ev c) = cl_pending c"
  by (auto simp: route_event_def split: option.splits)

lemma read_notification:
  assumes "IsNotification m"
  shows "cl_chans (readLoop_line C (Some m) c) = cl_chans c" "cl_pending (readLoop_line C (Some m) c) = cl_pending c"
  using assms by (auto simp: readLoop_line_def IsResponse_def IsNotification_def split: option.splits)

lemma read_notifications:
  "list_all IsNotification ms \<Longrightarrow> cl_chans (fold (readLoop_line C) (map Some ms) c) = cl_chans c
    \<and> cl_pending (fold (readLoop_line C) (map Some ms) c) = cl_pending c"
  by (induction ms arbitrary: c) (auto simp: read_notification)

text \<open>A reply channel is left alone once its call is no longer pending.\<close>

lemma read_settled:
  assumes "cl_pending c = Some P" and "i \<notin> P"
  shows "cl_chans (fold (readLoop_line C) ls c) i = cl_chans c i"
  using assms
proof (induction ls arbitrary: c P)
  case (Cons l ls)
  have "cl_chans (readLoop_line C l c) i = cl_chans c i \<and> (\<exists>P'. cl_pending (readLoop_line C l c) = Some P' \<and> i \<notin> P')"
    using Cons.prems by (auto simp: readLoop_line_def Let_def split: option.splits)
  with Cons.IH show ?case by (metis fold_simps(2))
qed simp

definition request :: "int \<Rightarrow> string \<Rightarrow> 'j option \<Rightarrow> 'j Message" where
  "request i m p = \<lparr>ms_JSONRPC = JSONRPCVersion, ms_ID = Some i, ms_Method = m, ms_Params = p, ms_Result = None, ms_Error = None\<rparr>"

fun requests :: "int \<Rightarrow> (string \<times> 'j option) list \<Rightarrow> 'j Message list" where
  "requests i [] = []"
| "requests i ((m, p) # cs) = request (i + 1) m p # requests (i + 1) cs"

lemma begin_all_open:
  assumes "cl_pending c = Some P" and "\<forall>i\<in>P. i \<le> cl_nextID c"
  shows "\<exists>c'. begin_all cs c = (requests (cl_nextID c) cs, c')
    \<and> cl_pending c' = Some (P \<union> {cl_nextID c <.. cl_nextID c + int (length cs)})
    \<and> (\<forall>i \<in> {cl_nextID c <.. cl_nextID c + int (length cs)}. cl_chans c' i = Some (make_chan 1))"
  using assms
proof (induction cs arbitrary: c P)
  case (Cons x cs)
  obtain m p where x: "x = (m, p)" by fastforce
  let ?n = "cl_nextID c"
  let ?c = "c\<lparr>cl_nextID := ?n + 1, cl_pending := Some (insert (?n + 1) P), cl_chans := (cl_chans c)(?n + 1 \<mapsto> make_chan 1)\<rparr>"
  have b: "Call_begin m p c = (Some (request (?n + 1) m p), ?c)" using Cons.prems(1) by (simp add: Call_begin_def request_def Let_def)
  obtain c' where c': "begin_all cs ?c = (requests (?n + 1) cs, c')"
    "cl_pending c' = Some (insert (?n + 1) P \<union> {?n + 1 <.. ?n + 1 + int (length cs)})"
    "\<forall>i \<in> {?n + 1 <.. ?n + 1 + int (length cs)}. cl_chans c' i = Some (make_chan 1)"
    using Cons.IH [of ?c "insert (?n + 1) P"] Cons.prems(2) by fastforce
  have keep: "cl_chans (snd (begin_all cs d)) i = cl_chans d i" if "i \<le> cl_nextID d" for d i
    using that by (induction cs d rule: begin_all.induct) (auto simp: Call_begin_def Let_def split: option.splits prod.splits)
  have first: "cl_chans c' (?n + 1) = Some (make_chan 1)" using keep [of "?n + 1" ?c] c'(1) by simp
  have "cl_chans c' i = Some (make_chan 1)" if "i \<in> {?n <.. ?n + int (length (x # cs))}" for i
  proof (cases "i = ?n + 1")
    case True
    with first show ?thesis by simp
  next
    case False
    with that have "i \<in> {?n + 1 <.. ?n + 1 + int (length cs)}" by auto
    with c'(3) show ?thesis by blast
  qed
  moreover have "insert (?n + 1) P \<union> {?n + 1 <.. ?n + 1 + int (length cs)} = P \<union> {?n <.. ?n + int (length (x # cs))}" by auto
  moreover have "begin_all (x # cs) c = (requests ?n (x # cs), c')" using b c'(1) x by simp
  ultimately show ?case using c'(2) by metis
qed auto

lemma handle_request:
  assumes "m \<noteq> []" and "emits_notifications sv"
  shows "\<exists>evs r s'. handle_line sv (Some (request i m p)) s = (evs @ [r], s') \<and> list_all IsNotification evs \<and> IsResponse r \<and> ms_ID r = Some i
    \<and> answers sv ((m, p) # cs) s = (case ms_Error r of Some e \<Rightarrow> CallRpcError e | None \<Rightarrow> CallOK (ms_Result r)) # answers sv cs s'"
proof -
  have q: "IsRequest (request i m p)" "ms_Method (request i m p) = m" "ms_ID (request i m p) = Some i" "ms_Params (request i m p) = p"
    using assms(1) by (simp_all add: IsRequest_def request_def)
  show ?thesis
  proof (cases "map_of (sv_handlers sv) m")
    case None
    then show ?thesis using q
      by (intro exI [of _ "[]"]) (auto simp: handle_line_def response_kinds respondErrLocked_def IsResponse_def)
  next
    case (Some h)
    obtain r s' evs where h: "h p s = (r, s', evs)" by (cases "h p s") auto
    from Some have "(m, h) \<in> set (sv_handlers sv)" by (rule map_of_SomeD)
    then have "list_all IsNotification (snd (snd (h p s)))" using assms(2) unfolding emits_notifications_def by blast
    then have "list_all IsNotification evs" using h by simp
    with Some h q show ?thesis
      by (auto simp: handle_line_def response_kinds respondErrLocked_def respondOKLocked_def IsResponse_def
          split: sum.splits handler_error.splits option.splits)
  qed
qed

lemma calls_answered:
  assumes "\<forall>(m, _)\<in>set cs. m \<noteq> []" and "emits_notifications sv" and "cl_pending c = Some P"
    and "{n <.. n + int (length cs)} \<subseteq> P" and "\<forall>i \<in> {n <.. n + int (length cs)}. cl_chans c i = Some (make_chan 1)"
  shows "\<forall>j < length cs. Call_end (n + 1 + int j) (fold (readLoop_line C) (map Some (fst (serve_lines sv (map Some (requests n cs)) s))) c)
    = answers sv cs s ! j"
  using assms
proof (induction cs arbitrary: n c P s)
  case (Cons x cs)
  obtain m p where x: "x = (m, p)" by fastforce
  have "m \<noteq> []" using Cons.prems(1) x by auto
  from handle_request [OF this Cons.prems(2), of "n + 1" p s cs] obtain evs r s' where
    h: "handle_line sv (Some (request (n + 1) m p)) s = (evs @ [r], s')" and e: "list_all IsNotification evs"
    and r: "IsResponse r" "ms_ID r = Some (n + 1)"
    and a: "answers sv ((m, p) # cs) s = (case ms_Error r of Some e \<Rightarrow> CallRpcError e | None \<Rightarrow> CallOK (ms_Result r)) # answers sv cs s'" by blast
  let ?c1 = "fold (readLoop_line C) (map Some evs) c" and ?rest = "map Some (fst (serve_lines sv (map Some (requests (n + 1) cs)) s'))"
  let ?c2 = "readLoop_line C (Some r) ?c1"
  have c1: "cl_chans ?c1 = cl_chans c" "cl_pending ?c1 = Some P" using read_notifications [OF e] Cons.prems(3) by auto
  have mem: "n + 1 \<in> P" "cl_chans c (n + 1) = Some (make_chan 1)" using Cons.prems(4,5) by auto
  have c2: "cl_pending ?c2 = Some (P - {n + 1})" "cl_chans ?c2 = (cl_chans c)(n + 1 \<mapsto> send_nb r (make_chan 1))"
    using c1 mem r by (simp_all add: readLoop_line_def Let_def)
  have whole: "fold (readLoop_line C) (map Some (fst (serve_lines sv (map Some (requests n (x # cs))) s))) c = fold (readLoop_line C) ?rest ?c2"
    using h x by (simp split: prod.split)
  have first: "Call_end (n + 1) (fold (readLoop_line C) ?rest ?c2) = answers sv (x # cs) s ! 0"
  proof -
    have "cl_chans (fold (readLoop_line C) ?rest ?c2) (n + 1) = Some (send_nb r (make_chan 1))"
      using read_settled [OF c2(1), of "n + 1"] c2(2) by simp
    then show ?thesis using a x by (simp add: Call_end_def send_nb_def make_chan_def ch_full_def)
  qed
  have "\<forall>j < length cs. Call_end (n + 1 + 1 + int j) (fold (readLoop_line C) ?rest ?c2) = answers sv cs s' ! j"
    by (rule Cons.IH [OF _ Cons.prems(2) c2(1)]) (use Cons.prems x c2(2) in auto)
  then show ?case using first a whole x by (auto simp: less_Suc_eq_0_disj algebra_simps)
qed simp

text \<open>C18: Every call gets its own answer. A client that dialed a server starts any number of calls before the
  first answer comes back; whatever events the handlers emit in between, and whether a method is unknown, a
  handler fails or a result cannot be encoded, each call returns exactly the answer of its own handler run, in
  the order the calls were made.\<close>

theorem rpc_calls_get_their_answers:
  fixes sv :: "('j, 's) Server"
  assumes "\<forall>h. co_unhello C (co_hello C h) = Some h" and "\<forall>(m, _)\<in>set cs. m \<noteq> []" and "emits_notifications sv"
  shows "\<exists>c0 reqs c1 outs s'. Dial C (Some (Some (sendHelloLocked C sv))) = Inr c0 \<and> begin_all cs c0 = (reqs, c1)
    \<and> handleConn C sv (map Some reqs) s = (sendHelloLocked C sv # outs, s')
    \<and> (\<forall>j < length cs. Call_end (1 + int j) (fold (readLoop_line C) (map Some outs) c1) = answers sv cs s ! j)"
proof -
  obtain c0 where d: "Dial C (Some (Some (sendHelloLocked C sv))) = Inr c0" "cl_nextID c0 = 0" "cl_pending c0 = Some {}"
    using assms(1) by (simp add: Dial_def sendHelloLocked_def)
  obtain c1 where b: "begin_all cs c0 = (requests 0 cs, c1)" "cl_pending c1 = Some {0 <.. int (length cs)}"
    "\<forall>i \<in> {0 <.. int (length cs)}. cl_chans c1 i = Some (make_chan 1)"
    using begin_all_open [OF d(3), of cs] d(2) by auto
  obtain outs s' where s: "serve_lines sv (map Some (requests 0 cs)) s = (outs, s')" by fastforce
  have "\<forall>j < length cs. Call_end (0 + 1 + int j) (fold (readLoop_line C) (map Some outs) c1) = answers sv cs s ! j"
    using calls_answered [OF assms(2,3) b(2), of 0 C s] b(3) s by simp
  then show ?thesis using d(1) b(1) s by (simp add: handleConn_def)
qed

definition ex_codec :: "(HelloParams + string) codec" where
  "ex_codec = \<lparr>co_hello = Inl, co_unhello = (\<lambda>j. case j of Inl h \<Rightarrow> Some h | Inr _ \<Rightarrow> None),
     co_event = ev_Data, co_unevent = (\<lambda>_. None)\<rparr>"

definition ex_server :: "(HelloParams + string, nat) Server" where
  "ex_server = Register_method ''count'' (\<lambda>p n. (Inl (OtherErr ''busy''), n + 1, [])) (NewServer ''v1'')"

theorem rpc_calls_get_their_answers_witness:
  "\<exists>c0 reqs c1 outs s'. Dial ex_codec (Some (Some (sendHelloLocked ex_codec ex_server))) = Inr c0
    \<and> begin_all [(''count'', None), (''none'', None)] c0 = (reqs, c1)
    \<and> handleConn ex_codec ex_server (map Some reqs) 0 = (sendHelloLocked ex_codec ex_server # outs, s')
    \<and> Call_end 1 (fold (readLoop_line ex_codec) (map Some outs) c1) = CallRpcError (NewError ErrCodeInternalError ''busy'')
    \<and> Call_end 2 (fold (readLoop_line ex_codec) (map Some outs) c1) = CallRpcError (NewError ErrCodeMethodNotFound (not_found ''none''))"
  using rpc_calls_get_their_answers [of ex_codec "[(''count'', None), (''none'', None)]" ex_server 0]
  by (auto simp: ex_codec_def ex_server_def emits_notifications_def Register_method_def NewServer_def mput_def mdel_def
      All_less_Suc numeral_eq_Suc)

section \<open>Events and subscriptions\<close>

definition event_of :: "'j codec \<Rightarrow> 'j Message option \<Rightarrow> 'j Event option" where
  "event_of C line =
    (case line of
       None \<Rightarrow> None
     | Some m \<Rightarrow> if IsNotification m \<and> ms_Method m = ''event'' then Option.bind (ms_Params m) (co_unevent C) else None)"

definition events_for :: "'j codec \<Rightarrow> string \<Rightarrow> 'j Message option list \<Rightarrow> 'j Event list" where
  "events_for C sub ls = filter (\<lambda>e. ev_Sub e = sub) (List.map_filter (event_of C) ls)"

lemma events_for_Cons: "events_for C sub (l # ls) = events_for C sub [l] @ events_for C sub ls"
  by (simp add: events_for_def List.map_filter_simps split: option.split)

lemma events_for_append: "events_for C sub (xs @ ys) = events_for C sub xs @ events_for C sub ys"
  by (simp add: events_for_def List.map_filter_def)

lemma take_take_append: "take n (take n xs @ ys) = take n (xs @ ys)"
  by (cases "length xs \<le> n") auto

lemma fold_send_take: "chan_ok n ch \<Longrightarrow> chan_ok n (fold send_nb vs ch) \<and> ch_buf (fold send_nb vs ch) = take n (ch_buf ch @ vs)"
proof (induction vs arbitrary: ch)
  case Nil
  then show ?case by (simp add: chan_ok_def)
next
  case (Cons v vs)
  have "ch_buf (send_nb v ch) = take n (ch_buf ch @ [v])" using Cons.prems by (auto simp: chan_ok_def send_nb_def ch_full_def)
  with Cons.IH [OF chan_ok_send [OF Cons.prems]] show ?case by (simp add: take_take_append del: take_append)
qed

lemma read_line_subs:
  assumes "cl_subs c = Some S"
  shows "\<exists>S'. cl_subs (readLoop_line C l c) = Some S'
    \<and> (S sub = None \<longrightarrow> S' sub = None \<and> cl_pendEvs (readLoop_line C l c) sub =
         (if length (cl_pendEvs c sub) < 16 then cl_pendEvs c sub @ events_for C sub [l] else cl_pendEvs c sub))
    \<and> (\<forall>ch. S sub = Some ch \<longrightarrow> S' sub = Some (fold send_nb (events_for C sub [l]) ch))"
  using assms
  by (auto simp: readLoop_line_def route_event_def events_for_def event_of_def List.map_filter_simps IsResponse_def IsNotification_def
      maxPendingEventsPerSub_def Let_def split: option.splits)

lemma read_unregistered:
  assumes "cl_subs c = Some S" and "S sub = None" and "length (cl_pendEvs c sub) \<le> 16"
  shows "\<exists>S'. cl_subs (fold (readLoop_line C) ls c) = Some S' \<and> S' sub = None
    \<and> cl_pendEvs (fold (readLoop_line C) ls c) sub = take 16 (cl_pendEvs c sub @ events_for C sub ls)"
  using assms
proof (induction ls arbitrary: c S)
  case Nil
  then show ?case by (simp add: events_for_def List.map_filter_simps)
next
  case (Cons l ls)
  let ?c = "readLoop_line C l c"
  have one: "length (events_for C sub [l]) \<le> 1" by (simp add: events_for_def List.map_filter_simps split: option.split)
  from read_line_subs [OF Cons.prems(1), of C l sub] Cons.prems(2) obtain S' where
    S': "cl_subs ?c = Some S'" "S' sub = None" and p: "cl_pendEvs ?c sub =
      (if length (cl_pendEvs c sub) < 16 then cl_pendEvs c sub @ events_for C sub [l] else cl_pendEvs c sub)" by blast
  have t: "cl_pendEvs ?c sub = take 16 (cl_pendEvs c sub @ events_for C sub [l])" using p one Cons.prems(3) by auto
  from Cons.IH [OF S'] t show ?case using events_for_Cons [of C sub l ls] by (auto simp: take_take_append simp del: take_append)
qed

lemma read_registered:
  assumes "cl_subs c = Some S" and "S sub = Some ch" and "chan_ok 16 ch"
  shows "\<exists>S' ch'. cl_subs (fold (readLoop_line C) ls c) = Some S' \<and> S' sub = Some ch'
    \<and> ch_buf ch' = take 16 (ch_buf ch @ events_for C sub ls)"
  using assms
proof (induction ls arbitrary: c S ch)
  case Nil
  then show ?case by (simp add: events_for_def List.map_filter_simps chan_ok_def)
next
  case (Cons l ls)
  let ?c = "readLoop_line C l c" and ?ch = "fold send_nb (events_for C sub [l]) ch"
  from read_line_subs [OF Cons.prems(1), of C l sub] Cons.prems(2) obtain S' where
    S': "cl_subs ?c = Some S'" "S' sub = Some ?ch" by blast
  from fold_send_take [OF Cons.prems(3)] have k: "chan_ok 16 ?ch" "ch_buf ?ch = take 16 (ch_buf ch @ events_for C sub [l])" by auto
  from Cons.IH [OF S' k(1)] k(2) show ?case using events_for_Cons [of C sub l ls] by (auto simp: take_take_append simp del: take_append)
qed

text \<open>C23: The race between a subscription's response and its first events is invisible. Whatever lines arrive
  before and after the client registers a new subscription, its channel then holds the first 16 of all the
  events addressed to it, in the order they were sent: none is lost or reordered by arriving early.\<close>

theorem subscription_start_is_unobservable:
  fixes c :: "'j Client"
  assumes "cl_subs c = Some S" and "S sub = None" and "cl_pendEvs c sub = []"
  shows "\<exists>c1 c2 S' ch. Subscribe_register sub (fold (readLoop_line C) ls1 c) = (True, c1) \<and> c2 = fold (readLoop_line C) ls2 c1
    \<and> cl_subs c2 = Some S' \<and> S' sub = Some ch \<and> ch_buf ch = take 16 (events_for C sub (ls1 @ ls2))"
proof -
  let ?c0 = "fold (readLoop_line C) ls1 c"
  from read_unregistered [OF assms(1,2), of C ls1] assms(3) obtain S1 where
    s1: "cl_subs ?c0 = Some S1" "cl_pendEvs ?c0 sub = take 16 (events_for C sub ls1)" by auto
  let ?ch = "fold send_nb (take 16 (events_for C sub ls1)) (make_chan 16)"
  have k: "chan_ok 16 ?ch" "ch_buf ?ch = take 16 (events_for C sub ls1)"
    using fold_send_take [OF chan_ok_make, of 16 "take 16 (events_for C sub ls1)"] by (auto simp: make_chan_def)
  obtain c1 where r: "Subscribe_register sub ?c0 = (True, c1)" "cl_subs c1 = Some (S1(sub \<mapsto> ?ch))"
    using s1 by (simp add: Subscribe_register_def)
  from read_registered [OF r(2) _ k(1), of sub C ls2] k(2) r(1) show ?thesis
    by (auto simp: take_take_append events_for_append simp del: take_append)
qed

definition ex_client :: "string Client" where
  "ex_client = \<lparr>cl_daemonVersion = [], cl_nextID = 0, cl_chans = Map.empty, cl_pending = Some {}, cl_subs = Some Map.empty, cl_pendEvs = (\<lambda>_. [])\<rparr>"

definition ex_evcodec :: "string codec" where
  "ex_evcodec = \<lparr>co_hello = hp_Version, co_unhello = (\<lambda>_. None), co_event = ev_Data,
     co_unevent = (\<lambda>d. Some \<lparr>ev_Sub = ''s'', ev_Kind = [], ev_Data = d\<rparr>)\<rparr>"

theorem subscription_start_is_unobservable_witness:
  "\<exists>c1 c2 S' ch. Subscribe_register ''s'' (fold (readLoop_line ex_evcodec) [Some (EmitEvent ex_evcodec ''s'' ''k'' ''a'')] ex_client) = (True, c1)
    \<and> c2 = fold (readLoop_line ex_evcodec) [None, Some (EmitEvent ex_evcodec ''s'' ''k'' ''b'')] c1
    \<and> cl_subs c2 = Some S' \<and> S' ''s'' = Some ch \<and> map ev_Data (ch_buf ch) = [''a'', ''b'']"
proof -
  have "events_for ex_evcodec ''s'' ([Some (EmitEvent ex_evcodec ''s'' ''k'' ''a'')] @ [None, Some (EmitEvent ex_evcodec ''s'' ''k'' ''b'')])
      = [\<lparr>ev_Sub = ''s'', ev_Kind = [], ev_Data = ''a''\<rparr>, \<lparr>ev_Sub = ''s'', ev_Kind = [], ev_Data = ''b''\<rparr>]"
    by (simp add: events_for_def List.map_filter_simps event_of_def EmitEvent_def IsNotification_def ex_evcodec_def)
  then show ?thesis
    using subscription_start_is_unobservable [of ex_client Map.empty "''s''" ex_evcodec "[Some (EmitEvent ex_evcodec ''s'' ''k'' ''a'')]"
        "[None, Some (EmitEvent ex_evcodec ''s'' ''k'' ''b'')]"]
    by (fastforce simp: ex_client_def)
qed

end
