(* ===== verification/Identity.thy ===== *)
theory Identity
  imports Sealed Iox
begin

text \<open>
  \<open>internal/identity/keypair.go\<close> and \<open>export.go\<close>: the key file of the daemon and the public identity file a
  user hands to a friend. A YAML file is the value it decodes to. libp2p's private key format is a parameter.
\<close>

record ('priv, 'pub) Keypair =
  kp_Priv :: 'priv
  kp_Pub :: 'pub
  kp_PeerID :: peer_id

datatype identity_error =
    ErrKeyGen | ErrDerivePeerID | ErrMarshalKey | ErrKeyWrite io_error | ErrKeyStat | ErrKeyMode nat | ErrKeyRead
  | ErrUnmarshalKey | ErrKeyType | ErrExportParse | ErrExportVersion int | ErrPubKeyEncoding | ErrPubKeyFormat
  | ErrPeerIDMismatch string string

record 'priv privio =
  pv_marshal :: "'priv \<Rightarrow> string option"
  pv_unmarshal :: "string \<Rightarrow> 'priv option"
  pv_isEd25519 :: "'priv \<Rightarrow> bool"

definition keypair_of :: "('priv, 'pub) keys \<Rightarrow> 'priv \<Rightarrow> identity_error + ('priv, 'pub) Keypair" where
  "keypair_of K priv =
    (case k_idFromPub K (k_public K priv) of
       None \<Rightarrow> Inl ErrDerivePeerID
     | Some i \<Rightarrow> Inr \<lparr>kp_Priv = priv, kp_Pub = k_public K priv, kp_PeerID = i\<rparr>)"

text \<open>\<open>gen\<close> is the fresh private key, \<open>None\<close> when the random source fails.\<close>

definition Generate_identity :: "('priv, 'pub) keys \<Rightarrow> 'priv option \<Rightarrow> identity_error + ('priv, 'pub) Keypair" where
  "Generate_identity K gen = (case gen of None \<Rightarrow> Inl ErrKeyGen | Some priv \<Rightarrow> keypair_of K priv)"

definition Save_key :: "'priv privio \<Rightarrow> string \<Rightarrow> ('priv, 'pub) Keypair \<Rightarrow> io_env \<Rightarrow> string fs \<Rightarrow> (identity_error + unit) \<times> string fs" where
  "Save_key P path kp env fs =
    (case pv_marshal P (kp_Priv kp) of
       None \<Rightarrow> (Inl ErrMarshalKey, fs)
     | Some data \<Rightarrow>
         (case AtomicWriteFile path data env fs of
            (Inl e, fs') \<Rightarrow> (Inl (ErrKeyWrite e), fs')
          | (Inr _, fs') \<Rightarrow> (Inr (), fs')))"

text \<open>\<open>mode\<close> is the permission bits of the file (\<open>None\<close>: it does not exist); the last six must be clear except
  on Windows. \<open>readable\<close> is false when reading fails.\<close>

definition Load_key ::
    "('priv, 'pub) keys \<Rightarrow> 'priv privio \<Rightarrow> bool \<Rightarrow> nat option \<Rightarrow> bool \<Rightarrow> string \<Rightarrow> string fs \<Rightarrow> identity_error + ('priv, 'pub) Keypair" where
  "Load_key K P windows mode readable path fs =
    (case mode of
       None \<Rightarrow> Inl ErrKeyStat
     | Some m \<Rightarrow>
         if \<not> windows \<and> m mod 64 \<noteq> 0 then Inl (ErrKeyMode m)
         else if \<not> readable then Inl ErrKeyRead
         else case fs path of
           Some (Data data) \<Rightarrow>
             (case pv_unmarshal P data of
                None \<Rightarrow> Inl ErrUnmarshalKey
              | Some priv \<Rightarrow> if \<not> pv_isEd25519 P priv then Inl ErrKeyType else keypair_of K priv)
         | _ \<Rightarrow> Inl ErrKeyRead)"

section \<open>Public identity files\<close>

record PublicIdentity =
  pi_Version :: int
  pi_Name :: string
  pi_PeerID :: string
  pi_PublicKey :: string
  pi_RendezvousHint :: string

definition Export :: "('priv, 'pub) keys \<Rightarrow> ('priv, 'pub) Keypair \<Rightarrow> string \<Rightarrow> identity_error + PublicIdentity" where
  "Export K kp name =
    (case k_marshalPub K (kp_Pub kp) of
       None \<Rightarrow> Inl ErrMarshalKey
     | Some pubBytes \<Rightarrow>
         Inr \<lparr>pi_Version = 1, pi_Name = name, pi_PeerID = k_idStr K (kp_PeerID kp), pi_PublicKey = std_encode pubBytes,
              pi_RendezvousHint = []\<rparr>)"

definition WriteExport :: "string \<Rightarrow> PublicIdentity \<Rightarrow> io_env \<Rightarrow> PublicIdentity fs \<Rightarrow> (io_error + unit) \<times> PublicIdentity fs" where
  "WriteExport path ident env fs = AtomicWriteFile path ident env fs"

definition PubKey :: "('priv, 'pub) keys \<Rightarrow> PublicIdentity \<Rightarrow> identity_error + 'pub" where
  "PubKey K p =
    (case std_decode (pi_PublicKey p) of
       None \<Rightarrow> Inl ErrPubKeyEncoding
     | Some raw \<Rightarrow> (case k_unmarshalPub K raw of None \<Rightarrow> Inl ErrPubKeyFormat | Some pub \<Rightarrow> Inr pub))"

definition ReadExport :: "('priv, 'pub) keys \<Rightarrow> string \<Rightarrow> PublicIdentity fs \<Rightarrow> identity_error + PublicIdentity" where
  "ReadExport K path fs =
    (case fs path of
       None \<Rightarrow> Inl ErrKeyRead
     | Some Partial \<Rightarrow> Inl ErrExportParse
     | Some (Data ident) \<Rightarrow>
         if pi_Version ident \<noteq> 1 then Inl (ErrExportVersion (pi_Version ident))
         else case PubKey K ident of
           Inl e \<Rightarrow> Inl e
         | Inr pub \<Rightarrow>
             (case k_idFromPub K pub of
                None \<Rightarrow> Inl ErrDerivePeerID
              | Some derived \<Rightarrow>
                  if k_idStr K derived \<noteq> pi_PeerID ident then Inl (ErrPeerIDMismatch (pi_PeerID ident) (k_idStr K derived))
                  else Inr ident))"

lemma ReadExport_sound:
  assumes "ReadExport K path fs = Inr ident"
  shows "\<exists>pub i. PubKey K ident = Inr pub \<and> k_idFromPub K pub = Some i \<and> pi_PeerID ident = k_idStr K i"
  using assms by (auto simp: ReadExport_def split: option.splits content.splits if_splits sum.splits)

text \<open>A key that is saved and loaded again is the same key pair.\<close>

lemma Load_Save:
  assumes "keypair_of K priv = Inr kp" and "pv_marshal P priv = Some data" and "pv_unmarshal P data = Some priv"
    and "pv_isEd25519 P priv" and "fresh_temp path env fs" and "io_success env" and "Save_key P path kp env fs = (r, fs')"
  shows "Load_key K P windows (Some 384) True path fs' = Inr kp"
proof -
  have "kp_Priv kp = priv" using assms(1) by (auto simp: keypair_of_def split: option.splits)
  then have "fs' path = Some (Data data)"
    using assms(2,5-7) AtomicWriteFile_ok [OF assms(5,6), of data] by (auto simp: Save_key_def split: prod.splits sum.splits)
  with assms show ?thesis by (simp add: Load_key_def)
qed

text \<open>What one user exports, another reads.\<close>

lemma Read_Export:
  assumes "keys_ok K" and "keypair_of K priv = Inr kp" and "Export K kp name = Inr ident" and "fs path = Some (Data ident)"
  shows "ReadExport K path fs = Inr ident"
  using assms
  by (auto simp: keypair_of_def Export_def ReadExport_def PubKey_def keys_ok_def split: option.splits)

end
