(* ===== verification/Friends_Presence.thy ===== *)
theory Friends_Presence
  imports Go_Chan
begin

text \<open>
  \<open>internal/friends/presence.go\<close>: online/offline tracking with a subscription bus.

  The maps \<open>online\<close> and \<open>lastSeen\<close> are partial functions (reading a missing key of a Go map
  gives the zero value: \<open>false\<close>, the zero time). A subscriber's channel is kept under its
  subscription id; \<open>presence_recv\<close> is a subscriber taking one event out of its channel.
\<close>

record PresenceEvent =
  pe_PeerID :: peer_id
  pe_Online :: bool
  pe_Time :: time

record Presence =
  pr_online :: "peer_id \<rightharpoonup> bool"
  pr_lastSeen :: "peer_id \<rightharpoonup> time"
  pr_subs :: "nat \<rightharpoonup> PresenceEvent chan"
  pr_nextID :: nat

definition presence_cap :: nat where "presence_cap = 16"

definition NewPresence :: Presence where
  "NewPresence = \<lparr>pr_online = Map.empty, pr_lastSeen = Map.empty, pr_subs = Map.empty, pr_nextID = 0\<rparr>"

definition presence_broadcast :: "PresenceEvent \<Rightarrow> Presence \<Rightarrow> Presence" where
  "presence_broadcast ev p = p\<lparr>pr_subs := (\<lambda>i. map_option (send_nb ev) (pr_subs p i))\<rparr>"

definition presence_transition :: "peer_id \<Rightarrow> bool \<Rightarrow> time \<Rightarrow> Presence \<Rightarrow> Presence" where
  "presence_transition pid online now p =
    (let known = pr_online p pid; prev = (case known of None \<Rightarrow> False | Some b \<Rightarrow> b) in
     if known = None \<and> \<not> online then p
     else
       let p1 = p\<lparr>pr_online := (pr_online p)(pid \<mapsto> online),
                  pr_lastSeen := (pr_lastSeen p)(pid \<mapsto> now)\<rparr> in
       if prev = online then p1
       else presence_broadcast \<lparr>pe_PeerID = pid, pe_Online = online, pe_Time = now\<rparr> p1)"

definition MarkOnline :: "peer_id \<Rightarrow> time \<Rightarrow> Presence \<Rightarrow> Presence" where
  "MarkOnline pid now p = presence_transition pid True now p"

definition MarkOffline :: "peer_id \<Rightarrow> time \<Rightarrow> Presence \<Rightarrow> Presence" where
  "MarkOffline pid now p = presence_transition pid False now p"

definition IsOnline :: "peer_id \<Rightarrow> Presence \<Rightarrow> bool" where
  "IsOnline pid p = (case pr_online p pid of None \<Rightarrow> False | Some b \<Rightarrow> b)"

definition LastSeen :: "peer_id \<Rightarrow> Presence \<Rightarrow> time option" where
  "LastSeen pid p = pr_lastSeen p pid"

definition presence_Subscribe :: "Presence \<Rightarrow> nat \<times> Presence" where
  "presence_Subscribe p =
    (let i = pr_nextID p in
     (i, p\<lparr>pr_nextID := Suc i, pr_subs := (pr_subs p)(i \<mapsto> make_chan presence_cap)\<rparr>))"

text \<open>\<open>Unsubscribe\<close> removes the channel and closes it; the closed channel stays with the
  subscriber, who can still drain it.\<close>

definition presence_Unsubscribe :: "nat \<Rightarrow> Presence \<Rightarrow> PresenceEvent chan option \<times> Presence" where
  "presence_Unsubscribe i p =
    (case pr_subs p i of
       None \<Rightarrow> (None, p)
     | Some ch \<Rightarrow> (Some (close_chan ch), p\<lparr>pr_subs := (pr_subs p)(i := None)\<rparr>))"

definition presence_recv :: "nat \<Rightarrow> Presence \<Rightarrow> Presence" where
  "presence_recv i p =
    (case pr_subs p i of
       None \<Rightarrow> p
     | Some ch \<Rightarrow> p\<lparr>pr_subs := (pr_subs p)(i \<mapsto> snd (recv_nb ch))\<rparr>)"

text \<open>The event a transition broadcasts, if any, and the events of a sequence of marks
  \<open>(peer, online, now)\<close>.\<close>

definition transition_event :: "peer_id \<Rightarrow> bool \<Rightarrow> time \<Rightarrow> Presence \<Rightarrow> PresenceEvent list" where
  "transition_event pid online now p =
    (if IsOnline pid p = online then []
     else [\<lparr>pe_PeerID = pid, pe_Online = online, pe_Time = now\<rparr>])"

type_synonym mark = "peer_id \<times> bool \<times> time"

fun run_marks :: "mark list \<Rightarrow> Presence \<Rightarrow> Presence" where
  "run_marks [] p = p"
| "run_marks ((pid, b, t) # ms) p = run_marks ms (presence_transition pid b t p)"

fun marks_events :: "mark list \<Rightarrow> Presence \<Rightarrow> PresenceEvent list" where
  "marks_events [] p = []"
| "marks_events ((pid, b, t) # ms) p =
     transition_event pid b t p @ marks_events ms (presence_transition pid b t p)"

text \<open>A sequence of booleans in which each differs from the one before (the first from \<open>b\<close>).\<close>

fun alternates :: "bool \<Rightarrow> bool list \<Rightarrow> bool" where
  "alternates b [] = True"
| "alternates b (x # xs) = (x \<noteq> b \<and> alternates x xs)"

section \<open>Lemmas\<close>

definition presence_wf :: "Presence \<Rightarrow> bool" where
  "presence_wf p \<longleftrightarrow> (\<forall>i \<ge> pr_nextID p. pr_subs p i = None) \<and> dom (pr_lastSeen p) = dom (pr_online p)"

lemma presence_wf_New [simp]: "presence_wf NewPresence"
  by (simp add: presence_wf_def NewPresence_def)

lemma presence_transition_subs:
  "pr_subs (presence_transition pid b t p) =
     (\<lambda>i. map_option (\<lambda>c. fold send_nb (transition_event pid b t p) c) (pr_subs p i))"
  by (auto simp: presence_transition_def presence_broadcast_def transition_event_def IsOnline_def
      Let_def fun_eq_iff option.map_id0 option.map_ident split: option.splits)

lemma presence_transition_online:
  "IsOnline q (presence_transition pid b t p) = (if q = pid then b else IsOnline q p)"
  by (auto simp: presence_transition_def presence_broadcast_def IsOnline_def Let_def split: option.splits)

lemma presence_transition_nextID [simp]: "pr_nextID (presence_transition pid b t p) = pr_nextID p"
  by (simp add: presence_transition_def presence_broadcast_def Let_def)

lemma presence_wf_transition: "presence_wf p \<Longrightarrow> presence_wf (presence_transition pid b t p)"
  by (auto simp: presence_wf_def presence_transition_def presence_broadcast_def Let_def)

lemma presence_wf_broadcast: "presence_wf p \<Longrightarrow> presence_wf (presence_broadcast e p)"
  by (auto simp: presence_wf_def presence_broadcast_def)

interpretation pbus: event_bus pr_subs pr_nextID "\<lambda>p. snd (presence_Subscribe p)"
  "\<lambda>i p. snd (presence_Unsubscribe i p)" presence_broadcast presence_recv presence_wf presence_cap
proof
  show "presence_wf (presence_broadcast e s)" if "presence_wf s" for s e
    using that by (rule presence_wf_broadcast)
qed (auto simp: presence_wf_def presence_Subscribe_def presence_Unsubscribe_def
      presence_broadcast_def presence_recv_def Let_def fun_eq_iff split: option.splits)

lemma marks_online:
  "IsOnline q (run_marks ms p) = last (IsOnline q p # map pe_Online (filter (\<lambda>e. pe_PeerID e = q) (marks_events ms p)))"
  by (induction ms p rule: run_marks.induct)
     (auto simp: presence_transition_online transition_event_def)

lemma marks_alternate:
  "alternates (IsOnline q p) (map pe_Online (filter (\<lambda>e. pe_PeerID e = q) (marks_events ms p)))"
  by (induction ms p rule: run_marks.induct)
     (auto simp: presence_transition_online transition_event_def split: if_splits)

lemma marks_subs:
  "pr_subs (run_marks ms p) = (\<lambda>i. map_option (\<lambda>c. fold send_nb (marks_events ms p) c) (pr_subs p i))"
  by (induction ms p rule: run_marks.induct)
     (auto simp: presence_transition_subs option.map_comp fun_eq_iff comp_def option.map_ident)

lemma fold_publish_subs:
  "pr_subs (fold presence_broadcast es p) = (\<lambda>i. map_option (\<lambda>c. fold send_nb es c) (pr_subs p i))"
  by (induction es arbitrary: p)
     (auto simp: presence_broadcast_def option.map_comp fun_eq_iff comp_def option.map_ident option.map_id)

lemma run_marks_as_publish: "pr_subs (run_marks ms p) = pr_subs (fold presence_broadcast (marks_events ms p) p)"
  by (simp add: marks_subs fold_publish_subs)

lemma dom_online_transition:
  "dom (pr_online (presence_transition pid b t p)) =
     (if b then insert pid (dom (pr_online p)) else dom (pr_online p))"
  by (auto simp: presence_transition_def presence_broadcast_def Let_def split: if_splits)

section \<open>Properties\<close>

text \<open>Presence events are transitions. Whatever MarkOnline and MarkOffline calls are made, the
  events broadcast for a peer alternate (the first one differs from the state before, each later
  one from its predecessor), and the last of them is the state IsOnline reports.\<close>

lemma presence_events_alternate:
  "alternates (IsOnline q p) (map pe_Online (filter (\<lambda>e. pe_PeerID e = q) (marks_events ms p)))
   \<and> IsOnline q (run_marks ms p)
       = last (IsOnline q p # map pe_Online (filter (\<lambda>e. pe_PeerID e = q) (marks_events ms p)))"
  using marks_alternate marks_online by blast

text \<open>A subscriber that is not too slow misses nothing. If the events of a run of marks fit in
  what is left of its buffer of 16, then after the run its channel holds exactly the events
  broadcast, in order, behind what it had not read yet.\<close>

lemma presence_subscriber_complete:
  assumes "pbus.bus_inv p" and "pr_subs p i = Some c"
    and "length (ch_buf c) + length (marks_events ms p) \<le> presence_cap"
  shows "\<exists>c'. pr_subs (run_marks ms p) i = Some c' \<and> ch_buf c' = ch_buf c @ marks_events ms p"
  using pbus.publish_run [OF assms] by (simp add: run_marks_as_publish)

text \<open>MarkOffline cannot grow the tables. The peers the tracker knows after a run of marks are
  those it knew before and those marked online in the run; a peer that was only ever marked
  offline has no entry, and its LastSeen is still the zero time.\<close>

lemma presence_no_unbounded_write:
  assumes "presence_wf p"
  shows "dom (pr_online (run_marks ms p)) = dom (pr_online p) \<union> {q. \<exists>t. (q, True, t) \<in> set ms}
    \<and> (LastSeen q (run_marks ms p) = None \<longleftrightarrow> LastSeen q p = None \<and> (\<forall>t. (q, True, t) \<notin> set ms))"
proof -
  have dom: "dom (pr_online (run_marks ms p)) = dom (pr_online p) \<union> {q. \<exists>t. (q, True, t) \<in> set ms}"
    by (induction ms p rule: run_marks.induct) (auto simp: dom_online_transition)
  have wf: "presence_wf (run_marks ms p)"
    using assms by (induction ms p rule: run_marks.induct) (auto simp: presence_wf_transition)
  have "LastSeen q r = None \<longleftrightarrow> q \<notin> dom (pr_online r)" if "presence_wf r" for r
    using that by (metis LastSeen_def presence_wf_def domIff)
  with dom wf assms show ?thesis by auto
qed

end
