(* ===== verification/Call_Session.thy ===== *)
theory Call_Session
  imports Go_Chan
begin

text \<open>
  \<open>internal/call/session.go\<close>: the lifecycle of one call and its subscription bus.

  A \<open>Session\<close> record holds the immutable identity of the call, the state guarded by \<open>mu\<close> and the
  subscriber channels guarded by \<open>subsMu\<close>. The clock reading \<open>s.now()\<close> is an argument of the
  operation that takes it. An operation returns the error it reports, if any, and the session.
\<close>

datatype State = StateIdle | StateRinging | StateConnecting | StateConnected | StateEnded

text \<open>The \<open>iota\<close> value of a state.\<close>

fun state_num :: "State \<Rightarrow> nat" where
  "state_num StateIdle = 0"
| "state_num StateRinging = 1"
| "state_num StateConnecting = 2"
| "state_num StateConnected = 3"
| "state_num StateEnded = 4"

fun State_String :: "State \<Rightarrow> string" where
  "State_String StateIdle = ''idle''"
| "State_String StateRinging = ''ringing''"
| "State_String StateConnecting = ''connecting''"
| "State_String StateConnected = ''connected''"
| "State_String StateEnded = ''ended''"

datatype Direction = Outbound | Inbound

fun Direction_String :: "Direction \<Rightarrow> string" where
  "Direction_String Outbound = ''outbound''"
| "Direction_String Inbound = ''inbound''"

record StateChange =
  sc_SessionID :: string
  sc_State :: string
  sc_Direction :: string
  sc_Remote :: peer_id
  sc_Time :: time
  sc_Reason :: string

record Session =
  sess_id :: string
  sess_remote :: peer_id
  sess_direction :: Direction
  sess_startedAt :: time
  sess_state :: State
  sess_reason :: string
  sess_subs :: "nat \<rightharpoonup> StateChange chan"
  sess_nextID :: nat

datatype session_error =
    AlreadyEnded string
  | InvalidTransition string State State

definition session_cap :: nat where "session_cap = 16"

definition NewSession :: "string \<Rightarrow> peer_id \<Rightarrow> Direction \<Rightarrow> time \<Rightarrow> Session" where
  "NewSession i remote dir now =
    \<lparr>sess_id = i, sess_remote = remote, sess_direction = dir, sess_startedAt = now,
     sess_state = StateIdle, sess_reason = [], sess_subs = Map.empty, sess_nextID = 0\<rparr>"

definition session_broadcast :: "StateChange \<Rightarrow> Session \<Rightarrow> Session" where
  "session_broadcast ev s = s\<lparr>sess_subs := (\<lambda>i. map_option (send_nb ev) (sess_subs s i))\<rparr>"

definition change_of :: "Session \<Rightarrow> State \<Rightarrow> time \<Rightarrow> string \<Rightarrow> StateChange" where
  "change_of s st now reason =
    \<lparr>sc_SessionID = sess_id s, sc_State = State_String st,
     sc_Direction = Direction_String (sess_direction s), sc_Remote = sess_remote s,
     sc_Time = now, sc_Reason = reason\<rparr>"

definition End_session :: "string \<Rightarrow> time \<Rightarrow> Session \<Rightarrow> Session" where
  "End_session reason now s =
    (if sess_state s = StateEnded then s
     else session_broadcast (change_of s StateEnded now reason)
            (s\<lparr>sess_state := StateEnded, sess_reason := reason\<rparr>))"

definition session_transition ::
    "State \<Rightarrow> string \<Rightarrow> time \<Rightarrow> Session \<Rightarrow> session_error option \<times> Session" where
  "session_transition target reason now s =
    (if sess_state s = StateEnded then (Some (AlreadyEnded (sess_id s)), s)
     else if state_num target \<noteq> state_num (sess_state s) + 1
       then (Some (InvalidTransition (sess_id s) (sess_state s) target), s)
     else (None, session_broadcast (change_of s target now reason) (s\<lparr>sess_state := target\<rparr>)))"

definition ToRinging :: "time \<Rightarrow> Session \<Rightarrow> session_error option \<times> Session" where
  "ToRinging now s = session_transition StateRinging [] now s"

definition ToConnecting :: "time \<Rightarrow> Session \<Rightarrow> session_error option \<times> Session" where
  "ToConnecting now s = session_transition StateConnecting [] now s"

definition ToConnected :: "time \<Rightarrow> Session \<Rightarrow> session_error option \<times> Session" where
  "ToConnected now s = session_transition StateConnected [] now s"

definition session_Subscribe :: "Session \<Rightarrow> nat \<times> Session" where
  "session_Subscribe s =
    (let i = sess_nextID s in
     (i, s\<lparr>sess_nextID := Suc i, sess_subs := (sess_subs s)(i \<mapsto> make_chan session_cap)\<rparr>))"

definition session_Unsubscribe :: "nat \<Rightarrow> Session \<Rightarrow> StateChange chan option \<times> Session" where
  "session_Unsubscribe i s =
    (case sess_subs s i of
       None \<Rightarrow> (None, s)
     | Some ch \<Rightarrow> (Some (close_chan ch), s\<lparr>sess_subs := (sess_subs s)(i := None)\<rparr>))"

text \<open>A subscriber takes one event out of its channel.\<close>

definition session_recv :: "nat \<Rightarrow> Session \<Rightarrow> StateChange option \<times> Session" where
  "session_recv i s =
    (case sess_subs s i of
       None \<Rightarrow> (None, s)
     | Some ch \<Rightarrow> let (v, ch') = recv_nb ch in (v, s\<lparr>sess_subs := (sess_subs s)(i \<mapsto> ch')\<rparr>))"

section \<open>Runs\<close>

datatype sess_op =
    SRinging time | SConnecting time | SConnected time | SEnd string time
  | SSubscribe | SUnsubscribe nat | SRecv nat

fun sess_step :: "sess_op \<Rightarrow> Session \<Rightarrow> Session" where
  "sess_step (SRinging t) s = snd (ToRinging t s)"
| "sess_step (SConnecting t) s = snd (ToConnecting t s)"
| "sess_step (SConnected t) s = snd (ToConnected t s)"
| "sess_step (SEnd r t) s = End_session r t s"
| "sess_step SSubscribe s = snd (session_Subscribe s)"
| "sess_step (SUnsubscribe i) s = snd (session_Unsubscribe i s)"
| "sess_step (SRecv i) s = snd (session_recv i s)"

text \<open>The event an operation broadcasts: a call that changes the state broadcasts one event,
  every other operation none.\<close>

fun sess_target :: "sess_op \<Rightarrow> (State \<times> time \<times> string) option" where
  "sess_target (SRinging t) = Some (StateRinging, t, [])"
| "sess_target (SConnecting t) = Some (StateConnecting, t, [])"
| "sess_target (SConnected t) = Some (StateConnected, t, [])"
| "sess_target (SEnd r t) = Some (StateEnded, t, r)"
| "sess_target _ = None"

definition op_events :: "sess_op \<Rightarrow> Session \<Rightarrow> StateChange list" where
  "op_events x s =
    (if sess_state (sess_step x s) = sess_state s then []
     else case sess_target x of
       None \<Rightarrow> []
     | Some (st, t, r) \<Rightarrow> [change_of s st t r])"

fun run_events :: "sess_op list \<Rightarrow> Session \<Rightarrow> StateChange list" where
  "run_events [] s = []"
| "run_events (x # xs) s = op_events x s @ run_events xs (sess_step x s)"

definition call_path :: "string list" where
  "call_path = [''ringing'', ''connecting'', ''connected'']"

section \<open>Lemmas\<close>

lemmas session_defs [go_defs] = ToRinging_def ToConnecting_def ToConnected_def session_transition_def
  End_session_def session_broadcast_def session_Subscribe_def session_Unsubscribe_def
  session_recv_def Let_def

lemma NewSession_sel [simp]:
  "sess_id (NewSession i r d t) = i" "sess_remote (NewSession i r d t) = r"
  "sess_direction (NewSession i r d t) = d" "sess_startedAt (NewSession i r d t) = t"
  "sess_state (NewSession i r d t) = StateIdle" "sess_reason (NewSession i r d t) = []"
  "sess_subs (NewSession i r d t) = Map.empty" "sess_nextID (NewSession i r d t) = 0"
  by (simp_all add: NewSession_def)

lemma sess_step_const [simp]:
  "sess_id (sess_step x s) = sess_id s" "sess_remote (sess_step x s) = sess_remote s"
  "sess_direction (sess_step x s) = sess_direction s" "sess_startedAt (sess_step x s) = sess_startedAt s"
  by (cases x; auto simp: go_defs split: option.splits prod.splits)+

lemma change_of_step [simp]: "change_of (sess_step x s) = change_of s"
  by (simp add: change_of_def fun_eq_iff)

lemma sess_step_state:
  "sess_state (sess_step x s) =
    (case sess_target x of
       None \<Rightarrow> sess_state s
     | Some (st, _, _) \<Rightarrow>
         if sess_state s \<noteq> StateEnded \<and> (st = StateEnded \<or> state_num st = state_num (sess_state s) + 1)
         then st else sess_state s)"
  by (cases x) (auto simp: go_defs split: option.splits prod.splits)

lemma sess_step_ended:
  assumes "sess_state s = StateEnded"
  shows "sess_state (sess_step x s) = StateEnded" and "sess_reason (sess_step x s) = sess_reason s"
    and "op_events x s = []"
proof -
  show "sess_state (sess_step x s) = StateEnded"
    using assms by (auto simp: sess_step_state split: option.splits)
  then show "op_events x s = []" using assms by (simp add: op_events_def)
  show "sess_reason (sess_step x s) = sess_reason s"
    using assms by (cases x) (auto simp: go_defs split: option.splits prod.splits)
qed

lemma sess_step_reason:
  "sess_reason (sess_step x s) =
    (case x of SEnd r t \<Rightarrow> if sess_state s = StateEnded then sess_reason s else r | _ \<Rightarrow> sess_reason s)"
  by (cases x) (auto simp: go_defs split: option.splits prod.splits)

lemma sess_run_ended:
  assumes "sess_state s = StateEnded"
  shows "sess_state (fold sess_step xs s) = StateEnded \<and> sess_reason (fold sess_step xs s) = sess_reason s
    \<and> run_events xs s = []"
  using assms by (induction xs arbitrary: s) (simp_all add: sess_step_ended)

definition session_wf :: "Session \<Rightarrow> bool" where
  "session_wf s \<longleftrightarrow> (\<forall>i \<ge> sess_nextID s. sess_subs s i = None)"

lemma session_wf_New [simp]: "session_wf (NewSession i r d t)"
  by (simp add: session_wf_def NewSession_def)

interpretation sbus: event_bus sess_subs sess_nextID "\<lambda>s. snd (session_Subscribe s)"
  "\<lambda>i s. snd (session_Unsubscribe i s)" session_broadcast "\<lambda>i s. snd (session_recv i s)"
  session_wf session_cap
  by unfold_locales
     (auto simp: session_wf_def go_defs fun_eq_iff split: option.splits prod.splits)

lemma session_wf_state [simp]: "session_wf (s\<lparr>sess_state := st\<rparr>) = session_wf s"
  "session_wf (s\<lparr>sess_reason := r\<rparr>) = session_wf s"
  by (simp_all add: session_wf_def)

lemma sbus_inv_state [simp]: "sbus.bus_inv (s\<lparr>sess_state := st\<rparr>) = sbus.bus_inv s"
  "sbus.bus_inv (s\<lparr>sess_reason := r\<rparr>) = sbus.bus_inv s"
  by (simp_all add: sbus.bus_inv_def)

lemma sbus_inv_New [simp]: "sbus.bus_inv (NewSession i r d t)"
  by (simp add: sbus.bus_inv_def)

lemma sbus_inv_step: "sbus.bus_inv s \<Longrightarrow> sbus.bus_inv (sess_step x s)"
  by (cases x)
     (auto simp: ToRinging_def ToConnecting_def ToConnected_def session_transition_def End_session_def
       intro: sbus.bus_inv_subscribe sbus.bus_inv_unsubscribe sbus.bus_inv_receive sbus.bus_inv_publish)

interpretation smach: machine sess_step sbus.bus_inv
  by unfold_locales (rule sbus_inv_step)

text \<open>Every operation acts on a channel as the publication of its events, unless it is an
  operation on that very subscription.\<close>

lemma sess_step_chan:
  assumes "sess_subs s i = Some c" and "x \<noteq> SUnsubscribe i" and "x \<noteq> SRecv i" and "session_wf s"
  shows "sess_subs (sess_step x s) i = Some (fold send_nb (op_events x s) c)"
proof -
  have "i < sess_nextID s" using assms by (metis not_le option.distinct(1) session_wf_def)
  with assms show ?thesis
    by (cases x) (auto simp: op_events_def go_defs change_of_def split: option.splits prod.splits if_splits)
qed

text \<open>The states announced so far and the current state: the announced states are an initial
  part of ringing, connecting, connected, followed by ended once the call is over.\<close>

definition lifecycle :: "Session \<Rightarrow> string list \<Rightarrow> bool" where
  "lifecycle s evs \<longleftrightarrow>
    (if sess_state s = StateEnded then \<exists>k \<le> 3. evs = take k call_path @ [''ended'']
     else evs = take (state_num (sess_state s)) call_path)"

lemma lifecycle_step:
  assumes "lifecycle s evs"
  shows "lifecycle (sess_step x s) (evs @ map sc_State (op_events x s))"
proof (cases "sess_state s = StateEnded")
  case True
  with assms sess_step_ended [OF True] show ?thesis by (simp add: lifecycle_def)
next
  case False
  have num: "state_num (sess_state s) \<le> 3" using False by (cases "sess_state s") auto
  show ?thesis
  proof (cases "sess_target x")
    case None
    with assms show ?thesis by (simp add: lifecycle_def op_events_def sess_step_state)
  next
    case (Some p)
    obtain st t r where p: "p = (st, t, r)" by (cases p)
    show ?thesis
    proof (cases "sess_state (sess_step x s) = sess_state s")
      case True
      with assms show ?thesis by (simp add: lifecycle_def op_events_def)
    next
      case moved: False
      then have ev: "map sc_State (op_events x s) = [State_String st]"
        using Some p by (simp add: op_events_def change_of_def)
      from moved Some p have st: "sess_state (sess_step x s) = st"
        "st = StateEnded \<or> state_num st = state_num (sess_state s) + 1"
        by (auto simp: sess_step_state split: if_splits)
      show ?thesis
      proof (cases "st = StateEnded")
        case True
        with assms False num ev st show ?thesis by (auto simp: lifecycle_def)
      next
        case nend: False
        with st assms False have "st = StateEnded \<or> take (state_num (sess_state s)) call_path @ [State_String st]
            = take (state_num st) call_path"
          by (cases st; cases "sess_state s") (auto simp: call_path_def)
        with nend assms False ev st show ?thesis by (simp add: lifecycle_def)
      qed
    qed
  qed
qed

lemma lifecycle_run:
  "lifecycle s evs \<Longrightarrow> lifecycle (fold sess_step xs s) (evs @ map sc_State (run_events xs s))"
proof (induction xs arbitrary: s evs)
  case (Cons x xs)
  from Cons.IH [OF lifecycle_step [OF Cons.prems, of x]] show ?case by simp
qed simp

lemma lifecycle_length: "lifecycle s evs \<Longrightarrow> length evs \<le> 4"
  by (auto simp: lifecycle_def call_path_def min_def split: if_splits)

lemma run_events_append: "run_events (xs @ ys) s = run_events xs s @ run_events ys (fold sess_step xs s)"
  by (induction xs arbitrary: s) auto

text \<open>What a session announces depends on its state and identity only, not on its subscribers.\<close>

lemma run_events_cong:
  assumes "sess_state a = sess_state b" and "change_of a = change_of b"
  shows "run_events xs a = run_events xs b"
  using assms
proof (induction xs arbitrary: a b)
  case (Cons x xs)
  have "sess_state (sess_step x a) = sess_state (sess_step x b)"
    unfolding sess_step_state Cons.prems(1) by (rule refl)
  moreover from this have "op_events x a = op_events x b"
    unfolding op_events_def using Cons.prems by (simp only:)
  moreover have "run_events xs (sess_step x a) = run_events xs (sess_step x b)"
    by (rule Cons.IH) (use calculation(1) Cons.prems(2) in \<open>simp_all only: change_of_step\<close>)
  ultimately show ?case by (simp only: run_events.simps)
qed simp

lemma sess_run_chan:
  assumes "sess_subs s i = Some c" and "sbus.bus_inv s" and "SUnsubscribe i \<notin> set xs" and "SRecv i \<notin> set xs"
  shows "sess_subs (fold sess_step xs s) i = Some (fold send_nb (run_events xs s) c)"
  using assms
proof (induction xs arbitrary: s c)
  case (Cons x xs)
  have "session_wf s" using Cons.prems(2) by (rule sbus.bus_inv_wf)
  with Cons.prems have "sess_subs (sess_step x s) i = Some (fold send_nb (op_events x s) c)"
    by (intro sess_step_chan) auto
  from Cons.IH [OF this sbus_inv_step [OF Cons.prems(2)]] Cons.prems show ?case by simp
qed simp

lemma fold_send_room:
  "chan_ok n c \<Longrightarrow> length (ch_buf c) + length es \<le> n \<Longrightarrow> ch_buf (fold send_nb es c) = ch_buf c @ es"
proof (induction es arbitrary: c)
  case (Cons e es)
  then have "ch_buf (send_nb e c) = ch_buf c @ [e]" by (intro send_nb_room) auto
  with Cons.IH [of "send_nb e c"] Cons.prems show ?case by (auto intro: chan_ok_send)
qed simp

lemma lifecycle_New [simp]: "lifecycle (NewSession i r d t) []"
  by (simp add: lifecycle_def NewSession_def)

lemma lifecycle_ended_last: "lifecycle s evs \<Longrightarrow> x \<in> set (butlast evs) \<Longrightarrow> x \<noteq> ''ended''"
proof -
  assume a: "lifecycle s evs" and x: "x \<in> set (butlast evs)"
  have path: "''ended'' \<notin> set (take k call_path)" for k
    using set_take_subset [of k call_path] by (auto simp: call_path_def)
  show "x \<noteq> ''ended''"
  proof (cases "sess_state s = StateEnded")
    case True
    with a x path show ?thesis by (auto simp: lifecycle_def)
  next
    case False
    with a x path show ?thesis by (auto simp: lifecycle_def dest: in_set_butlastD)
  qed
qed

lemma session_sub_complete:
  assumes "SUnsubscribe j \<notin> set ys" and "SRecv j \<notin> set ys"
    and "s = fold sess_step xs (NewSession i r d t)" and "session_Subscribe s = (j, s')"
  shows "\<exists>c. sess_subs (fold sess_step ys s') j = Some c \<and> ch_buf c = run_events ys s'"
proof -
  have s': "s' = sess_step SSubscribe s" "j = sess_nextID s" using assms(4) by (auto simp: session_Subscribe_def Let_def)
  have inv: "sbus.bus_inv s" unfolding assms(3) by (rule smach.invar_run) simp
  have sub: "sess_subs s' j = Some (make_chan session_cap)"
    using sbus.subscribe_lookup [OF sbus.bus_inv_wf [OF inv]] s' by simp
  have run: "sess_subs (fold sess_step ys s') j = Some (fold send_nb (run_events ys s') (make_chan session_cap))"
    using sess_run_chan [OF sub _ assms(1,2)] sbus_inv_step [OF inv, of SSubscribe] s' by simp
  have "lifecycle (fold sess_step (xs @ SSubscribe # ys) (NewSession i r d t))
      (map sc_State (run_events (xs @ SSubscribe # ys) (NewSession i r d t)))"
    using lifecycle_run [of "NewSession i r d t" "[]" "xs @ SSubscribe # ys"] by (simp add: lifecycle_def NewSession_def)
  from lifecycle_length [OF this] have "length (run_events ys s') \<le> 4"
    using s' assms(3) by (simp add: run_events_append)
  then have "length (ch_buf (make_chan session_cap :: StateChange chan)) + length (run_events ys s') \<le> session_cap"
    by (simp add: make_chan_def session_cap_def)
  from fold_send_room [OF chan_ok_make this] run show ?thesis by (auto simp: make_chan_def)
qed

section \<open>Properties\<close>


text \<open>Ended is final and the first reason wins. Once a session that was not over has been
  ended, no operation moves it out of the ended state, changes the recorded reason or announces
  anything more.\<close>

lemma session_end_is_final:
  assumes "sess_state s \<noteq> StateEnded"
  shows "sess_state (fold sess_step xs (End_session reason now s)) = StateEnded
    \<and> sess_reason (fold sess_step xs (End_session reason now s)) = reason
    \<and> run_events xs (End_session reason now s) = []"
  using assms sess_run_ended [of "End_session reason now s" xs] by (simp add: go_defs)

end
