(* ===== verification/Call_Manager.thy ===== *)
theory Call_Manager
  imports Call_Session "HOL-Library.List_Lexorder" "HOL-Library.Char_ord"
begin

text \<open>
  \<open>internal/call/manager.go\<close>: the registry of active sessions, its queue of inbound sessions and
  its fan-out of state changes.

  Sessions are shared by pointer between the registry, the engine's read loops, the forwarder
  goroutines and the IPC handlers, so they live in an explicit store: \<open>cm_heap\<close> gives the
  session behind a pointer (\<open>sref\<close>), and pointers from \<open>cm_next\<close> on are not allocated yet.
  A manager-level subscriber is a channel, named by a number that stands for the channel's
  identity. \<open>cm_forwarders\<close> records the forwarder goroutines that are running and the session
  subscription each of them reads; \<open>forward_step\<close> is one iteration of such a goroutine's loop.
\<close>

type_synonym sref = nat

record CallState =
  cm_heap :: "sref \<Rightarrow> Session"
  cm_next :: sref
  cm_sessions :: "(string \<times> sref) list"
  cm_inbound :: "sref chan"
  cm_subs :: "(nat \<times> StateChange chan) list"
  cm_nextChan :: nat
  cm_forwarders :: "sref \<rightharpoonup> nat"

definition manager_cap :: nat where "manager_cap = 32"

definition inbound_cap :: nat where "inbound_cap = 16"

definition NewManager :: CallState where
  "NewManager =
    \<lparr>cm_heap = (\<lambda>_. NewSession [] [] Outbound 0), cm_next = 0, cm_sessions = [],
     cm_inbound = make_chan inbound_cap, cm_subs = [], cm_nextChan = 0, cm_forwarders = Map.empty\<rparr>"

text \<open>Allocation of a session object.\<close>

definition new_ref :: "Session \<Rightarrow> 'a CallState_scheme \<Rightarrow> sref \<times> 'a CallState_scheme" where
  "new_ref s m = (cm_next m, m\<lparr>cm_heap := (cm_heap m)(cm_next m := s), cm_next := Suc (cm_next m)\<rparr>)"

definition upd_session :: "sref \<Rightarrow> (Session \<Rightarrow> Session) \<Rightarrow> 'a CallState_scheme \<Rightarrow> 'a CallState_scheme" where
  "upd_session r f m = m\<lparr>cm_heap := (cm_heap m)(r := f (cm_heap m r))\<rparr>"

definition manager_fanout :: "StateChange \<Rightarrow> 'a CallState_scheme \<Rightarrow> 'a CallState_scheme" where
  "manager_fanout ev m = m\<lparr>cm_subs := map (\<lambda>(i, c). (i, send_nb ev c)) (cm_subs m)\<rparr>"

definition Register :: "sref \<Rightarrow> 'a CallState_scheme \<Rightarrow> 'a CallState_scheme" where
  "Register r m =
    (let s = cm_heap m r in
     if map_of (cm_sessions m) (sess_id s) \<noteq> None then m
     else
       let m1 = m\<lparr>cm_sessions := mput (sess_id s) r (cm_sessions m)\<rparr>;
           (sub, s') = session_Subscribe s;
           m2 = m1\<lparr>cm_heap := (cm_heap m1)(r := s'), cm_forwarders := (cm_forwarders m1)(r \<mapsto> sub)\<rparr>
       in if sess_direction s = Inbound then m2\<lparr>cm_inbound := send_nb r (cm_inbound m2)\<rparr> else m2)"

text \<open>One iteration of the forwarder goroutine of \<open>r\<close>: without a pending event it blocks (the
  state is unchanged); after an ended event it unsubscribes and exits.\<close>

definition forward_step :: "sref \<Rightarrow> 'a CallState_scheme \<Rightarrow> 'a CallState_scheme" where
  "forward_step r m =
    (case cm_forwarders m r of
       None \<Rightarrow> m
     | Some sub \<Rightarrow>
         (case session_recv sub (cm_heap m r) of
            (None, _) \<Rightarrow> m
          | (Some ev, s') \<Rightarrow>
              let m1 = manager_fanout ev (m\<lparr>cm_heap := (cm_heap m)(r := s')\<rparr>) in
              if sc_State ev = State_String StateEnded
              then m1\<lparr>cm_heap := (cm_heap m1)(r := snd (session_Unsubscribe sub s')),
                      cm_forwarders := (cm_forwarders m1)(r := None)\<rparr>
              else m1))"

definition Get_call :: "string \<Rightarrow> 'a CallState_scheme \<Rightarrow> sref option" where
  "Get_call i m = map_of (cm_sessions m) i"

definition List_calls :: "'a CallState_scheme \<Rightarrow> sref list" where
  "List_calls m = sort_key (\<lambda>r. sess_id (cm_heap m r)) (map snd (cm_sessions m))"

definition Remove_call :: "string \<Rightarrow> 'a CallState_scheme \<Rightarrow> 'a CallState_scheme" where
  "Remove_call i m = m\<lparr>cm_sessions := mdel i (cm_sessions m)\<rparr>"

definition SubscribeStateChanges :: "'a CallState_scheme \<Rightarrow> nat \<times> 'a CallState_scheme" where
  "SubscribeStateChanges m =
    (cm_nextChan m,
     m\<lparr>cm_subs := cm_subs m @ [(cm_nextChan m, make_chan manager_cap)], cm_nextChan := Suc (cm_nextChan m)\<rparr>)"

definition UnsubscribeStateChanges :: "nat \<Rightarrow> 'a CallState_scheme \<Rightarrow> 'a CallState_scheme" where
  "UnsubscribeStateChanges ch m = m\<lparr>cm_subs := remove_first (\<lambda>(i, _). i = ch) (cm_subs m)\<rparr>"

text \<open>A subscriber takes one event out of its channel.\<close>

definition manager_recv :: "nat \<Rightarrow> 'a CallState_scheme \<Rightarrow> 'a CallState_scheme" where
  "manager_recv ch m = m\<lparr>cm_subs := map (\<lambda>(i, c). (i, if i = ch then snd (recv_nb c) else c)) (cm_subs m)\<rparr>"

text \<open>The forwarder of \<open>r\<close> run until it blocks or exits: at most the \<open>n\<close> events given.\<close>

fun forward_run :: "nat \<Rightarrow> sref \<Rightarrow> 'a CallState_scheme \<Rightarrow> 'a CallState_scheme" where
  "forward_run 0 r m = m"
| "forward_run (Suc n) r m = forward_run n r (forward_step r m)"

section \<open>Invariant\<close>

definition manager_wf :: "'a CallState_scheme \<Rightarrow> bool" where
  "manager_wf m \<longleftrightarrow> distinct (map fst (cm_subs m)) \<and> (\<forall>p\<in>set (cm_subs m). fst p < cm_nextChan m)"

text \<open>The registry: keys are the identifiers of allocated sessions, every registered session is
  well formed, and a forwarder that runs reads a subscription that exists.\<close>

definition registry_inv :: "'a CallState_scheme \<Rightarrow> bool" where
  "registry_inv m \<longleftrightarrow>
    distinct (map fst (cm_sessions m)) \<and>
    (\<forall>(i, r)\<in>set (cm_sessions m). r < cm_next m \<and> sess_id (cm_heap m r) = i) \<and>
    (\<forall>r. sbus.bus_inv (cm_heap m r)) \<and>
    (\<forall>r sub. cm_forwarders m r = Some sub \<longrightarrow> r < cm_next m \<and> sess_subs (cm_heap m r) sub \<noteq> None)"

section \<open>Lemmas\<close>

lemmas manager_defs = new_ref_def upd_session_def manager_fanout_def Register_def forward_step_def
  Get_call_def List_calls_def Remove_call_def SubscribeStateChanges_def UnsubscribeStateChanges_def
  manager_recv_def

lemma map_fst_chans [simp]:
  "map (fst \<circ> (\<lambda>(i, c). (i, f i c))) xs = map fst xs"
  by (induction xs) auto

lemma map_of_chans: "map_of (map (\<lambda>(i, c). (i, f i c)) xs) k = map_option (f k) (map_of xs k)"
  by (induction xs) auto

interpretation mbus: event_bus "\<lambda>m. map_of (cm_subs m)" cm_nextChan "\<lambda>m. snd (SubscribeStateChanges m)"
  UnsubscribeStateChanges manager_fanout manager_recv manager_wf manager_cap
proof
  fix s :: "'a CallState_scheme" and i j :: nat and e :: StateChange
  assume wf: "manager_wf s"
  show "manager_wf (snd (SubscribeStateChanges s))"
    using wf by (auto simp: manager_wf_def SubscribeStateChanges_def less_Suc_eq)
  show "manager_wf (UnsubscribeStateChanges i s)"
    using wf set_remove_first_subset [of "\<lambda>(k, _). k = i" "cm_subs s"]
    by (auto simp: manager_wf_def UnsubscribeStateChanges_def)
  show "manager_wf (manager_fanout e s)" "manager_wf (manager_recv i s)"
    using wf by (auto simp: manager_wf_def manager_fanout_def manager_recv_def)
  show "map_of (cm_subs s) i = None" if "cm_nextChan s \<le> i"
    using wf that by (auto simp: manager_wf_def map_of_eq_None_iff)
  show "map_of (cm_subs (snd (SubscribeStateChanges s))) = (map_of (cm_subs s))(cm_nextChan s \<mapsto> make_chan manager_cap)"
    using wf by (subst map_of_snoc_fresh [symmetric]) (auto simp: manager_wf_def SubscribeStateChanges_def)
  show "map_of (cm_subs (UnsubscribeStateChanges i s)) = (map_of (cm_subs s))(i := None)"
    using wf by (simp add: manager_wf_def UnsubscribeStateChanges_def map_of_remove_first)
  show "map_of (cm_subs (manager_fanout e s)) i = map_option (send_nb e) (map_of (cm_subs s) i)"
    by (simp add: manager_fanout_def map_of_map_snd)
  show "map_of (cm_subs (manager_recv j s)) i =
      (if i = j then map_option (snd \<circ> recv_nb) (map_of (cm_subs s) i) else map_of (cm_subs s) i)"
    by (auto simp: manager_recv_def map_of_chans [where f = "\<lambda>i c. if i = j then snd (recv_nb c) else c"]
        comp_def option.map_ident)
qed (simp_all add: SubscribeStateChanges_def UnsubscribeStateChanges_def manager_fanout_def manager_recv_def)

lemma mbus_wf_heap [simp]:
  "manager_wf (m\<lparr>cm_heap := h\<rparr>) = manager_wf m" "manager_wf (m\<lparr>cm_forwarders := f\<rparr>) = manager_wf m"
  "manager_wf (m\<lparr>cm_sessions := x\<rparr>) = manager_wf m" "manager_wf (m\<lparr>cm_inbound := q\<rparr>) = manager_wf m"
  "manager_wf (m\<lparr>cm_next := n\<rparr>) = manager_wf m"
  by (simp_all add: manager_wf_def)

lemma mbus_inv_heap [simp]:
  "mbus.bus_inv (m\<lparr>cm_heap := h\<rparr>) = mbus.bus_inv m" "mbus.bus_inv (m\<lparr>cm_forwarders := f\<rparr>) = mbus.bus_inv m"
  "mbus.bus_inv (m\<lparr>cm_sessions := x\<rparr>) = mbus.bus_inv m" "mbus.bus_inv (m\<lparr>cm_inbound := q\<rparr>) = mbus.bus_inv m"
  "mbus.bus_inv (m\<lparr>cm_next := n\<rparr>) = mbus.bus_inv m"
  by (simp_all add: mbus.bus_inv_def)

lemma mbus_inv_Register [simp]: "mbus.bus_inv m \<Longrightarrow> mbus.bus_inv (Register r m)"
  by (simp add: Register_def Let_def split: prod.splits)

lemma mbus_inv_forward: "mbus.bus_inv m \<Longrightarrow> mbus.bus_inv (forward_step r m)"
  by (auto simp: forward_step_def Let_def intro: mbus.bus_inv_publish split: option.splits prod.splits)

lemma cm_subs_Register [simp]: "cm_subs (Register r m) = cm_subs m"
  by (simp add: Register_def Let_def split: prod.splits)

text \<open>The forwarder with an empty channel, and one that has exited, do nothing.\<close>

lemma forward_step_idle: "cm_forwarders m r = None \<Longrightarrow> forward_step r m = m"
  by (simp add: forward_step_def)

lemma forward_run_idle: "forward_step r m = m \<Longrightarrow> forward_run n r m = m"
  by (induction n) auto

lemma forward_step_empty:
  "cm_forwarders m r = Some sub \<Longrightarrow> sess_subs (cm_heap m r) sub = Some c \<Longrightarrow> ch_buf c = [] \<Longrightarrow>
     forward_step r m = m"
  by (simp add: forward_step_def session_recv_def recv_nb_def)

lemma forward_step_event:
  assumes "cm_forwarders m r = Some sub" and "sess_subs (cm_heap m r) sub = Some c" and "ch_buf c = ev # evs"
  shows "cm_subs (forward_step r m) = cm_subs (manager_fanout ev m)"
    and "sc_State ev \<noteq> ''ended'' \<Longrightarrow> cm_forwarders (forward_step r m) r = Some sub
      \<and> sess_subs (cm_heap (forward_step r m) r) sub = Some (c\<lparr>ch_buf := evs\<rparr>)"
    and "sc_State ev = ''ended'' \<Longrightarrow> cm_forwarders (forward_step r m) r = None"
  using assms by (simp_all add: forward_step_def session_recv_def recv_nb_def manager_fanout_def Let_def)

lemma forward_run_delivers:
  assumes "cm_forwarders m r = Some sub" and "sess_subs (cm_heap m r) sub = Some c0" and "ch_buf c0 = evs"
    and "mbus.bus_inv m" and "map_of (cm_subs m) k = Some c" and "length (ch_buf c) + length evs \<le> manager_cap"
    and "length evs \<le> n" and "\<forall>e\<in>set (butlast evs). sc_State e \<noteq> ''ended''"
  shows "\<exists>c'. map_of (cm_subs (forward_run n r m)) k = Some c' \<and> ch_buf c' = ch_buf c @ evs"
  using assms
proof (induction evs arbitrary: m n c c0)
  case Nil
  then show ?case by (simp add: forward_run_idle forward_step_empty)
next
  case (Cons ev evs)
  then obtain n' where n: "n = Suc n'" by (cases n) auto
  note fw = forward_step_event [OF Cons.prems(1,2,3)]
  obtain c1 where c1: "map_of (cm_subs (forward_step r m)) k = Some c1" "ch_buf c1 = ch_buf c @ [ev]"
    using mbus.publish_delivers [OF Cons.prems(4,5), of ev] Cons.prems(6) fw(1) by auto
  have inv: "mbus.bus_inv (forward_step r m)" using Cons.prems(4) by (rule mbus_inv_forward)
  show ?case
  proof (cases "sc_State ev = ''ended''")
    case True
    with Cons.prems(8) have "evs = []" by (auto split: if_splits)
    with c1 n fw(3) [OF True] show ?thesis by (simp add: forward_run_idle forward_step_idle)
  next
    case False
    from Cons.prems(8) have "\<forall>e\<in>set (butlast evs). sc_State e \<noteq> ''ended''" by (auto split: if_splits)
    with Cons.IH [OF _ _ _ inv c1(1), of _ n'] fw(2) [OF False] Cons.prems(6,7) c1(2) n show ?thesis by auto
  qed
qed

lemma registry_inv_New: "registry_inv NewManager"
  by (simp add: registry_inv_def NewManager_def)

lemma mbus_inv_New: "mbus.bus_inv NewManager"
  by (simp add: mbus.bus_inv_def manager_wf_def NewManager_def)

lemma registry_inv_new_ref:
  assumes "registry_inv m" and "sbus.bus_inv s" and "new_ref s m = (r, m')"
  shows "registry_inv m'"
  using assms by (fastforce simp: registry_inv_def new_ref_def)

lemma registry_inv_Register:
  assumes "registry_inv m" and "r < cm_next m"
  shows "registry_inv (Register r m)"
proof -
  have "sbus.bus_inv (snd (session_Subscribe (cm_heap m r)))"
    using assms by (auto simp: registry_inv_def intro: sbus.bus_inv_subscribe)
  with assms show ?thesis
    by (auto simp: registry_inv_def Register_def session_Subscribe_def Let_def split: if_splits)
qed

lemma registry_inv_Remove: "registry_inv m \<Longrightarrow> registry_inv (Remove_call i m)"
  by (auto simp: registry_inv_def Remove_call_def)

lemma registry_inv_upd:
  assumes "registry_inv m" and "sbus.bus_inv (f (cm_heap m r))" and "sess_id (f (cm_heap m r)) = sess_id (cm_heap m r)"
    and "\<And>k. sess_subs (cm_heap m r) k \<noteq> None \<Longrightarrow> sess_subs (f (cm_heap m r)) k \<noteq> None"
  shows "registry_inv (upd_session r f m)"
  using assms by (auto simp: registry_inv_def upd_session_def)

section \<open>Properties\<close>

text \<open>The registry lists what it holds. With a well-formed registry, List returns the registered
  sessions in strictly increasing order of identifier, and a session is listed exactly when Get
  finds it under its own identifier.\<close>

lemma calls_list_sorted:
  assumes "registry_inv m"
  shows "sorted_wrt (<) (map (\<lambda>r. sess_id (cm_heap m r)) (List_calls m))
    \<and> (r \<in> set (List_calls m) \<longleftrightarrow> Get_call (sess_id (cm_heap m r)) m = Some r)"
proof -
  let ?f = "\<lambda>r. sess_id (cm_heap m r)"
  have keys: "map (?f \<circ> snd) (cm_sessions m) = map fst (cm_sessions m)"
    using assms by (auto simp: registry_inv_def)
  then have "distinct (map ?f (map snd (cm_sessions m)))" using assms unfolding registry_inv_def map_map by metis
  then have "distinct (map snd (cm_sessions m))" and "inj_on ?f (set (map snd (cm_sessions m)))"
    by (metis distinct_map)+
  then have "distinct (map ?f (List_calls m))"
    unfolding List_calls_def distinct_map [of ?f "sort_key _ _"] by simp
  moreover have "sorted (map ?f (List_calls m))" by (simp add: List_calls_def)
  ultimately have "sorted_wrt (<) (map ?f (List_calls m))" by (simp add: strict_sorted_iff)
  moreover have "r \<in> set (List_calls m) \<longleftrightarrow> Get_call (?f r) m = Some r"
    using assms by (auto simp: registry_inv_def List_calls_def Get_call_def map_of_eq_Some_iff rev_image_eqI
        dest: map_of_SomeD)
  ultimately show ?thesis by blast
qed

text \<open>Every state change of a registered session reaches the manager's subscribers. A session
  that is registered while fresh and then goes through any sequence of operations (none on the
  forwarder's own subscription) has, once its forwarder has run four times, delivered to a
  subscriber with room for four events exactly the state changes of the session, in order:
  ringing first, nothing lost, nothing repeated.\<close>

theorem registered_session_reaches_subscribers:
  assumes "mbus.bus_inv m" and "map_of (cm_subs m) k = Some c" and "length (ch_buf c) + 4 \<le> manager_cap"
    and "Get_call i m = None" and "new_ref (NewSession i p d t) m = (r, m1)"
    and "SUnsubscribe 0 \<notin> set xs" and "SRecv 0 \<notin> set xs"
    and "m2 = upd_session r (fold sess_step xs) (Register r m1)"
  shows "\<exists>c'. map_of (cm_subs (forward_run 4 r m2)) k = Some c'
    \<and> ch_buf c' = ch_buf c @ run_events xs (NewSession i p d t)"
proof -
  let ?s0 = "NewSession i p d t" and ?s1 = "snd (session_Subscribe (NewSession i p d t))"
  have sub: "session_Subscribe ?s0 = (0, ?s1)" by (simp add: session_Subscribe_def NewSession_def Let_def)
  have m1: "cm_heap m1 r = ?s0" "cm_sessions m1 = cm_sessions m" "cm_subs m1 = cm_subs m" "mbus.bus_inv m1"
    using assms(1,5) by (auto simp: new_ref_def)
  then have reg: "cm_heap (Register r m1) r = ?s1" "cm_forwarders (Register r m1) r = Some 0"
    using assms(4) by (simp_all add: Register_def Get_call_def session_Subscribe_def Let_def)
  have same: "run_events xs ?s1 = run_events xs ?s0"
    by (rule run_events_cong) (simp_all add: session_Subscribe_def change_of_def fun_eq_iff Let_def)
  obtain c0 where c0: "sess_subs (fold sess_step xs ?s1) 0 = Some c0" "ch_buf c0 = run_events xs ?s1"
    using session_sub_complete [OF assms(6,7) _ sub, of "[]" i p d t] by auto
  have life: "lifecycle (fold sess_step xs ?s0) (map sc_State (run_events xs ?s0))"
    using lifecycle_run [OF lifecycle_New, of xs i p d t] by simp
  have len: "length (run_events xs ?s0) \<le> 4" using lifecycle_length [OF life] by simp
  have last: "\<forall>e\<in>set (butlast (run_events xs ?s0)). sc_State e \<noteq> ''ended''"
    using lifecycle_ended_last [OF life] by (auto simp: map_butlast [symmetric])
  show ?thesis
  proof (rule forward_run_delivers)
    show "cm_forwarders m2 r = Some 0" "sess_subs (cm_heap m2 r) 0 = Some c0"
      using reg c0 assms(8) by (simp_all add: upd_session_def)
    show "ch_buf c0 = run_events xs ?s0" using c0 same by simp
    show "mbus.bus_inv m2" "map_of (cm_subs m2) k = Some c"
      using m1 assms(2,8) by (simp_all add: upd_session_def)
    show "length (ch_buf c) + length (run_events xs ?s0) \<le> manager_cap" using assms(3) len by simp
  qed (use len last in auto)
qed

theorem registered_session_reaches_subscribers_witness:
  "\<exists>c'. map_of (cm_subs (forward_run 4 0 (upd_session 0 (fold sess_step [SRinging 1, SEnd ''x'' 2])
      (Register 0 (snd (new_ref (NewSession ''c'' ''P'' Inbound 0) (snd (SubscribeStateChanges NewManager)))))))) 0 = Some c'
     \<and> map sc_State (ch_buf c') = [''ringing'', ''ended'']"
proof -
  let ?m = "snd (SubscribeStateChanges NewManager)" and ?s = "NewSession ''c'' ''P'' Inbound 0"
  have inv: "mbus.bus_inv ?m" by (intro mbus.bus_inv_subscribe mbus_inv_New)
  have c: "map_of (cm_subs ?m) 0 = Some (make_chan manager_cap)"
    by (simp add: SubscribeStateChanges_def NewManager_def)
  have r: "new_ref ?s ?m = (0, snd (new_ref ?s ?m))" by (simp add: new_ref_def SubscribeStateChanges_def NewManager_def)
  have g: "Get_call ''c'' ?m = None" by (simp add: Get_call_def SubscribeStateChanges_def NewManager_def)
  have l: "length (ch_buf (make_chan manager_cap :: StateChange chan)) + 4 \<le> manager_cap"
    by (simp add: make_chan_def manager_cap_def)
  have e: "map sc_State (run_events [SRinging 1, SEnd ''x'' 2] ?s) = [''ringing'', ''ended'']"
    by (simp add: op_events_def go_defs NewSession_def change_of_def)
  from registered_session_reaches_subscribers [OF inv c l g r, of "[SRinging 1, SEnd ''x'' 2]", OF _ _ refl] e
  show ?thesis by (auto simp: make_chan_def)
qed

end
