(* ===== verification/Call_Engine.thy ===== *)
theory Call_Engine
  imports Call_Manager
begin

text \<open>
  \<open>internal/call/protocol.go\<close> and \<open>internal/call/streams.go\<close>: the control messages and the engine
  that drives sessions from them.

  The engine's state extends the registry: the stream and the encoder bound to each session ID,
  what has been written to every stream and whether it is still open, the peerstore additions and
  the calls made on the resolver and the dialer. libp2p is not part of the repository: what the
  engine asks of it (opening a stream, rendering a peer ID, building a multiaddr) comes in through
  the \<open>libp2p\<close> and \<open>dial_env\<close> records, and a write may fail with an error text (\<open>wenv\<close>). A JSON line
  is its decoded message, or \<open>None\<close> when it does not parse.
\<close>

record Message =
  msg_Type :: string
  msg_CallID :: string
  msg_Reason :: string
  msg_Caller :: string

definition MsgInvite :: string where "MsgInvite = ''invite''"
definition MsgAccept :: string where "MsgAccept = ''accept''"
definition MsgDecline :: string where "MsgDecline = ''decline''"
definition MsgHangup :: string where "MsgHangup = ''hangup''"

lemmas msg_types = MsgInvite_def MsgAccept_def MsgDecline_def MsgHangup_def

type_synonym stream = nat

datatype stream_status = SOpen | SClosed | SReset

record AddrInfo =
  ai_ID :: peer_id
  ai_Addrs :: "addr list"

text \<open>The dialing calls the engine makes, in order.\<close>

datatype dial_call = CResolve peer_id | CInvalidate peer_id | CNewStream peer_id

record EngineState = CallState +
  en_streams :: "(string \<times> stream) list"
  en_encs :: "(string \<times> stream) list"
  en_wire :: "stream \<Rightarrow> Message list"
  en_status :: "stream \<Rightarrow> stream_status"
  en_handler :: bool
  en_localID :: string
  en_relays :: "AddrInfo list"
  en_resolver :: bool
  en_peerstore :: "(peer_id \<times> addr) list"
  en_dialLog :: "dial_call list"

record libp2p =
  lp_pidStr :: "peer_id \<Rightarrow> string"
  lp_p2pAddr :: "peer_id \<Rightarrow> addr option"
  lp_circuit :: "addr option"
  lp_encap :: "addr \<Rightarrow> addr \<Rightarrow> addr"

text \<open>The answers of the resolver and the dialer, by number of the call.\<close>

record dial_env =
  de_resolve :: "nat \<Rightarrow> string + addr list"
  de_newStream :: "nat \<Rightarrow> string + stream"
  de_uuid :: string
  de_now :: time

type_synonym wenv = "stream \<Rightarrow> Message \<Rightarrow> string option"

datatype engine_error =
    ErrDial peer_id string
  | ErrNoReservation peer_id string
  | ErrNoStream string
  | ErrWrite string
  | ErrSendInvite engine_error
  | ErrSendAccept engine_error
  | ErrNotInbound string
  | ErrState session_error

definition NewEngine :: "string \<Rightarrow> EngineState" where
  "NewEngine localID =
    CallState.extend NewManager
      (EngineState.fields [] [] (\<lambda>_. []) (\<lambda>_. SOpen) False localID [] False [] [])"

definition SetResolver :: "EngineState \<Rightarrow> EngineState" where
  "SetResolver e = e\<lparr>en_resolver := True\<rparr>"

definition SetRelays :: "AddrInfo list \<Rightarrow> EngineState \<Rightarrow> EngineState" where
  "SetRelays rs e = e\<lparr>en_relays := rs\<rparr>"

definition Start_engine :: "EngineState \<Rightarrow> EngineState" where
  "Start_engine e = e\<lparr>en_handler := True\<rparr>"

text \<open>\<open>Stop\<close>: the maps are emptied under the lock, then every stream that was bound is closed.\<close>

definition Stop_engine :: "EngineState \<Rightarrow> EngineState" where
  "Stop_engine e =
    e\<lparr>en_handler := False, en_streams := [], en_encs := [],
      en_status := (\<lambda>s. if s \<in> set (map snd (en_streams e)) then SClosed else en_status e s)\<rparr>"

definition bind_stream :: "sref \<Rightarrow> stream \<Rightarrow> EngineState \<Rightarrow> EngineState" where
  "bind_stream r st e =
    (let i = sess_id (cm_heap e r) in
     e\<lparr>en_streams := mput i st (en_streams e), en_encs := mput i st (en_encs e)\<rparr>)"

definition streamFor :: "string \<Rightarrow> EngineState \<Rightarrow> stream option" where
  "streamFor i e = map_of (en_streams e) i"

definition close_stream :: "stream \<Rightarrow> EngineState \<Rightarrow> EngineState" where
  "close_stream st e = e\<lparr>en_status := (en_status e)(st := SClosed)\<rparr>"

definition reset_stream :: "stream \<Rightarrow> EngineState \<Rightarrow> EngineState" where
  "reset_stream st e = e\<lparr>en_status := (en_status e)(st := SReset)\<rparr>"

definition unbindAndClose :: "string \<Rightarrow> EngineState \<Rightarrow> EngineState" where
  "unbindAndClose i e =
    (let st = map_of (en_streams e) i;
         e1 = e\<lparr>en_streams := mdel i (en_streams e), en_encs := mdel i (en_encs e)\<rparr>
     in case st of None \<Rightarrow> e1 | Some s \<Rightarrow> close_stream s e1)"

definition write_msg :: "wenv \<Rightarrow> sref \<Rightarrow> Message \<Rightarrow> EngineState \<Rightarrow> engine_error option \<times> EngineState" where
  "write_msg w r m e =
    (case map_of (en_encs e) (sess_id (cm_heap e r)) of
       None \<Rightarrow> (Some (ErrNoStream (sess_id (cm_heap e r))), e)
     | Some st \<Rightarrow>
         (case w st m of
            Some err \<Rightarrow> (Some (ErrWrite err), e)
          | None \<Rightarrow> (None, e\<lparr>en_wire := (en_wire e)(st := en_wire e st @ [m])\<rparr>)))"

text \<open>A transition whose error is discarded (\<open>_ = s.ToConnecting()\<close>).\<close>

abbreviation try_transition ::
    "(Session \<Rightarrow> session_error option \<times> Session) \<Rightarrow> sref \<Rightarrow> EngineState \<Rightarrow> EngineState" where
  "try_transition f r e \<equiv> upd_session r (\<lambda>s. snd (f s)) e"

abbreviation end_ref :: "string \<Rightarrow> time \<Rightarrow> sref \<Rightarrow> EngineState \<Rightarrow> EngineState" where
  "end_ref reason t r e \<equiv> upd_session r (End_session reason t) e"

section \<open>Dialing\<close>

fun has_prefix :: "string \<Rightarrow> string \<Rightarrow> bool" where
  "has_prefix [] s = True"
| "has_prefix (c # cs) [] = False"
| "has_prefix (c # cs) (d # ds) = (c = d \<and> has_prefix cs ds)"

text \<open>\<open>strings.Contains\<close>.\<close>

fun contains :: "string \<Rightarrow> string \<Rightarrow> bool" where
  "contains sub [] = (sub = [])"
| "contains sub (c # cs) = (has_prefix sub (c # cs) \<or> contains sub cs)"

definition translateDialError :: "peer_id \<Rightarrow> string \<Rightarrow> engine_error" where
  "translateDialError remote msg =
    (if contains ''NO_RESERVATION'' msg then ErrNoReservation remote msg else ErrDial remote msg)"

text \<open>\<open>resolves\<close> is the number of Resolve calls made before this one.\<close>

definition populatePeerstoreFromResolver ::
    "dial_env \<Rightarrow> peer_id \<Rightarrow> bool \<Rightarrow> nat \<Rightarrow> EngineState \<Rightarrow> bool \<times> EngineState" where
  "populatePeerstoreFromResolver d remote forceFresh resolves e =
    (if \<not> en_resolver e then (False, e)
     else
       let e1 = (if forceFresh then e\<lparr>en_dialLog := en_dialLog e @ [CInvalidate remote]\<rparr> else e);
           e2 = e1\<lparr>en_dialLog := en_dialLog e1 @ [CResolve remote]\<rparr>
       in case de_resolve d resolves of
            Inl _ \<Rightarrow> (False, e2)
          | Inr addrs \<Rightarrow>
              if addrs = [] then (False, e2)
              else (True, e2\<lparr>en_peerstore := en_peerstore e2 @ map (Pair remote) addrs\<rparr>))"

definition relay_addrs :: "libp2p \<Rightarrow> AddrInfo list \<Rightarrow> addr list" where
  "relay_addrs lp relays =
    (case lp_circuit lp of
       None \<Rightarrow> []
     | Some circuit \<Rightarrow>
         concat (map (\<lambda>relay.
           case lp_p2pAddr lp (ai_ID relay) of
             None \<Rightarrow> []
           | Some relayP2P \<Rightarrow> map (\<lambda>a. lp_encap lp (lp_encap lp a relayP2P) circuit) (ai_Addrs relay)) relays))"

definition populatePeerstoreWithRelayFallback :: "libp2p \<Rightarrow> peer_id \<Rightarrow> EngineState \<Rightarrow> EngineState" where
  "populatePeerstoreWithRelayFallback lp target e =
    (if en_relays e = [] then e
     else e\<lparr>en_peerstore := en_peerstore e @ map (Pair target) (relay_addrs lp (en_relays e))\<rparr>)"

definition dial :: "dial_env \<Rightarrow> peer_id \<Rightarrow> nat \<Rightarrow> EngineState \<Rightarrow> (string + stream) \<times> EngineState" where
  "dial d remote n e = (de_newStream d n, e\<lparr>en_dialLog := en_dialLog e @ [CNewStream remote]\<rparr>)"

text \<open>The dial half of \<open>Place\<close>: resolver, relay fallback, first dial, and one retry after a forced
  fresh lookup that found addresses.\<close>

definition place_dial ::
    "libp2p \<Rightarrow> dial_env \<Rightarrow> peer_id \<Rightarrow> EngineState \<Rightarrow> (engine_error + stream) \<times> EngineState" where
  "place_dial lp d remote e =
    (let (_, e1) = populatePeerstoreFromResolver d remote False 0 e;
         e2 = populatePeerstoreWithRelayFallback lp remote e1;
         (res, e3) = dial d remote 0 e2;
         (res', e4) =
           (case res of
              Inr st \<Rightarrow> (Inr st, e3)
            | Inl err \<Rightarrow>
                if \<not> en_resolver e3 then (Inl err, e3)
                else let (gained, e') = populatePeerstoreFromResolver d remote True 1 e3
                     in if gained then dial d remote 1 e' else (Inl err, e'))
     in case res' of
          Inr st \<Rightarrow> (Inr st, e4)
        | Inl err \<Rightarrow>
            (Inl (translateDialError remote err),
             if en_resolver e4 then e4\<lparr>en_dialLog := en_dialLog e4 @ [CInvalidate remote]\<rparr> else e4))"

definition NewCallID :: "string \<Rightarrow> string" where
  "NewCallID uuid = ''c-'' @ uuid"

text \<open>The error text recorded as the reason when the INVITE cannot be sent.\<close>

fun engine_error_text :: "engine_error \<Rightarrow> string" where
  "engine_error_text (ErrNoStream i) = ''no stream for session '' @ i"
| "engine_error_text (ErrWrite err) = err"
| "engine_error_text _ = []"

definition Place ::
    "libp2p \<Rightarrow> dial_env \<Rightarrow> wenv \<Rightarrow> peer_id \<Rightarrow> EngineState \<Rightarrow> (engine_error + sref) \<times> EngineState" where
  "Place lp d w remote e =
    (case place_dial lp d remote e of
       (Inl err, e1) \<Rightarrow> (Inl err, e1)
     | (Inr st, e1) \<Rightarrow>
         let i = NewCallID (de_uuid d);
             (r, e2) = new_ref (NewSession i remote Outbound (de_now d)) e1;
             e3 = Register r (bind_stream r st e2)
         in case write_msg w r \<lparr>msg_Type = MsgInvite, msg_CallID = i, msg_Reason = [],
                            msg_Caller = en_localID e3\<rparr> e3 of
              (Some err, e4) \<Rightarrow>
                (Inl (ErrSendInvite err),
                 Remove_call i (unbindAndClose i
                   (end_ref (''failed to send INVITE: '' @ engine_error_text err) (de_now d) r e4)))
            | (None, e4) \<Rightarrow>
                (case ToRinging (de_now d) (cm_heap e4 r) of
                   (Some err, _) \<Rightarrow> (Inl (ErrState err), e4)
                 | (None, s') \<Rightarrow> (Inr r, upd_session r (\<lambda>_. s') e4)))"

section \<open>Local actions\<close>

definition Accept_call :: "wenv \<Rightarrow> time \<Rightarrow> sref \<Rightarrow> EngineState \<Rightarrow> engine_error option \<times> EngineState" where
  "Accept_call w t r e =
    (let s = cm_heap e r in
     if sess_direction s \<noteq> Inbound then (Some (ErrNotInbound (sess_id s)), e)
     else
       case write_msg w r \<lparr>msg_Type = MsgAccept, msg_CallID = sess_id s, msg_Reason = [], msg_Caller = []\<rparr> e of
         (Some err, e1) \<Rightarrow> (Some (ErrSendAccept err), e1)
       | (None, e1) \<Rightarrow>
           (case ToConnecting t (cm_heap e1 r) of
              (Some err, _) \<Rightarrow> (Some (ErrState err), e1)
            | (None, s1) \<Rightarrow>
                let e2 = upd_session r (\<lambda>_. s1) e1 in
                (case ToConnected t s1 of
                   (Some err, _) \<Rightarrow> (Some (ErrState err), e2)
                 | (None, s2) \<Rightarrow> (None, upd_session r (\<lambda>_. s2) e2))))"

definition Hangup :: "wenv \<Rightarrow> time \<Rightarrow> string \<Rightarrow> sref \<Rightarrow> EngineState \<Rightarrow> EngineState" where
  "Hangup w t reason r e =
    (let i = sess_id (cm_heap e r);
         e1 = snd (write_msg w r \<lparr>msg_Type = MsgHangup, msg_CallID = i, msg_Reason = reason, msg_Caller = []\<rparr> e);
         e2 = end_ref reason t r e1
     in Remove_call i (unbindAndClose i e2))"

section \<open>The read side\<close>

text \<open>How a scanner stops: end of stream, an error, or a cancelled context.\<close>

datatype scan_end = ScanEOF | ScanErr string | ScanCanceled

text \<open>One message of the read loop: the new state and whether the loop returns.\<close>

definition scan_msg :: "sref \<Rightarrow> time \<Rightarrow> Message option \<Rightarrow> EngineState \<Rightarrow> bool \<times> EngineState" where
  "scan_msg r t line e =
    (case line of
       None \<Rightarrow> (False, e)
     | Some m \<Rightarrow>
         if msg_CallID m \<noteq> sess_id (cm_heap e r) then (False, e)
         else if msg_Type m = MsgAccept
           then (False, try_transition (ToConnected t) r (try_transition (ToConnecting t) r e))
         else if msg_Type m = MsgDecline then (True, end_ref (''declined: '' @ msg_Reason m) t r e)
         else if msg_Type m = MsgHangup then (True, end_ref (msg_Reason m) t r e)
         else (False, e))"

fun scan_loop ::
    "sref \<Rightarrow> (time \<times> Message option) list \<Rightarrow> time \<times> scan_end \<Rightarrow> EngineState \<Rightarrow> EngineState" where
  "scan_loop r [] (t, fin) e =
     (case fin of
        ScanErr err \<Rightarrow> end_ref (''stream error: '' @ err) t r e
      | _ \<Rightarrow> end_ref ''remote disconnected'' t r e)"
| "scan_loop r ((t, line) # ls) fin e =
     (let (stop, e1) = scan_msg r t line e in if stop then e1 else scan_loop r ls fin e1)"

text \<open>\<open>runScanner\<close>: the loop and the deferred cleanup.\<close>

definition runScanner ::
    "sref \<Rightarrow> (time \<times> Message option) list \<Rightarrow> time \<times> scan_end \<Rightarrow> EngineState \<Rightarrow> EngineState" where
  "runScanner r ls fin e =
    (let i = sess_id (cm_heap e r) in Remove_call i (unbindAndClose i (scan_loop r ls fin e)))"

definition readLoop ::
    "sref \<Rightarrow> (time \<times> Message option) list \<Rightarrow> time \<times> scan_end \<Rightarrow> EngineState \<Rightarrow> EngineState" where
  "readLoop r ls fin e =
    (case streamFor (sess_id (cm_heap e r)) e of None \<Rightarrow> e | Some _ \<Rightarrow> runScanner r ls fin e)"

text \<open>The first half of \<open>handleStream\<close>, up to the Ringing transition. \<open>first\<close> is \<open>None\<close> when the
  scanner yields no line (deadline, disconnect), and otherwise the decoded first line. \<open>None\<close> in
  the result means the handler returned.\<close>

definition handle_invite ::
    "libp2p \<Rightarrow> stream \<Rightarrow> peer_id \<Rightarrow> Message option option \<Rightarrow> time \<Rightarrow> EngineState \<Rightarrow> sref option \<times> EngineState" where
  "handle_invite lp st remote first now e =
    (case first of
       None \<Rightarrow> (None, reset_stream st e)
     | Some None \<Rightarrow> (None, reset_stream st e)
     | Some (Some m) \<Rightarrow>
         if msg_Type m \<noteq> MsgInvite \<or> msg_CallID m = [] then (None, reset_stream st e)
         else if msg_Caller m \<noteq> [] \<and> msg_Caller m \<noteq> lp_pidStr lp remote then (None, reset_stream st e)
         else
           let (r, e1) = new_ref (NewSession (msg_CallID m) remote Inbound now) e;
               e2 = Register r (bind_stream r st e1)
           in case ToRinging now (cm_heap e2 r) of
                (Some _, _) \<Rightarrow> (None, close_stream st e2)
              | (None, s') \<Rightarrow> (Some r, upd_session r (\<lambda>_. s') e2))"

definition handleStream ::
    "libp2p \<Rightarrow> stream \<Rightarrow> peer_id \<Rightarrow> Message option option \<Rightarrow> time
      \<Rightarrow> (time \<times> Message option) list \<Rightarrow> time \<times> scan_end \<Rightarrow> EngineState \<Rightarrow> EngineState" where
  "handleStream lp st remote first now ls fin e =
    (case handle_invite lp st remote first now e of
       (None, e1) \<Rightarrow> e1
     | (Some r, e1) \<Rightarrow> runScanner r ls fin e1)"

section \<open>Two engines on one call\<close>

text \<open>
  A caller and a callee whose engines follow the code, connected by one control stream: what one
  side writes on its end is what the other side reads, in order. \<open>du_na\<close> is how many messages the
  caller has read, \<open>du_nb\<close> how many the callee has. Either user may press any button at any time.
\<close>

definition read_step :: "sref \<Rightarrow> time \<Rightarrow> Message option \<Rightarrow> EngineState \<Rightarrow> EngineState" where
  "read_step r t line e =
    (let i = sess_id (cm_heap e r); (stop, e1) = scan_msg r t line e
     in if stop then Remove_call i (unbindAndClose i e1) else e1)"

record duo =
  du_a :: EngineState
  du_b :: EngineState
  du_ra :: sref
  du_rb :: sref
  du_sa :: stream
  du_sb :: stream
  du_na :: nat
  du_nb :: nat

inductive duo_step :: "duo \<Rightarrow> duo \<Rightarrow> bool" where
  a_read: "du_na s < length (en_wire (du_b s) (du_sb s)) \<Longrightarrow>
     duo_step s (s\<lparr>du_a := read_step (du_ra s) t (Some (en_wire (du_b s) (du_sb s) ! du_na s)) (du_a s),
                   du_na := Suc (du_na s)\<rparr>)"
| b_read: "du_nb s < length (en_wire (du_a s) (du_sa s)) \<Longrightarrow>
     duo_step s (s\<lparr>du_b := read_step (du_rb s) t (Some (en_wire (du_a s) (du_sa s) ! du_nb s)) (du_b s),
                   du_nb := Suc (du_nb s)\<rparr>)"
| a_accept: "duo_step s (s\<lparr>du_a := snd (Accept_call w t (du_ra s) (du_a s))\<rparr>)"
| b_accept: "duo_step s (s\<lparr>du_b := snd (Accept_call w t (du_rb s) (du_b s))\<rparr>)"
| a_hangup: "duo_step s (s\<lparr>du_a := Hangup w t reason (du_ra s) (du_a s)\<rparr>)"
| b_hangup: "duo_step s (s\<lparr>du_b := Hangup w t reason (du_rb s) (du_b s)\<rparr>)"
| a_lost: "duo_step s (s\<lparr>du_a := runScanner (du_ra s) [] fin (du_a s)\<rparr>)"
| b_lost: "duo_step s (s\<lparr>du_b := runScanner (du_rb s) [] fin (du_b s)\<rparr>)"

abbreviation state_of :: "EngineState \<Rightarrow> sref \<Rightarrow> State" where
  "state_of e r \<equiv> sess_state (cm_heap e r)"

text \<open>Right after \<open>Place\<close> on one side and the first half of \<open>handleStream\<close> on the other.\<close>

definition duo_init :: "string \<Rightarrow> duo \<Rightarrow> bool" where
  "duo_init i s \<longleftrightarrow>
    (let a = du_a s; b = du_b s; ra = du_ra s; rb = du_rb s in
     sess_id (cm_heap a ra) = i \<and> sess_id (cm_heap b rb) = i \<and>
     sess_direction (cm_heap a ra) = Outbound \<and> sess_direction (cm_heap b rb) = Inbound \<and>
     state_of a ra = StateRinging \<and> state_of b rb = StateRinging \<and>
     map_of (en_encs a) i = Some (du_sa s) \<and> map_of (en_encs b) i = Some (du_sb s) \<and>
     map msg_Type (en_wire a (du_sa s)) = [MsgInvite] \<and> en_wire b (du_sb s) = [] \<and>
     du_na s = 0 \<and> du_nb s = 1)"

inductive duo_reach :: "string \<Rightarrow> duo \<Rightarrow> bool" for i where
  duo_start: "duo_init i s \<Longrightarrow> duo_reach i s"
| duo_next: "duo_reach i s \<Longrightarrow> duo_step s s' \<Longrightarrow> duo_reach i s'"

definition accepted :: "Message list \<Rightarrow> bool" where
  "accepted ms \<longleftrightarrow> MsgAccept \<in> msg_Type ` set ms"

definition duo_inv :: "string \<Rightarrow> duo \<Rightarrow> bool" where
  "duo_inv i s \<longleftrightarrow>
    (let a = du_a s; b = du_b s; ra = du_ra s; rb = du_rb s; wa = en_wire a (du_sa s); wb = en_wire b (du_sb s) in
     sess_id (cm_heap a ra) = i \<and> sess_id (cm_heap b rb) = i \<and>
     sess_direction (cm_heap a ra) = Outbound \<and> sess_direction (cm_heap b rb) = Inbound \<and>
     map_of (en_encs a) i \<in> {None, Some (du_sa s)} \<and> map_of (en_encs b) i \<in> {None, Some (du_sb s)} \<and>
     msg_Type ` set wa \<subseteq> {MsgInvite, MsgHangup} \<and> msg_Type ` set wb \<subseteq> {MsgAccept, MsgHangup} \<and>
     state_of b rb \<in> {StateRinging, StateConnected, StateEnded} \<and>
     (state_of b rb = StateEnded \<longrightarrow> map_of (en_encs b) i = None) \<and>
     (state_of b rb = StateRinging \<longrightarrow> \<not> accepted wb) \<and>
     (state_of b rb = StateConnected \<longrightarrow> accepted wb) \<and>
     du_na s \<le> length wb \<and>
     (state_of a ra \<in> {StateConnecting, StateConnected} \<longrightarrow> accepted (take (du_na s) wb)))"

section \<open>Lemmas\<close>

lemmas engine_defs = bind_stream_def streamFor_def close_stream_def reset_stream_def unbindAndClose_def
  write_msg_def upd_session_def Remove_call_def Get_call_def Let_def

lemmas transition_defs = ToRinging_def ToConnecting_def ToConnected_def session_transition_def
  End_session_def session_broadcast_def

lemma End_session_sel [simp]:
  "sess_state (End_session reason t s) = StateEnded" "sess_id (End_session reason t s) = sess_id s"
  "sess_direction (End_session reason t s) = sess_direction s"
  by (simp_all add: End_session_def session_broadcast_def)

lemma scan_msg_frame:
  assumes "scan_msg r t line e = (stop, e1)"
  shows "en_streams e1 = en_streams e" "en_encs e1 = en_encs e" "en_status e1 = en_status e"
    "en_wire e1 = en_wire e" "cm_sessions e1 = cm_sessions e" "cm_next e1 = cm_next e"
    "sess_id (cm_heap e1 r) = sess_id (cm_heap e r)" "sess_direction (cm_heap e1 r) = sess_direction (cm_heap e r)"
    "r' \<noteq> r \<Longrightarrow> cm_heap e1 r' = cm_heap e r'"
  using assms
  by (auto simp: scan_msg_def upd_session_def transition_defs split: option.splits if_splits)

lemma scan_msg_stop: "scan_msg r t line e = (True, e1) \<Longrightarrow> state_of e1 r = StateEnded"
  by (auto simp: scan_msg_def upd_session_def split: option.splits if_splits)

lemma scan_loop_frame:
  "en_streams (scan_loop r ls fin e) = en_streams e \<and> en_encs (scan_loop r ls fin e) = en_encs e
   \<and> en_status (scan_loop r ls fin e) = en_status e \<and> cm_sessions (scan_loop r ls fin e) = cm_sessions e
   \<and> en_wire (scan_loop r ls fin e) = en_wire e
   \<and> sess_id (cm_heap (scan_loop r ls fin e) r) = sess_id (cm_heap e r)
   \<and> sess_direction (cm_heap (scan_loop r ls fin e) r) = sess_direction (cm_heap e r)
   \<and> (\<forall>r'. r' \<noteq> r \<longrightarrow> cm_heap (scan_loop r ls fin e) r' = cm_heap e r')
   \<and> state_of (scan_loop r ls fin e) r = StateEnded"
proof (induction r ls fin e rule: scan_loop.induct)
  case (1 r t fin e)
  then show ?case by (cases fin) (simp_all add: upd_session_def)
next
  case (2 r t line ls fin e)
  obtain stop e1 where m: "scan_msg r t line e = (stop, e1)" by fastforce
  show ?case
  proof (cases stop)
    case True
    with m scan_msg_frame [OF m] scan_msg_stop show ?thesis by auto
  next
    case False
    with m scan_msg_frame [OF m] 2 [OF m [symmetric] refl] show ?thesis by auto
  qed
qed

lemma unbindAndClose_sel [simp]:
  "cm_heap (unbindAndClose i e) = cm_heap e" "cm_sessions (unbindAndClose i e) = cm_sessions e"
  "en_wire (unbindAndClose i e) = en_wire e"
  "map_of (en_streams (unbindAndClose i e)) = (map_of (en_streams e))(i := None)"
  "map_of (en_encs (unbindAndClose i e)) = (map_of (en_encs e))(i := None)"
  by (auto simp: engine_defs split: option.splits)

lemma unbindAndClose_status:
  "en_status (unbindAndClose i e) =
     (case map_of (en_streams e) i of None \<Rightarrow> en_status e | Some s \<Rightarrow> (en_status e)(s := SClosed))"
  by (auto simp: engine_defs split: option.splits)

lemma Remove_call_sel [simp]:
  "cm_heap (Remove_call i e) = cm_heap e" "en_streams (Remove_call i e) = en_streams e"
  "en_encs (Remove_call i e) = en_encs e" "en_status (Remove_call i e) = en_status e"
  "en_wire (Remove_call i e) = en_wire e" "map_of (cm_sessions (Remove_call i e)) = (map_of (cm_sessions e))(i := None)"
  by (simp_all add: Remove_call_def)

subsection \<open>What each step does to one session and its stream\<close>

lemma ToRinging_New [simp]:
  "ToRinging t (snd (session_Subscribe (NewSession i remote dir t'))) =
    (None, session_broadcast (change_of (snd (session_Subscribe (NewSession i remote dir t'))) StateRinging t [])
      ((snd (session_Subscribe (NewSession i remote dir t')))\<lparr>sess_state := StateRinging\<rparr>))"
  by (simp add: ToRinging_def session_transition_def session_Subscribe_def)

lemma read_step_frame:
  "en_wire (read_step r t l e) = en_wire e \<and> sess_id (cm_heap (read_step r t l e) r) = sess_id (cm_heap e r)
   \<and> sess_direction (cm_heap (read_step r t l e) r) = sess_direction (cm_heap e r)
   \<and> (map_of (en_encs (read_step r t l e)) i = map_of (en_encs e) i \<or> map_of (en_encs (read_step r t l e)) i = None)
   \<and> (map_of (en_encs e) i = None \<longrightarrow> map_of (en_encs (read_step r t l e)) i = None)"
  by (cases "scan_msg r t l e") (auto simp: read_step_def Let_def scan_msg_frame)

text \<open>Only an ACCEPT can make a session connecting or connected; only a HANGUP or DECLINE (which
  also unbinds the stream) ends it.\<close>

lemma read_step_state:
  assumes "read_step r t (Some m) e = e'"
  shows "state_of e' r = state_of e r
     \<or> msg_Type m = MsgAccept \<and> state_of e' r = StateConnected
     \<or> state_of e' r = StateEnded \<and> map_of (en_encs e') (sess_id (cm_heap e r)) = None"
  using assms
  by (cases "state_of e r")
    (auto simp: read_step_def scan_msg_def upd_session_def transition_defs Let_def split: if_splits)

lemma write_msg_frame:
  assumes "write_msg w r m e = (res, e')"
  shows "cm_heap e' = cm_heap e" "en_encs e' = en_encs e" "en_streams e' = en_streams e" "en_status e' = en_status e"
    "cm_sessions e' = cm_sessions e"
    "map_of (en_encs e) (sess_id (cm_heap e r)) = None \<Longrightarrow> e' = e"
    "map_of (en_encs e) (sess_id (cm_heap e r)) = Some st \<Longrightarrow>
       en_wire e' = (if res = None then (en_wire e)(st := en_wire e st @ [m]) else en_wire e)"
  using assms by (auto simp: write_msg_def split: option.splits)

lemma Accept_call_outbound: "sess_direction (cm_heap e r) = Outbound \<Longrightarrow> snd (Accept_call w t r e) = e"
  by (simp add: Accept_call_def)

lemma Accept_call_effect:
  fixes w t r e
  assumes e': "e' = snd (Accept_call w t r e)" and i: "i = sess_id (cm_heap e r)"
    and st: "map_of (en_encs e) i \<in> {None, Some st}"
  shows "sess_id (cm_heap e' r) = i \<and> sess_direction (cm_heap e' r) = sess_direction (cm_heap e r)
    \<and> en_encs e' = en_encs e
    \<and> (state_of e' r = state_of e r \<and> en_wire e' st = en_wire e st
       \<or> map_of (en_encs e) i \<noteq> None \<and> (\<exists>m. msg_Type m = MsgAccept \<and> en_wire e' st = en_wire e st @ [m])
         \<and> state_of e' r = (if state_of e r = StateRinging then StateConnected else state_of e r))"
  using assms
  by (cases "state_of e r") (auto simp: Accept_call_def write_msg_def upd_session_def transition_defs Let_def
      split: option.splits if_splits)

lemma Hangup_effect:
  assumes "e' = Hangup w t reason r e" and "i = sess_id (cm_heap e r)"
    and "map_of (en_encs e) i \<in> {None, Some st}"
  shows "sess_id (cm_heap e' r) = i \<and> sess_direction (cm_heap e' r) = sess_direction (cm_heap e r)
    \<and> map_of (en_encs e') i = None \<and> state_of e' r = StateEnded
    \<and> (\<exists>ms. msg_Type ` set ms \<subseteq> {MsgHangup} \<and> en_wire e' st = en_wire e st @ ms)"
proof -
  let ?m = "\<lparr>msg_Type = MsgHangup, msg_CallID = i, msg_Reason = reason, msg_Caller = []\<rparr>"
  obtain res e1 where w: "write_msg w r ?m e = (res, e1)" by fastforce
  have "\<exists>ms. msg_Type ` set ms \<subseteq> {MsgHangup} \<and> en_wire e1 st = en_wire e st @ ms"
    using w assms(3) assms(2) [symmetric]
    by (auto simp: write_msg_def split: option.splits intro: exI [of _ "[]"] exI [of _ "[?m]"])
  with w write_msg_frame [OF w] assms(1,2) show ?thesis
    by (simp add: Hangup_def Let_def upd_session_def)
qed

lemma runScanner_effect:
  assumes "e' = runScanner r ls fin e" and "i = sess_id (cm_heap e r)"
  shows "sess_id (cm_heap e' r) = i \<and> sess_direction (cm_heap e' r) = sess_direction (cm_heap e r)
    \<and> map_of (en_encs e') i = None \<and> state_of e' r = StateEnded \<and> en_wire e' = en_wire e"
  using assms scan_loop_frame [of r ls fin e] by (simp add: runScanner_def Let_def)

lemma accepted_append [simp]: "accepted (xs @ ys) \<longleftrightarrow> accepted xs \<or> accepted ys"
  by (auto simp: accepted_def)

lemma accepted_Nil [simp]: "\<not> accepted []"
  by (simp add: accepted_def)

lemma accepted_single [simp]: "accepted [m] \<longleftrightarrow> msg_Type m = MsgAccept"
  by (auto simp: accepted_def)

lemma accepted_take: "accepted (take n ms) \<Longrightarrow> accepted ms"
  by (auto simp: accepted_def dest: in_set_takeD)

lemma accepted_hangups: "msg_Type ` set ms \<subseteq> {MsgHangup} \<Longrightarrow> \<not> accepted ms"
  by (auto simp: accepted_def msg_types)

lemma duo_inv_sel:
  assumes "duo_inv i s"
  shows "sess_id (cm_heap (du_a s) (du_ra s)) = i" "sess_id (cm_heap (du_b s) (du_rb s)) = i"
    "sess_direction (cm_heap (du_a s) (du_ra s)) = Outbound" "sess_direction (cm_heap (du_b s) (du_rb s)) = Inbound"
    "map_of (en_encs (du_a s)) i \<in> {None, Some (du_sa s)}" "map_of (en_encs (du_b s)) i \<in> {None, Some (du_sb s)}"
    "msg_Type ` set (en_wire (du_a s) (du_sa s)) \<subseteq> {MsgInvite, MsgHangup}"
    "msg_Type ` set (en_wire (du_b s) (du_sb s)) \<subseteq> {MsgAccept, MsgHangup}"
    "state_of (du_b s) (du_rb s) \<in> {StateRinging, StateConnected, StateEnded}"
    "state_of (du_b s) (du_rb s) = StateEnded \<longrightarrow> map_of (en_encs (du_b s)) i = None"
    "state_of (du_b s) (du_rb s) = StateRinging \<longrightarrow> \<not> accepted (en_wire (du_b s) (du_sb s))"
    "state_of (du_b s) (du_rb s) = StateConnected \<longrightarrow> accepted (en_wire (du_b s) (du_sb s))"
    "du_na s \<le> length (en_wire (du_b s) (du_sb s))"
    "state_of (du_a s) (du_ra s) \<in> {StateConnecting, StateConnected} \<longrightarrow>
       accepted (take (du_na s) (en_wire (du_b s) (du_sb s)))"
  using assms unfolding duo_inv_def Let_def by blast+

lemma duo_inv_a:
  assumes inv: "duo_inv i s" and n: "n \<le> length (en_wire (du_b s) (du_sb s))" "du_na s \<le> n"
    and eff: "sess_id (cm_heap a' (du_ra s)) = i" "sess_direction (cm_heap a' (du_ra s)) = Outbound"
      "map_of (en_encs a') i = map_of (en_encs (du_a s)) i \<or> map_of (en_encs a') i = None"
      "msg_Type ` set (en_wire a' (du_sa s)) \<subseteq> {MsgInvite, MsgHangup}"
    and st: "state_of a' (du_ra s) \<in> {StateConnecting, StateConnected} \<Longrightarrow>
      state_of (du_a s) (du_ra s) \<in> {StateConnecting, StateConnected} \<or> accepted (take n (en_wire (du_b s) (du_sb s)))"
  shows "duo_inv i (s\<lparr>du_a := a', du_na := n\<rparr>)"
proof -
  have "accepted (take (du_na s) wb) \<Longrightarrow> accepted (take n wb)" for wb
    using n(2) by (auto simp: accepted_def dest: set_take_subset_set_take [THEN subsetD])
  then have st': "state_of a' (du_ra s) \<in> {StateConnecting, StateConnected} \<longrightarrow> accepted (take n (en_wire (du_b s) (du_sb s)))"
    using duo_inv_sel(14) [OF inv] st by blast
  have "map_of (en_encs a') i \<in> {None, Some (du_sa s)}" using duo_inv_sel(5) [OF inv] eff(3) by auto
  then show ?thesis using duo_inv_sel [OF inv] n(1) eff(1,2,4) st' unfolding duo_inv_def Let_def
    by (intro conjI) simp_all
qed

lemma duo_inv_b:
  assumes inv: "duo_inv i s"
    and eff: "sess_id (cm_heap b' (du_rb s)) = i" "sess_direction (cm_heap b' (du_rb s)) = Inbound"
      "map_of (en_encs b') i = map_of (en_encs (du_b s)) i \<or> map_of (en_encs b') i = None"
    and wire: "en_wire b' (du_sb s) = en_wire (du_b s) (du_sb s) @ ms" "msg_Type ` set ms \<subseteq> {MsgAccept, MsgHangup}"
    and st: "state_of b' (du_rb s) \<in> {StateRinging, StateConnected, StateEnded}"
      "state_of b' (du_rb s) = StateEnded \<Longrightarrow> map_of (en_encs b') i = None"
      "state_of b' (du_rb s) = StateRinging \<Longrightarrow> state_of (du_b s) (du_rb s) = StateRinging \<and> ms = []"
      "state_of b' (du_rb s) = StateConnected \<Longrightarrow> state_of (du_b s) (du_rb s) = StateConnected \<or> accepted ms"
  shows "duo_inv i (s\<lparr>du_b := b', du_nb := n\<rparr>)"
proof -
  note sel = duo_inv_sel [OF inv]
  have "map_of (en_encs b') i \<in> {None, Some (du_sb s)}" using sel(6) eff(3) by auto
  moreover have "msg_Type ` set (en_wire b' (du_sb s)) \<subseteq> {MsgAccept, MsgHangup}"
    using sel(8) wire by auto
  moreover have "state_of b' (du_rb s) = StateRinging \<longrightarrow> \<not> accepted (en_wire b' (du_sb s))"
    using sel(11) st(3) wire(1) by auto
  moreover have "state_of b' (du_rb s) = StateConnected \<longrightarrow> accepted (en_wire b' (du_sb s))"
    using sel(12) st(4) wire(1) by auto
  moreover have "take (du_na s) (en_wire b' (du_sb s)) = take (du_na s) (en_wire (du_b s) (du_sb s))"
    using sel(13) wire(1) by simp
  ultimately show ?thesis using sel eff(1,2) st(1,2) wire(1) unfolding duo_inv_def Let_def
    by (intro conjI) simp_all
qed

lemma duo_inv_init: "duo_init i s \<Longrightarrow> duo_inv i s"
  by (auto simp: duo_init_def duo_inv_def Let_def accepted_def)

lemma duo_upd_same: "s\<lparr>du_a := x, du_na := du_na s\<rparr> = s\<lparr>du_a := x\<rparr>" "s\<lparr>du_b := x, du_nb := du_nb s\<rparr> = s\<lparr>du_b := x\<rparr>"
  by simp_all

lemma duo_inv_step: "duo_step s s' \<Longrightarrow> duo_inv i s \<Longrightarrow> duo_inv i s'"
proof (induction rule: duo_step.induct)
  case (a_read s t)
  let ?m = "en_wire (du_b s) (du_sb s) ! du_na s"
  note sel = duo_inv_sel [OF a_read(2)]
  have "state_of (read_step (du_ra s) t (Some ?m) (du_a s)) (du_ra s) \<in> {StateConnecting, StateConnected} \<Longrightarrow>
      state_of (du_a s) (du_ra s) \<in> {StateConnecting, StateConnected} \<or> msg_Type ?m = MsgAccept"
    using read_step_state [OF refl, of "du_ra s" t ?m "du_a s"] by auto
  then have "state_of (read_step (du_ra s) t (Some ?m) (du_a s)) (du_ra s) \<in> {StateConnecting, StateConnected} \<Longrightarrow>
      state_of (du_a s) (du_ra s) \<in> {StateConnecting, StateConnected}
      \<or> accepted (take (Suc (du_na s)) (en_wire (du_b s) (du_sb s)))"
    using a_read(1) by (auto simp: take_Suc_conv_app_nth)
  with a_read sel read_step_frame [of "du_ra s" t "Some ?m" "du_a s" i] show ?case
    by (intro duo_inv_a) simp_all
next
  case (b_read s t)
  let ?m = "en_wire (du_a s) (du_sa s) ! du_nb s"
  note sel = duo_inv_sel [OF b_read(2)]
  have "msg_Type ?m \<in> msg_Type ` set (en_wire (du_a s) (du_sa s))" using b_read(1) by simp
  then have "msg_Type ?m \<noteq> MsgAccept" using sel(7) by (auto simp: msg_types)
  then consider "state_of (read_step (du_rb s) t (Some ?m) (du_b s)) (du_rb s) = state_of (du_b s) (du_rb s)"
    | "state_of (read_step (du_rb s) t (Some ?m) (du_b s)) (du_rb s) = StateEnded"
      "map_of (en_encs (read_step (du_rb s) t (Some ?m) (du_b s))) i = None"
    using read_step_state [OF refl, of "du_rb s" t ?m "du_b s"] sel(2) by auto
  then show ?case
    using duo_inv_b [OF b_read(2), of "read_step (du_rb s) t (Some ?m) (du_b s)" "[]" "Suc (du_nb s)"] sel(2,4,9,10)
      read_step_frame [of "du_rb s" t "Some ?m" "du_b s" i]
    by cases simp_all
next
  case (a_accept s w t)
  then show ?case by (simp add: Accept_call_outbound duo_inv_sel)
next
  case (b_accept s w t)
  note sel = duo_inv_sel [OF b_accept]
  note eff = Accept_call_effect [OF refl sel(2) [symmetric] sel(6), of w t]
  from eff consider (same) "state_of (snd (Accept_call w t (du_rb s) (du_b s))) (du_rb s) = state_of (du_b s) (du_rb s)"
      "en_wire (snd (Accept_call w t (du_rb s) (du_b s))) (du_sb s) = en_wire (du_b s) (du_sb s)"
    | (sent) m where "map_of (en_encs (du_b s)) i \<noteq> None" "msg_Type m = MsgAccept"
      "en_wire (snd (Accept_call w t (du_rb s) (du_b s))) (du_sb s) = en_wire (du_b s) (du_sb s) @ [m]"
      "state_of (snd (Accept_call w t (du_rb s) (du_b s))) (du_rb s) =
        (if state_of (du_b s) (du_rb s) = StateRinging then StateConnected else state_of (du_b s) (du_rb s))"
    by blast
  then show ?case
  proof cases
    case same
    show ?thesis using duo_inv_b [OF b_accept, of "snd (Accept_call w t (du_rb s) (du_b s))" "[]" "du_nb s"] same eff sel(4,9,10) by simp
  next
    case (sent m)
    have "state_of (snd (Accept_call w t (du_rb s) (du_b s))) (du_rb s) = StateConnected"
      using sel(9,10) sent(1,4) by auto
    then show ?thesis using duo_inv_b [OF b_accept, of "snd (Accept_call w t (du_rb s) (du_b s))" "[m]" "du_nb s"]
        sent(2,3) eff sel(4) by simp
  qed
next
  case (a_hangup s w t reason)
  note sel = duo_inv_sel [OF a_hangup]
  note eff = Hangup_effect [OF refl sel(1) [symmetric] sel(5), of w t reason]
  from eff obtain ms where ms: "msg_Type ` set ms \<subseteq> {MsgHangup}"
    "en_wire (Hangup w t reason (du_ra s) (du_a s)) (du_sa s) = en_wire (du_a s) (du_sa s) @ ms" by blast
  have "msg_Type ` set (en_wire (Hangup w t reason (du_ra s) (du_a s)) (du_sa s)) \<subseteq> {MsgInvite, MsgHangup}"
    unfolding ms(2) set_append image_Un using ms(1) sel(7) by blast
  with eff sel(3,13) show ?case
    using duo_inv_a [OF a_hangup, of "du_na s" "Hangup w t reason (du_ra s) (du_a s)"] by simp
next
  case (b_hangup s w t reason)
  note sel = duo_inv_sel [OF b_hangup]
  note eff = Hangup_effect [OF refl sel(2) [symmetric] sel(6), of w t reason]
  from eff obtain ms where "msg_Type ` set ms \<subseteq> {MsgAccept, MsgHangup}"
    "en_wire (Hangup w t reason (du_rb s) (du_b s)) (du_sb s) = en_wire (du_b s) (du_sb s) @ ms" by blast
  with eff sel(4) show ?case
    using duo_inv_b [OF b_hangup, of "Hangup w t reason (du_rb s) (du_b s)" ms "du_nb s"] by simp
next
  case (a_lost s fin)
  note sel = duo_inv_sel [OF a_lost]
  show ?case
    using runScanner_effect [OF refl sel(1) [symmetric], of "[]" fin] sel
      duo_inv_a [OF a_lost, of "du_na s" "runScanner (du_ra s) [] fin (du_a s)"] by simp
next
  case (b_lost s fin)
  note sel = duo_inv_sel [OF b_lost]
  show ?case
    using runScanner_effect [OF refl sel(2) [symmetric], of "[]" fin] sel
      duo_inv_b [OF b_lost, of "runScanner (du_rb s) [] fin (du_b s)" "[]" "du_nb s"] by simp
qed

lemma duo_inv_reach: "duo_reach i s \<Longrightarrow> duo_inv i s"
  by (induction rule: duo_reach.induct) (auto intro: duo_inv_init duo_inv_step)

subsection \<open>Starting a call\<close>

lemma Register_heap [simp]:
  "sess_state (cm_heap (Register r m) r') = sess_state (cm_heap m r')"
  "sess_id (cm_heap (Register r m) r') = sess_id (cm_heap m r')"
  "sess_direction (cm_heap (Register r m) r') = sess_direction (cm_heap m r')"
  "sess_remote (cm_heap (Register r m) r') = sess_remote (cm_heap m r')"
  by (simp_all add: Register_def Let_def session_Subscribe_def)

lemma Register_engine [simp]:
  "en_streams (Register r e) = en_streams e" "en_encs (Register r e) = en_encs e" "en_wire (Register r e) = en_wire e"
  "en_status (Register r e) = en_status e" "en_localID (Register r e) = en_localID e"
  "en_dialLog (Register r e) = en_dialLog e" "cm_next (Register r e) = cm_next e"
  by (simp_all add: Register_def Let_def session_Subscribe_def)

lemma Register_sessions:
  "map_of (cm_sessions (Register r e)) =
    (if map_of (cm_sessions e) (sess_id (cm_heap e r)) = None
     then (map_of (cm_sessions e))(sess_id (cm_heap e r) \<mapsto> r) else map_of (cm_sessions e))"
  by (simp add: Register_def Let_def session_Subscribe_def)

lemma ToRinging_idle:
  "sess_state s = StateIdle \<Longrightarrow> \<exists>s'. ToRinging t s = (None, s') \<and> sess_state s' = StateRinging \<and> sess_id s' = sess_id s
     \<and> sess_direction s' = sess_direction s \<and> sess_remote s' = sess_remote s"
  by (simp add: transition_defs)

text \<open>The part \<open>Place\<close> and \<open>handleStream\<close> share: allocate, bind, register, ring.\<close>

lemma start_session:
  assumes "new_ref (NewSession i remote dir t) e = (r, e1)" and "e2 = Register r (bind_stream r st e1)"
  shows "r = cm_next e" "sess_state (cm_heap e2 r) = StateIdle" "sess_id (cm_heap e2 r) = i"
    "sess_direction (cm_heap e2 r) = dir" "sess_remote (cm_heap e2 r) = remote"
    "map_of (en_streams e2) = (map_of (en_streams e))(i \<mapsto> st)" "map_of (en_encs e2) = (map_of (en_encs e))(i \<mapsto> st)"
    "en_wire e2 = en_wire e" "en_status e2 = en_status e" "en_localID e2 = en_localID e" "en_dialLog e2 = en_dialLog e"
    "map_of (cm_sessions e2) = (if map_of (cm_sessions e) i = None then (map_of (cm_sessions e))(i \<mapsto> r) else map_of (cm_sessions e))"
    "r' \<noteq> r \<Longrightarrow> sess_state (cm_heap e2 r') = sess_state (cm_heap e r')"
  using assms by (auto simp: new_ref_def bind_stream_def Let_def Register_sessions)

text \<open>The outcome of the first half of \<open>handleStream\<close> on a valid INVITE.\<close>

definition valid_invite :: "libp2p \<Rightarrow> peer_id \<Rightarrow> Message \<Rightarrow> bool" where
  "valid_invite lp remote m \<longleftrightarrow>
    msg_Type m = MsgInvite \<and> msg_CallID m \<noteq> [] \<and> (msg_Caller m = [] \<or> msg_Caller m = lp_pidStr lp remote)"

lemma handle_invite_valid:
  assumes "valid_invite lp remote m"
  shows "\<exists>e'. handle_invite lp st remote (Some (Some m)) t e = (Some (cm_next e), e')
    \<and> sess_state (cm_heap e' (cm_next e)) = StateRinging \<and> sess_id (cm_heap e' (cm_next e)) = msg_CallID m
    \<and> sess_direction (cm_heap e' (cm_next e)) = Inbound \<and> sess_remote (cm_heap e' (cm_next e)) = remote
    \<and> map_of (en_streams e') = (map_of (en_streams e))(msg_CallID m \<mapsto> st)
    \<and> map_of (en_encs e') = (map_of (en_encs e))(msg_CallID m \<mapsto> st)
    \<and> en_wire e' = en_wire e \<and> en_status e' = en_status e
    \<and> map_of (cm_sessions e') = (if map_of (cm_sessions e) (msg_CallID m) = None
        then (map_of (cm_sessions e))(msg_CallID m \<mapsto> cm_next e) else map_of (cm_sessions e))
    \<and> (\<forall>r'. r' \<noteq> cm_next e \<longrightarrow> state_of e' r' = state_of e r')"
proof -
  obtain r e1 where n: "new_ref (NewSession (msg_CallID m) remote Inbound t) e = (r, e1)" by fastforce
  define e2 where "e2 = Register r (bind_stream r st e1)"
  note st = start_session [OF n e2_def]
  obtain s' where "ToRinging t (cm_heap e2 r) = (None, s')" "sess_state s' = StateRinging" "sess_id s' = msg_CallID m"
      "sess_direction s' = Inbound" "sess_remote s' = remote"
    using ToRinging_idle [OF st(2)] st(3-5) by metis
  moreover from this(1) have "handle_invite lp st remote (Some (Some m)) t e = (Some r, upd_session r (\<lambda>_. s') e2)"
    using n assms by (auto simp: handle_invite_def valid_invite_def e2_def)
  ultimately show ?thesis using st by (simp add: upd_session_def)
qed

lemma handle_invite_invalid:
  assumes "\<nexists>m. first = Some (Some m) \<and> valid_invite lp remote m"
  shows "handle_invite lp st remote first t e = (None, reset_stream st e)"
  using assms by (auto simp: handle_invite_def valid_invite_def split: option.splits)

definition is_NewStream :: "dial_call \<Rightarrow> bool" where
  "is_NewStream c = (case c of CNewStream _ \<Rightarrow> True | _ \<Rightarrow> False)"

definition is_Resolve :: "dial_call \<Rightarrow> bool" where
  "is_Resolve c = (case c of CResolve _ \<Rightarrow> True | _ \<Rightarrow> False)"

lemmas dial_defs = place_dial_def populatePeerstoreFromResolver_def populatePeerstoreWithRelayFallback_def dial_def
  Let_def

lemma place_dial_frame:
  assumes "place_dial lp d remote e = (res, e')"
  shows "cm_heap e' = cm_heap e" "cm_next e' = cm_next e" "cm_sessions e' = cm_sessions e" "en_streams e' = en_streams e"
    "en_encs e' = en_encs e" "en_wire e' = en_wire e" "en_status e' = en_status e" "en_localID e' = en_localID e"
    "en_resolver e' = en_resolver e"
  using assms by (auto simp: dial_defs split: if_splits sum.splits)

lemma place_dial_log:
  assumes "place_dial lp d remote e = (res, e')"
  shows "\<exists>l. en_dialLog e' = en_dialLog e @ l
     \<and> l \<in> (if en_resolver e
         then {[CResolve remote, CNewStream remote],
               [CResolve remote, CNewStream remote, CInvalidate remote, CResolve remote, CInvalidate remote],
               [CResolve remote, CNewStream remote, CInvalidate remote, CResolve remote, CNewStream remote],
               [CResolve remote, CNewStream remote, CInvalidate remote, CResolve remote, CNewStream remote, CInvalidate remote]}
         else {[CNewStream remote]})
     \<and> (isl res \<and> en_resolver e \<longrightarrow> last l = CInvalidate remote)
     \<and> (\<not> isl res \<longrightarrow> last l = CNewStream remote)"
  using assms by (auto simp: dial_defs split: if_splits sum.splits)

lemma place_dial_retry:
  assumes "place_dial lp d remote e = (res, e')" and "en_dialLog e' = en_dialLog e @ l"
    and "length (List.filter is_NewStream l) = 2"
  shows "isl (de_newStream d 0)"
  using assms by (auto simp: dial_defs is_NewStream_def split: if_splits sum.splits)

text \<open>The two outcomes of \<open>Place\<close> once the dial has succeeded.\<close>

lemma Place_outcome:
  assumes d: "place_dial lp d remote e = (Inr st, e1)"
  defines "i \<equiv> NewCallID (de_uuid d)"
  shows "(\<exists>e'. Place lp d w remote e = (Inr (cm_next e), e') \<and> state_of e' (cm_next e) = StateRinging
       \<and> sess_id (cm_heap e' (cm_next e)) = i \<and> sess_direction (cm_heap e' (cm_next e)) = Outbound
       \<and> map_of (en_streams e') = (map_of (en_streams e))(i \<mapsto> st) \<and> map_of (en_encs e') = (map_of (en_encs e))(i \<mapsto> st)
       \<and> en_dialLog e' = en_dialLog e1
       \<and> en_wire e' = (en_wire e)(st := en_wire e st @ [\<lparr>msg_Type = MsgInvite, msg_CallID = i, msg_Reason = [], msg_Caller = en_localID e\<rparr>])
       \<and> map_of (cm_sessions e') = (if map_of (cm_sessions e) i = None then (map_of (cm_sessions e))(i \<mapsto> cm_next e) else map_of (cm_sessions e)))
   \<or> (\<exists>err e'. Place lp d w remote e = (Inl (ErrSendInvite (ErrWrite err)), e') \<and> state_of e' (cm_next e) = StateEnded
       \<and> map_of (en_streams e') = (map_of (en_streams e))(i := None) \<and> map_of (en_encs e') = (map_of (en_encs e))(i := None)
       \<and> en_dialLog e' = en_dialLog e1 \<and> en_status e' st = SClosed
       \<and> map_of (cm_sessions e') = (map_of (cm_sessions e))(i := None))"
proof -
  note fr = place_dial_frame [OF d]
  obtain r e2 where n: "new_ref (NewSession i remote Outbound (de_now d)) e1 = (r, e2)" by fastforce
  define e3 where "e3 = Register r (bind_stream r st e2)"
  note st = start_session [OF n e3_def]
  define m where "m = \<lparr>msg_Type = MsgInvite, msg_CallID = i, msg_Reason = [], msg_Caller = en_localID e\<rparr>"
  obtain s' where rg: "ToRinging (de_now d) (cm_heap e3 r) = (None, s')" "sess_state s' = StateRinging" "sess_id s' = i"
      "sess_direction s' = Outbound"
    using ToRinging_idle [OF st(2)] st(3,4) by metis
  have P: "Place lp d w remote e =
    (case write_msg w r m e3 of
       (Some err, e4) \<Rightarrow> (Inl (ErrSendInvite err), Remove_call i (unbindAndClose i
            (end_ref (''failed to send INVITE: '' @ engine_error_text err) (de_now d) r e4)))
     | (None, e4) \<Rightarrow> (case ToRinging (de_now d) (cm_heap e4 r) of
            (Some err, _) \<Rightarrow> (Inl (ErrState err), e4) | (None, s') \<Rightarrow> (Inr r, upd_session r (\<lambda>_. s') e4)))"
    unfolding Place_def d using st(10) fr(8)
    by (simp add: n i_def [symmetric] e3_def [symmetric] m_def Let_def del: Register_engine)
  show ?thesis
  proof (cases "w st m")
    case None
    then have "write_msg w r m e3 = (None, e3\<lparr>en_wire := (en_wire e3)(st := en_wire e3 st @ [m])\<rparr>)"
      using st(3,7) by (simp add: write_msg_def)
    with P rg st fr m_def show ?thesis by (intro disjI1) (simp add: upd_session_def)
  next
    case (Some err)
    then have "write_msg w r m e3 = (Some (ErrWrite err), e3)" using st(3,7) by (simp add: write_msg_def)
    with P st fr show ?thesis
      by (intro disjI2) (auto simp: upd_session_def unbindAndClose_status Remove_call_def unbindAndClose_def Let_def close_stream_def)
  qed
qed

section \<open>Properties\<close>



text \<open>C17: The stream handler admits exactly the valid INVITEs. A first line that is missing, malformed,
  not an INVITE, without a call ID or naming another caller than the authenticated peer resets the
  stream and changes nothing else. A valid INVITE always yields an inbound session in Ringing for
  the authenticated peer, bound to the stream, and registered when its call ID is not in use.\<close>

theorem handleStream_admission:
  "handle_invite lp st remote first t e =
     (if \<exists>m. first = Some (Some m) \<and> valid_invite lp remote m
      then (Some (cm_next e), snd (handle_invite lp st remote first t e))
      else (None, reset_stream st e))
   \<and> (\<forall>m. first = Some (Some m) \<and> valid_invite lp remote m \<longrightarrow>
        (let e' = snd (handle_invite lp st remote first t e); s = cm_heap e' (cm_next e) in
         sess_state s = StateRinging \<and> sess_direction s = Inbound \<and> sess_remote s = remote \<and> sess_id s = msg_CallID m
         \<and> streamFor (msg_CallID m) e' = Some st
         \<and> (Get_call (msg_CallID m) e = None \<longrightarrow> Get_call (msg_CallID m) e' = Some (cm_next e))))"
proof (cases "\<exists>m. first = Some (Some m) \<and> valid_invite lp remote m")
  case True
  then obtain m where m: "first = Some (Some m)" "valid_invite lp remote m" by blast
  from handle_invite_valid [OF m(2), of st t e] m show ?thesis by (auto simp: streamFor_def Get_call_def Let_def)
next
  case False
  then show ?thesis using handle_invite_invalid [OF False, of st t e] by auto
qed

theorem handleStream_admission_witness:
  "let m = \<lparr>msg_Type = ''invite'', msg_CallID = ''c1'', msg_Reason = [], msg_Caller = ''bob''\<rparr>;
       lp = \<lparr>lp_pidStr = id, lp_p2pAddr = Some, lp_circuit = None, lp_encap = (@)\<rparr>;
       e' = snd (handle_invite lp 7 ''bob'' (Some (Some m)) 0 (NewEngine ''me''))
   in valid_invite lp ''bob'' m \<and> Get_call ''c1'' (NewEngine ''me'') = None
      \<and> streamFor ''c1'' e' = Some 7 \<and> Get_call ''c1'' e' = Some (cm_next (NewEngine ''me''))
      \<and> state_of e' (cm_next (NewEngine ''me'')) = StateRinging"
  using handleStream_admission [of "\<lparr>lp_pidStr = id, lp_p2pAddr = Some, lp_circuit = None, lp_encap = (@)\<rparr>" 7 "''bob''"
      "Some (Some \<lparr>msg_Type = ''invite'', msg_CallID = ''c1'', msg_Reason = [], msg_Caller = ''bob''\<rparr>)" 0 "NewEngine ''me''"]
  by (simp add: valid_invite_def msg_types Get_call_def NewEngine_def NewManager_def CallState.defs EngineState.defs Let_def)

text \<open>Placing a call dials at most twice, and only dials again after an invalidated cache and a
  fresh lookup that found addresses. The dialing calls of one \<open>Place\<close> are one of five fixed
  sequences, and when no stream could be opened the resolver's cache entry for the peer is
  invalidated last.\<close>

theorem Place_bounded_dialing:
  "\<exists>l. en_dialLog (snd (Place lp d w remote e)) = en_dialLog e @ l
     \<and> length (List.filter is_NewStream l) \<in> {1, 2} \<and> length (List.filter is_Resolve l) \<le> 2
     \<and> (length (List.filter is_NewStream l) = 2 \<longrightarrow>
          en_resolver e \<and> isl (de_newStream d 0) \<and> take 5 l = [CResolve remote, CNewStream remote, CInvalidate remote, CResolve remote, CNewStream remote])
     \<and> ((\<exists>err. fst (Place lp d w remote e) \<in> {Inl (ErrDial remote err), Inl (ErrNoReservation remote err)}) \<and> en_resolver e
          \<longrightarrow> last l = CInvalidate remote)"
proof -
  obtain res e1 where d: "place_dial lp d remote e = (res, e1)" by fastforce
  from place_dial_log [OF d] obtain l where l: "en_dialLog e1 = en_dialLog e @ l"
    and l5: "l \<in> (if en_resolver e
         then {[CResolve remote, CNewStream remote],
               [CResolve remote, CNewStream remote, CInvalidate remote, CResolve remote, CInvalidate remote],
               [CResolve remote, CNewStream remote, CInvalidate remote, CResolve remote, CNewStream remote],
               [CResolve remote, CNewStream remote, CInvalidate remote, CResolve remote, CNewStream remote, CInvalidate remote]}
         else {[CNewStream remote]})"
    and last: "isl res \<and> en_resolver e \<longrightarrow> last l = CInvalidate remote" by blast
  have two: "length (List.filter is_NewStream l) = 2 \<longrightarrow> isl (de_newStream d 0)"
    using place_dial_retry [OF d] l by simp
  have log: "en_dialLog (snd (Place lp d w remote e)) = en_dialLog e1"
    using d Place_outcome [of lp d remote e _ e1 w] by (cases res) (auto simp: Place_def)
  have err: "fst (Place lp d w remote e) \<in> {Inl (ErrDial remote err), Inl (ErrNoReservation remote err)} \<Longrightarrow> isl res" for err
    using d Place_outcome [of lp d remote e _ e1 w] by (cases res) auto
  show ?thesis
  proof (intro exI [of _ l] conjI)
    show "((\<exists>err. fst (Place lp d w remote e) \<in> {Inl (ErrDial remote err), Inl (ErrNoReservation remote err)})
        \<and> en_resolver e) \<longrightarrow> last l = CInvalidate remote"
      using last err by blast
    show "length (List.filter is_NewStream l) = 2 \<longrightarrow> en_resolver e \<and> isl (de_newStream d 0)
        \<and> take 5 l = [CResolve remote, CNewStream remote, CInvalidate remote, CResolve remote, CNewStream remote]"
      using two l5 by (auto simp: is_NewStream_def split: if_splits)
  qed (use l log l5 in \<open>auto simp: is_NewStream_def is_Resolve_def split: if_splits\<close>)
qed

theorem Place_bounded_dialing_witness:
  "let d = \<lparr>de_resolve = (\<lambda>_. Inr [''a'']), de_newStream = (\<lambda>_. Inl ''timeout''), de_uuid = ''u'', de_now = 0\<rparr>;
       lp = \<lparr>lp_pidStr = id, lp_p2pAddr = Some, lp_circuit = None, lp_encap = (@)\<rparr>;
       e = SetResolver (NewEngine ''me'')
   in \<exists>l. en_dialLog (snd (Place lp d (\<lambda>_ _. None) ''bob'' e)) = en_dialLog e @ l
        \<and> length (List.filter is_NewStream l) \<in> {1, 2} \<and> last l = CInvalidate ''bob''"
proof -
  define d where "d = \<lparr>de_resolve = (\<lambda>_. Inr [''a'']), de_newStream = (\<lambda>_. Inl ''timeout'' :: string + stream), de_uuid = ''u'', de_now = 0\<rparr>"
  define lp where "lp = \<lparr>lp_pidStr = id, lp_p2pAddr = Some, lp_circuit = None, lp_encap = (@)\<rparr>"
  have "fst (Place lp d (\<lambda>_ _. None) ''bob'' (SetResolver (NewEngine ''me''))) = Inl (ErrDial ''bob'' ''timeout'')"
    by (simp add: Place_def dial_defs d_def lp_def SetResolver_def NewEngine_def CallState.defs EngineState.defs translateDialError_def)
  moreover have "en_resolver (SetResolver (NewEngine ''me''))" by (simp add: SetResolver_def)
  ultimately show ?thesis
    using Place_bounded_dialing [of lp d "\<lambda>_ _. None" "''bob''" "SetResolver (NewEngine ''me'')"]
    unfolding d_def [symmetric] lp_def [symmetric] Let_def by auto
qed

text \<open>A call that could not be placed leaves nothing behind. When \<open>Place\<close> returns an error and its
  fresh call ID was not in use, the registry, the stream table and the encoder table are what they
  were before, and a stream that had been opened is closed.\<close>

theorem Place_failure_leaves_nothing:
  assumes "Place lp d w remote e = (Inl err, e')"
    and "Get_call (NewCallID (de_uuid d)) e = None" "streamFor (NewCallID (de_uuid d)) e = None"
      "map_of (en_encs e) (NewCallID (de_uuid d)) = None"
  shows "Get_call i e' = Get_call i e \<and> streamFor i e' = streamFor i e \<and> map_of (en_encs e') i = map_of (en_encs e) i
    \<and> (\<forall>st. fst (place_dial lp d remote e) = Inr st \<longrightarrow> en_status e' st = SClosed)"
proof -
  obtain res e1 where d: "place_dial lp d remote e = (res, e1)" by fastforce
  show ?thesis
  proof (cases res)
    case (Inl err')
    with d place_dial_frame [OF d] assms(1) show ?thesis
      by (auto simp: Place_def Get_call_def streamFor_def)
  next
    case (Inr st)
    with d have d': "place_dial lp d remote e = (Inr st, e1)" by simp
    from Place_outcome [OF d', of w] assms d' show ?thesis
      by (auto simp: Get_call_def streamFor_def)
  qed
qed

theorem Place_failure_leaves_nothing_witness:
  "let d = \<lparr>de_resolve = (\<lambda>_. Inr []), de_newStream = (\<lambda>_. Inr 4), de_uuid = ''u'', de_now = 0\<rparr>;
       lp = \<lparr>lp_pidStr = id, lp_p2pAddr = Some, lp_circuit = None, lp_encap = (@)\<rparr>;
       w = (\<lambda>_ _. Some ''broken pipe'');
       e' = snd (Place lp d w ''bob'' (NewEngine ''me''))
   in Get_call ''c-u'' e' = None \<and> streamFor ''c-u'' e' = None \<and> en_status e' 4 = SClosed"
proof -
  define d where "d = \<lparr>de_resolve = (\<lambda>_. Inr [] :: string + addr list), de_newStream = (\<lambda>_. Inr 4 :: string + stream), de_uuid = ''u'', de_now = 0\<rparr>"
  define lp where "lp = \<lparr>lp_pidStr = id, lp_p2pAddr = Some, lp_circuit = None, lp_encap = (@)\<rparr>"
  define w where "w = (\<lambda>(_::stream) (_::Message). Some ''broken pipe'')"
  have dial: "fst (place_dial lp d ''bob'' (NewEngine ''me'')) = Inr 4"
    by (simp add: dial_defs d_def lp_def NewEngine_def CallState.defs EngineState.defs)
  have "Place lp d w ''bob'' (NewEngine ''me'') = (Inl (ErrSendInvite (ErrWrite ''broken pipe'')), snd (Place lp d w ''bob'' (NewEngine ''me'')))"
    by (simp add: Place_def dial_defs d_def lp_def w_def NewEngine_def NewManager_def CallState.defs EngineState.defs new_ref_def
        Register_def bind_stream_def session_Subscribe_def mput_def write_msg_def)
  from Place_failure_leaves_nothing [OF this, of "''c-u''"] dial show ?thesis
    unfolding d_def [symmetric] lp_def [symmetric] w_def [symmetric] Let_def
    by (simp add: d_def NewCallID_def Get_call_def streamFor_def NewEngine_def NewManager_def CallState.defs EngineState.defs)
qed


text \<open>A concrete call: the caller's engine after \<open>Place\<close>, the callee's after the INVITE.\<close>

definition ex_lp :: libp2p where
  "ex_lp = \<lparr>lp_pidStr = id, lp_p2pAddr = Some, lp_circuit = None, lp_encap = (@)\<rparr>"

definition ex_dial :: dial_env where
  "ex_dial = \<lparr>de_resolve = (\<lambda>_. Inr []), de_newStream = (\<lambda>_. Inr 4), de_uuid = ''u'', de_now = 0\<rparr>"

definition ex_a :: EngineState where
  "ex_a = snd (Place ex_lp ex_dial (\<lambda>_ _. None) ''bob'' (NewEngine ''alice''))"

definition ex_b :: EngineState where
  "ex_b = snd (handle_invite ex_lp 9 ''alice'' (Some (Some (last (en_wire ex_a 4)))) 0 (NewEngine ''bob''))"

definition ex_duo :: duo where
  "ex_duo = \<lparr>du_a = ex_a, du_b = ex_b, du_ra = 0, du_rb = 0, du_sa = 4, du_sb = 9, du_na = 0, du_nb = 1\<rparr>"

lemma NewEngine_sel [simp]:
  "cm_next (NewEngine i) = 0" "cm_sessions (NewEngine i) = []" "en_streams (NewEngine i) = []" "en_encs (NewEngine i) = []"
  "en_wire (NewEngine i) = (\<lambda>_. [])" "en_resolver (NewEngine i) = False" "en_localID (NewEngine i) = i"
  "en_relays (NewEngine i) = []"
  by (simp_all add: NewEngine_def NewManager_def CallState.defs EngineState.defs)

lemma ex_a_place:
  "fst (Place ex_lp ex_dial (\<lambda>_ _. None) ''bob'' (NewEngine ''alice'')) = Inr 0"
  "state_of ex_a 0 = StateRinging" "sess_id (cm_heap ex_a 0) = ''c-u''" "sess_direction (cm_heap ex_a 0) = Outbound"
  "map_of (en_encs ex_a) = [''c-u'' \<mapsto> 4]" "map_of (en_streams ex_a) = [''c-u'' \<mapsto> 4]"
  "en_wire ex_a 4 = [\<lparr>msg_Type = MsgInvite, msg_CallID = ''c-u'', msg_Reason = [], msg_Caller = ''alice''\<rparr>]"
proof -
  obtain e1 where d: "place_dial ex_lp ex_dial ''bob'' (NewEngine ''alice'') = (Inr 4, e1)"
    by (cases "place_dial ex_lp ex_dial ''bob'' (NewEngine ''alice'')") (auto simp: dial_defs ex_dial_def)
  have no_err: "\<forall>err. fst (Place ex_lp ex_dial (\<lambda>_ _. None) ''bob'' (NewEngine ''alice'')) \<noteq> Inl (ErrSendInvite (ErrWrite err))"
    using d by (auto simp: Place_def write_msg_def Let_def split: option.splits prod.splits)
  with Place_outcome [OF d, of "\<lambda>_ _. None"]
  show "fst (Place ex_lp ex_dial (\<lambda>_ _. None) ''bob'' (NewEngine ''alice'')) = Inr 0"
    "state_of ex_a 0 = StateRinging" "sess_id (cm_heap ex_a 0) = ''c-u''" "sess_direction (cm_heap ex_a 0) = Outbound"
    "map_of (en_encs ex_a) = [''c-u'' \<mapsto> 4]" "map_of (en_streams ex_a) = [''c-u'' \<mapsto> 4]"
    "en_wire ex_a 4 = [\<lparr>msg_Type = MsgInvite, msg_CallID = ''c-u'', msg_Reason = [], msg_Caller = ''alice''\<rparr>]"
    by (auto simp: ex_a_def NewCallID_def ex_dial_def)
qed

lemma ex_duo_init: "duo_init ''c-u'' ex_duo"
proof -
  have v: "valid_invite ex_lp ''alice'' (last (en_wire ex_a 4))"
    by (simp add: ex_a_place valid_invite_def ex_lp_def)
  from handle_invite_valid [OF v, of 9 0 "NewEngine ''bob''"] show ?thesis
    by (auto simp: duo_init_def ex_duo_def ex_b_def ex_a_place)
qed

definition ex_answered :: duo where
  "ex_answered = ex_duo\<lparr>du_b := snd (Accept_call (\<lambda>_ _. None) 1 0 ex_b)\<rparr>"

definition ex_connected :: duo where
  "ex_connected = ex_answered\<lparr>du_a := read_step 0 2 (Some (en_wire (du_b ex_answered) 9 ! 0)) ex_a, du_na := 1\<rparr>"

lemma ex_answered_wire:
  "en_wire (du_b ex_answered) 9 = [\<lparr>msg_Type = MsgAccept, msg_CallID = ''c-u'', msg_Reason = [], msg_Caller = []\<rparr>]"
proof -
  have "sess_id (cm_heap ex_b 0) = ''c-u''" "sess_direction (cm_heap ex_b 0) = Inbound" "state_of ex_b 0 = StateRinging"
    "map_of (en_encs ex_b) ''c-u'' = Some 9" "en_wire ex_b 9 = []"
    using ex_duo_init by (simp_all add: duo_init_def ex_duo_def)
  then show ?thesis
    by (simp add: ex_answered_def ex_duo_def Accept_call_def write_msg_def transition_defs upd_session_def Let_def)
qed

lemma ex_connected_reach: "duo_reach ''c-u'' ex_connected"
proof -
  have "duo_step ex_duo ex_answered"
    using b_accept [of ex_duo "\<lambda>_ _. None" 1] by (simp add: ex_answered_def ex_duo_def)
  moreover have "duo_step ex_answered ex_connected"
    using a_read [of ex_answered 2] ex_answered_wire
    by (simp add: ex_connected_def ex_answered_def ex_duo_def)
  ultimately show ?thesis using ex_duo_init by (meson duo_start duo_next)
qed

lemma ex_connected_state: "state_of (du_a ex_connected) 0 = StateConnected"
  by (simp add: ex_connected_def ex_answered_wire read_step_def scan_msg_def ex_a_place upd_session_def transition_defs
      msg_types Let_def)


text \<open>C7: A call gets through. If the caller's \<open>Place\<close> returns a session and the callee's stream can be
  written, then the callee's handler admits the INVITE that was sent, \<open>Accept\<close> on that session
  succeeds and connects it, and reading the ACCEPT connects the caller's session: both hold the
  same call ID.\<close>

theorem call_setup_connects:
  assumes place: "Place lp d w bob a = (Inr ra, a1)" and "fst (place_dial lp d bob a) = Inr sa"
    and pid: "lp_pidStr lp' alice = en_localID a"
    and accept: "\<And>m. w' sb m = None"
  shows "\<exists>rb b1 b2.
     handle_invite lp' sb alice (Some (Some (last (en_wire a1 sa)))) t b = (Some rb, b1)
     \<and> Accept_call w' t' rb b1 = (None, b2) \<and> state_of b2 rb = StateConnected
     \<and> state_of (read_step ra t'' (Some (last (en_wire b2 sb))) a1) ra = StateConnected
     \<and> sess_id (cm_heap b2 rb) = sess_id (cm_heap a1 ra)"
proof -
  from assms(2) obtain a0 where d: "place_dial lp d bob a = (Inr sa, a0)" by (metis prod.collapse)
  define i where "i = NewCallID (de_uuid d)"
  from Place_outcome [OF d, of w] place have a1: "state_of a1 ra = StateRinging" "sess_id (cm_heap a1 ra) = i"
    "last (en_wire a1 sa) = \<lparr>msg_Type = MsgInvite, msg_CallID = i, msg_Reason = [], msg_Caller = en_localID a\<rparr>"
    by (auto simp: i_def)
  then have "valid_invite lp' alice (last (en_wire a1 sa))" using pid by (simp add: valid_invite_def i_def NewCallID_def)
  from handle_invite_valid [OF this, of sb t b] a1(3) obtain b1 where
    b1: "handle_invite lp' sb alice (Some (Some (last (en_wire a1 sa)))) t b = (Some (cm_next b), b1)"
      "state_of b1 (cm_next b) = StateRinging" "sess_id (cm_heap b1 (cm_next b)) = i"
      "sess_direction (cm_heap b1 (cm_next b)) = Inbound" "map_of (en_encs b1) i = Some sb" by auto
  define m where "m = \<lparr>msg_Type = MsgAccept, msg_CallID = i, msg_Reason = [], msg_Caller = []\<rparr>"
  obtain b2 where b2: "Accept_call w' t' (cm_next b) b1 = (None, b2)" "state_of b2 (cm_next b) = StateConnected"
      "sess_id (cm_heap b2 (cm_next b)) = i" "en_wire b2 sb = en_wire b1 sb @ [m]"
    using b1(2-5) accept by (simp add: Accept_call_def write_msg_def transition_defs upd_session_def Let_def m_def)
  have "state_of (read_step ra t'' (Some m) a1) ra = StateConnected"
    using a1(1,2) by (simp add: m_def read_step_def scan_msg_def upd_session_def transition_defs msg_types Let_def)
  with b1(1) b2 a1(2) show ?thesis by auto
qed

theorem call_setup_connects_witness:
  "\<exists>rb b1 b2.
     handle_invite ex_lp 9 ''alice'' (Some (Some (last (en_wire ex_a 4)))) 0 (NewEngine ''bob'') = (Some rb, b1)
     \<and> Accept_call (\<lambda>_ _. None) 1 rb b1 = (None, b2) \<and> state_of b2 rb = StateConnected
     \<and> state_of (read_step 0 2 (Some (last (en_wire b2 9))) ex_a) 0 = StateConnected
     \<and> sess_id (cm_heap b2 rb) = sess_id (cm_heap ex_a 0)"
proof (rule call_setup_connects)
  show "Place ex_lp ex_dial (\<lambda>_ _. None) ''bob'' (NewEngine ''alice'') = (Inr 0, ex_a)"
    using ex_a_place(1) by (simp add: ex_a_def prod_eq_iff)
  show "fst (place_dial ex_lp ex_dial ''bob'' (NewEngine ''alice'')) = Inr 4"
    by (auto simp: dial_defs ex_dial_def)
qed (simp_all add: ex_lp_def)

text \<open>C32: An inbound call can be answered by its caller. The read loop treats ACCEPT the same way in both
  directions, so a caller that sends ACCEPT right behind its INVITE connects the callee's session
  although nobody accepted the call there and nothing was written to the stream.\<close>

theorem inbound_call_forced_open:
  assumes "handle_invite lp st remote (Some (Some m)) t e = (Some r, e1)"
    and "msg_Type m' = MsgAccept" "msg_CallID m' = msg_CallID m"
  shows "sess_direction (cm_heap (read_step r t' (Some m') e1) r) = Inbound
    \<and> state_of (read_step r t' (Some m') e1) r = StateConnected \<and> en_wire (read_step r t' (Some m') e1) = en_wire e"
proof -
  have v: "valid_invite lp remote m" using assms(1) handle_invite_invalid [of "Some (Some m)" lp remote st t e] by auto
  from handle_invite_valid [OF v, of st t e] assms show ?thesis
    by (auto simp: read_step_def scan_msg_def upd_session_def transition_defs msg_types Let_def)
qed

theorem inbound_call_forced_open_witness:
  "let m' = \<lparr>msg_Type = ''accept'', msg_CallID = ''c-u'', msg_Reason = [], msg_Caller = []\<rparr>
   in state_of ex_b 0 = StateRinging \<and> state_of (read_step 0 1 (Some m') ex_b) 0 = StateConnected"
proof -
  have v: "valid_invite ex_lp ''alice'' (last (en_wire ex_a 4))"
    by (simp add: ex_a_place valid_invite_def ex_lp_def)
  have "handle_invite ex_lp 9 ''alice'' (Some (Some (last (en_wire ex_a 4)))) 0 (NewEngine ''bob'') = (Some 0, ex_b)"
    using handle_invite_valid [OF v, of 9 0 "NewEngine ''bob''"] by (auto simp: ex_b_def)
  from inbound_call_forced_open [OF this, of "\<lparr>msg_Type = ''accept'', msg_CallID = ''c-u'', msg_Reason = [], msg_Caller = []\<rparr>" 1]
    ex_duo_init show ?thesis
    by (simp add: ex_a_place msg_types duo_init_def ex_duo_def)
qed

text \<open>An INVITE that reuses the ID of a call in progress orphans that call. The handler binds the new
  stream over the old one; when the intruding stream ends, its read loop removes the ID from the
  registry and the stream tables. The original session is then neither listed nor reachable by
  \<open>Hangup\<close>, although it has not ended and its own stream is still open.\<close>

theorem reused_call_id_orphans:
  assumes "valid_invite lp remote m" and "Get_call (msg_CallID m) e = Some r0" and "r0 < cm_next e"
    and "streamFor (msg_CallID m) e = Some s0" "st \<noteq> s0"
  shows "let e' = handleStream lp st remote (Some (Some m)) t ls fin e in
    Get_call (msg_CallID m) e' = None \<and> streamFor (msg_CallID m) e' = None
    \<and> state_of e' r0 = state_of e r0 \<and> en_status e' s0 = en_status e s0"
proof -
  from handle_invite_valid [OF assms(1), of st t e] obtain e1 where
    e1: "handle_invite lp st remote (Some (Some m)) t e = (Some (cm_next e), e1)"
      "sess_id (cm_heap e1 (cm_next e)) = msg_CallID m" "map_of (en_streams e1) (msg_CallID m) = Some st"
      "en_status e1 = en_status e" "state_of e1 r0 = state_of e r0"
    using assms(3) by auto
  with assms(3,5) scan_loop_frame [of "cm_next e" ls fin e1] show ?thesis
    by (simp add: handleStream_def runScanner_def Let_def Get_call_def streamFor_def unbindAndClose_status)
qed

theorem reused_call_id_orphans_witness:
  "let m = last (en_wire ex_a 4); e' = handleStream ex_lp 11 ''alice'' (Some (Some m)) 1 [] (2, ScanEOF) ex_b in
   state_of ex_b 0 = StateRinging \<and> Get_call ''c-u'' e' = None \<and> streamFor ''c-u'' e' = None \<and> state_of e' 0 = StateRinging"
proof -
  have v: "valid_invite ex_lp ''alice'' (last (en_wire ex_a 4))"
    by (simp add: ex_a_place valid_invite_def ex_lp_def)
  from handle_invite_valid [OF v, of 9 0 "NewEngine ''bob''"]
  have b: "Get_call ''c-u'' ex_b = Some 0" "streamFor ''c-u'' ex_b = Some 9" "state_of ex_b 0 = StateRinging"
    by (auto simp: ex_b_def ex_a_place Get_call_def streamFor_def)
  have "0 < cm_next ex_b"
    by (simp add: ex_b_def ex_a_place handle_invite_def msg_types ex_lp_def new_ref_def bind_stream_def upd_session_def
        transition_defs Register_def Let_def session_Subscribe_def)
  from reused_call_id_orphans [OF v _ this, of 9 11 1 "[]" "(2, ScanEOF)"] b show ?thesis
    by (simp add: ex_a_place Let_def)
qed

end
