(* ===== verification/Invite_Code.thy ===== *)
theory Invite_Code
  imports Go_Strings "HOL-Library.Word"
begin

text \<open>
  \<open>internal/invite/code.go\<close>: generating, parsing and printing invite codes. The random bytes of
  \<open>Generate\<close> are its argument (\<open>None\<close> when the source of randomness fails); the 40 bits are held in
  a 64-bit word, as in the code.
\<close>

unbundle bit_operations_syntax

type_synonym Code = string

definition codeLength :: nat where "codeLength = 8"

definition crockfordAlphabet :: string where
  "crockfordAlphabet = ''0123456789ABCDEFGHJKMNPQRSTVWXYZ''"

datatype code_error =
    ErrRandom
  | ErrCodeLength nat
  | ErrCodeU
  | ErrCodeChar rune

definition code_bits :: "8 word \<Rightarrow> 8 word \<Rightarrow> 8 word \<Rightarrow> 8 word \<Rightarrow> 8 word \<Rightarrow> 64 word" where
  "code_bits b0 b1 b2 b3 b4 =
    push_bit 32 (ucast b0) OR push_bit 24 (ucast b1) OR push_bit 16 (ucast b2) OR push_bit 8 (ucast b3) OR ucast b4"

definition code_index :: "64 word \<Rightarrow> nat \<Rightarrow> nat" where
  "code_index bits i = unat (drop_bit (35 - 5 * i) bits AND 0x1F)"

fun Generate :: "8 word list option \<Rightarrow> code_error + Code" where
  "Generate (Some [b0, b1, b2, b3, b4]) =
     Inr (map (\<lambda>i. crockfordAlphabet ! code_index (code_bits b0 b1 b2 b3 b4) i) [0..<codeLength])"
| "Generate _ = Inl ErrRandom"

text \<open>The loop of \<open>Parse\<close> over the runes of the normalized input. \<open>out[i] = byte(r)\<close> writes at the byte
  index of the rune; the bytes a wider rune would skip keep their initial zero.\<close>

function parse_loop :: "string \<Rightarrow> code_error + string" where
  "parse_loop s =
    (if s = [] then Inr []
     else
       let (r, w) = decode_rune s;
           r' = (if r = 79 then 48 else if r = 73 \<or> r = 76 then 49 else r)
       in if r = 85 then Inl ErrCodeU
          else if r' \<notin> of_char ` set crockfordAlphabet then Inl (ErrCodeChar r')
          else case parse_loop (drop w s) of
                 Inl e \<Rightarrow> Inl e
               | Inr out \<Rightarrow> Inr ((char_of r' # replicate (w - 1) (CHR 0x00)) @ out))"
  by pat_completeness auto
termination
  by (relation "measure length") (auto intro: decode_rune_shrink)

declare parse_loop.simps [simp del]

definition Parse_code :: "(rune \<Rightarrow> rune) \<Rightarrow> string \<Rightarrow> code_error + Code" where
  "Parse_code uni input =
    (let s = ToUpper uni (TrimSpace input);
         s1 = TrimPrefix ''OPEN-'' s;
         s2 = List.filter (\<lambda>c. c \<noteq> CHR ''-'') s1
     in if length s2 \<noteq> codeLength then Inl (ErrCodeLength (length s2)) else parse_loop s2)"

definition Pretty :: "Code \<Rightarrow> string" where
  "Pretty c = (if length c \<noteq> codeLength then c else ''OPEN-'' @ take 4 c @ ''-'' @ drop 4 c)"

text \<open>What the type comment of \<open>Code\<close> promises: canonical codes.\<close>

definition valid_code :: "Code \<Rightarrow> bool" where
  "valid_code c \<longleftrightarrow> length c = codeLength \<and> set c \<subseteq> set crockfordAlphabet"

section \<open>Lemmas\<close>

lemma alphabet_checked:
  "list_all (\<lambda>c. byte c < 128 \<and> byte c < 97 \<and> byte c \<noteq> 79 \<and> byte c \<noteq> 73 \<and> byte c \<noteq> 76 \<and> byte c \<noteq> 85
     \<and> 33 \<le> byte c \<and> c \<noteq> CHR ''-'') crockfordAlphabet"
  by (simp add: crockfordAlphabet_def)

lemma alphabet_char:
  assumes "c \<in> set crockfordAlphabet"
  shows "byte c < 128" "\<not> (97 \<le> byte c \<and> byte c \<le> 122)" "byte c \<notin> {79, 73, 76, 85}" "\<not> is_space (byte c)"
    "c \<noteq> CHR ''-''"
proof -
  from assms alphabet_checked have c: "byte c < 128 \<and> byte c < 97 \<and> byte c \<noteq> 79 \<and> byte c \<noteq> 73 \<and> byte c \<noteq> 76
     \<and> byte c \<noteq> 85 \<and> 33 \<le> byte c \<and> c \<noteq> CHR ''-''"
    by (simp add: list_all_iff)
  then show "byte c < 128" "\<not> (97 \<le> byte c \<and> byte c \<le> 122)" "byte c \<notin> {79, 73, 76, 85}" "c \<noteq> CHR ''-''" by simp_all
  show "\<not> is_space (byte c)" unfolding is_space_def using c by auto
qed

lemma alphabet_length: "length crockfordAlphabet = 32"
  by (simp add: crockfordAlphabet_def)

lemma alphabet_distinct: "distinct crockfordAlphabet"
  by (simp add: crockfordAlphabet_def)

lemma parse_loop_valid: "set s \<subseteq> set crockfordAlphabet \<Longrightarrow> parse_loop s = Inr s"
proof (induction s)
  case (Cons c cs)
  have "decode_rune (c # cs) = (byte c, 1)" using Cons.prems alphabet_char(1) by simp
  with Cons alphabet_char(3) [of c] show ?case by (subst parse_loop.simps) (auto simp: Let_def)
qed (simp add: parse_loop.simps)

lemma decode_rune_byte: "decode_rune (c # cs) = (r, w) \<Longrightarrow> r < 128 \<Longrightarrow> w = 1 \<and> r = byte c"
  by (auto simp: Let_def RuneError_def second_ok_def split: if_splits list.splits)

lemma parse_loop_sound: "parse_loop s = Inr out \<Longrightarrow> set out \<subseteq> set crockfordAlphabet \<and> length out = length s"
proof (induction s arbitrary: out rule: parse_loop.induct)
  case (1 s)
  show ?case
  proof (cases s)
    case Nil
    with 1(2) show ?thesis by (simp add: parse_loop.simps)
  next
    case (Cons c cs)
    obtain r w where d: "decode_rune (c # cs) = (r, w)" by fastforce
    define r' where "r' = (if r = 79 then 48 else if r = 73 \<or> r = 76 then 49 else r)"
    from 1(2) Cons d obtain out' where o: "r \<noteq> 85" "r' \<in> byte ` set crockfordAlphabet"
      "parse_loop (drop w (c # cs)) = Inr out'" "out = (char_of r' # replicate (w - 1) (CHR 0x00)) @ out'"
      by (subst (asm) parse_loop.simps) (auto simp: Let_def r'_def split: if_splits sum.splits)
    from o(2) have "r' < 128" using alphabet_char(1) by auto
    then have "r < 128" by (auto simp: r'_def split: if_splits)
    with decode_rune_byte [OF d] have w: "w = 1" by simp
    have "set out' \<subseteq> set crockfordAlphabet \<and> length out' = length (drop w (c # cs))"
      using 1(1) [of "(r, w)" r w r'] Cons d o(1-3) r'_def by simp
    with o(2,4) w show ?thesis using Cons by auto
  qed
qed

lemma Parse_code_sound: "Parse_code uni s = Inr c \<Longrightarrow> valid_code c"
  using parse_loop_sound by (auto simp: Parse_code_def valid_code_def Let_def split: if_splits)

lemma ToUpper_id: "ascii s \<Longrightarrow> (\<And>c. c \<in> set s \<Longrightarrow> \<not> (97 \<le> byte c \<and> byte c \<le> 122)) \<Longrightarrow> ToUpper uni s = s"
  unfolding ToUpper_def by (rule str_map_id) (auto simp: ascii_def)

lemma Pretty_split:
  assumes "valid_code c"
  obtains a b where "c = a @ b" "length a = 4" "length b = 4" "Pretty c = ''OPEN-'' @ a @ ''-'' @ b"
    "set a \<subseteq> set crockfordAlphabet" "set b \<subseteq> set crockfordAlphabet"
proof (rule that [of "take 4 c" "drop 4 c"])
  show "set (take 4 c) \<subseteq> set crockfordAlphabet" "set (drop 4 c) \<subseteq> set crockfordAlphabet"
    using assms set_take_subset [of 4 c] set_drop_subset [of 4 c] by (auto simp: valid_code_def)
qed (use assms in \<open>auto simp: valid_code_def codeLength_def Pretty_def\<close>)

text \<open>Normalizing a text that only has letters, digits and dashes, and does not start or end with
  white space.\<close>

lemma Parse_code_clean:
  assumes "ToUpper uni (TrimSpace s) = t" and "List.filter (\<lambda>c. c \<noteq> CHR ''-'') (TrimPrefix ''OPEN-'' t) = c" and "valid_code c"
  shows "Parse_code uni s = Inr c"
  using assms parse_loop_valid by (auto simp: Parse_code_def valid_code_def Let_def)

lemma code_filter: "set a \<subseteq> set crockfordAlphabet \<Longrightarrow> List.filter (\<lambda>c. c \<noteq> CHR ''-'') a = a"
  using alphabet_char(5) by (intro filter_True) blast

lemma Parse_code_Pretty:
  assumes "valid_code c"
  shows "Parse_code uni (Pretty c) = Inr c"
proof -
  obtain a b where ab: "c = a @ b" "length b = 4" "Pretty c = ''OPEN-'' @ a @ ''-'' @ b"
    "set a \<subseteq> set crockfordAlphabet" "set b \<subseteq> set crockfordAlphabet"
    by (rule Pretty_split [OF assms])
  have ch: "byte d < 128 \<and> \<not> (97 \<le> byte d \<and> byte d \<le> 122)" if "d \<in> set (Pretty c)" for d
    using that ab(3-5) alphabet_char(1,2) by auto
  have b: "b \<noteq> []" using ab(2) by auto
  then have "last (Pretty c) \<in> set crockfordAlphabet" using ab(3,5) by auto
  then have "TrimSpace (Pretty c) = Pretty c"
    using ab(3) ch alphabet_char(4) by (intro TrimSpace_id) (auto simp: ascii_def is_space_def)
  moreover have "ToUpper uni (Pretty c) = Pretty c"
    using ch by (intro ToUpper_id) (auto simp: ascii_def)
  ultimately show ?thesis
    using ab assms by (intro Parse_code_clean) (auto simp: TrimPrefix_def code_filter)
qed

lemma Parse_code_id:
  assumes "valid_code c"
  shows "Parse_code uni c = Inr c"
proof -
  have ne: "c \<noteq> []" and sub: "set c \<subseteq> set crockfordAlphabet" using assms by (auto simp: valid_code_def codeLength_def)
  then have "TrimSpace c = c"
    using alphabet_char(1,4) by (intro TrimSpace_id) (auto simp: ascii_def subset_eq)
  moreover have "ToUpper uni c = c"
    using sub alphabet_char(1,2) by (intro ToUpper_id) (auto simp: ascii_def subset_eq)
  moreover have "take (length ''OPEN-'') c \<noteq> ''OPEN-''"
  proof
    assume "take (length ''OPEN-'') c = ''OPEN-''"
    then have "CHR ''-'' \<in> set c" using set_take_subset [of "length ''OPEN-''" c] by auto
    then show False using sub alphabet_char(5) by blast
  qed
  ultimately show ?thesis
    using assms sub by (intro Parse_code_clean) (auto simp: TrimPrefix_def code_filter)
qed

subsection \<open>The bits of a generated code\<close>

lemma code_index_less: "code_index bits i < 32"
proof -
  have "unat (drop_bit (35 - 5 * i) bits AND 0x1F) \<le> unat (0x1F :: 64 word)"
    by (intro word_le_nat_alt [THEN iffD1] word_and_le1)
  then show ?thesis by (simp add: code_index_def)
qed

lemma code_index_bit:
  assumes "code_index x i = code_index y i" and "k < 5"
  shows "bit x (35 - 5 * i + k) = bit y (35 - 5 * i + k)"
proof -
  have "bit (drop_bit (35 - 5 * i) x AND (0x1F :: 64 word)) k = bit (drop_bit (35 - 5 * i) y AND (0x1F :: 64 word)) k"
    using assms(1) by (simp add: code_index_def word_unat_eq_iff [symmetric])
  moreover have "bit (0x1F :: 64 word) k"
    using assms(2) by (auto simp: less_Suc_eq numeral_eq_Suc)
  ultimately show ?thesis by (simp add: bit_simps add.commute)
qed

lemma code_index_inj:
  assumes "\<And>i. i < codeLength \<Longrightarrow> code_index x i = code_index y i" and "n < 40"
  shows "bit x n = bit y n"
proof -
  have "n = 35 - 5 * (7 - n div 5) + n mod 5" using assms(2) by (simp add: algebra_simps)
  moreover have "7 - n div 5 < codeLength" by (simp add: codeLength_def)
  ultimately show ?thesis using code_index_bit [of x "7 - n div 5" y "n mod 5"] assms(1) by simp
qed

lemma code_bits_byte:
  assumes "k < 8"
  shows "bit (code_bits b0 b1 b2 b3 b4) (32 + k) = bit b0 k" "bit (code_bits b0 b1 b2 b3 b4) (24 + k) = bit b1 k"
    "bit (code_bits b0 b1 b2 b3 b4) (16 + k) = bit b2 k" "bit (code_bits b0 b1 b2 b3 b4) (8 + k) = bit b3 k"
    "bit (code_bits b0 b1 b2 b3 b4) k = bit b4 k"
  using assms by (auto simp: code_bits_def bit_simps dest: bit_imp_le_length)

lemma code_bits_inj:
  assumes "\<And>n. n < 40 \<Longrightarrow> bit (code_bits a0 a1 a2 a3 a4) n = bit (code_bits b0 b1 b2 b3 b4) n"
  shows "a0 = b0 \<and> a1 = b1 \<and> a2 = b2 \<and> a3 = b3 \<and> a4 = b4"
proof -
  have "bit a0 k = bit b0 k \<and> bit a1 k = bit b1 k \<and> bit a2 k = bit b2 k \<and> bit a3 k = bit b3 k \<and> bit a4 k = bit b4 k"
    if "k < 8" for k
    using code_bits_byte [OF that, of a0 a1 a2 a3 a4] code_bits_byte [OF that, of b0 b1 b2 b3 b4] that
      assms [of "32 + k"] assms [of "24 + k"] assms [of "16 + k"] assms [of "8 + k"] assms [of k] by simp
  then show ?thesis by (auto intro!: bit_word_eqI)
qed

lemma Generate_valid: "Generate r = Inr c \<Longrightarrow> valid_code c"
  using code_index_less by (cases r rule: Generate.cases) (auto simp: valid_code_def alphabet_length)

section \<open>Properties\<close>

text \<open>Generating a code loses no randomness. Five random bytes always give a canonical code (eight
  characters of the Crockford alphabet), and different bytes give different codes: the 40 bits are
  all in the code. When the source of randomness fails there is no code.\<close>

lemma Generate_injective:
  "(\<exists>c. Generate (Some [a0, a1, a2, a3, a4]) = Inr c \<and> valid_code c)
   \<and> (Generate (Some [a0, a1, a2, a3, a4]) = Generate (Some [b0, b1, b2, b3, b4])
       \<longrightarrow> [a0, a1, a2, a3, a4] = [b0, b1, b2, b3, b4])
   \<and> Generate None = Inl ErrRandom"
proof -
  let ?a = "code_bits a0 a1 a2 a3 a4" and ?b = "code_bits b0 b1 b2 b3 b4"
  have "valid_code (map (\<lambda>i. crockfordAlphabet ! code_index ?a i) [0..<codeLength])"
    using code_index_less by (auto simp: valid_code_def alphabet_length)
  moreover have "a0 = b0 \<and> a1 = b1 \<and> a2 = b2 \<and> a3 = b3 \<and> a4 = b4"
    if "Generate (Some [a0, a1, a2, a3, a4]) = Generate (Some [b0, b1, b2, b3, b4])"
  proof -
    have "code_index ?a i = code_index ?b i" if "i < codeLength" for i
      using that \<open>Generate _ = Generate _\<close> code_index_less alphabet_distinct
      by (simp add: nth_eq_iff_index_eq alphabet_length)
    then show ?thesis using code_index_inj code_bits_inj by blast
  qed
  ultimately show ?thesis by simp
qed

text \<open>Parsing canonicalizes. Whatever the user typed, an accepted input gives a canonical code, and
  that code parses back to itself both in its canonical and in its printed form
  (\<open>OPEN-XXXX-XXXX\<close>), whatever the Unicode case tables say about other characters.\<close>

theorem Parse_canonical:
  assumes "Parse_code uni s = Inr c"
  shows "valid_code c \<and> Parse_code uni' c = Inr c \<and> Parse_code uni' (Pretty c) = Inr c"
  using Parse_code_sound [OF assms] Parse_code_id Parse_code_Pretty by blast

theorem Parse_canonical_witness:
  "Parse_code id '' open-a7b2-x9ko '' = Inr ''A7B2X9K0'' \<and> valid_code ''A7B2X9K0''
   \<and> Parse_code id ''OPEN-A7B2-X9K0'' = Inr ''A7B2X9K0''"
proof -
  have trim: "TrimSpace '' open-a7b2-x9ko '' = ''open-a7b2-x9ko''"
    by (simp add: TrimSpace_def trim_left.simps trim_right.simps is_space_def decode_last_rune_def)
  have up: "ToUpper id ''open-a7b2-x9ko'' = ''OPEN-A7B2-X9KO''"
    by (subst ToUpper_def, subst str_map_ascii) (auto simp: ascii_def char_of_def bit_0)
  have "parse_loop ''A7B2X9KO'' = Inr ''A7B2X9K0''"
    by (simp add: parse_loop.simps crockfordAlphabet_def char_of_def bit_0)
  then have p: "Parse_code id '' open-a7b2-x9ko '' = Inr ''A7B2X9K0''"
    by (simp add: Parse_code_def trim up TrimPrefix_def codeLength_def)
  from Parse_canonical [OF p, of id] p show ?thesis by (simp add: Pretty_def codeLength_def)
qed

end
