(* ===== verification/Invite_Store.thy ===== *)
theory Invite_Store
  imports Disk_Mirror Invite_Code
begin

text \<open>
  \<open>internal/invite/store.go\<close>: the disk-backed map of active invite codes. Each operation that flushes
  takes the outcome of the write (\<open>io_env\<close>) and the file system; \<open>time.Now()\<close> is an argument.
  A file holds a version and the entries; \<open>Partial\<close> is one that does not parse.
\<close>

record Entry =
  en_Code :: Code
  en_ExpiresAt :: time
  en_Consumed :: bool
  en_ConsumedBy :: string
  en_CreatedAt :: time

record InviteStore =
  is_path :: string
  is_entries :: "(Code \<times> Entry) list"

record storeFile =
  sf_Version :: int
  sf_Entries :: "Entry list"

type_synonym invite_fs = "storeFile fs"

definition storeVersion :: int where "storeVersion = 1"

text \<open>\<open>readable\<close> is false when reading fails for another reason than a missing file.\<close>

definition load_entries :: "Entry list \<Rightarrow> (Code \<times> Entry) list" where
  "load_entries es = fold (\<lambda>e m. mput (en_Code e) e m) es []"

definition OpenStore :: "string \<Rightarrow> bool \<Rightarrow> invite_fs \<Rightarrow> InviteStore option" where
  "OpenStore path readable fs =
    (if \<not> readable then None
     else case fs path of
       None \<Rightarrow> Some \<lparr>is_path = path, is_entries = []\<rparr>
     | Some Partial \<Rightarrow> Some \<lparr>is_path = path, is_entries = []\<rparr>
     | Some (Data f) \<Rightarrow>
         if sf_Version f \<noteq> storeVersion then Some \<lparr>is_path = path, is_entries = []\<rparr>
         else Some \<lparr>is_path = path, is_entries = load_entries (sf_Entries f)\<rparr>)"

definition store_flush :: "io_env \<Rightarrow> InviteStore \<Rightarrow> invite_fs \<Rightarrow> invite_fs" where
  "store_flush env s fs =
    snd (AtomicWriteFile (is_path s) \<lparr>sf_Version = storeVersion, sf_Entries = map snd (is_entries s)\<rparr> env fs)"

definition store_Add :: "Entry \<Rightarrow> io_env \<Rightarrow> InviteStore \<times> invite_fs \<Rightarrow> InviteStore \<times> invite_fs" where
  "store_Add e env = (\<lambda>(s, fs).
    let s' = s\<lparr>is_entries := mput (en_Code e) e (is_entries s)\<rparr> in (s', store_flush env s' fs))"

definition store_Get :: "Code \<Rightarrow> InviteStore \<Rightarrow> Entry option" where
  "store_Get c s = map_of (is_entries s) c"

definition MarkConsumed ::
    "Code \<Rightarrow> string \<Rightarrow> time \<Rightarrow> io_env \<Rightarrow> InviteStore \<times> invite_fs \<Rightarrow> bool \<times> InviteStore \<times> invite_fs" where
  "MarkConsumed c byPeerID now env = (\<lambda>(s, fs).
    case map_of (is_entries s) c of
      None \<Rightarrow> (False, s, fs)
    | Some e \<Rightarrow>
        if en_Consumed e \<or> now > en_ExpiresAt e then (False, s, fs)
        else
          let s' = s\<lparr>is_entries := mput c (e\<lparr>en_Consumed := True, en_ConsumedBy := byPeerID\<rparr>) (is_entries s)\<rparr>
          in (True, s', store_flush env s' fs))"

definition UnmarkConsumed :: "Code \<Rightarrow> io_env \<Rightarrow> InviteStore \<times> invite_fs \<Rightarrow> InviteStore \<times> invite_fs" where
  "UnmarkConsumed c env = (\<lambda>(s, fs).
    case map_of (is_entries s) c of
      None \<Rightarrow> (s, fs)
    | Some e \<Rightarrow>
        if \<not> en_Consumed e then (s, fs)
        else
          let s' = s\<lparr>is_entries := mput c (e\<lparr>en_Consumed := False, en_ConsumedBy := []\<rparr>) (is_entries s)\<rparr>
          in (s', store_flush env s' fs))"

definition store_Remove :: "Code \<Rightarrow> io_env \<Rightarrow> InviteStore \<times> invite_fs \<Rightarrow> bool \<times> InviteStore \<times> invite_fs" where
  "store_Remove c env = (\<lambda>(s, fs).
    let existed = map_of (is_entries s) c \<noteq> None;
        s' = (if existed then s\<lparr>is_entries := mdel c (is_entries s)\<rparr> else s)
    in (existed, s', if existed then store_flush env s' fs else fs))"

definition ActiveList :: "time \<Rightarrow> InviteStore \<Rightarrow> Entry list" where
  "ActiveList now s = filter (\<lambda>e. \<not> en_Consumed e \<and> now < en_ExpiresAt e) (map snd (is_entries s))"

definition AllList :: "InviteStore \<Rightarrow> Entry list" where
  "AllList s = map snd (is_entries s)"

section \<open>Invariant\<close>

text \<open>Entries are filed under their own code, once.\<close>

definition invites_inv :: "InviteStore \<Rightarrow> bool" where
  "invites_inv s \<longleftrightarrow> distinct (map fst (is_entries s)) \<and> (\<forall>(c, e)\<in>set (is_entries s). en_Code e = c)"

datatype invite_op =
    IAdd Entry io_env
  | IMark Code string time io_env
  | IUnmark Code io_env
  | IRemove Code io_env

fun invite_step :: "invite_op \<Rightarrow> InviteStore \<times> invite_fs \<Rightarrow> InviteStore \<times> invite_fs" where
  "invite_step (IAdd e env) p = store_Add e env p"
| "invite_step (IMark c by now env) p = snd (MarkConsumed c by now env p)"
| "invite_step (IUnmark c env) p = UnmarkConsumed c env p"
| "invite_step (IRemove c env) p = snd (store_Remove c env p)"

section \<open>Lemmas\<close>

lemmas store_defs = store_Add_def store_Get_def MarkConsumed_def UnmarkConsumed_def store_Remove_def Let_def

lemma invites_inv_mput:
  "invites_inv s \<Longrightarrow> en_Code e = c \<Longrightarrow> invites_inv (s\<lparr>is_entries := mput c e (is_entries s)\<rparr>)"
  by (auto simp: invites_inv_def)

lemma invites_inv_mdel: "invites_inv s \<Longrightarrow> invites_inv (s\<lparr>is_entries := mdel c (is_entries s)\<rparr>)"
  by (auto simp: invites_inv_def)

lemma invites_inv_code: "invites_inv s \<Longrightarrow> map_of (is_entries s) c = Some e \<Longrightarrow> en_Code e = c"
  by (fastforce simp: invites_inv_def dest: map_of_SomeD)

lemma invite_step_inv: "invites_inv (fst p) \<Longrightarrow> invites_inv (fst (invite_step x p))"
  by (cases x; cases p)
    (auto simp: store_defs invites_inv_mput invites_inv_mdel invites_inv_code split: option.splits)

interpretation invmach: machine invite_step "\<lambda>p. invites_inv (fst p)"
  by unfold_locales (rule invite_step_inv)

lemma load_entries_map: "map_of (load_entries es) c = map_of (rev (map (\<lambda>e. (en_Code e, e)) es)) c"
proof -
  have "map_of (fold (\<lambda>e m. mput (en_Code e) e m) es m) c = (map_of m ++ map_of (rev (map (\<lambda>e. (en_Code e, e)) es))) c" for m
    by (induction es arbitrary: m) (auto simp: map_add_def split: option.splits)
  then show ?thesis by (simp add: load_entries_def)
qed

lemma load_entries_distinct: "distinct (map fst (load_entries es))"
proof -
  have "distinct (map fst m) \<Longrightarrow> distinct (map fst (fold (\<lambda>e m. mput (en_Code e) e m) es m))" for m
    by (induction es arbitrary: m) auto
  then show ?thesis by (simp add: load_entries_def)
qed

lemma load_saved:
  assumes "invites_inv s"
  shows "map_of (load_entries (map snd (is_entries s))) = map_of (is_entries s)"
proof -
  have "map (\<lambda>e. (en_Code e, e)) (map snd (is_entries s)) = is_entries s"
    using assms by (auto simp: invites_inv_def intro!: map_idI)
  then show ?thesis using assms map_of_rev_distinct [of "is_entries s"]
    by (simp add: load_entries_map invites_inv_def fun_eq_iff)
qed

abbreviation reopened :: "string \<Rightarrow> invite_fs \<Rightarrow> InviteStore" where
  "reopened path fs \<equiv> the (OpenStore path True fs)"

interpretation invdisk: disk_mirror is_path "\<lambda>s. map_of (is_entries s)" store_flush reopened invites_inv
proof
  fix s :: InviteStore and env :: io_env and fs :: invite_fs
  assume t: "fresh_temp (is_path s) env fs"
  show "\<exists>c. store_flush env s fs = fs(is_path s \<mapsto> c)
      \<and> (\<forall>fs'. fs' (is_path s) = Some c \<longrightarrow> map_of (is_entries (reopened (is_path s) fs')) = map_of (is_entries s))"
    if "invites_inv s" and "io_success env"
    using AtomicWriteFile_ok [OF t that(2)] load_saved [OF that(1)]
    by (intro exI [of _ "Data \<lparr>sf_Version = storeVersion, sf_Entries = map snd (is_entries s)\<rparr>"])
      (simp add: store_flush_def OpenStore_def)
  show "store_flush env s fs = fs" if "\<not> io_success env"
    using AtomicWriteFile_fail [OF t that, of "\<lparr>sf_Version = storeVersion, sf_Entries = map snd (is_entries s)\<rparr>"]
    by (auto simp: store_flush_def)
qed

text \<open>The write outcome of an operation, and whether the operation reaches the flush.\<close>

fun iop_env :: "invite_op \<Rightarrow> io_env" where
  "iop_env (IAdd _ env) = env"
| "iop_env (IMark _ _ _ env) = env"
| "iop_env (IUnmark _ env) = env"
| "iop_env (IRemove _ env) = env"

lemma invite_step_flush:
  "invite_step x (s, fs) = (s, fs) \<or>
   (\<exists>s'. invite_step x (s, fs) = (s', store_flush (iop_env x) s' fs) \<and> is_path s' = is_path s)"
  by (cases x) (auto simp: store_defs split: option.splits)

lemma invite_step_path: "is_path (fst (invite_step x p)) = is_path (fst p)"
  using invite_step_flush [of x "fst p" "snd p"] by auto

text \<open>An operation keeps the file in step with the memory when its write succeeds, and leaves other
  files alone in any case.\<close>

lemma invite_step_sync:
  assumes inv: "invites_inv s" and t: "fresh_temp (is_path s) (iop_env x) fs" and ok: "io_success (iop_env x)"
    and sync: "map_of (is_entries (reopened (is_path s) fs)) = map_of (is_entries s)"
    and st: "invite_step x (s, fs) = (s', fs')"
  shows "map_of (is_entries (reopened (is_path s) fs')) = map_of (is_entries s') \<and> (\<forall>q. q \<noteq> is_path s \<longrightarrow> fs' q = fs q)"
proof -
  have inv': "invites_inv s'" using invite_step_inv [of "(s, fs)" x] inv st by simp
  from invite_step_flush [of x s fs] st consider "s' = s" "fs' = fs"
    | "fs' = store_flush (iop_env x) s' fs" "is_path s' = is_path s" by auto
  then show ?thesis
    by cases (use sync invdisk.restart_after_success [OF inv'] invdisk.flush_frame [OF inv'] t ok in auto)
qed

section \<open>Properties\<close>

text \<open>C14: Invites survive a restart. After any run of store operations whose writes succeed, opening the
  file again yields a store with exactly the same codes, expiry times and consumed marks, so a
  consumed code stays consumed across restarts of the daemon.\<close>

theorem invite_store_restart:
  assumes "invites_inv s" and "map_of (is_entries (reopened (is_path s) fs)) = map_of (is_entries s)"
    and "\<forall>x\<in>set ops. io_success (iop_env x) \<and> fresh_temp (is_path s) (iop_env x) fs"
    and "fold invite_step ops (s, fs) = (s', fs')"
  shows "OpenStore (is_path s') True fs' \<noteq> None
    \<and> (\<forall>c. store_Get c (the (OpenStore (is_path s') True fs')) = store_Get c s')"
proof -
  have "is_path s' = is_path s \<and> map_of (is_entries (reopened (is_path s) fs')) = map_of (is_entries s')"
    using assms
  proof (induction ops arbitrary: s fs)
    case (Cons x ops)
    obtain s1 fs1 where st: "invite_step x (s, fs) = (s1, fs1)" by fastforce
    have p1: "is_path s1 = is_path s" "invites_inv s1"
      using invite_step_path [of x "(s, fs)"] invite_step_inv [of "(s, fs)" x] Cons.prems(1) st by auto
    from Cons.prems(3) have "fresh_temp (is_path s) (iop_env x) fs" "io_success (iop_env x)" by auto
    from invite_step_sync [OF Cons.prems(1) this Cons.prems(2) st] have
      sync: "map_of (is_entries (reopened (is_path s1) fs1)) = map_of (is_entries s1)" "\<forall>q. q \<noteq> is_path s \<longrightarrow> fs1 q = fs q"
      using p1 by auto
    have "\<forall>y\<in>set ops. io_success (iop_env y) \<and> fresh_temp (is_path s1) (iop_env y) fs1"
      using Cons.prems(3) sync(2) p1(1) by (auto simp: fresh_temp_def split: option.splits)
    from Cons.IH [OF p1(2) sync(1) this] Cons.prems(4) st p1(1) show ?case by simp
  qed simp
  then show ?thesis by (auto simp: store_Get_def OpenStore_def split: option.splits content.splits)
qed

theorem invite_store_restart_witness:
  "let env = \<lparr>mkdir_ok = True, temp_name = Some ''t'', chmod_ok = True, write_ok = True, close_ok = True, rename_ok = True\<rparr>;
       e = \<lparr>en_Code = ''A7B2X9K4'', en_ExpiresAt = 10, en_Consumed = False, en_ConsumedBy = [], en_CreatedAt = 0\<rparr>;
       (s', fs') = fold invite_step [IAdd e env, IMark ''A7B2X9K4'' ''bob'' 5 env] (\<lparr>is_path = ''p'', is_entries = []\<rparr>, Map.empty)
   in store_Get ''A7B2X9K4'' (the (OpenStore ''p'' True fs')) = Some (e\<lparr>en_Consumed := True, en_ConsumedBy := ''bob''\<rparr>)"
proof -
  define env where "env = \<lparr>mkdir_ok = True, temp_name = Some ''t'', chmod_ok = True, write_ok = True, close_ok = True, rename_ok = True\<rparr>"
  define e where "e = \<lparr>en_Code = ''A7B2X9K4'', en_ExpiresAt = 10, en_Consumed = False, en_ConsumedBy = [], en_CreatedAt = 0\<rparr>"
  obtain s' fs' where run: "fold invite_step [IAdd e env, IMark ''A7B2X9K4'' ''bob'' 5 env] (\<lparr>is_path = ''p'', is_entries = []\<rparr>, Map.empty) = (s', fs')"
    by fastforce
  then have s': "is_path s' = ''p''" "store_Get ''A7B2X9K4'' s' = Some (e\<lparr>en_Consumed := True, en_ConsumedBy := ''bob''\<rparr>)"
    by (auto simp: store_defs e_def)
  have "\<forall>c. store_Get c (the (OpenStore (is_path s') True fs')) = store_Get c s'"
    using invite_store_restart [OF _ _ _ run]
    by (auto simp: invites_inv_def OpenStore_def env_def io_success_def fresh_temp_def)
  with run s' show ?thesis unfolding env_def [symmetric] e_def [symmetric] Let_def by simp
qed

end
