(* ===== verification/Invite_Record.thy ===== *)
theory Invite_Record
  imports Sealed Invite_Code
begin

text \<open>
  \<open>internal/invite/record.go\<close>: the encrypted invite record in the DHT and the two keys derived from
  a code. SHA-256 and HKDF are arguments (\<open>sha\<close> on the bytes hashed, \<open>hkdf\<close> on the secret and the
  info string). \<open>now\<close> is the Unix time.
\<close>

record InvRecord =
  rec_Version :: int
  rec_PeerID :: string
  rec_PublicKey :: string
  rec_Addresses :: "string list"
  rec_DisplayName :: string
  rec_ExpiresAt :: int

definition RecordVersion :: int where "RecordVersion = 1"

definition invite_DeriveDHTKey :: "(string \<Rightarrow> string) \<Rightarrow> Code \<Rightarrow> string" where
  "invite_DeriveDHTKey sha c = ''/opencom-invite/v1/'' @ hex_encode (sha (''opencom-invite-v1'' @ c))"

definition invite_DeriveEncryptionKey :: "(string \<Rightarrow> string \<Rightarrow> string) \<Rightarrow> Code \<Rightarrow> string" where
  "invite_DeriveEncryptionKey hkdf c = hkdf c ''opencom-invite-record-v1''"

definition invite_Encode ::
    "('priv, 'pub) keys \<Rightarrow> InvRecord aead \<Rightarrow> InvRecord \<Rightarrow> string \<Rightarrow> 'priv \<Rightarrow> string option \<Rightarrow> record_error + string" where
  "invite_Encode K A r encKey signer nonce = sealed_encode K A r encKey signer nonce"

definition invite_Decode ::
    "('priv, 'pub) keys \<Rightarrow> InvRecord aead \<Rightarrow> string \<Rightarrow> string \<Rightarrow> 'pub \<Rightarrow> int \<Rightarrow> record_error + InvRecord" where
  "invite_Decode K A blob encKey signerPub now =
    (case sealed_decode K A blob encKey signerPub of
       Inl e \<Rightarrow> Inl e
     | Inr r \<Rightarrow>
         if rec_Version r \<noteq> RecordVersion then Inl (ErrUnsupportedVersion (rec_Version r))
         else if now > rec_ExpiresAt r then Inl ErrExpired
         else Inr r)"

definition DecodeUnverified :: "InvRecord aead \<Rightarrow> string \<Rightarrow> string \<Rightarrow> record_error + InvRecord" where
  "DecodeUnverified A blob encKey =
    (if length blob < minBlobLen then Inl ErrMalformedRecord else sealed_open A blob encKey)"

text \<open>The two passes of a redeem agree: what the verified pass accepts is what the first pass read.\<close>

lemma invite_Decode_unverified:
  "invite_Decode K A blob k pub now = Inr r \<Longrightarrow> DecodeUnverified A blob k = Inr r"
  by (auto simp: invite_Decode_def DecodeUnverified_def split: sum.splits if_splits dest!: sealed_decode_authentic)

lemma invite_Decode_sound:
  "invite_Decode K A blob k pub now = Inr r \<Longrightarrow>
     k_verify K pub (drop signatureLen blob) (take signatureLen blob) \<and> rec_Version r = RecordVersion \<and> now \<le> rec_ExpiresAt r"
  by (auto simp: invite_Decode_def split: sum.splits if_splits dest!: sealed_decode_authentic)

lemma invite_roundtrip:
  assumes "keys_ok K" and "aead_ok A r" and "length n = nonceLen" and "invite_Encode K A r k priv (Some n) = Inr blob"
  shows "invite_Decode K A blob k (k_public K priv) now =
    (if rec_Version r \<noteq> RecordVersion then Inl (ErrUnsupportedVersion (rec_Version r))
     else if now > rec_ExpiresAt r then Inl ErrExpired else Inr r)"
    and "DecodeUnverified A blob k = Inr r"
  using sealed_roundtrip [OF assms(1-3) assms(4) [unfolded invite_Encode_def]]
    sealed_encode_length [OF assms(4) [unfolded invite_Encode_def] assms(2,3)]
  by (auto simp: invite_Decode_def DecodeUnverified_def)

end
