(* ===== verification/Invite_Url.thy ===== *)
theory Invite_Url
  imports Sealed Invite_Code
begin

text \<open>
  \<open>internal/invite/url.go\<close>: the self-contained \<open>opencom://join?...\<close> URL of an invite. The two Unicode
  case tables are arguments of \<open>ParseURL\<close>; libp2p's keys are the \<open>keys\<close> record.
\<close>

record URLPayload =
  up_PeerID :: string
  up_PublicKey :: string
  up_Addresses :: "string list"
  up_DisplayName :: string
  up_Code :: Code
  up_ExpiresAt :: int
  up_Signature :: string

datatype url_error =
    ErrNotURL
  | ErrNoQuery
  | ErrParseQuery
  | ErrMissingPeer
  | ErrMissingAddresses
  | ErrDecodeAddresses
  | ErrURLCode code_error
  | ErrExpiresAt
  | ErrSignURL
  | ErrURLSignatureInvalid
  | ErrURLPubkeyMismatch
  | ErrDecodePubkey
  | ErrParsePubkey
  | ErrDeriveID
  | ErrDecodeSignature

definition URLPrefix :: string where "URLPrefix = ''opencom://join''"

definition urlSigDomain :: string where "urlSigDomain = ''opencom-invite-url-v1''"

definition encodeAddresses :: "string list \<Rightarrow> string" where
  "encodeAddresses addrs = rawurl_encode (join [CHR 0x0A] addrs)"

definition decodeAddresses :: "string \<Rightarrow> string list option" where
  "decodeAddresses enc =
    (case rawurl_decode enc of
       None \<Rightarrow> None
     | Some blob \<Rightarrow> if blob = [] then Some [] else Some (split_on (CHR 0x0A) blob))"

text \<open>\<open>url.Values.Encode\<close> writes the keys in sorted order.\<close>

definition FormatURL :: "URLPayload \<Rightarrow> string" where
  "FormatURL p =
    URLPrefix @ ''?'' @ encode_values
      ([(''a'', encodeAddresses (up_Addresses p)), (''c'', up_Code p), (''e'', FormatInt (up_ExpiresAt p)),
        (''k'', up_PublicKey p), (''n'', up_DisplayName p), (''p'', up_PeerID p)]
       @ (if up_Signature p \<noteq> [] then [(''s'', up_Signature p)] else []))"

definition ParseURL :: "(rune \<Rightarrow> rune) \<Rightarrow> (rune \<Rightarrow> rune) \<Rightarrow> string \<Rightarrow> url_error + URLPayload" where
  "ParseURL upper lower s =
    (if take (length URLPrefix) (ToLower lower s) \<noteq> URLPrefix then Inl ErrNotURL
     else if CHR ''?'' \<notin> set s then Inl ErrNoQuery
     else case ParseQuery (snd (cut (CHR ''?'') s)) of
       None \<Rightarrow> Inl ErrParseQuery
     | Some vs \<Rightarrow>
         if query_get vs ''p'' = [] then Inl ErrMissingPeer
         else if query_get vs ''a'' = [] then Inl ErrMissingAddresses
         else (case decodeAddresses (query_get vs ''a'') of
           None \<Rightarrow> Inl ErrDecodeAddresses
         | Some addrs \<Rightarrow>
             (case Parse_code upper (query_get vs ''c'') of
                Inl e \<Rightarrow> Inl (ErrURLCode e)
              | Inr c \<Rightarrow>
                  (case (if query_get vs ''e'' \<noteq> [] then ParseInt (query_get vs ''e'') else Some 0) of
                     None \<Rightarrow> Inl ErrExpiresAt
                   | Some expires \<Rightarrow>
                       Inr \<lparr>up_PeerID = query_get vs ''p'', up_PublicKey = query_get vs ''k'', up_Addresses = addrs,
                            up_DisplayName = query_get vs ''n'', up_Code = c, up_ExpiresAt = expires,
                            up_Signature = query_get vs ''s''\<rparr>))))"

definition urlCanonicalBytes :: "URLPayload \<Rightarrow> string" where
  "urlCanonicalBytes p =
    urlSigDomain @ [CHR 0x0A] @
    ''p='' @ up_PeerID p @ [CHR 0x0A] @
    ''k='' @ up_PublicKey p @ [CHR 0x0A] @
    ''a='' @ encodeAddresses (up_Addresses p) @ [CHR 0x0A] @
    ''n='' @ up_DisplayName p @ [CHR 0x0A] @
    ''c='' @ up_Code p @ [CHR 0x0A] @
    ''e='' @ FormatInt (up_ExpiresAt p)"

definition SignURL :: "('priv, 'pub) keys \<Rightarrow> URLPayload \<Rightarrow> 'priv \<Rightarrow> url_error + URLPayload" where
  "SignURL K p signer =
    (case k_sign K signer (urlCanonicalBytes p) of
       None \<Rightarrow> Inl ErrSignURL
     | Some sig \<Rightarrow> Inr (p\<lparr>up_Signature := std_encode sig\<rparr>))"

definition VerifyURL :: "('priv, 'pub) keys \<Rightarrow> URLPayload \<Rightarrow> url_error + 'pub" where
  "VerifyURL K p =
    (if up_PublicKey p = [] then Inl ErrURLSignatureInvalid
     else if up_Signature p = [] then Inl ErrURLSignatureInvalid
     else case std_decode (up_PublicKey p) of
       None \<Rightarrow> Inl ErrDecodePubkey
     | Some pubBytes \<Rightarrow>
         (case k_unmarshalPub K pubBytes of
            None \<Rightarrow> Inl ErrParsePubkey
          | Some pub \<Rightarrow>
              (case k_idFromPub K pub of
                 None \<Rightarrow> Inl ErrDeriveID
               | Some derivedID \<Rightarrow>
                   if k_idStr K derivedID \<noteq> up_PeerID p then Inl ErrURLPubkeyMismatch
                   else (case std_decode (up_Signature p) of
                      None \<Rightarrow> Inl ErrDecodeSignature
                    | Some sig \<Rightarrow>
                        if \<not> k_verify K pub (urlCanonicalBytes p) sig then Inl ErrURLSignatureInvalid
                        else Inr pub))))"

section \<open>Lemmas\<close>

lemma decode_encodeAddresses:
  assumes "join [CHR 0x0A] addrs \<noteq> []" and "\<forall>a\<in>set addrs. CHR 0x0A \<notin> set a"
  shows "decodeAddresses (encodeAddresses addrs) = Some addrs"
proof -
  have "addrs \<noteq> []" using assms(1) by auto
  then show ?thesis using assms split_join [of addrs "CHR 0x0A"]
    by (simp add: decodeAddresses_def encodeAddresses_def)
qed

lemma ToLower_prefix: "ToLower lower (URLPrefix @ s) = URLPrefix @ ToLower lower s"
  unfolding ToLower_def by (rule str_map_prefix) (auto simp: URLPrefix_def ascii_def)

text \<open>A payload \<open>Create\<close> can build: some address, no line break inside one, a canonical code, an expiry
  of 64 bits.\<close>

definition payload_ok :: "URLPayload \<Rightarrow> bool" where
  "payload_ok p \<longleftrightarrow> up_PeerID p \<noteq> [] \<and> join [CHR 0x0A] (up_Addresses p) \<noteq> []
     \<and> (\<forall>a\<in>set (up_Addresses p). CHR 0x0A \<notin> set a) \<and> valid_code (up_Code p)
     \<and> - (2 ^ 63) \<le> up_ExpiresAt p \<and> up_ExpiresAt p < 2 ^ 63"

lemma ParseURL_FormatURL:
  assumes "payload_ok p"
  shows "ParseURL upper lower (FormatURL p) = Inr p"
proof -
  define vs where "vs = [(''a'', encodeAddresses (up_Addresses p)), (''c'', up_Code p), (''e'', FormatInt (up_ExpiresAt p)),
        (''k'', up_PublicKey p), (''n'', up_DisplayName p), (''p'', up_PeerID p)]
       @ (if up_Signature p \<noteq> [] then [(''s'', up_Signature p)] else [])"
  have url: "FormatURL p = URLPrefix @ CHR ''?'' # encode_values vs" by (simp add: FormatURL_def vs_def)
  have "cut (CHR ''?'') (FormatURL p) = (URLPrefix, encode_values vs)"
    unfolding url by (rule cut_append) (simp add: URLPrefix_def)
  moreover have "ParseQuery (encode_values vs) = Some vs" by (rule ParseQuery_encode_values) (simp add: vs_def)
  moreover have "take (length URLPrefix) (ToLower lower (FormatURL p)) = URLPrefix" by (simp add: url ToLower_prefix)
  moreover have "query_get vs ''a'' = encodeAddresses (up_Addresses p)" "query_get vs ''c'' = up_Code p"
    "query_get vs ''e'' = FormatInt (up_ExpiresAt p)" "query_get vs ''k'' = up_PublicKey p"
    "query_get vs ''n'' = up_DisplayName p" "query_get vs ''p'' = up_PeerID p" "query_get vs ''s'' = up_Signature p"
    by (simp_all add: vs_def query_get_def)
  moreover have "CHR ''?'' \<in> set (FormatURL p)" by (simp add: url)
  ultimately show ?thesis
    using assms decode_encodeAddresses [of "up_Addresses p"] Parse_code_id ParseInt_FormatInt
    by (simp add: ParseURL_def payload_ok_def encodeAddresses_def)
qed

lemma VerifyURL_SignURL:
  assumes "keys_ok K" and "SignURL K p priv = Inr p'" and "k_marshalPub K (k_public K priv) = Some b" and "b \<noteq> []"
    and "up_PublicKey p = std_encode b" and "k_idFromPub K (k_public K priv) = Some i" and "up_PeerID p = k_idStr K i"
  shows "VerifyURL K p' = Inr (k_public K priv)"
proof -
  obtain sig where sig: "k_sign K priv (urlCanonicalBytes p) = Some sig" "p' = p\<lparr>up_Signature := std_encode sig\<rparr>"
    using assms(2) by (auto simp: SignURL_def split: option.splits)
  then have v: "length sig = signatureLen" "k_verify K (k_public K priv) (urlCanonicalBytes p) sig"
    using assms(1) by (auto simp: keys_ok_def)
  then have "sig \<noteq> []" by (auto simp: signatureLen_def)
  moreover have "urlCanonicalBytes p' = urlCanonicalBytes p" by (simp add: sig(2) urlCanonicalBytes_def)
  moreover have "k_unmarshalPub K b = Some (k_public K priv)" using assms(1,3) by (simp add: keys_ok_def)
  ultimately show ?thesis using assms(4-7) v sig(2) by (simp add: VerifyURL_def)
qed

lemma VerifyURL_sound:
  assumes "VerifyURL K p = Inr pub"
  shows "\<exists>i sig. k_idFromPub K pub = Some i \<and> k_idStr K i = up_PeerID p \<and> std_decode (up_Signature p) = Some sig
    \<and> k_verify K pub (urlCanonicalBytes p) sig"
  using assms by (auto simp: VerifyURL_def split: if_splits option.splits)

subsection \<open>The signed bytes determine the payload\<close>

lemma cut_line:
  fixes d :: char
  assumes "d \<notin> set x" and "d \<notin> set y"
  shows "x @ d # s = y @ d # t \<longleftrightarrow> x = y \<and> s = t"
proof
  assume "x @ d # s = y @ d # t"
  then have "cut d (x @ d # s) = cut d (y @ d # t)" by (rule arg_cong)
  then show "x = y \<and> s = t" unfolding cut_append [OF assms(1)] cut_append [OF assms(2)] by simp
qed simp

lemma cut_last_line: "(d :: char) \<notin> set s \<Longrightarrow> d \<notin> set t \<Longrightarrow> x @ d # s = y @ d # t \<longleftrightarrow> x = y \<and> s = t"
proof -
  assume "d \<notin> set s" "d \<notin> set t"
  then have "rev s @ d # rev x = rev t @ d # rev y \<longleftrightarrow> rev s = rev t \<and> rev x = rev y"
    by (intro cut_line) auto
  moreover have "x @ d # s = y @ d # t \<longleftrightarrow> rev (x @ d # s) = rev (y @ d # t)" by (rule rev_is_rev_conv [symmetric])
  then have "x @ d # s = y @ d # t \<longleftrightarrow> rev s @ d # rev x = rev t @ d # rev y"
    by (simp only: rev_append rev.simps append.assoc append_Cons append_Nil)
  ultimately show ?thesis by auto
qed

text \<open>A labelled line at the front of a text.\<close>

lemma cut_field:
  fixes d :: char
  assumes "l @ x @ d # s = l @ y @ d # t" and "d \<notin> set x" and "d \<notin> set y"
  shows "x = y" "s = t"
  using assms cut_line [of d x y s t] by simp_all

lemma FormatInt_no_newline: "CHR 0x0A \<notin> set (FormatInt i)"
proof -
  have "is_digit c \<Longrightarrow> c \<noteq> CHR 0x0A" for c by (auto simp: is_digit_def)
  then show ?thesis using fmt_nat_ok by (auto simp: FormatInt_def list_all_iff)
qed

lemma FormatInt_inj:
  assumes "FormatInt i = FormatInt j" and "- (2 ^ 63) \<le> i" "i < 2 ^ 63" "- (2 ^ 63) \<le> j" "j < 2 ^ 63"
  shows "i = j"
  using ParseInt_FormatInt [OF assms(2,3)] ParseInt_FormatInt [OF assms(4,5)] assms(1) by (metis option.inject)

lemma code_no_newline: "valid_code c \<Longrightarrow> CHR 0x0A \<notin> set c"
proof -
  have "CHR 0x0A \<notin> set crockfordAlphabet" by (simp add: crockfordAlphabet_def)
  then show "valid_code c \<Longrightarrow> ?thesis" unfolding valid_code_def by blast
qed

section \<open>Properties\<close>

text \<open>C15: The URL form of an invite is faithful. A payload with an address, a canonical code and a 64-bit
  expiry, whatever bytes its other fields hold, is read back from its URL exactly.\<close>

theorem url_roundtrip:
  assumes "payload_ok p"
  shows "ParseURL upper lower (FormatURL p) = Inr p"
  using assms by (rule ParseURL_FormatURL)

theorem url_roundtrip_witness:
  "let p = \<lparr>up_PeerID = ''12D3'', up_PublicKey = ''AQ+='', up_Addresses = [''/ip4/1.2.3.4/udp/9'', ''/ip6/::1''],
            up_DisplayName = ''A & B=%'', up_Code = ''A7B2X9K4'', up_ExpiresAt = 1700000000, up_Signature = ''cw==''\<rparr>
   in payload_ok p \<and> ParseURL id id (FormatURL p) = Inr p"
proof -
  define p where "p = \<lparr>up_PeerID = ''12D3'', up_PublicKey = ''AQ+='', up_Addresses = [''/ip4/1.2.3.4/udp/9'', ''/ip6/::1''],
            up_DisplayName = ''A & B=%'', up_Code = ''A7B2X9K4'', up_ExpiresAt = 1700000000, up_Signature = ''cw==''\<rparr>"
  have "payload_ok p" by (simp add: p_def payload_ok_def valid_code_def codeLength_def crockfordAlphabet_def)
  with url_roundtrip [OF this] show ?thesis unfolding p_def [symmetric] Let_def by simp
qed

text \<open>The URL signature covers every field. Two payloads that are signed over the same bytes have the
  same peer ID, key, addresses, name, code and expiry, so a signature cannot be moved to another
  payload. The display name may hold anything, line breaks included; the key and the peer ID are
  one line each, the code is canonical.\<close>

theorem url_signature_binds:
  assumes "urlCanonicalBytes p = urlCanonicalBytes q" and "payload_ok p" and "payload_ok q"
    and "CHR 0x0A \<notin> set (up_PeerID p) \<union> set (up_PeerID q) \<union> set (up_PublicKey p) \<union> set (up_PublicKey q)"
  shows "q = p\<lparr>up_Signature := up_Signature q\<rparr>"
proof -
  note ok = assms(2,3) [unfolded payload_ok_def]
  have a: "CHR 0x0A \<notin> set (encodeAddresses xs)" for xs
    using b64_encode_plain by (auto simp: encodeAddresses_def)
  from assms(4) have nl: "CHR 0x0A \<notin> set (up_PeerID p)" "CHR 0x0A \<notin> set (up_PeerID q)"
    "CHR 0x0A \<notin> set (up_PublicKey p)" "CHR 0x0A \<notin> set (up_PublicKey q)" by auto
  have "''p='' @ up_PeerID p @ CHR 0x0A # (''k='' @ up_PublicKey p @ CHR 0x0A # (''a='' @ encodeAddresses (up_Addresses p)
        @ CHR 0x0A # (''n='' @ up_DisplayName p @ CHR 0x0A # ''c='' @ up_Code p @ CHR 0x0A # ''e='' @ FormatInt (up_ExpiresAt p))))
      = ''p='' @ up_PeerID q @ CHR 0x0A # (''k='' @ up_PublicKey q @ CHR 0x0A # (''a='' @ encodeAddresses (up_Addresses q)
        @ CHR 0x0A # (''n='' @ up_DisplayName q @ CHR 0x0A # ''c='' @ up_Code q @ CHR 0x0A # ''e='' @ FormatInt (up_ExpiresAt q))))"
    using assms(1) unfolding urlCanonicalBytes_def by simp
  note p = cut_field [OF this nl(1,2)]
  note k = cut_field [OF p(2) nl(3,4)]
  note ad = cut_field [OF k(2) a a]
  have e2: "(up_DisplayName p @ CHR 0x0A # ''c='' @ up_Code p) @ CHR 0x0A # ''e='' @ FormatInt (up_ExpiresAt p)
      = (up_DisplayName q @ CHR 0x0A # ''c='' @ up_Code q) @ CHR 0x0A # ''e='' @ FormatInt (up_ExpiresAt q)"
    using ad(2) by simp
  note e1 = p(1) k(1) ad(1)
  have n: "CHR 0x0A \<notin> set (''e='' @ FormatInt i)" for i using FormatInt_no_newline by simp
  note e3 = iffD1 [OF cut_last_line [OF n n] e2]
  have c: "CHR 0x0A \<notin> set (''c='' @ up_Code p)" "CHR 0x0A \<notin> set (''c='' @ up_Code q)"
    using ok code_no_newline by simp_all
  have "up_DisplayName p = up_DisplayName q \<and> ''c='' @ up_Code p = ''c='' @ up_Code q"
    using iffD1 [OF cut_last_line [OF c]] e3 by blast
  then have "up_DisplayName p = up_DisplayName q" "up_Code p = up_Code q" by simp_all
  moreover have "FormatInt (up_ExpiresAt p) = FormatInt (up_ExpiresAt q)" using e3 by simp
  then have "up_ExpiresAt p = up_ExpiresAt q" by (rule FormatInt_inj) (use ok in blast)+
  moreover have "up_Addresses p = up_Addresses q"
  proof -
    have "decodeAddresses (encodeAddresses (up_Addresses p)) = Some (up_Addresses p)"
      by (rule decode_encodeAddresses) (use ok in blast)+
    moreover have "decodeAddresses (encodeAddresses (up_Addresses q)) = Some (up_Addresses q)"
      by (rule decode_encodeAddresses) (use ok in blast)+
    ultimately show ?thesis using e1(3) by (metis option.inject)
  qed
  ultimately show ?thesis using e1 by (cases p; cases q) simp
qed

theorem url_signature_binds_witness:
  "let p = \<lparr>up_PeerID = ''12D3'', up_PublicKey = ''AQ+='', up_Addresses = [''/ip6/::1''],
            up_DisplayName = ''A'', up_Code = ''A7B2X9K4'', up_ExpiresAt = 1700000000, up_Signature = ''cw==''\<rparr>
   in urlCanonicalBytes p \<noteq> urlCanonicalBytes (p\<lparr>up_Code := ''A7B2X9K5''\<rparr>)"
proof -
  define p where "p = \<lparr>up_PeerID = ''12D3'', up_PublicKey = ''AQ+='', up_Addresses = [''/ip6/::1''],
            up_DisplayName = ''A'', up_Code = ''A7B2X9K4'', up_ExpiresAt = 1700000000, up_Signature = ''cw==''\<rparr>"
  have ok: "payload_ok p" "payload_ok (p\<lparr>up_Code := ''A7B2X9K5''\<rparr>)"
    by (simp_all add: p_def payload_ok_def valid_code_def codeLength_def crockfordAlphabet_def)
  have "urlCanonicalBytes p \<noteq> urlCanonicalBytes (p\<lparr>up_Code := ''A7B2X9K5''\<rparr>)"
  proof
    assume "urlCanonicalBytes p = urlCanonicalBytes (p\<lparr>up_Code := ''A7B2X9K5''\<rparr>)"
    from url_signature_binds [OF this ok] show False by (simp add: p_def)
  qed
  then show ?thesis unfolding p_def [symmetric] Let_def .
qed

end
