(* ===== verification/Invite_Manager.thy ===== *)
theory Invite_Manager
  imports Invite_Store Invite_Record Invite_Url Friends_Store Go_Chan
begin

text \<open>
  \<open>internal/invite/handshake.go\<close> and \<open>internal/invite/manager.go\<close>: creating, redeeming and revoking
  invites, the inviter's stream handler and the redemption subscriptions.

  \<open>InvEnv\<close> holds what the manager was built with (keys, name, addresses) and the libraries it calls.
  The state holds both stores with their files, the DHT and peerstore writes, and the subscriber
  channels (numbered, with the code each waits for). A libp2p stream carries one Hello and one
  Response: on the redeemer's side the far end is a function from the Hello that was written to the
  Response that comes back, if any. Times are nanoseconds since the epoch.
\<close>

definition MaxTTL :: time where "MaxTTL = 30 * 60 * 1000000000"

definition unix :: "time \<Rightarrow> int" where "unix t = t div 1000000000"

definition TypeRedeem :: string where "TypeRedeem = ''invite_redeem''"
definition TypeAccept :: string where "TypeAccept = ''invite_accept''"
definition TypeReject :: string where "TypeReject = ''invite_reject''"

record Hello =
  he_Type :: string
  he_Code :: Code
  he_PeerID :: string
  he_PublicKey :: string
  he_Addresses :: "string list"
  he_DisplayName :: string

record Response =
  re_Type :: string
  re_PeerID :: string
  re_PublicKey :: string
  re_DisplayName :: string
  re_Reason :: string

record RedemptionEvent =
  rd_Code :: string
  rd_RedeemedBy :: string
  rd_RedeemedAt :: time

text \<open>\<open>SendHello\<close>: the message that goes on the wire.\<close>

definition SendHello :: "Hello \<Rightarrow> Hello" where
  "SendHello h = (if he_Type h = [] then h\<lparr>he_Type := TypeRedeem\<rparr> else h)"

record ('priv, 'pub) InvEnv =
  iv_keys :: "('priv, 'pub) keys"
  iv_aead :: "InvRecord aead"
  iv_sha :: "string \<Rightarrow> string"
  iv_hkdf :: "string \<Rightarrow> string \<Rightarrow> string"
  iv_upper :: "rune \<Rightarrow> rune"
  iv_lower :: "rune \<Rightarrow> rune"
  iv_multiaddr :: "string \<Rightarrow> addr option"
  iv_hostID :: peer_id
  iv_priv :: 'priv
  iv_pub :: 'pub
  iv_displayName :: string
  iv_addrs :: "string list"

record InvState =
  im_store :: "InviteStore \<times> invite_fs"
  im_friends :: "Store \<times> friends_fs"
  im_puts :: "(string \<times> string) list"
  im_peerstore :: "(peer_id \<times> addr) list"
  im_subs :: "(nat \<times> string \<times> RedemptionEvent chan) list"
  im_nextChan :: nat
  im_handler :: bool

datatype invite_error =
    ErrGenerating
  | ErrMarshalPub
  | ErrSigning url_error
  | ErrFetching
  | ErrDecodingRecord record_error
  | ErrDecodingPub
  | ErrParsingPub
  | ErrVerifyingRecord record_error
  | ErrDerivingID
  | ErrPeerMismatch
  | ErrParsingURL url_error
  | ErrInviteExpired
  | ErrVerifyingURL url_error
  | ErrOpeningStream
  | ErrSendingHello
  | ErrReadingResponse
  | ErrRejected string
  | ErrUnexpectedResponse string
  | ErrAddingFriend friends_error

definition inv_Start :: "InvState \<Rightarrow> InvState" where "inv_Start s = s\<lparr>im_handler := True\<rparr>"

definition inv_Stop :: "InvState \<Rightarrow> InvState" where "inv_Stop s = s\<lparr>im_handler := False\<rparr>"

section \<open>Creating\<close>

record CreateResult =
  cr_Code :: Code
  cr_URL :: string
  cr_ExpiresAt :: time
  cr_DHTPublishErr :: bool

text \<open>What the outside decides during one \<open>Create\<close>: the random bytes of the code and of the nonce, the
  two clock readings, the outcome of the store's write and of the DHT's \<open>PutValue\<close>.\<close>

record create_env =
  ce_rand :: "8 word list option"
  ce_nonce :: "string option"
  ce_now :: time
  ce_created :: time
  ce_io :: io_env
  ce_putOK :: bool

definition Create ::
    "('priv, 'pub) InvEnv \<Rightarrow> create_env \<Rightarrow> time \<Rightarrow> InvState \<Rightarrow> (invite_error + CreateResult) \<times> InvState" where
  "Create v ce ttl0 s =
    (let ttl = (if ttl0 \<le> 0 \<or> ttl0 > MaxTTL then MaxTTL else ttl0); K = iv_keys v in
     case Generate (ce_rand ce) of
       Inl _ \<Rightarrow> (Inl ErrGenerating, s)
     | Inr code \<Rightarrow>
         let expires = ce_now ce + ttl in
         (case k_marshalPub K (iv_pub v) of
            None \<Rightarrow> (Inl ErrMarshalPub, s)
          | Some pubBytes \<Rightarrow>
              let pubB64 = std_encode pubBytes;
                  urlPayload = \<lparr>up_PeerID = k_idStr K (iv_hostID v), up_PublicKey = pubB64, up_Addresses = iv_addrs v,
                    up_DisplayName = iv_displayName v, up_Code = code, up_ExpiresAt = unix expires, up_Signature = []\<rparr>
              in (case SignURL K urlPayload (iv_priv v) of
                    Inl e \<Rightarrow> (Inl (ErrSigning e), s)
                  | Inr signedURL \<Rightarrow>
                      let s1 = s\<lparr>im_store := store_Add \<lparr>en_Code = code, en_ExpiresAt = expires, en_Consumed = False,
                                   en_ConsumedBy = [], en_CreatedAt = ce_created ce\<rparr> (ce_io ce) (im_store s)\<rparr>;
                          rec = \<lparr>rec_Version = RecordVersion, rec_PeerID = up_PeerID urlPayload, rec_PublicKey = pubB64,
                            rec_Addresses = iv_addrs v, rec_DisplayName = iv_displayName v, rec_ExpiresAt = unix expires\<rparr>;
                          (dhtErr, s2) =
                            (case invite_Encode K (iv_aead v) rec (invite_DeriveEncryptionKey (iv_hkdf v) code) (iv_priv v) (ce_nonce ce) of
                               Inl _ \<Rightarrow> (True, s1)
                             | Inr blob \<Rightarrow>
                                 if ce_putOK ce
                                 then (False, s1\<lparr>im_puts := im_puts s1 @ [(invite_DeriveDHTKey (iv_sha v) code, blob)]\<rparr>)
                                 else (True, s1))
                      in (Inr \<lparr>cr_Code = code, cr_URL = FormatURL signedURL, cr_ExpiresAt = expires,
                               cr_DHTPublishErr = dhtErr\<rparr>, s2))))"

definition Revoke :: "Code \<Rightarrow> io_env \<Rightarrow> InvState \<Rightarrow> bool \<times> InvState" where
  "Revoke c env s = (let (ok, st) = store_Remove c env (im_store s) in (ok, s\<lparr>im_store := st\<rparr>))"

section \<open>Redeeming\<close>

definition parseAddrs :: "('priv, 'pub) InvEnv \<Rightarrow> string list \<Rightarrow> addr list" where
  "parseAddrs v strs = List.map_filter (iv_multiaddr v) strs"

definition decodePubKey :: "('priv, 'pub) keys \<Rightarrow> string \<Rightarrow> invite_error + 'pub" where
  "decodePubKey K b64 =
    (case std_decode b64 of
       None \<Rightarrow> Inl ErrDecodingPub
     | Some b \<Rightarrow> (case k_unmarshalPub K b of None \<Rightarrow> Inl ErrParsingPub | Some pub \<Rightarrow> Inr pub))"

text \<open>The outside during one redemption: whether the stream opens and the Hello can be written, the
  far end, the clock, and the write of the friend list.\<close>

record redeem_env =
  rv_streamOK :: bool
  rv_writeOK :: bool
  rv_remote :: "Hello \<Rightarrow> Response option"
  rv_now :: time
  rv_io :: io_env

definition add_friend :: "Friend \<Rightarrow> io_env \<Rightarrow> InvState \<Rightarrow> (friends_error + unit) \<times> InvState" where
  "add_friend f env s =
    (let (r, st, fs) = Add f env (fst (im_friends s)) (snd (im_friends s)) in (r, s\<lparr>im_friends := (st, fs)\<rparr>))"

definition dialAndHandshake ::
    "('priv, 'pub) InvEnv \<Rightarrow> redeem_env \<Rightarrow> Code \<Rightarrow> peer_id \<Rightarrow> string list \<Rightarrow> string \<Rightarrow> InvState
      \<Rightarrow> (invite_error + Friend) \<times> InvState" where
  "dialAndHandshake v rv c inviterID inviterAddrs inviterPubKeyB64 s =
    (let addrs = parseAddrs v inviterAddrs;
         s1 = (if addrs \<noteq> [] then s\<lparr>im_peerstore := im_peerstore s @ map (Pair inviterID) addrs\<rparr> else s) in
     if \<not> rv_streamOK rv then (Inl ErrOpeningStream, s1)
     else case k_marshalPub (iv_keys v) (iv_pub v) of
       None \<Rightarrow> (Inl ErrMarshalPub, s1)
     | Some ourPubBytes \<Rightarrow>
         if \<not> rv_writeOK rv then (Inl ErrSendingHello, s1)
         else
           (case rv_remote rv (SendHello \<lparr>he_Type = TypeRedeem, he_Code = c, he_PeerID = k_idStr (iv_keys v) (iv_hostID v),
                    he_PublicKey = std_encode ourPubBytes, he_Addresses = iv_addrs v, he_DisplayName = iv_displayName v\<rparr>) of
              None \<Rightarrow> (Inl ErrReadingResponse, s1)
            | Some resp \<Rightarrow>
                if re_Type resp = TypeReject then (Inl (ErrRejected (re_Reason resp)), s1)
                else if re_Type resp \<noteq> TypeAccept then (Inl (ErrUnexpectedResponse (re_Type resp)), s1)
                else
                  let added = \<lparr>fr_Name = re_DisplayName resp, fr_PeerID = inviterID, fr_PublicKey = inviterPubKeyB64,
                               fr_AddedAt = rv_now rv, fr_RendezvousHint = []\<rparr>
                  in (case add_friend added (rv_io rv) s1 of
                        (Inl e, s2) \<Rightarrow> (Inl (ErrAddingFriend e), s2)
                      | (Inr _, s2) \<Rightarrow> (Inr added, s2))))"

text \<open>\<open>get\<close> is the answer of the DHT's \<open>GetValue\<close>.\<close>

definition Redeem ::
    "('priv, 'pub) InvEnv \<Rightarrow> redeem_env \<Rightarrow> (string \<Rightarrow> string option) \<Rightarrow> Code \<Rightarrow> InvState \<Rightarrow> (invite_error + Friend) \<times> InvState" where
  "Redeem v rv get c s =
    (let K = iv_keys v; encKey = invite_DeriveEncryptionKey (iv_hkdf v) c in
     case get (invite_DeriveDHTKey (iv_sha v) c) of
       None \<Rightarrow> (Inl ErrFetching, s)
     | Some blob \<Rightarrow>
         (case DecodeUnverified (iv_aead v) blob encKey of
            Inl e \<Rightarrow> (Inl (ErrDecodingRecord e), s)
          | Inr rawRec \<Rightarrow>
              (case decodePubKey K (rec_PublicKey rawRec) of
                 Inl e \<Rightarrow> (Inl e, s)
               | Inr inviterPub \<Rightarrow>
                   (case invite_Decode K (iv_aead v) blob encKey inviterPub (unix (rv_now rv)) of
                      Inl e \<Rightarrow> (Inl (ErrVerifyingRecord e), s)
                    | Inr rec \<Rightarrow>
                        (case k_idFromPub K inviterPub of
                           None \<Rightarrow> (Inl ErrDerivingID, s)
                         | Some inviterID \<Rightarrow>
                             if rec_PeerID rec \<noteq> k_idStr K inviterID then (Inl ErrPeerMismatch, s)
                             else dialAndHandshake v rv c inviterID (rec_Addresses rec) (rec_PublicKey rec) s)))))"

definition RedeemURL ::
    "('priv, 'pub) InvEnv \<Rightarrow> redeem_env \<Rightarrow> string \<Rightarrow> InvState \<Rightarrow> (invite_error + Friend) \<times> InvState" where
  "RedeemURL v rv urlStr s =
    (let K = iv_keys v in
     case ParseURL (iv_upper v) (iv_lower v) urlStr of
       Inl e \<Rightarrow> (Inl (ErrParsingURL e), s)
     | Inr payload \<Rightarrow>
         if up_ExpiresAt payload > 0 \<and> unix (rv_now rv) > up_ExpiresAt payload then (Inl ErrInviteExpired, s)
         else (case VerifyURL K payload of
           Inl e \<Rightarrow> (Inl (ErrVerifyingURL e), s)
         | Inr inviterPub \<Rightarrow>
             (case k_idFromPub K inviterPub of
                None \<Rightarrow> (Inl ErrDerivingID, s)
              | Some inviterID \<Rightarrow>
                  dialAndHandshake v rv (up_Code payload) inviterID (up_Addresses payload) (up_PublicKey payload) s)))"

section \<open>Redemption subscriptions\<close>

definition redeem_cap :: nat where "redeem_cap = 4"

definition SubscribeRedemption :: "string \<Rightarrow> InvState \<Rightarrow> nat \<times> InvState" where
  "SubscribeRedemption code s =
    (im_nextChan s, s\<lparr>im_subs := im_subs s @ [(im_nextChan s, code, make_chan redeem_cap)], im_nextChan := Suc (im_nextChan s)\<rparr>)"

definition UnsubscribeRedemption :: "string \<Rightarrow> nat \<Rightarrow> InvState \<Rightarrow> InvState" where
  "UnsubscribeRedemption code ch s = s\<lparr>im_subs := remove_first (\<lambda>(i, c, _). c = code \<and> i = ch) (im_subs s)\<rparr>"

definition fanoutRedemption :: "RedemptionEvent \<Rightarrow> InvState \<Rightarrow> InvState" where
  "fanoutRedemption ev s =
    s\<lparr>im_subs := map (\<lambda>(i, c, ch). (i, c, if c = rd_Code ev then send_nb ev ch else ch)) (im_subs s)\<rparr>"

section \<open>The inviter's handler\<close>

definition reject :: "string \<Rightarrow> Response" where
  "reject reason = \<lparr>re_Type = TypeReject, re_PeerID = [], re_PublicKey = [], re_DisplayName = [], re_Reason = reason\<rparr>"

text \<open>The checks before the code is consumed: \<open>Some\<close> is the rejection that is sent.\<close>

definition hello_check :: "('priv, 'pub) keys \<Rightarrow> peer_id \<Rightarrow> Hello \<Rightarrow> time \<Rightarrow> InvState \<Rightarrow> Response option" where
  "hello_check K remote hello now s =
    (if he_Type hello \<noteq> TypeRedeem then Some (reject ''unexpected hello type'')
     else case store_Get (he_Code hello) (fst (im_store s)) of
       None \<Rightarrow> Some (reject ''unknown code'')
     | Some entry \<Rightarrow>
         if en_Consumed entry then Some (reject ''code already consumed'')
         else if now > en_ExpiresAt entry then Some (reject ''code expired'')
         else (case std_decode (he_PublicKey hello) of
           None \<Rightarrow> Some (reject ''invalid public key encoding'')
         | Some b \<Rightarrow>
             (case k_unmarshalPub K b of
                None \<Rightarrow> Some (reject ''invalid public key'')
              | Some inviteePub \<Rightarrow>
                  (case k_idFromPub K inviteePub of
                     None \<Rightarrow> Some (reject ''cannot derive peer id'')
                   | Some derivedID \<Rightarrow>
                       if derivedID \<noteq> remote then Some (reject ''peer id / public key mismatch'') else None))))"

definition hello_mark :: "('priv, 'pub) keys \<Rightarrow> peer_id \<Rightarrow> Hello \<Rightarrow> time \<Rightarrow> io_env \<Rightarrow> InvState \<Rightarrow> bool \<times> InvState" where
  "hello_mark K remote hello now env s =
    (let (ok, st) = MarkConsumed (he_Code hello) (k_idStr K remote) now env (im_store s) in (ok, s\<lparr>im_store := st\<rparr>))"

definition hello_add :: "peer_id \<Rightarrow> Hello \<Rightarrow> time \<Rightarrow> io_env \<Rightarrow> InvState \<Rightarrow> (friends_error + unit) \<times> InvState" where
  "hello_add remote hello now env s =
    add_friend \<lparr>fr_Name = he_DisplayName hello, fr_PeerID = remote, fr_PublicKey = he_PublicKey hello,
                fr_AddedAt = now, fr_RendezvousHint = []\<rparr> env s"

definition hello_rollback :: "Hello \<Rightarrow> io_env \<Rightarrow> InvState \<Rightarrow> Response \<times> InvState" where
  "hello_rollback hello env s =
    (reject ''failed to add invitee'', s\<lparr>im_store := UnmarkConsumed (he_Code hello) env (im_store s)\<rparr>)"

definition hello_accept :: "('priv, 'pub) InvEnv \<Rightarrow> peer_id \<Rightarrow> Hello \<Rightarrow> time \<Rightarrow> InvState \<Rightarrow> Response \<times> InvState" where
  "hello_accept v remote hello now s =
    (case k_marshalPub (iv_keys v) (iv_pub v) of
       None \<Rightarrow> (reject ''internal error'', s)
     | Some ourPubBytes \<Rightarrow>
         (\<lparr>re_Type = TypeAccept, re_PeerID = k_idStr (iv_keys v) (iv_hostID v), re_PublicKey = std_encode ourPubBytes,
           re_DisplayName = iv_displayName v, re_Reason = []\<rparr>,
          fanoutRedemption \<lparr>rd_Code = he_Code hello, rd_RedeemedBy = k_idStr (iv_keys v) remote, rd_RedeemedAt = now\<rparr> s))"

text \<open>The handler run alone: \<open>hello\<close> is \<open>None\<close> when none could be read (the stream is reset and nothing
  is sent). The clock is read for the expiry check, inside \<open>MarkConsumed\<close>, and for the friend and the
  event; the store is written by \<open>MarkConsumed\<close> and by the rollback.\<close>

record handler_env =
  hv_check :: time
  hv_mark :: time
  hv_added :: time
  hv_event :: time
  hv_markIO :: io_env
  hv_addIO :: io_env
  hv_undoIO :: io_env

definition inv_handleStream ::
    "('priv, 'pub) InvEnv \<Rightarrow> handler_env \<Rightarrow> peer_id \<Rightarrow> Hello option \<Rightarrow> InvState \<Rightarrow> Response option \<times> InvState" where
  "inv_handleStream v hv remote hello s =
    (case hello of
       None \<Rightarrow> (None, s)
     | Some h \<Rightarrow>
         (case hello_check (iv_keys v) remote h (hv_check hv) s of
            Some r \<Rightarrow> (Some r, s)
          | None \<Rightarrow>
              (case hello_mark (iv_keys v) remote h (hv_mark hv) (hv_markIO hv) s of
                 (False, s1) \<Rightarrow> (Some (reject ''code already consumed''), s1)
               | (True, s1) \<Rightarrow>
                   (case hello_add remote h (hv_added hv) (hv_addIO hv) s1 of
                      (Inl _, s2) \<Rightarrow> (let (r, s3) = hello_rollback h (hv_undoIO hv) s2 in (Some r, s3))
                    | (Inr _, s2) \<Rightarrow> (let (r, s3) = hello_accept v remote h (hv_event hv) s2 in (Some r, s3))))))"

section \<open>Interleaved handlers\<close>

text \<open>
  libp2p runs one handler goroutine per stream. Between two of its calls on the stores any other
  goroutine may run, so the handler is a state machine whose steps are the pieces above; the
  stores' mutexes make each piece atomic. \<open>hpc\<close> is where a handler stands.
\<close>

datatype hpc =
    HStart peer_id Hello
  | HChecked peer_id Hello
  | HMarked peer_id Hello
  | HFailed peer_id Hello
  | HAdded peer_id Hello
  | HDone peer_id Hello Response

record inv_sys =
  sy_state :: InvState
  sy_pc :: "nat \<Rightarrow> hpc option"

text \<open>The code a handler has claimed: it marked the code consumed and has not rolled that back.\<close>

fun claims :: "hpc \<Rightarrow> Code option" where
  "claims (HMarked _ h) = Some (he_Code h)"
| "claims (HFailed _ h) = Some (he_Code h)"
| "claims (HAdded _ h) = Some (he_Code h)"
| "claims (HDone _ h r) = (if re_Type r = TypeAccept then Some (he_Code h) else None)"
| "claims _ = None"

definition claimants :: "inv_sys \<Rightarrow> Code \<Rightarrow> nat set" where
  "claimants y c = {i. \<exists>p. sy_pc y i = Some p \<and> claims p = Some c}"

text \<open>Besides the handlers, invites are created (the code is new: not in the store and claimed by no
  handler) and revoked, and the friend list, the subscriptions and everything else may change.\<close>

inductive inv_sys_step :: "('priv, 'pub) InvEnv \<Rightarrow> inv_sys \<Rightarrow> inv_sys \<Rightarrow> bool" for v where
  sys_open: "sy_pc y i = None \<Longrightarrow> inv_sys_step v y (y\<lparr>sy_pc := (sy_pc y)(i \<mapsto> HStart remote h)\<rparr>)"
| sys_check: "sy_pc y i = Some (HStart remote h) \<Longrightarrow>
    inv_sys_step v y (y\<lparr>sy_pc := (sy_pc y)(i \<mapsto>
      (case hello_check (iv_keys v) remote h now (sy_state y) of Some r \<Rightarrow> HDone remote h r | None \<Rightarrow> HChecked remote h))\<rparr>)"
| sys_mark: "sy_pc y i = Some (HChecked remote h) \<Longrightarrow> hello_mark (iv_keys v) remote h now env (sy_state y) = (ok, s') \<Longrightarrow>
    inv_sys_step v y (y\<lparr>sy_state := s', sy_pc := (sy_pc y)(i \<mapsto>
      (if ok then HMarked remote h else HDone remote h (reject ''code already consumed'')))\<rparr>)"
| sys_add: "sy_pc y i = Some (HMarked remote h) \<Longrightarrow> hello_add remote h now env (sy_state y) = (res, s') \<Longrightarrow>
    inv_sys_step v y (y\<lparr>sy_state := s', sy_pc := (sy_pc y)(i \<mapsto>
      (case res of Inl _ \<Rightarrow> HFailed remote h | Inr _ \<Rightarrow> HAdded remote h))\<rparr>)"
| sys_rollback: "sy_pc y i = Some (HFailed remote h) \<Longrightarrow> hello_rollback h env (sy_state y) = (r, s') \<Longrightarrow>
    inv_sys_step v y (y\<lparr>sy_state := s', sy_pc := (sy_pc y)(i \<mapsto> HDone remote h r)\<rparr>)"
| sys_accept: "sy_pc y i = Some (HAdded remote h) \<Longrightarrow> hello_accept v remote h now (sy_state y) = (r, s') \<Longrightarrow>
    inv_sys_step v y (y\<lparr>sy_state := s', sy_pc := (sy_pc y)(i \<mapsto> HDone remote h r)\<rparr>)"
| sys_create: "store_Get c (fst (im_store (sy_state y))) = None \<Longrightarrow> claimants y c = {} \<Longrightarrow> en_Code e = c \<Longrightarrow>
    inv_sys_step v y (y\<lparr>sy_state := (sy_state y)\<lparr>im_store := store_Add e env (im_store (sy_state y))\<rparr>\<rparr>)"
| sys_revoke: "inv_sys_step v y (y\<lparr>sy_state := snd (Revoke c env (sy_state y))\<rparr>)"
| sys_other: "im_store s' = im_store (sy_state y) \<Longrightarrow> inv_sys_step v y (y\<lparr>sy_state := s'\<rparr>)"

inductive inv_sys_reach :: "('priv, 'pub) InvEnv \<Rightarrow> inv_sys \<Rightarrow> bool" for v where
  sys_start: "sy_pc y = Map.empty \<Longrightarrow> inv_sys_reach v y"
| sys_next: "inv_sys_reach v y \<Longrightarrow> inv_sys_step v y y' \<Longrightarrow> inv_sys_reach v y'"

definition claims_inv :: "inv_sys \<Rightarrow> bool" where
  "claims_inv y \<longleftrightarrow>
    (\<forall>c i j. i \<in> claimants y c \<longrightarrow> j \<in> claimants y c \<longrightarrow> i = j) \<and>
    (\<forall>c e. claimants y c \<noteq> {} \<longrightarrow> store_Get c (fst (im_store (sy_state y))) = Some e \<longrightarrow> en_Consumed e)"

section \<open>Lemmas\<close>

lemma reject_type [simp]: "re_Type (reject r) = TypeReject" "TypeReject \<noteq> TypeAccept" "TypeAccept \<noteq> TypeReject"
  by (simp_all add: reject_def TypeReject_def TypeAccept_def)

lemma hello_check_reject: "hello_check K remote h now s = Some r \<Longrightarrow> re_Type r = TypeReject"
  by (auto simp: hello_check_def split: if_splits option.splits)

lemma claimants_upd:
  "claimants (y\<lparr>sy_pc := (sy_pc y)(i \<mapsto> p)\<rparr>) c = (if claims p = Some c then insert i (claimants y c) else claimants y c - {i})"
  by (auto simp: claimants_def)

lemma claimants_state [simp]: "claimants (y\<lparr>sy_state := s\<rparr>) c = claimants y c"
  by (simp add: claimants_def)

lemma claimants_upd_state:
  "claimants (y\<lparr>sy_state := s, sy_pc := (sy_pc y)(i \<mapsto> p)\<rparr>) c =
     (if claims p = Some c then insert i (claimants y c) else claimants y c - {i})"
  by (auto simp: claimants_def)

lemma claimant_claims: "sy_pc y i = Some p \<Longrightarrow> i \<in> claimants y c \<longleftrightarrow> claims p = Some c"
  by (auto simp: claimants_def)

text \<open>A step that keeps a handler's claim and the consumed marks of claimed codes keeps the invariant.\<close>

lemma claims_inv_keep:
  assumes "claims_inv y" and "\<And>c. claimants y' c \<subseteq> claimants y c"
    and "\<And>c e. claimants y' c \<noteq> {} \<Longrightarrow> store_Get c (fst (im_store (sy_state y'))) = Some e \<Longrightarrow>
      \<exists>e'. store_Get c (fst (im_store (sy_state y))) = Some e' \<and> (en_Consumed e' \<longrightarrow> en_Consumed e)"
  shows "claims_inv y'"
  unfolding claims_inv_def
proof (intro conjI allI impI)
  fix c i j
  assume "i \<in> claimants y' c" "j \<in> claimants y' c"
  then show "i = j" using assms(1,2) unfolding claims_inv_def by blast
next
  fix c e
  assume c: "claimants y' c \<noteq> {}" "store_Get c (fst (im_store (sy_state y'))) = Some e"
  obtain e' where "store_Get c (fst (im_store (sy_state y))) = Some e'" "en_Consumed e' \<longrightarrow> en_Consumed e"
    using assms(3) [OF c] by blast
  moreover have "claimants y c \<noteq> {}" using c(1) assms(2) by blast
  ultimately show "en_Consumed e" using assms(1) unfolding claims_inv_def by blast
qed

lemma hello_mark_store:
  assumes "hello_mark K remote h now env s = (ok, s')"
  shows "store_Get c (fst (im_store s')) =
    (if ok \<and> c = he_Code h
     then map_option (\<lambda>e. e\<lparr>en_Consumed := True, en_ConsumedBy := k_idStr K remote\<rparr>) (store_Get c (fst (im_store s)))
     else store_Get c (fst (im_store s)))"
    and "ok \<Longrightarrow> \<exists>e. store_Get (he_Code h) (fst (im_store s)) = Some e \<and> \<not> en_Consumed e \<and> now \<le> en_ExpiresAt e"
  using assms
  by (auto simp: hello_mark_def MarkConsumed_def store_Get_def Let_def split: option.splits if_splits prod.splits)

lemma hello_add_store: "hello_add remote h now env s = (res, s') \<Longrightarrow> im_store s' = im_store s"
  by (auto simp: hello_add_def add_friend_def Let_def split: prod.splits)

lemma hello_accept_store: "hello_accept v remote h now s = (r, s') \<Longrightarrow> im_store s' = im_store s"
  by (auto simp: hello_accept_def fanoutRedemption_def split: option.splits)

lemma hello_rollback_store:
  "hello_rollback h env s = (r, s') \<Longrightarrow> c \<noteq> he_Code h \<Longrightarrow> store_Get c (fst (im_store s')) = store_Get c (fst (im_store s))"
  by (auto simp: hello_rollback_def UnmarkConsumed_def store_Get_def Let_def split: option.splits prod.splits)

lemma Revoke_store:
  "store_Get c' (fst (im_store (snd (Revoke c env s)))) = (if c' = c then None else store_Get c' (fst (im_store s)))"
  by (auto simp: Revoke_def store_Remove_def store_Get_def Let_def split: prod.splits)

lemma store_Add_get:
  "store_Get c (fst (store_Add e env p)) = (if c = en_Code e then Some e else store_Get c (fst p))"
  by (auto simp: store_Add_def store_Get_def Let_def split: prod.splits)

lemma claims_inv_step: "inv_sys_step v y y' \<Longrightarrow> claims_inv y \<Longrightarrow> claims_inv y'"
proof (induction rule: inv_sys_step.induct)
  case (sys_open y i remote h)
  then show ?case by (elim claims_inv_keep) (auto simp: claimants_upd)
next
  case (sys_check y i remote h now)
  from sys_check(2) show ?case
  proof (rule claims_inv_keep)
    show "claimants (y\<lparr>sy_pc := (sy_pc y)(i \<mapsto>
      (case hello_check (iv_keys v) remote h now (sy_state y) of Some r \<Rightarrow> HDone remote h r | None \<Rightarrow> HChecked remote h))\<rparr>) c
        \<subseteq> claimants y c" for c
      using hello_check_reject [of "iv_keys v" remote h now "sy_state y"]
      by (auto simp: claimants_upd split: option.splits)
  qed auto
next
  case (sys_mark y i remote h now env ok s')
  note m = hello_mark_store [OF sys_mark(2)]
  show ?case
  proof (cases ok)
    case False
    from sys_mark(3) show ?thesis by (rule claims_inv_keep) (use False m(1) in \<open>auto simp: claimants_upd_state\<close>)
  next
    case True
    let ?y = "y\<lparr>sy_state := s', sy_pc := (sy_pc y)(i \<mapsto> HMarked remote h)\<rparr>"
    have none: "claimants y (he_Code h) = {}"
      using m(2) [OF True] sys_mark(3) unfolding claims_inv_def by blast
    have cl: "claimants ?y c = (if c = he_Code h then {i} else claimants y c - {i})" for c
      using none by (auto simp: claimants_upd_state)
    have st: "store_Get c (fst (im_store s')) = Some e \<Longrightarrow> claimants ?y c \<noteq> {} \<Longrightarrow> en_Consumed e" for c e
      using m(1) [of c, symmetric] True sys_mark(3) cl unfolding claims_inv_def
      by (cases "c = he_Code h") auto
    have un: "a \<in> claimants ?y c \<Longrightarrow> b \<in> claimants ?y c \<Longrightarrow> a = b" for a b c
      using cl [of c] sys_mark(3) unfolding claims_inv_def by (cases "c = he_Code h") auto
    show ?thesis unfolding claims_inv_def using st un True by simp
  qed
next
  case (sys_add y i remote h now env res s')
  from sys_add(3) show ?case
    by (rule claims_inv_keep)
      (use sys_add(1) hello_add_store [OF sys_add(2)] in \<open>auto simp: claimants_upd_state claimant_claims split: sum.splits if_splits\<close>)
next
  case (sys_rollback y i remote h env r s')
  have r: "re_Type r = TypeReject" using sys_rollback(2) by (auto simp: hello_rollback_def)
  have "claimants y (he_Code h) = {i}"
    using sys_rollback(1,3) claimant_claims [OF sys_rollback(1), of "he_Code h"] unfolding claims_inv_def by auto
  with r have "claimants (y\<lparr>sy_state := s', sy_pc := (sy_pc y)(i \<mapsto> HDone remote h r)\<rparr>) (he_Code h) = {}"
    by (simp add: claimants_upd_state)
  then have "c \<noteq> he_Code h" if "claimants (y\<lparr>sy_state := s', sy_pc := (sy_pc y)(i \<mapsto> HDone remote h r)\<rparr>) c \<noteq> {}" for c
    using that by blast
  with sys_rollback(3) show ?case
    by (elim claims_inv_keep) (use r hello_rollback_store [OF sys_rollback(2)] in \<open>auto simp: claimants_upd_state\<close>)
next
  case (sys_accept y i remote h now r s')
  from sys_accept(3) show ?case
    by (rule claims_inv_keep)
      (use sys_accept(1) hello_accept_store [OF sys_accept(2)] in \<open>auto simp: claimants_upd_state claimant_claims split: if_splits\<close>)
next
  case (sys_create c y e env)
  show ?case
    by (rule claims_inv_keep [OF sys_create(4)]) (use sys_create(2,3) in \<open>auto simp: store_Add_get split: if_splits\<close>)
next
  case (sys_revoke y c env)
  then show ?case by (rule claims_inv_keep) (auto simp: Revoke_store split: if_splits)
next
  case (sys_other s' y)
  from sys_other(2) show ?case by (rule claims_inv_keep) (auto simp: sys_other(1))
qed

lemma claims_inv_reach: "inv_sys_reach v y \<Longrightarrow> claims_inv y"
proof (induction rule: inv_sys_reach.induct)
  case (sys_start y)
  then show ?case by (simp add: claims_inv_def claimants_def)
qed (rule claims_inv_step)

lemma add_friend_ok:
  assumes "add_conflict f (st_friends (fst (im_friends s))) = None" and "io_success env"
    and "fresh_temp (st_path (fst (im_friends s))) env (snd (im_friends s))"
  shows "\<exists>s'. add_friend f env s = (Inr (), s') \<and> st_friends (fst (im_friends s')) = st_friends (fst (im_friends s)) @ [f]
    \<and> im_store s' = im_store s \<and> im_subs s' = im_subs s"
proof -
  have "persistLocked env ((fst (im_friends s))\<lparr>st_friends := st_friends (fst (im_friends s)) @ [f]\<rparr>) (snd (im_friends s))
      = (Inr (), (snd (im_friends s))(st_path (fst (im_friends s)) \<mapsto> Data (st_friends (fst (im_friends s)) @ [f])))"
    using persistLocked_ok [of "(fst (im_friends s))\<lparr>st_friends := st_friends (fst (im_friends s)) @ [f]\<rparr>" env "snd (im_friends s)"]
      assms(2,3) by simp
  with assms(1) show ?thesis by (simp add: add_friend_def Add_def Let_def)
qed

text \<open>A redemption the inviter has no reason to refuse.\<close>

definition hello_valid :: "('priv, 'pub) keys \<Rightarrow> peer_id \<Rightarrow> Hello \<Rightarrow> bool" where
  "hello_valid K remote h \<longleftrightarrow> he_Type h = TypeRedeem \<and>
    (\<exists>b pub. std_decode (he_PublicKey h) = Some b \<and> k_unmarshalPub K b = Some pub \<and> k_idFromPub K pub = Some remote)"

lemma hello_check_pass:
  "hello_check K remote h now s = None \<longleftrightarrow> hello_valid K remote h
     \<and> (\<exists>e. store_Get (he_Code h) (fst (im_store s)) = Some e \<and> \<not> en_Consumed e \<and> now \<le> en_ExpiresAt e)"
  by (auto simp: hello_check_def hello_valid_def split: option.splits)

lemma hello_mark_ok:
  "store_Get (he_Code h) (fst (im_store s)) = Some e \<Longrightarrow> \<not> en_Consumed e \<Longrightarrow> now \<le> en_ExpiresAt e \<Longrightarrow>
     \<exists>s'. hello_mark K remote h now env s = (True, s') \<and> im_friends s' = im_friends s \<and> im_subs s' = im_subs s"
  by (cases "im_store s") (simp add: hello_mark_def MarkConsumed_def store_Get_def Let_def)

lemma handler_accepts:
  assumes valid: "hello_valid (iv_keys v) remote h" and pub: "k_marshalPub (iv_keys v) (iv_pub v) = Some ourPub"
    and e: "store_Get (he_Code h) (fst (im_store s)) = Some e" "\<not> en_Consumed e" "hv_check hv \<le> en_ExpiresAt e" "hv_mark hv \<le> en_ExpiresAt e"
    and f: "f = \<lparr>fr_Name = he_DisplayName h, fr_PeerID = remote, fr_PublicKey = he_PublicKey h, fr_AddedAt = hv_added hv, fr_RendezvousHint = []\<rparr>"
      "add_conflict f (st_friends (fst (im_friends s))) = None"
    and io: "io_success (hv_addIO hv)" "fresh_temp (st_path (fst (im_friends s))) (hv_addIO hv) (snd (im_friends s))"
  shows "\<exists>s'. inv_handleStream v hv remote (Some h) s =
      (Some \<lparr>re_Type = TypeAccept, re_PeerID = k_idStr (iv_keys v) (iv_hostID v), re_PublicKey = std_encode ourPub,
             re_DisplayName = iv_displayName v, re_Reason = []\<rparr>, s')
    \<and> st_friends (fst (im_friends s')) = st_friends (fst (im_friends s)) @ [f]
    \<and> store_Get (he_Code h) (fst (im_store s')) = Some (e\<lparr>en_Consumed := True, en_ConsumedBy := k_idStr (iv_keys v) remote\<rparr>)
    \<and> im_subs s' = im_subs (fanoutRedemption \<lparr>rd_Code = he_Code h, rd_RedeemedBy = k_idStr (iv_keys v) remote, rd_RedeemedAt = hv_event hv\<rparr> s)"
proof -
  have ck: "hello_check (iv_keys v) remote h (hv_check hv) s = None" using valid e by (auto simp: hello_check_pass)
  obtain s1 where m: "hello_mark (iv_keys v) remote h (hv_mark hv) (hv_markIO hv) s = (True, s1)"
    "im_friends s1 = im_friends s" "im_subs s1 = im_subs s"
    using hello_mark_ok [OF e(1,2,4)] by blast
  obtain s2 where a: "add_friend f (hv_addIO hv) s1 = (Inr (), s2)"
    "st_friends (fst (im_friends s2)) = st_friends (fst (im_friends s)) @ [f]" "im_store s2 = im_store s1" "im_subs s2 = im_subs s1"
    using add_friend_ok [of f s1 "hv_addIO hv"] f(2) io m(2) by auto
  have "hello_add remote h (hv_added hv) (hv_addIO hv) s1 = (Inr (), s2)" using a(1) f(1) by (simp add: hello_add_def)
  with ck m(1) a(2-4) pub m(3) hello_mark_store(1) [OF m(1), of "he_Code h"] e(1) show ?thesis
    by (simp add: inv_handleStream_def hello_accept_def fanoutRedemption_def)
qed

text \<open>A handler that is not interrupted does what \<open>inv_handleStream\<close> says.\<close>

lemma handler_alone:
  assumes reach: "inv_sys_reach v y" and i: "sy_pc y i = None"
    and run: "inv_handleStream v hv remote (Some h) (sy_state y) = (Some r, s')"
  shows "\<exists>y'. inv_sys_reach v y' \<and> sy_state y' = s' \<and> sy_pc y' i = Some (HDone remote h r)"
proof -
  let ?s = "sy_state y"
  define y1 where "y1 = y\<lparr>sy_pc := (sy_pc y)(i \<mapsto> HStart remote h)\<rparr>"
  have r1: "inv_sys_reach v y1" and p1: "sy_pc y1 i = Some (HStart remote h)" "sy_state y1 = ?s"
    using sys_next [OF reach sys_open [OF i]] by (auto simp: y1_def)
  note ck = sys_next [OF r1 sys_check [OF p1(1), of v "hv_check hv"]]
  show ?thesis
  proof (cases "hello_check (iv_keys v) remote h (hv_check hv) ?s")
    case (Some r')
    with run ck p1(2) show ?thesis by (auto simp: inv_handleStream_def intro: exI)
  next
    case None
    define y2 where "y2 = y1\<lparr>sy_pc := (sy_pc y1)(i \<mapsto> HChecked remote h)\<rparr>"
    have r2: "inv_sys_reach v y2" and p2: "sy_pc y2 i = Some (HChecked remote h)" "sy_state y2 = ?s"
      using ck None p1(2) by (auto simp: y2_def)
    obtain ok s1 where m: "hello_mark (iv_keys v) remote h (hv_mark hv) (hv_markIO hv) ?s = (ok, s1)" by fastforce
    note mk = sys_next [OF r2 sys_mark [OF p2(1), of v "hv_mark hv" "hv_markIO hv" ok s1]]
    show ?thesis
    proof (cases ok)
      case False
      with run mk m None p2(2) show ?thesis by (auto simp: inv_handleStream_def intro: exI)
    next
      case True
      define y3 where "y3 = y2\<lparr>sy_state := s1, sy_pc := (sy_pc y2)(i \<mapsto> HMarked remote h)\<rparr>"
      have r3: "inv_sys_reach v y3" and p3: "sy_pc y3 i = Some (HMarked remote h)" "sy_state y3 = s1"
        using mk m p2(2) True by (auto simp: y3_def)
      obtain res s2 where a: "hello_add remote h (hv_added hv) (hv_addIO hv) s1 = (res, s2)" by fastforce
      note ad = sys_next [OF r3 sys_add [OF p3(1), of "hv_added hv" "hv_addIO hv" res s2 v]]
      define y4 where "y4 = y3\<lparr>sy_state := s2, sy_pc := (sy_pc y3)(i \<mapsto> (case res of Inl _ \<Rightarrow> HFailed remote h | Inr _ \<Rightarrow> HAdded remote h))\<rparr>"
      have r4: "inv_sys_reach v y4" and p4: "sy_pc y4 i = Some (case res of Inl _ \<Rightarrow> HFailed remote h | Inr _ \<Rightarrow> HAdded remote h)"
        "sy_state y4 = s2"
        using ad a p3(2) by (auto simp: y4_def)
      show ?thesis
      proof (cases res)
        case (Inl err)
        then have "hello_rollback h (hv_undoIO hv) s2 = (r, s')"
          using run None m True a by (auto simp: inv_handleStream_def Let_def split: prod.splits)
        with sys_next [OF r4 sys_rollback [of y4 i remote h "hv_undoIO hv" r s' v]] p4 Inl
        show ?thesis by (auto intro: exI)
      next
        case (Inr u)
        then have "hello_accept v remote h (hv_event hv) s2 = (r, s')"
          using run None m True a by (auto simp: inv_handleStream_def Let_def split: prod.splits)
        with sys_next [OF r4 sys_accept [of y4 i remote h v "hv_event hv" r s']] p4 Inr
        show ?thesis by (auto intro: exI)
      qed
    qed
  qed
qed

subsection \<open>Redemption from end to end\<close>

lemma hello_rollback_undoes:
  assumes "hello_mark K remote h now env s = (True, s1)" and "hello_add remote h t env' s1 = (res, s2)"
    and "hello_rollback h env'' s2 = (r, s3)"
    and "\<And>e. store_Get (he_Code h) (fst (im_store s)) = Some e \<Longrightarrow> \<not> en_Consumed e \<Longrightarrow> en_ConsumedBy e = []"
  shows "store_Get c (fst (im_store s3)) = store_Get c (fst (im_store s))"
proof (cases "c = he_Code h")
  case True
  obtain e where e: "store_Get (he_Code h) (fst (im_store s)) = Some e" "\<not> en_Consumed e"
    using hello_mark_store(2) [OF assms(1)] by auto
  then have "store_Get (he_Code h) (fst (im_store s2)) = Some (e\<lparr>en_Consumed := True, en_ConsumedBy := k_idStr K remote\<rparr>)"
    using hello_mark_store(1) [OF assms(1), of "he_Code h"] hello_add_store [OF assms(2)] by simp
  with assms(3) have "store_Get (he_Code h) (fst (im_store s3)) = Some (e\<lparr>en_Consumed := False, en_ConsumedBy := []\<rparr>)"
    by (cases "im_store s2") (auto simp: hello_rollback_def UnmarkConsumed_def store_Get_def Let_def)
  with e assms(4) [OF e] True show ?thesis by (cases e) simp
next
  case False
  then show ?thesis
    using hello_rollback_store [OF assms(3) False] hello_mark_store(1) [OF assms(1), of c] hello_add_store [OF assms(2)] by simp
qed

lemma dialAndHandshake_friend:
  assumes "dialAndHandshake v rv c inviterID addrs pk s = (Inr f, s')"
  shows "fr_PeerID f = inviterID \<and> fr_PublicKey f = pk \<and> f \<in> set (st_friends (fst (im_friends s')))"
  using assms
  by (auto simp: dialAndHandshake_def add_friend_def Add_def Let_def split: if_splits option.splits sum.splits prod.splits)

text \<open>The Hello of a redeemer and the friend it stores when the answer is ACCEPT.\<close>

definition hello_of :: "('priv, 'pub) InvEnv \<Rightarrow> string \<Rightarrow> Code \<Rightarrow> Hello" where
  "hello_of v b c = \<lparr>he_Type = TypeRedeem, he_Code = c, he_PeerID = k_idStr (iv_keys v) (iv_hostID v), he_PublicKey = std_encode b,
     he_Addresses = iv_addrs v, he_DisplayName = iv_displayName v\<rparr>"

lemma dialAndHandshake_ok:
  assumes "k_marshalPub (iv_keys v) (iv_pub v) = Some b" and "rv_streamOK rv" and "rv_writeOK rv"
    and "rv_remote rv (hello_of v b c) = Some resp" and "re_Type resp = TypeAccept"
    and "f = \<lparr>fr_Name = re_DisplayName resp, fr_PeerID = i, fr_PublicKey = pk, fr_AddedAt = rv_now rv, fr_RendezvousHint = []\<rparr>"
    and "add_conflict f (st_friends (fst (im_friends s))) = None" and "io_success (rv_io rv)"
    and "fresh_temp (st_path (fst (im_friends s))) (rv_io rv) (snd (im_friends s))"
  shows "\<exists>s'. dialAndHandshake v rv c i addrs pk s = (Inr f, s') \<and> st_friends (fst (im_friends s')) = st_friends (fst (im_friends s)) @ [f]"
proof -
  define s1 where "s1 = (if parseAddrs v addrs \<noteq> [] then s\<lparr>im_peerstore := im_peerstore s @ map (Pair i) (parseAddrs v addrs)\<rparr> else s)"
  have fr: "im_friends s1 = im_friends s" by (simp add: s1_def)
  obtain s' where "add_friend f (rv_io rv) s1 = (Inr (), s')" "st_friends (fst (im_friends s')) = st_friends (fst (im_friends s)) @ [f]"
    using add_friend_ok [of f s1 "rv_io rv"] assms(7-9) fr by auto
  moreover have "SendHello (hello_of v b c) = hello_of v b c" by (simp add: SendHello_def hello_of_def TypeRedeem_def)
  then have "rv_remote rv (SendHello (hello_of v b c)) = Some resp" using assms(4) by simp
  ultimately show ?thesis
    using assms(1-3,5,6) by (simp add: dialAndHandshake_def s1_def [symmetric] hello_of_def Let_def)
qed

text \<open>What \<open>Create\<close> leaves behind when it succeeds.\<close>

lemma Create_outcome:
  assumes c: "Create v ce ttl s = (Inr res, s')" and K: "K = iv_keys v"
    and exp: "expires = ce_now ce + (if ttl \<le> 0 \<or> ttl > MaxTTL then MaxTTL else ttl)"
  obtains b sig where "k_marshalPub K (iv_pub v) = Some b" and "valid_code (cr_Code res)"
    and "cr_ExpiresAt res = expires"
    and "store_Get (cr_Code res) (fst (im_store s')) =
      Some \<lparr>en_Code = cr_Code res, en_ExpiresAt = expires, en_Consumed = False, en_ConsumedBy = [], en_CreatedAt = ce_created ce\<rparr>"
    and "im_friends s' = im_friends s"
    and "SignURL K \<lparr>up_PeerID = k_idStr K (iv_hostID v), up_PublicKey = std_encode b, up_Addresses = iv_addrs v,
           up_DisplayName = iv_displayName v, up_Code = cr_Code res, up_ExpiresAt = unix expires, up_Signature = []\<rparr> (iv_priv v) = Inr sig"
    and "cr_URL res = FormatURL sig"
    and "cr_DHTPublishErr res = False \<Longrightarrow> \<exists>blob. im_puts s' = im_puts s @ [(invite_DeriveDHTKey (iv_sha v) (cr_Code res), blob)]
         \<and> invite_Encode K (iv_aead v) \<lparr>rec_Version = RecordVersion, rec_PeerID = k_idStr K (iv_hostID v), rec_PublicKey = std_encode b,
              rec_Addresses = iv_addrs v, rec_DisplayName = iv_displayName v, rec_ExpiresAt = unix expires\<rparr>
              (invite_DeriveEncryptionKey (iv_hkdf v) (cr_Code res)) (iv_priv v) (ce_nonce ce) = Inr blob"
proof -
  obtain code where code: "Generate (ce_rand ce) = Inr code" using c by (auto simp: Create_def Let_def split: sum.splits)
  then have "valid_code code" by (rule Generate_valid)
  with c code that K exp show ?thesis
    by (auto simp: Create_def Let_def store_Add_get split: sum.splits option.splits prod.splits if_splits)
qed

section \<open>Properties\<close>

text \<open>C2: An invite is redeemed at most once. However the handlers of concurrent redemptions interleave
  with each other, with new invites, revocations and other work, no two of them answer ACCEPT for
  the same code; and while one has claimed a code that is still in the store, the entry is marked
  consumed.\<close>

theorem invite_single_use:
  assumes "inv_sys_reach v y"
    and "sy_pc y i = Some (HDone r1 h1 resp1)" "re_Type resp1 = TypeAccept"
    and "sy_pc y j = Some (HDone r2 h2 resp2)" "re_Type resp2 = TypeAccept" and "he_Code h1 = he_Code h2"
  shows "i = j \<and> (\<forall>e. store_Get (he_Code h1) (fst (im_store (sy_state y))) = Some e \<longrightarrow> en_Consumed e)"
proof -
  have "i \<in> claimants y (he_Code h1)" "j \<in> claimants y (he_Code h1)" using assms(2-6) by (auto simp: claimants_def)
  with claims_inv_reach [OF assms(1)] show ?thesis unfolding claims_inv_def by blast
qed

text \<open>A small world for the examples: keys whose public and private halves are the same text, signatures
  of 64 bytes, peers named by their key.\<close>

definition ex_keys :: "(string, string) keys" where
  "ex_keys = \<lparr>k_sign = (\<lambda>_ _. Some (replicate 64 (CHR ''s''))), k_verify = (\<lambda>_ _ _. True), k_public = id, k_marshalPub = Some,
     k_unmarshalPub = Some, k_idFromPub = Some, k_idStr = id\<rparr>"

definition ex_env :: "string \<Rightarrow> InvRecord \<Rightarrow> (string, string) InvEnv" where
  "ex_env name r = \<lparr>iv_keys = ex_keys,
     iv_aead = \<lparr>a_seal = (\<lambda>_ _ _. replicate 16 (CHR ''c'')), a_open = (\<lambda>_ _ _. Some (Some r))\<rparr>,
     iv_sha = id, iv_hkdf = (\<lambda>_ _. replicate 32 (CHR ''k'')), iv_upper = id, iv_lower = id, iv_multiaddr = Some,
     iv_hostID = name, iv_priv = name, iv_pub = name, iv_displayName = name, iv_addrs = [''/ip4/'' @ name]\<rparr>"

definition inv_io :: io_env where
  "inv_io = \<lparr>mkdir_ok = True, temp_name = Some ''t'', chmod_ok = True, write_ok = True, close_ok = True, rename_ok = True\<rparr>"

definition ex_entry :: Entry where
  "ex_entry = \<lparr>en_Code = ''A7B2X9K4'', en_ExpiresAt = 100, en_Consumed = False, en_ConsumedBy = [], en_CreatedAt = 0\<rparr>"

definition ex_state :: "(Code \<times> Entry) list \<Rightarrow> InvState" where
  "ex_state es = \<lparr>im_store = (\<lparr>is_path = ''i'', is_entries = es\<rparr>, Map.empty), im_friends = (\<lparr>st_path = ''f'', st_friends = []\<rparr>, Map.empty),
     im_puts = [], im_peerstore = [], im_subs = [], im_nextChan = 0, im_handler = True\<rparr>"

definition ex_hello :: Hello where
  "ex_hello = \<lparr>he_Type = TypeRedeem, he_Code = ''A7B2X9K4'', he_PeerID = ''bob'', he_PublicKey = std_encode ''bob'',
     he_Addresses = [], he_DisplayName = ''bob''\<rparr>"

lemma ex_env_sel [simp]:
  "iv_keys (ex_env n r) = ex_keys" "iv_hostID (ex_env n r) = n" "iv_priv (ex_env n r) = n" "iv_pub (ex_env n r) = n"
  "iv_displayName (ex_env n r) = n" "iv_addrs (ex_env n r) = [''/ip4/'' @ n]" "k_public ex_keys = id"
  "k_marshalPub ex_keys = Some" "k_unmarshalPub ex_keys = Some" "k_idFromPub ex_keys = Some" "k_idStr ex_keys = id"
  by (simp_all add: ex_env_def ex_keys_def)

lemma ex_keys_ok: "keys_ok ex_keys"
  by (simp add: keys_ok_def ex_keys_def signatureLen_def)

definition ex_hv :: handler_env where
  "ex_hv = \<lparr>hv_check = 1, hv_mark = 2, hv_added = 3, hv_event = 4, hv_markIO = inv_io, hv_addIO = inv_io, hv_undoIO = inv_io\<rparr>"

lemma ex_hello_valid: "hello_valid ex_keys ''bob'' ex_hello"
  unfolding hello_valid_def by (simp add: ex_keys_def ex_hello_def del: b64_encode.simps)

lemma ex_handshake:
  "\<exists>r s'. inv_handleStream (ex_env ''alice'' x) ex_hv ''bob'' (Some ex_hello) (ex_state [(''A7B2X9K4'', ex_entry)]) = (Some r, s')
     \<and> re_Type r = TypeAccept"
  using handler_accepts [of "ex_env ''alice'' x" "''bob''" ex_hello "''alice''" "ex_state [(''A7B2X9K4'', ex_entry)]" ex_entry ex_hv, OF _ _ _ _ _ _ refl]
    ex_hello_valid
  by (fastforce simp: ex_env_def ex_keys_def ex_state_def store_Get_def ex_hello_def ex_entry_def ex_hv_def inv_io_def
      io_success_def fresh_temp_def simp del: b64_encode.simps)

theorem invite_single_use_witness:
  "\<exists>y resp. inv_sys_reach (ex_env ''alice'' undefined) y \<and> sy_pc y 0 = Some (HDone ''bob'' ex_hello resp) \<and> re_Type resp = TypeAccept
     \<and> (\<forall>e. store_Get ''A7B2X9K4'' (fst (im_store (sy_state y))) = Some e \<longrightarrow> en_Consumed e)"
proof -
  let ?y0 = "\<lparr>sy_state = ex_state [(''A7B2X9K4'', ex_entry)], sy_pc = Map.empty\<rparr>"
  obtain r s' where "inv_handleStream (ex_env ''alice'' undefined) ex_hv ''bob'' (Some ex_hello) (sy_state ?y0) = (Some r, s')"
    "re_Type r = TypeAccept" using ex_handshake [of undefined] by auto
  moreover have "inv_sys_reach (ex_env ''alice'' undefined) ?y0" by (rule sys_start) simp
  ultimately obtain y where y: "inv_sys_reach (ex_env ''alice'' undefined) y" "sy_pc y 0 = Some (HDone ''bob'' ex_hello r)"
    using handler_alone [of "ex_env ''alice'' undefined" ?y0 0 ex_hv "''bob''" ex_hello r s'] by auto
  with invite_single_use [OF y(1) y(2) _ y(2) _ refl] \<open>re_Type r = TypeAccept\<close> show ?thesis
    by (auto simp: ex_hello_def)
qed



text \<open>C4: A redeemer only befriends the signer of the invite. When a redemption succeeds, by URL or by
  code, the friend that was stored is the peer whose ID derives from the key under which the URL or
  the DHT record verified, that ID is the one the invite names, and the invite had not expired.\<close>

theorem redeemed_friend_is_signer:
  fixes K :: "('priv, 'pub) keys"
  assumes "iv_keys v = K"
  shows "(RedeemURL v rv url s = (Inr f, s') \<longrightarrow>
      f \<in> set (st_friends (fst (im_friends s'))) \<and>
      (\<exists>p pub sig. ParseURL (iv_upper v) (iv_lower v) url = Inr p \<and> std_decode (up_Signature p) = Some sig
        \<and> k_verify K pub (urlCanonicalBytes p) sig \<and> k_idFromPub K pub = Some (fr_PeerID f)
        \<and> k_idStr K (fr_PeerID f) = up_PeerID p \<and> fr_PublicKey f = up_PublicKey p
        \<and> (up_ExpiresAt p > 0 \<longrightarrow> unix (rv_now rv) \<le> up_ExpiresAt p)))
    \<and> (Redeem v rv get c s = (Inr f, s') \<longrightarrow>
      f \<in> set (st_friends (fst (im_friends s'))) \<and>
      (\<exists>blob r pub. get (invite_DeriveDHTKey (iv_sha v) c) = Some blob
        \<and> k_verify K pub (drop signatureLen blob) (take signatureLen blob)
        \<and> sealed_open (iv_aead v) blob (invite_DeriveEncryptionKey (iv_hkdf v) c) = Inr r
        \<and> k_idFromPub K pub = Some (fr_PeerID f) \<and> k_idStr K (fr_PeerID f) = rec_PeerID r \<and> fr_PublicKey f = rec_PublicKey r
        \<and> unix (rv_now rv) \<le> rec_ExpiresAt r))"
proof (intro conjI impI)
  assume r: "RedeemURL v rv url s = (Inr f, s')"
  then obtain p pub i where p: "ParseURL (iv_upper v) (iv_lower v) url = Inr p" "VerifyURL K p = Inr pub" "k_idFromPub K pub = Some i"
    "up_ExpiresAt p > 0 \<longrightarrow> unix (rv_now rv) \<le> up_ExpiresAt p"
    "dialAndHandshake v rv (up_Code p) i (up_Addresses p) (up_PublicKey p) s = (Inr f, s')"
    using assms by (auto simp: RedeemURL_def Let_def split: sum.splits if_splits option.splits)
  note f = dialAndHandshake_friend [OF p(5)]
  show "f \<in> set (st_friends (fst (im_friends s')))" using f by simp
  show "\<exists>p pub sig. ParseURL (iv_upper v) (iv_lower v) url = Inr p \<and> std_decode (up_Signature p) = Some sig
        \<and> k_verify K pub (urlCanonicalBytes p) sig \<and> k_idFromPub K pub = Some (fr_PeerID f)
        \<and> k_idStr K (fr_PeerID f) = up_PeerID p \<and> fr_PublicKey f = up_PublicKey p
        \<and> (up_ExpiresAt p > 0 \<longrightarrow> unix (rv_now rv) \<le> up_ExpiresAt p)"
    using VerifyURL_sound [OF p(2)] p f by auto
next
  assume r: "Redeem v rv get c s = (Inr f, s')"
  then obtain blob pub r i where p: "get (invite_DeriveDHTKey (iv_sha v) c) = Some blob"
    "invite_Decode K (iv_aead v) blob (invite_DeriveEncryptionKey (iv_hkdf v) c) pub (unix (rv_now rv)) = Inr r"
    "k_idFromPub K pub = Some i" "rec_PeerID r = k_idStr K i"
    "dialAndHandshake v rv c i (rec_Addresses r) (rec_PublicKey r) s = (Inr f, s')"
    using assms by (auto simp: Redeem_def Let_def split: sum.splits if_splits option.splits)
  note f = dialAndHandshake_friend [OF p(5)]
  show "f \<in> set (st_friends (fst (im_friends s')))" using f by simp
  show "\<exists>blob r pub. get (invite_DeriveDHTKey (iv_sha v) c) = Some blob
        \<and> k_verify K pub (drop signatureLen blob) (take signatureLen blob)
        \<and> sealed_open (iv_aead v) blob (invite_DeriveEncryptionKey (iv_hkdf v) c) = Inr r
        \<and> k_idFromPub K pub = Some (fr_PeerID f) \<and> k_idStr K (fr_PeerID f) = rec_PeerID r \<and> fr_PublicKey f = rec_PublicKey r
        \<and> unix (rv_now rv) \<le> rec_ExpiresAt r"
    using invite_Decode_sound [OF p(2)] invite_Decode_unverified [OF p(2)] p f
    by (auto simp: DecodeUnverified_def split: if_splits)
qed

definition ex_payload :: URLPayload where
  "ex_payload = \<lparr>up_PeerID = ''alice'', up_PublicKey = std_encode ''alice'', up_Addresses = [''/ip4/alice''], up_DisplayName = ''alice'',
     up_Code = ''A7B2X9K4'', up_ExpiresAt = 100, up_Signature = std_encode ''sig''\<rparr>"

definition ex_rv :: redeem_env where
  "ex_rv = \<lparr>rv_streamOK = True, rv_writeOK = True, rv_remote = (\<lambda>_. Some \<lparr>re_Type = TypeAccept, re_PeerID = ''alice'',
     re_PublicKey = [], re_DisplayName = ''Alice'', re_Reason = []\<rparr>), rv_now = 5, rv_io = inv_io\<rparr>"

lemma ex_RedeemURL:
  "\<exists>s' f. RedeemURL (ex_env ''bob'' undefined) ex_rv (FormatURL ex_payload) (ex_state []) = (Inr f, s') \<and> fr_PeerID f = ''alice''"
proof -
  let ?v = "ex_env ''bob'' undefined"
  have "payload_ok ex_payload"
    by (simp add: ex_payload_def payload_ok_def valid_code_def codeLength_def crockfordAlphabet_def)
  then have p: "ParseURL (iv_upper ?v) (iv_lower ?v) (FormatURL ex_payload) = Inr ex_payload" by (rule ParseURL_FormatURL)
  have vf: "VerifyURL (iv_keys ?v) ex_payload = Inr ''alice''"
    by (simp add: VerifyURL_def ex_env_def ex_keys_def ex_payload_def del: b64_encode.simps)
  have x: "unix (rv_now ex_rv) \<le> up_ExpiresAt ex_payload" by (simp add: ex_rv_def ex_payload_def unix_def)
  obtain s' f where "dialAndHandshake ?v ex_rv (up_Code ex_payload) ''alice'' (up_Addresses ex_payload) (up_PublicKey ex_payload) (ex_state []) = (Inr f, s')"
    using dialAndHandshake_ok [of ?v "''bob''" ex_rv "up_Code ex_payload" _ _ "''alice''" "up_PublicKey ex_payload" "ex_state []" "up_Addresses ex_payload",
        OF _ _ _ _ _ refl]
    by (fastforce simp: ex_rv_def ex_env_def ex_keys_def ex_state_def inv_io_def io_success_def fresh_temp_def)
  moreover from this have "fr_PeerID f = ''alice''" by (simp add: dialAndHandshake_friend)
  ultimately show ?thesis using p vf x by (simp add: RedeemURL_def ex_env_def ex_keys_def Let_def)
qed

theorem redeemed_friend_is_signer_witness:
  "\<exists>s' f pub sig. RedeemURL (ex_env ''bob'' undefined) ex_rv (FormatURL ex_payload) (ex_state []) = (Inr f, s')
    \<and> k_verify ex_keys pub (urlCanonicalBytes ex_payload) sig \<and> k_idFromPub ex_keys pub = Some (fr_PeerID f)
    \<and> k_idStr ex_keys (fr_PeerID f) = ''alice''"
proof -
  have K: "iv_keys (ex_env ''bob'' undefined) = ex_keys" by (simp add: ex_env_def)
  obtain s' f where r: "RedeemURL (ex_env ''bob'' undefined) ex_rv (FormatURL ex_payload) (ex_state []) = (Inr f, s')"
    "fr_PeerID f = ''alice''" using ex_RedeemURL by blast
  from redeemed_friend_is_signer [OF K, of ex_rv "FormatURL ex_payload" "ex_state []" f s'] r(1) obtain p pub sig where
    "k_verify ex_keys pub (urlCanonicalBytes p) sig" "k_idFromPub ex_keys pub = Some (fr_PeerID f)" by blast
  with r show ?thesis by (auto simp: ex_keys_def)
qed

text \<open>C3: Redeeming an invite makes both sides friends. Take the URL that \<open>Create\<close> returned and a redeemer
  whose stream reaches the inviter's handler before the invite expires. If neither side already has a friend of that name or ID and both friend lists can
  be written, the redeemer's call returns the inviter as a new friend, the inviter has stored the
  redeemer, and the code is consumed.\<close>

theorem redemption_befriends_both:
  fixes K :: "('priv, 'pub) keys"
  assumes create: "Create va ce ttl sa = (Inr res, sa')" and K: "iv_keys va = K" "iv_keys vb = K" "keys_ok K"
    and alice: "k_public K (iv_priv va) = iv_pub va" "k_idFromPub K (iv_pub va) = Some (iv_hostID va)" "k_idStr K (iv_hostID va) \<noteq> []"
      "k_marshalPub K (iv_pub va) \<noteq> Some []" "join [CHR 0x0A] (iv_addrs va) \<noteq> []" "\<forall>a\<in>set (iv_addrs va). CHR 0x0A \<notin> set a"
    and bob: "k_marshalPub K (iv_pub vb) = Some pb" "k_idFromPub K (iv_pub vb) = Some (iv_hostID vb)"
    and names: "fr_Name fa = iv_displayName va" "fr_PeerID fa = iv_hostID va" "fr_AddedAt fa = rv_now rv" "fr_RendezvousHint fa = []"
      "map_option std_encode (k_marshalPub K (iv_pub va)) = Some (fr_PublicKey fa)" "add_conflict fa (st_friends (fst (im_friends sb))) = None"
      "fb = \<lparr>fr_Name = iv_displayName vb, fr_PeerID = iv_hostID vb, fr_PublicKey = std_encode pb, fr_AddedAt = hv_added hv, fr_RendezvousHint = []\<rparr>"
      "add_conflict fb (st_friends (fst (im_friends sa))) = None"
    and time: "hv_check hv \<le> cr_ExpiresAt res" "hv_mark hv \<le> cr_ExpiresAt res" "rv_now rv \<le> cr_ExpiresAt res"
      "- (2 ^ 63) \<le> unix (cr_ExpiresAt res)" "unix (cr_ExpiresAt res) < 2 ^ 63"
    and io: "io_success (hv_addIO hv)" "fresh_temp (st_path (fst (im_friends sa))) (hv_addIO hv) (snd (im_friends sa))"
      "io_success (rv_io rv)" "fresh_temp (st_path (fst (im_friends sb))) (rv_io rv) (snd (im_friends sb))"
    and net: "rv_streamOK rv" "rv_writeOK rv" "rv_remote rv = (\<lambda>h. fst (inv_handleStream va hv (iv_hostID vb) (Some h) sa'))"
  shows "\<exists>sb' sa'' r. RedeemURL vb rv (cr_URL res) sb = (Inr fa, sb')
      \<and> inv_handleStream va hv (iv_hostID vb) (Some (hello_of vb pb (cr_Code res))) sa' = (Some r, sa'') \<and> re_Type r = TypeAccept
      \<and> st_friends (fst (im_friends sb')) = st_friends (fst (im_friends sb)) @ [fa]
      \<and> st_friends (fst (im_friends sa'')) = st_friends (fst (im_friends sa)) @ [fb]
      \<and> (\<exists>e. store_Get (cr_Code res) (fst (im_store sa'')) = Some e \<and> en_Consumed e \<and> en_ConsumedBy e = k_idStr K (iv_hostID vb))"
proof -
  define expires where "expires = ce_now ce + (if ttl \<le> 0 \<or> ttl > MaxTTL then MaxTTL else ttl)"
  obtain b sig where cr: "k_marshalPub K (iv_pub va) = Some b" "valid_code (cr_Code res)" "cr_ExpiresAt res = expires"
    "store_Get (cr_Code res) (fst (im_store sa')) =
      Some \<lparr>en_Code = cr_Code res, en_ExpiresAt = expires, en_Consumed = False, en_ConsumedBy = [], en_CreatedAt = ce_created ce\<rparr>"
    "im_friends sa' = im_friends sa"
    "SignURL K \<lparr>up_PeerID = k_idStr K (iv_hostID va), up_PublicKey = std_encode b, up_Addresses = iv_addrs va,
           up_DisplayName = iv_displayName va, up_Code = cr_Code res, up_ExpiresAt = unix expires, up_Signature = []\<rparr> (iv_priv va) = Inr sig"
    "cr_URL res = FormatURL sig"
    by (rule Create_outcome [OF create K(1) [symmetric] expires_def]) blast
  let ?h = "hello_of vb pb (cr_Code res)"
  have hv: "hello_valid K (iv_hostID vb) ?h"
    using bob K(3) by (auto simp: hello_valid_def hello_of_def keys_ok_def)
  obtain sa'' where acc: "inv_handleStream va hv (iv_hostID vb) (Some ?h) sa' =
      (Some \<lparr>re_Type = TypeAccept, re_PeerID = k_idStr K (iv_hostID va), re_PublicKey = std_encode b,
             re_DisplayName = iv_displayName va, re_Reason = []\<rparr>, sa'')"
    "st_friends (fst (im_friends sa'')) = st_friends (fst (im_friends sa)) @ [fb]"
    "\<exists>e. store_Get (cr_Code res) (fst (im_store sa'')) = Some e \<and> en_Consumed e \<and> en_ConsumedBy e = k_idStr K (iv_hostID vb)"
    using handler_accepts [of va "iv_hostID vb" ?h b sa' _ hv fb] hv cr(1,3-5) K(1) names(7,8) time(1,2) io(1,2)
    by (auto simp: hello_of_def)
  define resp where "resp = \<lparr>re_Type = TypeAccept, re_PeerID = k_idStr K (iv_hostID va), re_PublicKey = std_encode b,
             re_DisplayName = iv_displayName va, re_Reason = []\<rparr>"
  have fa: "fa = \<lparr>fr_Name = re_DisplayName resp, fr_PeerID = iv_hostID va, fr_PublicKey = std_encode b, fr_AddedAt = rv_now rv, fr_RendezvousHint = []\<rparr>"
    using names(1-5) cr(1) by (cases fa) (simp add: resp_def)
  obtain sb' where dial: "dialAndHandshake vb rv (cr_Code res) (iv_hostID va) (iv_addrs va) (std_encode b) sb = (Inr fa, sb')"
    "st_friends (fst (im_friends sb')) = st_friends (fst (im_friends sb)) @ [fa]"
    using dialAndHandshake_ok [of vb pb rv "cr_Code res" resp fa "iv_hostID va" "std_encode b" sb "iv_addrs va"]
      bob(1) K(2) net acc(1) fa names(6) io(3,4) by (auto simp: resp_def)
  from cr(6) obtain sg where sg: "sig = \<lparr>up_PeerID = k_idStr K (iv_hostID va), up_PublicKey = std_encode b, up_Addresses = iv_addrs va,
           up_DisplayName = iv_displayName va, up_Code = cr_Code res, up_ExpiresAt = unix expires, up_Signature = sg\<rparr>"
    by (auto simp: SignURL_def split: option.splits)
  have "payload_ok sig" using alice(3,5,6) cr(2,3) time(4,5) by (simp add: sg payload_ok_def)
  then have "ParseURL (iv_upper vb) (iv_lower vb) (cr_URL res) = Inr sig" using cr(7) ParseURL_FormatURL by simp
  moreover have "VerifyURL K sig = Inr (iv_pub va)"
    using VerifyURL_SignURL [OF K(3) cr(6), of b] alice(1,2,4) cr(1) by simp
  moreover have "unix (rv_now rv) \<le> unix expires" using time(3) cr(3) by (simp add: unix_def zdiv_mono1)
  ultimately have "RedeemURL vb rv (cr_URL res) sb = (Inr fa, sb')"
    using dial(1) alice(2) K(2) by (simp add: RedeemURL_def sg)
  with acc dial(2) show ?thesis by auto
qed

definition ex_ce :: create_env where
  "ex_ce = \<lparr>ce_rand = Some [1, 2, 3, 4, 5], ce_nonce = None, ce_now = 0, ce_created = 0, ce_io = inv_io, ce_putOK = True\<rparr>"

theorem redemption_befriends_both_witness:
  "\<exists>res sa' rv sb' f. Create (ex_env ''alice'' undefined) ex_ce 60 (ex_state []) = (Inr res, sa')
     \<and> RedeemURL (ex_env ''bob'' undefined) rv (cr_URL res) (ex_state []) = (Inr f, sb') \<and> fr_PeerID f = ''alice''
     \<and> st_friends (fst (im_friends sb')) = [f]"
proof -
  let ?va = "ex_env ''alice'' undefined" and ?vb = "ex_env ''bob'' undefined" and ?s = "ex_state []"
  obtain res sa' where create: "Create ?va ex_ce 60 ?s = (Inr res, sa')"
    by (cases "Create ?va ex_ce 60 ?s")
      (auto simp: Create_def ex_ce_def ex_env_def ex_keys_def SignURL_def invite_Encode_def sealed_encode_def invite_DeriveEncryptionKey_def Let_def)
  have exp: "cr_ExpiresAt res = 60"
    by (rule Create_outcome [OF create refl refl]) (simp add: ex_ce_def MaxTTL_def)
  define rv where "rv = ex_rv\<lparr>rv_remote := (\<lambda>h. fst (inv_handleStream ?va ex_hv ''bob'' (Some h) sa'))\<rparr>"
  define fa where "fa = \<lparr>fr_Name = ''alice'', fr_PeerID = ''alice'', fr_PublicKey = std_encode ''alice'', fr_AddedAt = 5, fr_RendezvousHint = []\<rparr>"
  have "\<exists>sb' sa'' r. RedeemURL ?vb rv (cr_URL res) ?s = (Inr fa, sb')
      \<and> inv_handleStream ?va ex_hv (iv_hostID ?vb) (Some (hello_of ?vb ''bob'' (cr_Code res))) sa' = (Some r, sa'') \<and> re_Type r = TypeAccept
      \<and> st_friends (fst (im_friends sb')) = st_friends (fst (im_friends ?s)) @ [fa]
      \<and> st_friends (fst (im_friends sa'')) = st_friends (fst (im_friends ?s)) @ [\<lparr>fr_Name = iv_displayName ?vb, fr_PeerID = iv_hostID ?vb,
           fr_PublicKey = std_encode ''bob'', fr_AddedAt = hv_added ex_hv, fr_RendezvousHint = []\<rparr>]
      \<and> (\<exists>e. store_Get (cr_Code res) (fst (im_store sa'')) = Some e \<and> en_Consumed e \<and> en_ConsumedBy e = k_idStr ex_keys (iv_hostID ?vb))"
    by (rule redemption_befriends_both [OF create, where hv = ex_hv and rv = rv and fa = fa])
      (simp_all add: ex_keys_ok exp rv_def fa_def ex_rv_def ex_state_def unix_def fresh_temp_def io_success_def inv_io_def
        del: b64_encode.simps, simp_all add: ex_hv_def inv_io_def)
  then obtain sb' where "RedeemURL ?vb rv (cr_URL res) ?s = (Inr fa, sb')"
    "st_friends (fst (im_friends sb')) = st_friends (fst (im_friends ?s)) @ [fa]" by blast
  moreover have "fr_PeerID fa = ''alice''" "st_friends (fst (im_friends ?s)) = []" by (simp_all add: fa_def ex_state_def)
  ultimately show ?thesis using create by (metis append_Nil)
qed

end
