(* ===== verification/Audio_Jitter.thy ===== *)
theory Audio_Jitter
  imports Prelude "HOL-Library.Word" "HOL-Library.Signed_Division"
begin

text \<open>
  \<open>internal/audio/jitter.go\<close>: the jitter buffer. Sequence numbers are 16-bit words and wrap; their
  distance is read as a signed 16-bit number. The loop that enforces the cap is a partial function:
  \<open>None\<close> is a loop that does not end. Counters are 64-bit words. A frame's payload is a byte string.
\<close>

type_synonym frame = string

record JitterStats =
  js_Pushed :: "64 word"
  js_Popped :: "64 word"
  js_DroppedLate :: "64 word"
  js_DroppedFull :: "64 word"
  js_GapsFilled :: "64 word"

record JitterBuffer =
  jb_targetFrames :: int
  jb_maxFrames :: int
  jb_frames :: "(16 word \<times> frame) list"
  jb_nextOut :: "16 word"
  jb_hasNext :: bool
  jb_primed :: bool
  jb_stats :: JitterStats

definition FrameMs :: int where "FrameMs = 20"

definition NewJitterBuffer :: "int \<Rightarrow> int \<Rightarrow> JitterBuffer" where
  "NewJitterBuffer targetMs maxMs =
    \<lparr>jb_targetFrames = targetMs sdiv FrameMs, jb_maxFrames = maxMs sdiv FrameMs, jb_frames = [], jb_nextOut = 0,
     jb_hasNext = False, jb_primed = False,
     jb_stats = \<lparr>js_Pushed = 0, js_Popped = 0, js_DroppedLate = 0, js_DroppedFull = 0, js_GapsFilled = 0\<rparr>\<rparr>"

definition seqDelta :: "16 word \<Rightarrow> 16 word \<Rightarrow> int" where
  "seqDelta a b = sint (b - a)"

text \<open>The inner loop: the frame closest ahead of \<open>nextOut\<close>, or \<open>nextOut\<close> itself when there is none.\<close>

fun oldest_step :: "16 word \<Rightarrow> 16 word \<times> frame \<Rightarrow> 16 word \<times> int \<Rightarrow> 16 word \<times> int" where
  "oldest_step nextOut (s, _) (oldest, oldestDelta) =
    (let d = seqDelta nextOut s in if d \<ge> 0 \<and> d < oldestDelta then (s, d) else (oldest, oldestDelta))"

definition oldest_scan :: "16 word \<Rightarrow> (16 word \<times> frame) list \<Rightarrow> 16 word \<times> int" where
  "oldest_scan nextOut fs = fold (oldest_step nextOut) fs (nextOut, 0x7fff)"

definition evict_one :: "JitterBuffer \<Rightarrow> JitterBuffer" where
  "evict_one jb =
    (let oldest = fst (oldest_scan (jb_nextOut jb) (jb_frames jb)) in
     jb\<lparr>jb_frames := mdel oldest (jb_frames jb),
        jb_stats := (jb_stats jb)\<lparr>js_DroppedFull := js_DroppedFull (jb_stats jb) + 1\<rparr>,
        jb_nextOut := (if oldest = jb_nextOut jb then jb_nextOut jb + 1 else jb_nextOut jb)\<rparr>)"

partial_function (option) evict_loop :: "JitterBuffer \<Rightarrow> JitterBuffer option" where
  "evict_loop jb = (if int (length (jb_frames jb)) > jb_maxFrames jb then evict_loop (evict_one jb) else Some jb)"

definition Push :: "16 word \<Rightarrow> frame \<Rightarrow> JitterBuffer \<Rightarrow> (bool \<times> JitterBuffer) option" where
  "Push seq pkt jb =
    (let jb0 = jb\<lparr>jb_stats := (jb_stats jb)\<lparr>js_Pushed := js_Pushed (jb_stats jb) + 1\<rparr>\<rparr> in
     if jb_hasNext jb0 \<and> seqDelta (jb_nextOut jb0) seq < 0
     then Some (False, jb0\<lparr>jb_stats := (jb_stats jb0)\<lparr>js_DroppedLate := js_DroppedLate (jb_stats jb0) + 1\<rparr>\<rparr>)
     else
       let jb1 = (if \<not> jb_hasNext jb0 then jb0\<lparr>jb_nextOut := seq, jb_hasNext := True\<rparr> else jb0);
           jb2 = jb1\<lparr>jb_frames := mput seq pkt (jb_frames jb1)\<rparr>
       in map_option (Pair True) (evict_loop jb2))"

definition Pop :: "JitterBuffer \<Rightarrow> frame option \<times> JitterBuffer" where
  "Pop jb =
    (if \<not> jb_hasNext jb then (None, jb)
     else if \<not> jb_primed jb \<and> int (length (jb_frames jb)) < jb_targetFrames jb then (None, jb)
     else
       let jb1 = jb\<lparr>jb_primed := True\<rparr> in
       (case map_of (jb_frames jb1) (jb_nextOut jb1) of
          Some pkt \<Rightarrow>
            (Some pkt, jb1\<lparr>jb_frames := mdel (jb_nextOut jb1) (jb_frames jb1), jb_nextOut := jb_nextOut jb1 + 1,
              jb_stats := (jb_stats jb1)\<lparr>js_Popped := js_Popped (jb_stats jb1) + 1\<rparr>\<rparr>)
        | None \<Rightarrow>
            (None, jb1\<lparr>jb_nextOut := jb_nextOut jb1 + 1,
              jb_stats := (jb_stats jb1)\<lparr>js_GapsFilled := js_GapsFilled (jb_stats jb1) + 1\<rparr>\<rparr>)))"

definition Stats_jb :: "JitterBuffer \<Rightarrow> JitterStats" where
  "Stats_jb jb = jb_stats jb"

section \<open>Invariant\<close>

text \<open>Every buffered frame is at or ahead of \<open>nextOut\<close>, frames are filed once, and the cap holds.\<close>

definition jb_inv :: "JitterBuffer \<Rightarrow> bool" where
  "jb_inv jb \<longleftrightarrow> distinct (map fst (jb_frames jb)) \<and> (\<forall>(s, _)\<in>set (jb_frames jb). 0 \<le> seqDelta (jb_nextOut jb) s)
     \<and> int (length (jb_frames jb)) \<le> jb_maxFrames jb \<and> (jb_frames jb \<noteq> [] \<longrightarrow> jb_hasNext jb)"

section \<open>Lemmas\<close>

lemma seqDelta_range: "- 32768 \<le> seqDelta a b" "seqDelta a b < 32768"
  using sint_ge [of "b - a"] sint_lt [of "b - a"] by (simp_all add: seqDelta_def)

lemma seqDelta_self [simp]: "seqDelta a a = 0"
  by (simp add: seqDelta_def)

lemma seqDelta_index: "of_int (seqDelta a s) = s - a"
  by (simp add: seqDelta_def)

lemma seqDelta_of_int:
  assumes "- 32768 \<le> d" and "d < 32768"
  shows "seqDelta a (a + of_int d) = d"
  using assms by (simp add: seqDelta_def sint_sbintrunc' signed_take_bit_int_eq_self)

lemma seqDelta_eq_iff: "seqDelta a s = seqDelta a t \<longleftrightarrow> s = t"
  by (metis seqDelta_index add.commute diff_add_cancel)

lemma seqDelta_0_iff: "seqDelta a s = 0 \<longleftrightarrow> s = a"
  using seqDelta_eq_iff [of a s a] by simp

text \<open>Advancing \<open>nextOut\<close> by one brings every frame ahead of it one closer.\<close>

lemma seqDelta_advance: "0 < seqDelta a s \<Longrightarrow> seqDelta (a + 1) s = seqDelta a s - 1"
proof -
  assume pos: "0 < seqDelta a s"
  have "s = (a + 1) + of_int (seqDelta a s - 1)" using seqDelta_index [of a s] by (simp add: algebra_simps)
  then show ?thesis using seqDelta_of_int [of "seqDelta a s - 1" "a + 1"] pos seqDelta_range [of a s] by simp
qed

text \<open>The scan picks the frame with the smallest distance below 0x7fff, or falls back to \<open>nextOut\<close>.\<close>

lemma oldest_scan_spec:
  assumes "oldest_scan a fs = (k, d)"
  shows "(d = 32767 \<and> k = a \<or> d < 32767 \<and> k \<in> fst ` set fs \<and> seqDelta a k = d \<and> 0 \<le> d)
    \<and> (\<forall>s\<in>fst ` set fs. 0 \<le> seqDelta a s \<longrightarrow> d \<le> seqDelta a s)"
proof -
  have gen: "fold (oldest_step a) fs (k0, d0) = (k, d) \<Longrightarrow>
      (k = k0 \<and> d = d0 \<or> d < d0 \<and> k \<in> fst ` set fs \<and> seqDelta a k = d \<and> 0 \<le> d)
      \<and> (\<forall>s\<in>fst ` set fs. 0 \<le> seqDelta a s \<longrightarrow> d \<le> seqDelta a s) \<and> d \<le> d0" for k0 d0
  proof (induction fs arbitrary: k0 d0)
    case (Cons x fs)
    obtain s p where x: "x = (s, p)" by fastforce
    show ?case
    proof (cases "seqDelta a s \<ge> 0 \<and> seqDelta a s < d0")
      case True
      with Cons.prems x have "fold (oldest_step a) fs (s, seqDelta a s) = (k, d)" by (simp add: Let_def)
      from Cons.IH [OF this] True x show ?thesis by auto
    next
      case False
      with Cons.prems x have "fold (oldest_step a) fs (k0, d0) = (k, d)" by (auto simp: Let_def)
      from Cons.IH [OF this] False x show ?thesis by auto
    qed
  qed simp
  from gen [of a 32767] assms show ?thesis by (auto simp: oldest_scan_def)
qed

text \<open>One round of the loop, when some frame is less than 0x7fff ahead: the closest frame goes.\<close>

definition closest :: "16 word \<Rightarrow> 16 word \<Rightarrow> (16 word \<times> frame) list \<Rightarrow> bool" where
  "closest a k fs \<longleftrightarrow> k \<in> fst ` set fs \<and> (\<forall>s\<in>fst ` set fs. seqDelta a k \<le> seqDelta a s)"

lemma oldest_is_closest:
  assumes ahead: "\<forall>(s, _)\<in>set fs. 0 \<le> seqDelta a s" and near: "\<exists>s\<in>fst ` set fs. seqDelta a s < 32767"
  shows "closest a (fst (oldest_scan a fs)) fs"
proof -
  obtain k d where kd: "oldest_scan a fs = (k, d)" by fastforce
  note sp = oldest_scan_spec [OF kd]
  from near obtain s where s: "s \<in> fst ` set fs" "seqDelta a s < 32767" by blast
  with ahead have "0 \<le> seqDelta a s" by auto
  with sp s have "d < 32767" by fastforce
  moreover have "0 \<le> seqDelta a t" if "t \<in> fst ` set fs" for t using ahead that by auto
  ultimately show ?thesis using sp kd by (auto simp: closest_def)
qed

lemma two_frames_near:
  assumes "distinct (map fst fs)" and "2 \<le> length fs"
  shows "\<exists>s\<in>fst ` set fs. seqDelta a s < 32767"
proof -
  obtain x y zs where fs: "fs = x # y # zs" using assms(2) by (cases fs; cases "tl fs") auto
  then have "seqDelta a (fst x) \<noteq> seqDelta a (fst y)" using assms(1) by (auto simp: seqDelta_eq_iff)
  then show ?thesis using fs seqDelta_range(2) [of a "fst x"] seqDelta_range(2) [of a "fst y"] by fastforce
qed

lemma length_mdel: "distinct (map fst m) \<Longrightarrow> k \<in> fst ` set m \<Longrightarrow> length (mdel k m) = length m - 1"
proof (induction m)
  case (Cons x m)
  show ?case
  proof (cases "fst x = k")
    case True
    with Cons.prems have "k \<notin> fst ` set m" by auto
    then have "mdel k m = m" by (force simp: mdel_def intro!: filter_True)
    with True show ?thesis by (simp add: mdel_def)
  next
    case False
    with Cons have "length (mdel k m) = length m - 1" "k \<in> fst ` set m" by auto
    with False show ?thesis by (cases m) (auto simp: mdel_def)
  qed
qed simp

lemma length_mput: "distinct (map fst m) \<Longrightarrow> length (mput k v m) = (if k \<in> fst ` set m then length m else Suc (length m))"
proof (cases "k \<in> fst ` set m")
  case True
  then show "distinct (map fst m) \<Longrightarrow> ?thesis" by (cases m) (auto simp: mput_def length_mdel)
next
  case False
  then have "mdel k m = m" by (force simp: mdel_def intro!: filter_True)
  with False show "distinct (map fst m) \<Longrightarrow> ?thesis" by (simp add: mput_def)
qed

lemma evict_one_sel [simp]:
  "jb_maxFrames (evict_one jb) = jb_maxFrames jb" "jb_hasNext (evict_one jb) = jb_hasNext jb"
  "jb_primed (evict_one jb) = jb_primed jb" "jb_targetFrames (evict_one jb) = jb_targetFrames jb"
  by (simp_all add: evict_one_def Let_def)

lemma evict_one_closest:
  assumes "closest (jb_nextOut jb) k (jb_frames jb)" and "k = fst (oldest_scan (jb_nextOut jb) (jb_frames jb))"
    and "distinct (map fst (jb_frames jb))" and ahead: "\<forall>(s, _)\<in>set (jb_frames jb). 0 \<le> seqDelta (jb_nextOut jb) s"
  shows "jb_frames (evict_one jb) = mdel k (jb_frames jb)" "Suc (length (jb_frames (evict_one jb))) = length (jb_frames jb)"
    "jb_nextOut (evict_one jb) = (if k = jb_nextOut jb then jb_nextOut jb + 1 else jb_nextOut jb)"
    "\<forall>(s, _)\<in>set (jb_frames (evict_one jb)). 0 \<le> seqDelta (jb_nextOut (evict_one jb)) s"
proof -
  let ?a = "jb_nextOut jb" and ?fs = "jb_frames jb"
  show fr: "jb_frames (evict_one jb) = mdel k ?fs" and nx: "jb_nextOut (evict_one jb) = (if k = ?a then ?a + 1 else ?a)"
    using assms(2) by (simp_all add: evict_one_def Let_def)
  have "?fs \<noteq> []" using assms(1) by (auto simp: closest_def)
  then show "Suc (length (jb_frames (evict_one jb))) = length ?fs"
    using fr assms(1,3) by (simp add: closest_def length_mdel)
  show "\<forall>(s, _)\<in>set (jb_frames (evict_one jb)). 0 \<le> seqDelta (jb_nextOut (evict_one jb)) s"
  proof clarify
    fix s p
    assume "(s, p) \<in> set (jb_frames (evict_one jb))"
    then have s: "(s, p) \<in> set ?fs" "s \<noteq> k" using fr by auto
    then have "0 \<le> seqDelta ?a s" using ahead by auto
    moreover have "k = ?a \<Longrightarrow> seqDelta ?a s \<noteq> 0" using s(2) seqDelta_0_iff by blast
    ultimately show "0 \<le> seqDelta (jb_nextOut (evict_one jb)) s"
      using nx seqDelta_advance [of ?a s] by auto
  qed
qed

text \<open>The loop after an insertion into a buffer that was within its cap: nothing to do, or one round.\<close>

lemma evict_loop_once:
  assumes d: "distinct (map fst (jb_frames jb))" and ahead: "\<forall>(s, _)\<in>set (jb_frames jb). 0 \<le> seqDelta (jb_nextOut jb) s"
    and len: "int (length (jb_frames jb)) \<le> jb_maxFrames jb + 1" and max: "1 \<le> jb_maxFrames jb"
  shows "evict_loop jb = Some (if int (length (jb_frames jb)) > jb_maxFrames jb then evict_one jb else jb)"
proof (cases "int (length (jb_frames jb)) > jb_maxFrames jb")
  case True
  then have "2 \<le> length (jb_frames jb)" using max by linarith
  from oldest_is_closest [OF ahead two_frames_near [OF d this]]
  have "Suc (length (jb_frames (evict_one jb))) = length (jb_frames jb)"
    using evict_one_closest(2) [OF _ refl d ahead] by blast
  then have "\<not> int (length (jb_frames (evict_one jb))) > jb_maxFrames (evict_one jb)" using len by simp
  then have "evict_loop (evict_one jb) = Some (evict_one jb)" by (subst evict_loop.simps) simp
  with True show ?thesis by (subst evict_loop.simps) simp
qed (subst evict_loop.simps, simp)

text \<open>With a cap of zero the new frame itself goes, after at most two rounds.\<close>

lemma evict_loop_zero:
  assumes fs: "jb_frames jb = [(s, p)]" and a: "0 \<le> seqDelta (jb_nextOut jb) s" and max: "jb_maxFrames jb = 0"
  shows "\<exists>jb'. evict_loop jb = Some jb' \<and> jb_frames jb' = [] \<and> jb_maxFrames jb' = 0"
proof -
  have near: "\<exists>jb'. evict_loop jb = Some jb' \<and> jb_frames jb' = [] \<and> jb_maxFrames jb' = 0"
    if "jb_frames jb = [(s, p)]" "0 \<le> seqDelta (jb_nextOut jb) s" "seqDelta (jb_nextOut jb) s < 32767" "jb_maxFrames jb = 0" for jb
  proof -
    have "closest (jb_nextOut jb) (fst (oldest_scan (jb_nextOut jb) (jb_frames jb))) (jb_frames jb)"
      by (rule oldest_is_closest) (use that in auto)
    from evict_one_closest(2) [OF this refl] that have "jb_frames (evict_one jb) = []" by simp
    then have "evict_loop (evict_one jb) = Some (evict_one jb)" using that(4) by (subst evict_loop.simps) simp
    with \<open>jb_frames (evict_one jb) = []\<close> that show ?thesis by (subst evict_loop.simps) simp
  qed
  show ?thesis
  proof (cases "seqDelta (jb_nextOut jb) s < 32767")
    case True
    with near fs a max show ?thesis by blast
  next
    case False
    then have d: "seqDelta (jb_nextOut jb) s = 32767" using seqDelta_range(2) [of "jb_nextOut jb" s] by simp
    then have "s \<noteq> jb_nextOut jb" by auto
    moreover have "fst (oldest_scan (jb_nextOut jb) (jb_frames jb)) = jb_nextOut jb"
      using fs d by (simp add: oldest_scan_def Let_def)
    ultimately have "jb_frames (evict_one jb) = [(s, p)]" "jb_nextOut (evict_one jb) = jb_nextOut jb + 1"
      using fs by (simp_all add: evict_one_def mdel_def Let_def)
    moreover have "seqDelta (jb_nextOut jb + 1) s = 32766" using seqDelta_advance [of "jb_nextOut jb" s] d by simp
    ultimately have "\<exists>jb'. evict_loop (evict_one jb) = Some jb' \<and> jb_frames jb' = [] \<and> jb_maxFrames jb' = 0"
      using near [of "evict_one jb"] max by simp
    then show ?thesis using fs max by (subst evict_loop.simps) simp
  qed
qed

text \<open>With a negative cap the loop never ends: the length of a map is never below zero.\<close>

lemma evict_loop_negative:
  assumes "jb_maxFrames jb < 0"
  shows "evict_loop jb = None"
proof -
  have "0 \<le> jb_maxFrames jb" if "evict_loop jb = Some y" for y
  proof (rule evict_loop.raw_induct [OF _ that, of "\<lambda>b _. 0 \<le> jb_maxFrames b"])
    fix loop b r
    assume "\<And>b r. loop b = Some r \<Longrightarrow> 0 \<le> jb_maxFrames b"
      and "(if int (length (jb_frames b)) > jb_maxFrames b then loop (evict_one b) else Some b) = Some r"
    then show "0 \<le> jb_maxFrames b" by (cases "int (length (jb_frames b)) > jb_maxFrames b") fastforce+
  qed
  with assms show ?thesis by (cases "evict_loop jb") auto
qed

section \<open>The operations keep the invariant\<close>

text \<open>The buffer a \<open>Push\<close> hands to the eviction loop.\<close>

definition pushed :: "16 word \<Rightarrow> frame \<Rightarrow> JitterBuffer \<Rightarrow> JitterBuffer" where
  "pushed seq pkt jb =
    jb\<lparr>jb_stats := (jb_stats jb)\<lparr>js_Pushed := js_Pushed (jb_stats jb) + 1\<rparr>,
       jb_nextOut := (if jb_hasNext jb then jb_nextOut jb else seq), jb_hasNext := True,
       jb_frames := mput seq pkt (jb_frames jb)\<rparr>"

lemma pushed_sel [simp]:
  "jb_frames (pushed seq pkt jb) = mput seq pkt (jb_frames jb)" "jb_maxFrames (pushed seq pkt jb) = jb_maxFrames jb"
  "jb_hasNext (pushed seq pkt jb)" "jb_primed (pushed seq pkt jb) = jb_primed jb"
  "jb_nextOut (pushed seq pkt jb) = (if jb_hasNext jb then jb_nextOut jb else seq)"
  "jb_targetFrames (pushed seq pkt jb) = jb_targetFrames jb"
  by (simp_all add: pushed_def)

lemma Push_accepted:
  "\<not> (jb_hasNext jb \<and> seqDelta (jb_nextOut jb) seq < 0) \<Longrightarrow>
    Push seq pkt jb = map_option (Pair True) (evict_loop (pushed seq pkt jb))"
  by (auto simp: Push_def pushed_def Let_def intro!: arg_cong [where f = "\<lambda>x. map_option (Pair True) (evict_loop x)"])

lemma Push_late:
  "jb_hasNext jb \<Longrightarrow> seqDelta (jb_nextOut jb) seq < 0 \<Longrightarrow>
    \<exists>st. Push seq pkt jb = Some (False, jb\<lparr>jb_stats := st\<rparr>) \<and> js_DroppedLate st = js_DroppedLate (jb_stats jb) + 1"
  by (auto simp: Push_def Let_def intro!: exI)

lemma pushed_within:
  assumes inv: "jb_inv jb" and acc: "\<not> (jb_hasNext jb \<and> seqDelta (jb_nextOut jb) seq < 0)"
  shows "distinct (map fst (jb_frames (pushed seq pkt jb)))"
    and "\<forall>(s, _)\<in>set (jb_frames (pushed seq pkt jb)). 0 \<le> seqDelta (jb_nextOut (pushed seq pkt jb)) s"
    and "int (length (jb_frames (pushed seq pkt jb))) \<le> jb_maxFrames jb + 1"
  using assms by (auto simp: jb_inv_def length_mput split: prod.splits)

lemma Push_ok:
  assumes inv: "jb_inv jb"
  shows "\<exists>ok jb'. Push seq pkt jb = Some (ok, jb') \<and> jb_inv jb' \<and> jb_maxFrames jb' = jb_maxFrames jb"
proof (cases "jb_hasNext jb \<and> seqDelta (jb_nextOut jb) seq < 0")
  case True
  with Push_late [of jb seq pkt] inv show ?thesis by (auto simp: jb_inv_def)
next
  case acc: False
  let ?b = "pushed seq pkt jb"
  note w = pushed_within [OF inv acc, of pkt]
  from inv have m: "0 \<le> jb_maxFrames jb" by (simp add: jb_inv_def)
  show ?thesis
  proof (cases "jb_maxFrames jb = 0")
    case True
    with inv have e: "jb_frames jb = []" by (simp add: jb_inv_def)
    then have "jb_frames ?b = [(seq, pkt)]" by (simp add: mput_def mdel_def)
    moreover have "0 \<le> seqDelta (jb_nextOut ?b) seq" using acc by auto
    ultimately obtain jb' where "evict_loop ?b = Some jb'" "jb_frames jb' = []" "jb_maxFrames jb' = 0"
      using evict_loop_zero [of ?b seq pkt] True by auto
    then show ?thesis using Push_accepted [OF acc] True by (auto simp: jb_inv_def)
  next
    case False
    with m have m1: "1 \<le> jb_maxFrames ?b" by simp
    from evict_loop_once [OF w(1,2) _ m1] w(3)
    have ev: "evict_loop ?b = Some (if int (length (jb_frames ?b)) > jb_maxFrames ?b then evict_one ?b else ?b)" by simp
    show ?thesis
    proof (cases "int (length (jb_frames ?b)) > jb_maxFrames ?b")
      case True
      then have "2 \<le> length (jb_frames ?b)" using m1 by linarith
      note c = oldest_is_closest [OF w(2) two_frames_near [OF w(1) this]]
      note e = evict_one_closest [OF c refl w(1,2)]
      have "distinct (map fst (jb_frames (evict_one ?b)))" unfolding e(1) by (rule distinct_mdel [OF w(1)])
      moreover have "int (length (jb_frames (evict_one ?b))) \<le> jb_maxFrames (evict_one ?b)" using e(2) w(3) by simp
      ultimately have "jb_inv (evict_one ?b)" using e(4) unfolding jb_inv_def by simp
      then show ?thesis using Push_accepted [OF acc] ev True by auto
    next
      case False
      then have "jb_inv ?b" using w unfolding jb_inv_def by auto
      then show ?thesis using Push_accepted [OF acc] ev False by auto
    qed
  qed
qed

lemma Pop_ok:
  assumes inv: "jb_inv jb"
  shows "jb_inv (snd (Pop jb)) \<and> jb_maxFrames (snd (Pop jb)) = jb_maxFrames jb"
proof -
  have adv: "0 \<le> seqDelta (jb_nextOut jb + 1) s" if "(s, p) \<in> set (jb_frames jb)" "s \<noteq> jb_nextOut jb" for s p
  proof -
    have "0 \<le> seqDelta (jb_nextOut jb) s" using inv that by (auto simp: jb_inv_def)
    then show ?thesis using seqDelta_advance [of "jb_nextOut jb" s] seqDelta_0_iff [of "jb_nextOut jb" s] that by auto
  qed
  have len: "int (length (mdel k (jb_frames jb))) \<le> jb_maxFrames jb" for k
  proof -
    have "int (length (mdel k (jb_frames jb))) \<le> int (length (jb_frames jb))" by (simp add: mdel_def)
    also have "\<dots> \<le> jb_maxFrames jb" using inv by (simp add: jb_inv_def)
    finally show ?thesis .
  qed
  have miss: "s \<noteq> jb_nextOut jb" if "map_of (jb_frames jb) (jb_nextOut jb) = None" "(s, p) \<in> set (jb_frames jb)" for s p
    using that by (auto simp: map_of_eq_None_iff rev_image_eqI)
  show ?thesis
    using inv adv len miss by (auto simp: Pop_def Let_def jb_inv_def split: option.splits)
qed

section \<open>Refinement: sequence numbers without wrap-around\<close>

text \<open>
  The specification counts packets with unbounded integers: a state is the index of the next frame to
  play and the frames at or after it. The 16-bit buffer is read back as such a state by placing every
  frame at the one index of the window \<open>[N, N + 32768)\<close> that its sequence number can mean.
\<close>

type_synonym spec_state = "int \<times> (int \<rightharpoonup> frame)"

definition spec_push :: "int \<Rightarrow> int \<Rightarrow> frame \<Rightarrow> spec_state \<Rightarrow> bool \<times> spec_state" where
  "spec_push cap i p s =
    (case s of (N, b) \<Rightarrow>
       if i < N then (False, N, b)
       else let b1 = b(i \<mapsto> p) in
         if int (card (dom b1)) > cap
         then let k = Min (dom b1) in (True, if k = N then N + 1 else N, b1(k := None))
         else (True, N, b1))"

definition spec_pop :: "bool \<Rightarrow> spec_state \<Rightarrow> frame option \<times> spec_state" where
  "spec_pop ready s = (case s of (N, b) \<Rightarrow> if ready then (b N, N + 1, b(N := None)) else (None, N, b))"

definition window :: "(16 word \<times> frame) list \<Rightarrow> int \<Rightarrow> int \<rightharpoonup> frame" where
  "window fs N = (\<lambda>i. if N \<le> i \<and> i < N + 32768 then map_of fs (of_int i) else None)"

definition ready :: "JitterBuffer \<Rightarrow> bool" where
  "ready jb \<longleftrightarrow> jb_primed jb \<or> jb_targetFrames jb \<le> int (length (jb_frames jb))"

definition ahead :: "(16 word \<times> frame) list \<Rightarrow> 16 word \<Rightarrow> bool" where
  "ahead fs a \<longleftrightarrow> distinct (map fst fs) \<and> (\<forall>(s, _)\<in>set fs. 0 \<le> seqDelta a s)"

lemma index_delta: "- 32768 \<le> i - N \<Longrightarrow> i - N < 32768 \<Longrightarrow> seqDelta (of_int N) (of_int i) = i - N"
  using seqDelta_of_int [of "i - N" "of_int N"] by simp

lemma index_of_seq: "of_int (N + seqDelta (of_int N) s) = s"
  by (simp add: seqDelta_index)

lemma window_keys:
  assumes "ahead fs (of_int N)"
  shows "dom (window fs N) = (\<lambda>s. N + seqDelta (of_int N) s) ` fst ` set fs"
proof (intro set_eqI iffI)
  fix i
  assume "i \<in> dom (window fs N)"
  then have r: "N \<le> i" "i < N + 32768" and "map_of fs (of_int i) \<noteq> None" by (auto simp: window_def dom_def split: if_splits)
  then have "of_int i \<in> fst ` set fs" by (simp add: map_of_eq_None_iff)
  moreover have "i = N + seqDelta (of_int N) (of_int i)" using r by (simp add: index_delta)
  ultimately show "i \<in> (\<lambda>s. N + seqDelta (of_int N) s) ` fst ` set fs" by blast
next
  fix i
  assume "i \<in> (\<lambda>s. N + seqDelta (of_int N) s) ` fst ` set fs"
  then obtain s where s: "s \<in> fst ` set fs" and i: "i = N + seqDelta (of_int N) s" by blast
  have "0 \<le> seqDelta (of_int N) s" using assms s by (auto simp: ahead_def)
  then have "N \<le> i" "i < N + 32768" using i seqDelta_range(2) [of "of_int N" s] by auto
  moreover have "map_of fs (of_int i) \<noteq> None" using s i index_of_seq [of N s] by (simp add: map_of_eq_None_iff)
  ultimately show "i \<in> dom (window fs N)" by (auto simp: window_def dom_def)
qed

lemma window_card:
  assumes "ahead fs (of_int N)"
  shows "card (dom (window fs N)) = length fs"
proof -
  have "inj_on (\<lambda>s. N + seqDelta (of_int N) s) (fst ` set fs)" by (rule inj_onI) (simp add: seqDelta_eq_iff)
  then have "card (dom (window fs N)) = card (set (map fst fs))" using window_keys [OF assms] by (simp add: card_image)
  also have "\<dots> = length fs" using assms distinct_card [of "map fst fs"] by (simp add: ahead_def)
  finally show ?thesis .
qed

lemma index_inj:
  assumes "N \<le> i" "i < N + 32768" "N \<le> j" "j < N + 32768"
  shows "(of_int j :: 16 word) = of_int i \<longleftrightarrow> j = i"
proof
  assume e: "(of_int j :: 16 word) = of_int i"
  have "j - N = seqDelta (of_int N) (of_int j)" by (rule index_delta [symmetric]) (use assms in linarith)+
  also have "\<dots> = seqDelta (of_int N) (of_int i)" by (simp only: e)
  also have "\<dots> = i - N" by (rule index_delta) (use assms in linarith)+
  finally show "j = i" by simp
qed simp

lemma window_insert:
  assumes "N \<le> i" and "i < N + 32768"
  shows "window (mput (of_int i) p fs) N = (window fs N)(i \<mapsto> p)"
proof (rule ext)
  fix j
  show "window (mput (of_int i) p fs) N j = ((window fs N)(i \<mapsto> p)) j"
    using assms index_inj [of N i j] by (simp add: window_def)
qed

lemma window_delete: "window (mdel k fs) N = (window fs N)(N + seqDelta (of_int N) k := None)"
proof (rule ext)
  fix j
  show "window (mdel k fs) N j = ((window fs N)(N + seqDelta (of_int N) k := None)) j"
  proof (cases "N \<le> j \<and> j < N + 32768")
    case True
    then have d: "seqDelta (of_int N) (of_int j) = j - N" by (intro index_delta) auto
    have "of_int j = k \<longleftrightarrow> j = N + seqDelta (of_int N) k"
      using d seqDelta_eq_iff [of "of_int N" "of_int j" k] by linarith
    with True show ?thesis by (simp add: window_def)
  next
    case False
    then have "window fs N j = None" "window (mdel k fs) N j = None" by (auto simp: window_def)
    then show ?thesis by simp
  qed
qed

lemma window_advance:
  assumes "ahead fs (of_int N)"
  shows "window (mdel (of_int N) fs) (N + 1) = (window fs N)(N := None)"
proof (rule ext)
  fix j
  show "window (mdel (of_int N) fs) (N + 1) j = ((window fs N)(N := None)) j"
  proof (cases "N < j \<and> j < N + 32768")
    case True
    then have "(of_int j :: 16 word) \<noteq> of_int N" using index_inj [of N N j] by simp
    with True show ?thesis by (simp add: window_def)
  next
    case False
    have "seqDelta (of_int N) (of_int N + of_int (- 32768)) = - 32768" by (rule seqDelta_of_int) simp_all
    then have "of_int N - 32768 \<notin> fst ` set fs" using assms by (force simp: ahead_def)
    moreover have "of_int N - (32768 :: 16 word) = of_int (N + 32768)" by (simp add: diff_eq_eq add.assoc)
    ultimately have "map_of fs (of_int (N + 32768)) = None" by (simp add: map_of_eq_None_iff)
    with False show ?thesis by (cases "j = N + 32768") (auto simp: window_def)
  qed
qed

lemma window_min:
  assumes "ahead fs (of_int N)" and "closest (of_int N) k fs"
  shows "Min (dom (window fs N)) = N + seqDelta (of_int N) k"
  using assms by (intro Min_eqI) (auto simp: window_keys closest_def)

text \<open>One eviction on the 16-bit buffer is the removal of the least index.\<close>

lemma evict_refines:
  assumes a: "ahead (jb_frames jb) (of_int N)" and n: "jb_nextOut jb = of_int N" and l: "2 \<le> length (jb_frames jb)"
  defines "k \<equiv> Min (dom (window (jb_frames jb) N))"
  shows "jb_nextOut (evict_one jb) = of_int (if k = N then N + 1 else N)"
    and "window (jb_frames (evict_one jb)) (if k = N then N + 1 else N) = (window (jb_frames jb) N)(k := None)"
proof -
  let ?fs = "jb_frames jb" and ?o = "fst (oldest_scan (jb_nextOut jb) (jb_frames jb))"
  from a n have d: "distinct (map fst ?fs)" and ah: "\<forall>(s, _)\<in>set ?fs. 0 \<le> seqDelta (jb_nextOut jb) s"
    by (simp_all add: ahead_def)
  note c = oldest_is_closest [OF ah two_frames_near [OF d l]]
  note e = evict_one_closest [OF c refl d ah]
  have k: "k = N + seqDelta (of_int N) ?o" using window_min [OF a] c n by (simp add: k_def)
  have eq: "k = N \<longleftrightarrow> ?o = of_int N" using k seqDelta_0_iff [of "of_int N" ?o] by simp
  show "jb_nextOut (evict_one jb) = of_int (if k = N then N + 1 else N)" using e(3) eq n by simp
  show "window (jb_frames (evict_one jb)) (if k = N then N + 1 else N) = (window ?fs N)(k := None)"
    using e(1) eq window_advance [OF a] window_delete [of ?o ?fs N] k by simp
qed

lemma Push_refines:
  assumes inv: "jb_inv jb" and cap: "1 \<le> jb_maxFrames jb" and has: "jb_hasNext jb" and n: "jb_nextOut jb = of_int N"
    and i: "N - 32768 \<le> i" "i < N + 32768"
  shows "\<exists>ok jb' N'. Push (of_int i) p jb = Some (ok, jb') \<and> jb_nextOut jb' = of_int N' \<and>
    spec_push (jb_maxFrames jb) i p (N, window (jb_frames jb) N) = (ok, N', window (jb_frames jb') N')"
proof (cases "i < N")
  case True
  then have "seqDelta (jb_nextOut jb) (of_int i) < 0" using index_delta [of i N] i n by simp
  from Push_late [OF has this, of p] True n show ?thesis by (force simp: spec_push_def)
next
  case False
  let ?b = "pushed (of_int i) p jb"
  have "\<not> (jb_hasNext jb \<and> seqDelta (jb_nextOut jb) (of_int i) < 0)" using False index_delta [of i N] i n by simp
  note w = pushed_within [OF inv this, of p] and acc = Push_accepted [OF this, of p]
  have nb: "jb_nextOut ?b = of_int N" using has n by simp
  have a: "ahead (jb_frames ?b) (of_int N)" unfolding ahead_def using w(1,2) nb by simp
  have v: "window (jb_frames ?b) N = (window (jb_frames jb) N)(i \<mapsto> p)" using window_insert [of N i p] False i by simp
  from evict_loop_once [OF w(1,2)] w(3) cap
  have ev: "evict_loop ?b = Some (if int (length (jb_frames ?b)) > jb_maxFrames jb then evict_one ?b else ?b)" by simp
  show ?thesis
  proof (cases "int (length (jb_frames ?b)) > jb_maxFrames jb")
    case True
    then have "2 \<le> length (jb_frames ?b)" using cap by linarith
    note e = evict_refines [OF a nb this]
    show ?thesis
      using acc ev True e False v window_card [OF a] by (auto simp: spec_push_def Let_def simp del: pushed_sel(1))
  next
    case small: False
    then show ?thesis using acc ev False nb v window_card [OF a] by (auto simp: spec_push_def Let_def simp del: pushed_sel(1))
  qed
qed

lemma Pop_refines:
  assumes inv: "jb_inv jb" and has: "jb_hasNext jb" and n: "jb_nextOut jb = of_int N"
  shows "\<exists>N'. jb_nextOut (snd (Pop jb)) = of_int N' \<and>
    spec_pop (ready jb) (N, window (jb_frames jb) N) = (fst (Pop jb), N', window (jb_frames (snd (Pop jb))) N')"
proof (cases "ready jb")
  case True
  have a: "ahead (jb_frames jb) (of_int N)" using inv n by (simp add: jb_inv_def ahead_def)
  have head: "window (jb_frames jb) N N = map_of (jb_frames jb) (of_int N)" by (simp add: window_def)
  have miss: "mdel (of_int N) (jb_frames jb) = jb_frames jb" if "map_of (jb_frames jb) (of_int N) = None"
    using that by (force simp: mdel_def map_of_eq_None_iff intro!: filter_True)
  show ?thesis
    using True has n head miss window_advance [OF a]
    by (auto simp: Pop_def ready_def spec_pop_def Let_def split: option.splits intro!: exI [of _ "N + 1"])
next
  case False
  with has n show ?thesis by (auto simp: Pop_def ready_def spec_pop_def)
qed

section \<open>Runs of the buffer\<close>

text \<open>The network loop pushes and pops in any order; \<open>None\<close> is a buffer stuck inside a \<open>Push\<close>.\<close>

datatype jop = JPush "16 word" frame | JPop

fun jb_apply :: "jop \<Rightarrow> JitterBuffer option \<Rightarrow> JitterBuffer option" where
  "jb_apply _ None = None"
| "jb_apply (JPush s p) (Some jb) = map_option snd (Push s p jb)"
| "jb_apply JPop (Some jb) = Some (snd (Pop jb))"

definition jb_live :: "int \<Rightarrow> JitterBuffer option \<Rightarrow> bool" where
  "jb_live cap st \<longleftrightarrow> (\<exists>jb. st = Some jb \<and> jb_inv jb \<and> jb_maxFrames jb = cap)"

interpretation jbmach: machine jb_apply "jb_live cap" for cap
proof unfold_locales
  fix st x
  assume "jb_live cap st"
  then obtain jb where "st = Some jb" "jb_inv jb" "jb_maxFrames jb = cap" by (auto simp: jb_live_def)
  then show "jb_live cap (jb_apply x st)"
    using Pop_ok [of jb] Push_ok [of jb] by (cases x) (fastforce simp: jb_live_def)+
qed

lemma jb_stuck: "fold jb_apply ops None = None"
  by (induction ops) auto

text \<open>C35: Along every run of pushes and pops on a buffer made with a cap \<open>maxMs\<close> that is not negative,
  every operation returns, no frame is filed twice or behind the playout point, and at most \<open>maxMs\<close> of
  audio is held. With \<open>maxMs\<close> at or below -20 the first \<open>Push\<close> never returns.\<close>

theorem jitter_bounded:
  fixes ops :: "jop list"
  assumes "0 \<le> maxMs" and "bad \<le> - 20"
  shows "(\<exists>jb. fold jb_apply ops (Some (NewJitterBuffer targetMs maxMs)) = Some jb \<and> jb_inv jb \<and>
      int (length (jb_frames jb)) * FrameMs \<le> maxMs)
    \<and> fold jb_apply (JPush seq pkt # ops) (Some (NewJitterBuffer targetMs bad)) = None"
proof -
  have q: "maxMs sdiv 20 = maxMs div 20" using assms(1) by (simp add: signed_divide_int_def sgn_if)
  have "jb_live (maxMs div 20) (Some (NewJitterBuffer targetMs maxMs))"
    using assms(1) q by (simp add: jb_live_def NewJitterBuffer_def jb_inv_def FrameMs_def)
  from jbmach.invar_run [OF this, of ops] obtain jb
    where jb: "fold jb_apply ops (Some (NewJitterBuffer targetMs maxMs)) = Some jb" "jb_inv jb" "jb_maxFrames jb = maxMs div 20"
    by (auto simp: jb_live_def)
  then have "int (length (jb_frames jb)) \<le> maxMs div 20" by (simp add: jb_inv_def)
  then have "int (length (jb_frames jb)) * FrameMs \<le> maxMs" by (simp add: FrameMs_def)
  moreover have "bad sdiv 20 < 0" using assms(2) by (simp add: signed_divide_int_def sgn_if)
  then have "Push seq pkt (NewJitterBuffer targetMs bad) = None"
    using Push_accepted [of "NewJitterBuffer targetMs bad" seq pkt]
    by (simp add: NewJitterBuffer_def FrameMs_def evict_loop_negative)
  then have "fold jb_apply (JPush seq pkt # ops) (Some (NewJitterBuffer targetMs bad)) = None" by (simp add: jb_stuck)
  ultimately show ?thesis using jb by blast
qed

theorem jitter_bounded_witness:
  "(\<exists>jb. fold jb_apply [JPush 65535 ''a'', JPush 0 ''b'', JPop] (Some (NewJitterBuffer 20 200)) = Some jb \<and> jb_inv jb \<and>
      int (length (jb_frames jb)) * FrameMs \<le> 200)
    \<and> fold jb_apply [JPush 7 ''x'', JPush 65535 ''a'', JPush 0 ''b'', JPop] (Some (NewJitterBuffer 20 (- 40))) = None"
  using jitter_bounded [of 200 "- 40" "[JPush 65535 ''a'', JPush 0 ''b'', JPop]" 20 7 "''x''"] by simp


definition wrap_jb :: JitterBuffer where
  "wrap_jb = (NewJitterBuffer 20 200)\<lparr>jb_frames := [(65535, ''a'')], jb_nextOut := 65535, jb_hasNext := True\<rparr>"


end
