(* ===== verification/Audio_Stats.thy ===== *)
theory Audio_Stats
  imports Complex_Main "HOL-Library.Word" Prelude
begin

text \<open>
  \<open>internal/audio/stats.go\<close>: the counters of one audio session. Counters are 64-bit words, a sample is a
  16-bit word read as signed, a \<open>float64\<close> is a real number (rounding of the last bit is not modelled).
\<close>

type_synonym pcm = "16 word list"

record Stats =
  sx_TxPackets :: "64 word"
  sx_TxDropped :: "64 word"
  sx_TxPeakDBFS :: int
  sx_RxPackets :: "64 word"
  sx_RxDropped :: "64 word"
  sx_RxPeakDBFS :: int
  sx_JitterMsEWMA :: real
  sx_EncoderBitrate :: int
  sx_Muted :: bool
  sx_PeerMuted :: bool
  sx_MediaMode :: string

text \<open>The live counters hold the same fields; \<open>Snapshot\<close> copies them.\<close>

definition NewStatsCore :: Stats where
  "NewStatsCore = \<lparr>sx_TxPackets = 0, sx_TxDropped = 0, sx_TxPeakDBFS = - 100, sx_RxPackets = 0, sx_RxDropped = 0,
     sx_RxPeakDBFS = - 100, sx_JitterMsEWMA = 0, sx_EncoderBitrate = 0, sx_Muted = False, sx_PeerMuted = False, sx_MediaMode = []\<rparr>"

text \<open>The largest magnitude, scanned at 32 bits, and \<open>math.Round\<close>, which rounds halves away from zero.\<close>

definition peak_of :: "pcm \<Rightarrow> int" where
  "peak_of xs = fold (\<lambda>s peak. max peak \<bar>sint s\<bar>) xs 0"

definition math_Round :: "real \<Rightarrow> int" where
  "math_Round x = (if x < 0 then - \<lfloor>- x + 1 / 2\<rfloor> else \<lfloor>x + 1 / 2\<rfloor>)"

definition peakDBFS :: "pcm \<Rightarrow> int" where
  "peakDBFS xs =
    (let peak = peak_of xs in
     if peak = 0 then - 100
     else let db = 20 * log 10 (real_of_int peak / 32767) in math_Round (if db < - 100 then - 100 else db))"

definition ObserveTx :: "nat \<Rightarrow> pcm \<Rightarrow> Stats \<Rightarrow> Stats" where
  "ObserveTx encodedSize xs s =
    (let peak = peakDBFS xs in
     s\<lparr>sx_TxPackets := sx_TxPackets s + 1,
       sx_TxPeakDBFS := (if peak > sx_TxPeakDBFS s then peak else sx_TxPeakDBFS s)\<rparr>)"

definition ObserveTxDropped :: "Stats \<Rightarrow> Stats" where
  "ObserveTxDropped s = s\<lparr>sx_TxDropped := sx_TxDropped s + 1\<rparr>"

definition ObserveRx :: "pcm \<Rightarrow> Stats \<Rightarrow> Stats" where
  "ObserveRx xs s =
    (let peak = peakDBFS xs in
     s\<lparr>sx_RxPackets := sx_RxPackets s + 1,
       sx_RxPeakDBFS := (if peak > sx_RxPeakDBFS s then peak else sx_RxPeakDBFS s)\<rparr>)"

definition ObserveRxDropped :: "Stats \<Rightarrow> Stats" where
  "ObserveRxDropped s = s\<lparr>sx_RxDropped := sx_RxDropped s + 1\<rparr>"

definition ObserveJitter :: "real \<Rightarrow> Stats \<Rightarrow> Stats" where
  "ObserveJitter ms s = s\<lparr>sx_JitterMsEWMA := 8 / 10 * sx_JitterMsEWMA s + 2 / 10 * ms\<rparr>"

definition SetEncoderBitrate :: "int \<Rightarrow> Stats \<Rightarrow> Stats" where
  "SetEncoderBitrate b s = s\<lparr>sx_EncoderBitrate := b\<rparr>"

definition stats_SetMuted :: "bool \<Rightarrow> Stats \<Rightarrow> Stats" where
  "stats_SetMuted b s = s\<lparr>sx_Muted := b\<rparr>"

definition SetPeerMuted :: "bool \<Rightarrow> Stats \<Rightarrow> Stats" where
  "SetPeerMuted b s = s\<lparr>sx_PeerMuted := b\<rparr>"

definition SetMediaMode :: "string \<Rightarrow> Stats \<Rightarrow> Stats" where
  "SetMediaMode mode s = s\<lparr>sx_MediaMode := mode\<rparr>"

definition Snapshot :: "Stats \<Rightarrow> Stats \<times> Stats" where
  "Snapshot s = (s, s\<lparr>sx_TxPeakDBFS := - 100, sx_RxPeakDBFS := - 100\<rparr>)"

section \<open>The meter\<close>

lemma peak_of_range: "0 \<le> peak_of xs \<and> peak_of xs \<le> 32768"
proof -
  have "\<bar>sint (s :: 16 word)\<bar> \<le> 32768" for s using sint_ge [of s] sint_lt [of s] by simp
  then have "0 \<le> a \<Longrightarrow> a \<le> 32768 \<Longrightarrow> 0 \<le> fold (\<lambda>s peak. max peak \<bar>sint (s :: 16 word)\<bar>) xs a
      \<and> fold (\<lambda>s peak. max peak \<bar>sint (s :: 16 word)\<bar>) xs a \<le> 32768" for a
    by (induction xs arbitrary: a) auto
  then show ?thesis by (simp add: peak_of_def)
qed

lemma math_Round_mono: "x \<le> y \<Longrightarrow> math_Round x \<le> math_Round y"
  by (auto simp: math_Round_def intro!: floor_mono) linarith+

text \<open>The level stays between the silence sentinel and full scale, the asymmetric sample -32768 included.\<close>

lemma peakDBFS_range: "- 100 \<le> peakDBFS xs \<and> peakDBFS xs \<le> 0"
proof (cases "peak_of xs = 0")
  case False
  let ?x = "real_of_int (peak_of xs) / 32767"
  let ?db = "20 * log 10 ?x"
  from False peak_of_range [of xs] have x: "0 < ?x" "?x \<le> 32768 / 32767" by auto
  have "?x ^ 40 \<le> (32768 / 32767) ^ 40" using x by (intro power_mono) auto
  also have "\<dots> < (10 :: real)" by (simp add: power_divide)
  finally have "log 10 (?x ^ 40) < log 10 10" using x(1) by (subst log_less_cancel_iff) auto
  then have "?db < 1 / 2" using log_nat_power [OF less_imp_le [OF x(1)], of 10 40] by simp
  have "math_Round r \<le> 0" if "r < 1 / 2" for r using that by (auto simp: math_Round_def floor_less_iff)
  with \<open>?db < 1 / 2\<close> have "math_Round (if ?db < - 100 then - 100 else ?db) \<le> 0" by simp
  moreover have "math_Round (- 100) \<le> math_Round (if ?db < - 100 then - 100 else ?db)" by (rule math_Round_mono) simp
  moreover have "math_Round (- 100) = - 100" by (simp add: math_Round_def)
  ultimately show ?thesis using False by (simp add: peakDBFS_def Let_def)
qed (simp add: peakDBFS_def)

end
