(* ===== verification/Audio_Transport.thy ===== *)
theory Audio_Transport
  imports Go_Chan Audio_Stats
begin

text \<open>
  \<open>internal/audio/transport.go\<close>: the per-call media transport.

  A transport is its two bounded queues, its outgoing streams, the datagram connection once one is
  attached, and the closed flag of its context. Its goroutines are steps: \<open>sendPump_step\<close> is one round of
  \<open>sendPump\<close>, \<open>tryAttachDatagram\<close> one poll of \<open>datagramWatcher\<close>, and the two receive pumps hand each frame to
  \<open>deliverRecv\<close>. A libp2p stream that is written is the bytes accepted so far and the number it will still
  accept before every write fails (\<open>None\<close>: it never fails). A stream that is read is the bytes that arrive
  before it errors. libp2p and QUIC themselves are not modelled: what they answer is an argument.
\<close>

section \<open>Length-prefixed frames\<close>

definition maxMediaFrameSize :: nat where "maxMediaFrameSize = 1500"

datatype media_error = ErrFrameTooLarge | ErrStreamWrite | ErrStreamRead

record ostream =
  os_bytes :: string
  os_room :: "nat option"
  os_closed :: bool

text \<open>\<open>Write\<close>: all of the data, or the part that fits and an error.\<close>

definition stream_write :: "string \<Rightarrow> ostream \<Rightarrow> bool \<times> ostream" where
  "stream_write b s =
    (if os_closed s then (False, s)
     else case os_room s of
       None \<Rightarrow> (True, s\<lparr>os_bytes := os_bytes s @ b\<rparr>)
     | Some k \<Rightarrow> (length b \<le> k, s\<lparr>os_bytes := os_bytes s @ take k b, os_room := Some (k - length b)\<rparr>))"

definition putUint16 :: "nat \<Rightarrow> string" where
  "putUint16 n = [char_of (n div 256 mod 256), char_of (n mod 256)]"

fun getUint16 :: "string \<Rightarrow> nat" where
  "getUint16 (a # b # _) = of_char a * 256 + of_char b"
| "getUint16 _ = 0"

definition writeFramedMedia :: "string \<Rightarrow> ostream \<Rightarrow> media_error option \<times> ostream" where
  "writeFramedMedia b s =
    (if length b > maxMediaFrameSize then (Some ErrFrameTooLarge, s)
     else case stream_write (putUint16 (length b)) s of
       (False, s1) \<Rightarrow> (Some ErrStreamWrite, s1)
     | (True, s1) \<Rightarrow>
         (case stream_write b s1 of (ok, s2) \<Rightarrow> (if ok then None else Some ErrStreamWrite, s2)))"

definition readFramedMedia :: "string \<Rightarrow> (media_error + string) \<times> string" where
  "readFramedMedia r =
    (if length r < 2 then (Inl ErrStreamRead, [])
     else let n = getUint16 r; body = drop 2 r in
       if n = 0 then (Inr [], body)
       else if n > maxMediaFrameSize then (Inl ErrFrameTooLarge, body)
       else if length body < n then (Inl ErrStreamRead, [])
       else (Inr (take n body), drop n body))"

text \<open>The frames the read loop gets out of a stream before it returns.\<close>

function framesOf :: "string \<Rightarrow> string list" where
  "framesOf r = (case readFramedMedia r of (Inl _, _) \<Rightarrow> [] | (Inr b, r') \<Rightarrow> b # framesOf r')"
  by pat_completeness auto
termination
  by (relation "measure length") (auto simp: readFramedMedia_def Let_def split: if_splits)

declare framesOf.simps [simp del]

section \<open>The transport\<close>

record ControlMessage =
  cm_Type :: string
  cm_Value :: bool
  cm_Stats :: "Stats option"

definition mediaSendCap :: nat where "mediaSendCap = 16"
definition mediaRecvCap :: nat where "mediaRecvCap = 16"

record Transport =
  tr_controlCh :: "ControlMessage chan"
  tr_sendCh :: "string chan"
  tr_recvCh :: "string chan"
  tr_dconn :: "nat option"
  tr_outCtrl :: ostream
  tr_outMedia :: "ostream option"
  tr_closed :: bool

text \<open>The streams the host opens, or the error of the first that fails; an opened control stream is closed
  when the media stream cannot be opened.\<close>

datatype open_error = ErrOpenControl | ErrOpenMedia

definition NewLibp2pTransport :: "ostream option \<Rightarrow> ostream option \<Rightarrow> (open_error \<times> ostream option) + Transport" where
  "NewLibp2pTransport ctrl media =
    (case ctrl of
       None \<Rightarrow> Inl (ErrOpenControl, None)
     | Some c \<Rightarrow>
         (case media of
            None \<Rightarrow> Inl (ErrOpenMedia, Some (c\<lparr>os_closed := True\<rparr>))
          | Some m \<Rightarrow> Inr \<lparr>tr_controlCh = make_chan 32, tr_sendCh = make_chan mediaSendCap,
              tr_recvCh = make_chan mediaRecvCap, tr_dconn = None, tr_outCtrl = c, tr_outMedia = Some m, tr_closed = False\<rparr>))"

datatype send_error = ErrMediaBackpressure

definition SendMedia :: "string \<Rightarrow> Transport \<Rightarrow> send_error option \<times> Transport" where
  "SendMedia b t =
    (if ch_full (tr_sendCh t) then (Some ErrMediaBackpressure, t)
     else (None, t\<lparr>tr_sendCh := send_nb b (tr_sendCh t)\<rparr>))"

text \<open>\<open>RecvMedia\<close> selects among the cases that are ready; \<open>pick\<close> is the choice Go makes among several.\<close>

datatype recv_result = Frame string | CtxErr | ErrTransportClosed | Blocked

definition recv_cases :: "bool \<Rightarrow> Transport \<Rightarrow> (recv_result \<times> Transport) list" where
  "recv_cases ctxDone t =
    (case recv_nb (tr_recvCh t) of (None, _) \<Rightarrow> [] | (Some b, ch) \<Rightarrow> [(Frame b, t\<lparr>tr_recvCh := ch\<rparr>)])
    @ (if ctxDone then [(CtxErr, t)] else []) @ (if tr_closed t then [(ErrTransportClosed, t)] else [])"

definition RecvMedia :: "bool \<Rightarrow> nat \<Rightarrow> Transport \<Rightarrow> recv_result \<times> Transport" where
  "RecvMedia ctxDone pick t =
    (let cs = recv_cases ctxDone t in if cs = [] then (Blocked, t) else cs ! (pick mod length cs))"

definition MediaMode :: "Transport \<Rightarrow> string" where
  "MediaMode t =
    (if tr_dconn t \<noteq> None then ''datagram'' else if tr_outMedia t \<noteq> None then ''stream'' else ''none'')"

definition SendControl :: "(ControlMessage \<Rightarrow> string) \<Rightarrow> ControlMessage \<Rightarrow> Transport \<Rightarrow> bool \<times> Transport" where
  "SendControl encode msg t =
    (case stream_write (encode msg) (tr_outCtrl t) of (ok, s) \<Rightarrow> (ok, t\<lparr>tr_outCtrl := s\<rparr>))"

text \<open>\<open>Close\<close> runs its body once; \<open>ctrlErr\<close> and \<open>mediaErr\<close> are what closing the streams answers.\<close>

definition Close_transport :: "'e option \<Rightarrow> 'e option \<Rightarrow> Transport \<Rightarrow> 'e option \<times> Transport" where
  "Close_transport ctrlErr mediaErr t =
    (if tr_closed t then (None, t)
     else (case ctrlErr of Some e \<Rightarrow> Some e | None \<Rightarrow> if tr_outMedia t = None then None else mediaErr,
           t\<lparr>tr_closed := True, tr_outCtrl := (tr_outCtrl t)\<lparr>os_closed := True\<rparr>,
             tr_outMedia := map_option (\<lambda>s. s\<lparr>os_closed := True\<rparr>) (tr_outMedia t)\<rparr>))"

section \<open>Pumps\<close>

text \<open>Where a frame taken from the send queue went: over QUIC, into the stream, or nowhere.\<close>

datatype route = ViaDatagram string | ViaStream string | Lost string

text \<open>One round of \<open>sendPump\<close>; \<open>dgOK\<close> is what \<open>SendDatagram\<close> answers. Errors are ignored.\<close>

definition sendPump_step :: "bool \<Rightarrow> Transport \<Rightarrow> route option \<times> Transport" where
  "sendPump_step dgOK t =
    (case recv_nb (tr_sendCh t) of
       (None, _) \<Rightarrow> (None, t)
     | (Some b, ch) \<Rightarrow>
         (let t1 = t\<lparr>tr_sendCh := ch\<rparr> in
          if tr_dconn t1 \<noteq> None then (Some (if dgOK then ViaDatagram b else Lost b), t1)
          else (case tr_outMedia t1 of
                  None \<Rightarrow> (Some (Lost b), t1)
                | Some s \<Rightarrow>
                    (case writeFramedMedia b s of
                       (err, s') \<Rightarrow> (Some (if err = None then ViaStream b else Lost b), t1\<lparr>tr_outMedia := Some s'\<rparr>)))))"

definition deliverRecv :: "string \<Rightarrow> Transport \<Rightarrow> Transport" where
  "deliverRecv b t =
    (if \<not> ch_full (tr_recvCh t) then t\<lparr>tr_recvCh := send_nb b (tr_recvCh t)\<rparr>
     else t\<lparr>tr_recvCh := send_nb b (snd (recv_nb (tr_recvCh t)))\<rparr>)"

definition recvPumpStream :: "string \<Rightarrow> Transport \<Rightarrow> Transport" where
  "recvPumpStream r t = fold deliverRecv (framesOf r) t"

definition recvPumpDatagram :: "string list \<Rightarrow> Transport \<Rightarrow> Transport" where
  "recvPumpDatagram dgs t = fold deliverRecv dgs t"

text \<open>\<open>conns\<close> are the connections to the peer, each with its QUIC connection if it is one.\<close>

definition findDatagramConn :: "nat option list \<Rightarrow> nat option" where
  "findDatagramConn conns = Option.bind (List.find (\<lambda>c. c \<noteq> None) conns) id"

definition tryAttachDatagram :: "nat option list \<Rightarrow> Transport \<Rightarrow> bool \<times> Transport" where
  "tryAttachDatagram conns t =
    (case findDatagramConn conns of
       None \<Rightarrow> (False, t)
     | Some dc \<Rightarrow> if tr_dconn t \<noteq> None then (True, t) else (True, t\<lparr>tr_dconn := Some dc\<rparr>))"

text \<open>The watcher polls until a poll attaches or the transport closes: the list is what the host's
  connections are at the successive polls, up to the close.\<close>

fun datagramWatcher :: "nat option list list \<Rightarrow> Transport \<Rightarrow> Transport" where
  "datagramWatcher [] t = t"
| "datagramWatcher (c # cs) t = (case tryAttachDatagram c t of (True, t') \<Rightarrow> t' | (False, t') \<Rightarrow> datagramWatcher cs t')"

section \<open>Inbound streams\<close>

text \<open>The registry of a host: a channel of accepted streams per protocol and remote peer. A stream is a
  number. The stream handler blocks (\<open>None\<close>) when eight streams wait.\<close>

datatype media_proto = AudioControlProtocol | AudioMediaProtocol

type_synonym stream_registry = "((nat \<times> media_proto \<times> peer_id) \<times> nat chan) list"

definition inboundChan :: "nat \<Rightarrow> media_proto \<Rightarrow> peer_id \<Rightarrow> stream_registry \<Rightarrow> nat chan \<times> stream_registry" where
  "inboundChan h p remote reg =
    (case map_of reg (h, p, remote) of
       Some ch \<Rightarrow> (ch, reg)
     | None \<Rightarrow> let ch = make_chan 8 in (ch, mput (h, p, remote) ch reg))"

definition registerProto :: "nat \<Rightarrow> media_proto \<Rightarrow> peer_id \<Rightarrow> nat \<Rightarrow> stream_registry \<Rightarrow> stream_registry option" where
  "registerProto h p remote s reg =
    (case inboundChan h p remote reg of
       (ch, reg') \<Rightarrow> if ch_full ch then None else Some (mput (h, p, remote) (send_nb s ch) reg'))"

text \<open>The media loop takes the first stream that waits (\<open>pickClose\<close> resolves the race with a close) and hands it
  to the stream pump; \<open>bytes s\<close> is what can be read from stream \<open>s\<close>. \<open>None\<close>: still waiting.\<close>

definition waitAndReadMediaLoop ::
    "(nat \<Rightarrow> string) \<Rightarrow> bool \<Rightarrow> nat \<Rightarrow> peer_id \<Rightarrow> stream_registry \<Rightarrow> Transport \<Rightarrow> (nat option \<times> stream_registry \<times> Transport) option" where
  "waitAndReadMediaLoop bytes pickClose h remote reg t =
    (case inboundChan h AudioMediaProtocol remote reg of
       (ch, reg1) \<Rightarrow>
         (case recv_nb ch of
            (None, _) \<Rightarrow> if tr_closed t then Some (None, reg1, t) else None
          | (Some s, ch') \<Rightarrow>
              if tr_closed t \<and> pickClose then Some (None, reg1, t)
              else Some (Some s, mput (h, AudioMediaProtocol, remote) ch' reg1, recvPumpStream (bytes s) t)))"

text \<open>The control loop: waiting for the peer's stream, reading its lines (\<open>None\<close>: not JSON), done. Its send on
  \<open>controlCh\<close> blocks when the channel is full, until there is room or the transport closes.\<close>

datatype ctrl_loop = CtrlWait | CtrlRead "ControlMessage option list" | CtrlDone

definition ctrl_finish :: "Transport \<Rightarrow> ctrl_loop \<times> Transport" where
  "ctrl_finish t = (CtrlDone, t\<lparr>tr_controlCh := close_chan (tr_controlCh t)\<rparr>)"

fun waitAndReadControlLoop ::
    "(nat \<Rightarrow> ControlMessage option list) \<Rightarrow> bool \<Rightarrow> nat chan \<Rightarrow> ctrl_loop \<times> Transport \<Rightarrow> nat chan \<times> ctrl_loop \<times> Transport" where
  "waitAndReadControlLoop lns pickClose inCh (CtrlDone, t) = (inCh, CtrlDone, t)"
| "waitAndReadControlLoop lns pickClose inCh (CtrlWait, t) =
    (case recv_nb inCh of
       (None, _) \<Rightarrow> if tr_closed t then (inCh, ctrl_finish t) else (inCh, CtrlWait, t)
     | (Some s, inCh') \<Rightarrow> if tr_closed t \<and> pickClose then (inCh, ctrl_finish t) else (inCh', CtrlRead (lns s), t))"
| "waitAndReadControlLoop lns pickClose inCh (CtrlRead [], t) = (inCh, ctrl_finish t)"
| "waitAndReadControlLoop lns pickClose inCh (CtrlRead (None # ls), t) = (inCh, CtrlRead ls, t)"
| "waitAndReadControlLoop lns pickClose inCh (CtrlRead (Some m # ls), t) =
    (if tr_closed t \<and> (pickClose \<or> ch_full (tr_controlCh t)) then (inCh, ctrl_finish t)
     else if ch_full (tr_controlCh t) then (inCh, CtrlRead (Some m # ls), t)
     else (inCh, CtrlRead ls, t\<lparr>tr_controlCh := send_nb m (tr_controlCh t)\<rparr>))"

section \<open>Framing lemmas\<close>

lemma getUint16_put: "n < 65536 \<Longrightarrow> getUint16 (putUint16 n @ r) = n"
  by (simp add: putUint16_def)

lemma read_framed:
  "length b \<le> maxMediaFrameSize \<Longrightarrow> readFramedMedia (putUint16 (length b) @ b @ r) = (Inr b, r)"
  using getUint16_put [of "length b" "b @ r"]
  by (simp add: readFramedMedia_def Let_def maxMediaFrameSize_def) (simp add: putUint16_def)

definition framed :: "string \<Rightarrow> string" where
  "framed b = putUint16 (length b) @ b"

lemma framesOf_framed:
  "length b \<le> maxMediaFrameSize \<Longrightarrow> framesOf (framed b @ r) = b # framesOf r"
  by (subst framesOf.simps) (simp add: read_framed framed_def)

text \<open>A stream cut inside a frame yields the whole frames before the cut and nothing of the torn one.\<close>

lemma framesOf_torn:
  assumes "length b \<le> maxMediaFrameSize" and "k < length (framed b)"
  shows "framesOf (take k (framed b)) = []"
proof (cases "k < 2")
  case True
  then have "length (take k (framed b)) < 2" by simp
  then show ?thesis by (subst framesOf.simps) (simp add: readFramedMedia_def)
next
  case False
  then obtain j where k: "k = Suc (Suc j)" by (metis add_2_eq_Suc le_add_diff_inverse not_less)
  have p: "length (putUint16 (length b)) = 2" by (simp add: putUint16_def)
  have tk: "take k (framed b) = putUint16 (length b) @ take j b" using p k by (simp add: framed_def)
  have j: "j < length b" using assms(2) k p by (simp add: framed_def)
  have "getUint16 (take k (framed b)) = length b" using tk getUint16_put [of "length b"] assms(1) by (simp add: maxMediaFrameSize_def)
  moreover have "drop 2 (take k (framed b)) = take j b" "\<not> length (take k (framed b)) < 2" using tk p by simp_all
  ultimately show ?thesis
    using j assms(1) by (subst framesOf.simps) (auto simp: readFramedMedia_def Let_def min_def)
qed

lemma framesOf_prefix:
  assumes "\<forall>b\<in>set bs. length b \<le> maxMediaFrameSize"
  shows "\<exists>m. framesOf (take k (concat (map framed bs))) = take m bs \<and> (length (concat (map framed bs)) \<le> k \<longrightarrow> m = length bs)"
  using assms
proof (induction bs arbitrary: k)
  case Nil
  show ?case by (subst framesOf.simps) (simp add: readFramedMedia_def)
next
  case (Cons b bs)
  then have b: "length b \<le> maxMediaFrameSize" by simp
  show ?case
  proof (cases "k < length (framed b)")
    case True
    then have "framesOf (take k (concat (map framed (b # bs)))) = take 0 (b # bs)" using framesOf_torn [OF b True] by simp
    with True show ?thesis by (intro exI [of _ 0]) auto
  next
    case False
    from Cons.IH [of "k - length (framed b)"] Cons.prems obtain m where
      m: "framesOf (take (k - length (framed b)) (concat (map framed bs))) = take m bs"
        "length (concat (map framed bs)) \<le> k - length (framed b) \<longrightarrow> m = length bs" by auto
    from False have "take k (concat (map framed (b # bs))) = framed b @ take (k - length (framed b)) (concat (map framed bs))" by simp
    then have "framesOf (take k (concat (map framed (b # bs)))) = take (Suc m) (b # bs)" using framesOf_framed [OF b] m(1) by simp
    moreover have "length (concat (map framed (b # bs))) \<le> k \<longrightarrow> Suc m = length (b # bs)" using m(2) False by auto
    ultimately show ?thesis by blast
  qed
qed

section \<open>What the media stream delivers\<close>

definition emit :: "string \<Rightarrow> ostream \<Rightarrow> ostream" where
  "emit b s = s\<lparr>os_bytes := os_bytes s @ (case os_room s of None \<Rightarrow> b | Some k \<Rightarrow> take k b),
     os_room := map_option (\<lambda>k. k - length b) (os_room s)\<rparr>"

lemma emit_sel [simp]: "os_closed (emit b s) = os_closed s"
  "os_room (emit b s) = map_option (\<lambda>k. k - length b) (os_room s)"
  by (simp_all add: emit_def)

lemma emit_append: "emit b (emit a s) = emit (a @ b) s"
  by (cases "os_room s") (simp_all add: emit_def)

lemma emit_nil [simp]: "emit [] s = s"
  by (cases "os_room s") (simp_all add: emit_def)

lemma emit_full: "os_room s = Some k \<Longrightarrow> k \<le> length a \<Longrightarrow> emit (a @ b) s = emit a s"
  by (simp add: emit_def)

lemma stream_write_emit: "\<not> os_closed s \<Longrightarrow> stream_write b s = (case os_room s of None \<Rightarrow> True | Some k \<Rightarrow> length b \<le> k, emit b s)"
  by (auto simp: stream_write_def emit_def split: option.splits)

lemma write_framed_emit:
  assumes "\<not> os_closed s"
  shows "snd (writeFramedMedia b s) = (if length b \<le> maxMediaFrameSize then emit (framed b) s else s)"
proof (cases "os_room s")
  case None
  then show ?thesis using assms by (simp add: writeFramedMedia_def stream_write_emit framed_def emit_append)
next
  case (Some k)
  show ?thesis
  proof (cases "length (putUint16 (length b)) \<le> k")
    case True
    then show ?thesis using Some assms by (simp add: writeFramedMedia_def stream_write_emit framed_def emit_append)
  next
    case False
    then have "emit (framed b) s = emit (putUint16 (length b)) s" using emit_full [OF Some] by (simp add: framed_def)
    then show ?thesis using False Some assms by (simp add: writeFramedMedia_def stream_write_emit)
  qed
qed

text \<open>The send pump until the queue is empty.\<close>

definition pump_queue :: "Transport \<Rightarrow> Transport" where
  "pump_queue t = ((\<lambda>t. snd (sendPump_step True t)) ^^ length (ch_buf (tr_sendCh t))) t"

definition wire :: "string list \<Rightarrow> string" where
  "wire bs = concat (map framed (filter (\<lambda>b. length b \<le> maxMediaFrameSize) bs))"

lemma pump_queue_stream:
  assumes "tr_dconn t = None" and "tr_outMedia t = Some s" and "\<not> os_closed s"
  shows "tr_outMedia (pump_queue t) = Some (emit (wire (ch_buf (tr_sendCh t))) s)"
proof -
  have "tr_outMedia (((\<lambda>t. snd (sendPump_step True t)) ^^ length bs) t) = Some (emit (wire bs) s)"
    if "ch_buf (tr_sendCh t) = bs" "tr_dconn t = None" "tr_outMedia t = Some s" "\<not> os_closed s" for bs t s
    using that
  proof (induction bs arbitrary: t s)
    case (Cons b bs)
    let ?s = "snd (writeFramedMedia b s)"
    have st: "snd (sendPump_step True t) = t\<lparr>tr_sendCh := (tr_sendCh t)\<lparr>ch_buf := bs\<rparr>, tr_outMedia := Some ?s\<rparr>"
      using Cons.prems by (simp add: sendPump_step_def recv_nb_def Let_def split: prod.split)
    have s: "?s = (if length b \<le> maxMediaFrameSize then emit (framed b) s else s)" using write_framed_emit Cons.prems(4) .
    have "tr_outMedia (((\<lambda>t. snd (sendPump_step True t)) ^^ length bs) (snd (sendPump_step True t))) = Some (emit (wire bs) ?s)"
      by (rule Cons.IH) (use Cons.prems s in \<open>auto simp: st\<close>)
    moreover have "emit (wire bs) ?s = emit (wire (b # bs)) s" using s by (simp add: wire_def emit_append)
    ultimately show ?case by (simp add: funpow_Suc_right del: funpow.simps(2))
  qed (simp add: wire_def)
  with assms show ?thesis by (simp add: pump_queue_def)
qed

definition lastn :: "nat \<Rightarrow> 'a list \<Rightarrow> 'a list" where
  "lastn n xs = drop (length xs - n) xs"

lemma lastn_id: "length xs \<le> n \<Longrightarrow> lastn n xs = xs"
  by (simp add: lastn_def)

lemma lastn_append: "lastn n (lastn n xs @ ys) = lastn n (xs @ ys)"
  by (cases "length xs \<le> n") (auto simp: lastn_def add.commute)

lemma deliverRecv_buf:
  assumes "chan_ok n (tr_recvCh t)" and "0 < n"
  shows "chan_ok n (tr_recvCh (deliverRecv b t)) \<and> ch_buf (tr_recvCh (deliverRecv b t)) = lastn n (ch_buf (tr_recvCh t) @ [b])"
  using assms by (cases "ch_buf (tr_recvCh t)")
    (auto simp: deliverRecv_def chan_ok_def send_nb_def recv_nb_def ch_full_def lastn_def Suc_diff_le)

lemma deliver_run:
  assumes "chan_ok n (tr_recvCh t)" and "0 < n"
  shows "chan_ok n (tr_recvCh (fold deliverRecv bs t)) \<and> ch_buf (tr_recvCh (fold deliverRecv bs t)) = lastn n (ch_buf (tr_recvCh t) @ bs)"
  using assms
proof (induction bs arbitrary: t)
  case Nil
  then show ?case by (simp add: chan_ok_def lastn_id)
next
  case (Cons b bs)
  from deliverRecv_buf [OF Cons.prems] have d: "chan_ok n (tr_recvCh (deliverRecv b t))"
    "ch_buf (tr_recvCh (deliverRecv b t)) = lastn n (ch_buf (tr_recvCh t) @ [b])" by auto
  from Cons.IH [OF d(1) Cons.prems(2)] d(2) show ?case by (simp add: lastn_append)
qed

text \<open>C39: The reliable media path. Whatever is queued for sending, once the pump has drained it into the
  stream and the peer has read what arrived, the peer's receive queue holds the latest 16 frames of its old
  queue followed by the queued frames in order, frames above 1500 bytes left out. When the stream breaks
  after any number of bytes, only a prefix of whole frames arrives: a torn frame is never delivered.\<close>

theorem media_stream_delivers:
  fixes t u :: Transport
  assumes "tr_dconn t = None" and "tr_outMedia t = Some s" and "\<not> os_closed s" and "os_bytes s = []"
    and "chan_ok mediaRecvCap (tr_recvCh u)"
  shows "\<exists>m. ch_buf (tr_recvCh (recvPumpStream (os_bytes (the (tr_outMedia (pump_queue t)))) u))
        = lastn 16 (ch_buf (tr_recvCh u) @ take m (filter (\<lambda>b. length b \<le> 1500) (ch_buf (tr_sendCh t))))
      \<and> (os_room s = None \<longrightarrow> m = length (ch_buf (tr_sendCh t)))"
proof -
  let ?q = "ch_buf (tr_sendCh t)"
  let ?fs = "filter (\<lambda>b. length b \<le> maxMediaFrameSize) ?q"
  let ?k = "case os_room s of None \<Rightarrow> length (wire ?q) | Some k \<Rightarrow> k"
  have b: "os_bytes (the (tr_outMedia (pump_queue t))) = take ?k (concat (map framed ?fs))"
    using pump_queue_stream [OF assms(1-3)] assms(4) by (simp add: emit_def wire_def split: option.split)
  obtain m where m: "framesOf (take ?k (concat (map framed ?fs))) = take m ?fs"
    "length (concat (map framed ?fs)) \<le> ?k \<longrightarrow> m = length ?fs" using framesOf_prefix [of ?fs ?k] by auto
  have r: "ch_buf (tr_recvCh (recvPumpStream (os_bytes (the (tr_outMedia (pump_queue t)))) u)) = lastn 16 (ch_buf (tr_recvCh u) @ take m ?fs)"
    using deliver_run [OF assms(5), of "take m ?fs"] m(1) unfolding b recvPumpStream_def by (simp add: mediaRecvCap_def)
  show ?thesis
  proof (cases "os_room s")
    case None
    then have "m = length ?fs" using m(2) by (simp add: wire_def)
    then have "take m ?fs = take (length ?q) ?fs" by simp
    with r show ?thesis by (intro exI [of _ "length ?q"]) (simp add: maxMediaFrameSize_def)
  next
    case Some
    with r show ?thesis by (auto simp: maxMediaFrameSize_def)
  qed
qed

definition ex_transport :: "nat option \<Rightarrow> string list \<Rightarrow> Transport" where
  "ex_transport room q = \<lparr>tr_controlCh = make_chan 32, tr_sendCh = \<lparr>ch_cap = 16, ch_buf = q, ch_closed = False\<rparr>,
     tr_recvCh = make_chan 16, tr_dconn = None, tr_outCtrl = \<lparr>os_bytes = [], os_room = None, os_closed = False\<rparr>,
     tr_outMedia = Some \<lparr>os_bytes = [], os_room = room, os_closed = False\<rparr>, tr_closed = False\<rparr>"

theorem media_stream_delivers_witness:
  "ch_buf (tr_recvCh (recvPumpStream (os_bytes (the (tr_outMedia (pump_queue (ex_transport None [''ab'', [], ''c'']))))) (ex_transport None [])))
    = [''ab'', [], ''c'']"
  using media_stream_delivers [of "ex_transport None [''ab'', [], ''c'']" "\<lparr>os_bytes = [], os_room = None, os_closed = False\<rparr>" "ex_transport None []"]
  by (auto simp: ex_transport_def mediaRecvCap_def lastn_def make_chan_def chan_ok_def)

section \<open>Runs of a transport\<close>

text \<open>The callers and goroutines of one transport, interleaved: a capture callback that sends, a round of
  the send pump, a poll of the watcher, a frame from either receive pump, a reader, a control message, a close.\<close>

datatype tr_event =
    TSend string | TPump bool | TAttach "nat option list" | TDeliver string | TRecv bool nat
  | TControl ControlMessage | TClose

datatype tr_out = Accepted string | Refused string | Routed route | Quiet

fun tr_step :: "(ControlMessage \<Rightarrow> string) \<Rightarrow> tr_event \<Rightarrow> Transport \<Rightarrow> tr_out \<times> Transport" where
  "tr_step enc (TSend b) t = (case SendMedia b t of (None, t') \<Rightarrow> (Accepted b, t') | (Some _, t') \<Rightarrow> (Refused b, t'))"
| "tr_step enc (TPump dgOK) t = (case sendPump_step dgOK t of (None, t') \<Rightarrow> (Quiet, t') | (Some r, t') \<Rightarrow> (Routed r, t'))"
| "tr_step enc (TAttach conns) t = (Quiet, snd (tryAttachDatagram conns t))"
| "tr_step enc (TDeliver b) t = (Quiet, deliverRecv b t)"
| "tr_step enc (TRecv ctxDone pick) t = (Quiet, snd (RecvMedia ctxDone pick t))"
| "tr_step enc (TControl m) t = (Quiet, snd (SendControl enc m t))"
| "tr_step enc TClose t = (Quiet, snd (Close_transport (None :: unit option) None t))"

fun tr_run :: "(ControlMessage \<Rightarrow> string) \<Rightarrow> tr_event list \<Rightarrow> Transport \<Rightarrow> tr_out list \<times> Transport" where
  "tr_run enc [] t = ([], t)"
| "tr_run enc (e # es) t =
    (case tr_step enc e t of (o1, t1) \<Rightarrow> case tr_run enc es t1 of (outs, t2) \<Rightarrow> (o1 # outs, t2))"

fun accepted :: "tr_out list \<Rightarrow> string list" where
  "accepted (Accepted b # os) = b # accepted os"
| "accepted (_ # os) = accepted os"
| "accepted [] = []"

fun routes :: "tr_out list \<Rightarrow> route list" where
  "routes (Routed r # os) = r # routes os"
| "routes (_ # os) = routes os"
| "routes [] = []"

fun route_frame :: "route \<Rightarrow> string" where
  "route_frame (ViaDatagram b) = b" | "route_frame (ViaStream b) = b" | "route_frame (Lost b) = b"

fun lost :: "route \<Rightarrow> bool" where
  "lost (Lost _) = True" | "lost _ = False"

lemma RecvMedia_keeps:
  "tr_sendCh (snd (RecvMedia c p t)) = tr_sendCh t" "tr_dconn (snd (RecvMedia c p t)) = tr_dconn t"
  "tr_outMedia (snd (RecvMedia c p t)) = tr_outMedia t"
proof -
  have sub: "r \<in> set (recv_cases c t) \<Longrightarrow> \<exists>ch. snd r = t\<lparr>tr_recvCh := ch\<rparr>" for r
    by (auto simp: recv_cases_def split: prod.splits option.splits if_splits intro: exI [of _ "tr_recvCh t"])
  have "RecvMedia c p t \<in> set (recv_cases c t)" if "recv_cases c t \<noteq> []"
    using that by (simp add: RecvMedia_def Let_def)
  then have "\<exists>ch. snd (RecvMedia c p t) = t\<lparr>tr_recvCh := ch\<rparr>"
    using sub by (cases "recv_cases c t = []") (auto simp: RecvMedia_def Let_def intro: exI [of _ "tr_recvCh t"])
  then show "tr_sendCh (snd (RecvMedia c p t)) = tr_sendCh t" "tr_dconn (snd (RecvMedia c p t)) = tr_dconn t"
    "tr_outMedia (snd (RecvMedia c p t)) = tr_outMedia t" by auto
qed

lemma tr_step_queue:
  assumes "chan_ok mediaSendCap (tr_sendCh t)" and "tr_step enc e t = (o1, t1)"
  shows "chan_ok mediaSendCap (tr_sendCh t1)
    \<and> ch_buf (tr_sendCh t) @ accepted [o1] = map route_frame (routes [o1]) @ ch_buf (tr_sendCh t1)"
  using assms
  by (cases e) (auto simp: SendMedia_def sendPump_step_def tryAttachDatagram_def deliverRecv_def SendControl_def
      Close_transport_def RecvMedia_keeps send_nb_def recv_nb_def chan_ok_def ch_full_def Let_def split: prod.splits option.splits list.splits if_splits)

lemma accepted_Cons: "accepted (o1 # os) = accepted [o1] @ accepted os"
  by (cases o1) auto

lemma routes_Cons: "routes (o1 # os) = routes [o1] @ routes os"
  by (cases o1) auto

lemma tr_run_queue:
  "chan_ok mediaSendCap (tr_sendCh t) \<Longrightarrow> tr_run enc es t = (outs, t') \<Longrightarrow>
    chan_ok mediaSendCap (tr_sendCh t')
    \<and> ch_buf (tr_sendCh t) @ accepted outs = map route_frame (routes outs) @ ch_buf (tr_sendCh t')"
proof (induction es arbitrary: t outs)
  case (Cons e es)
  obtain o1 t1 where s: "tr_step enc e t = (o1, t1)" by fastforce
  obtain os where r: "tr_run enc es t1 = (os, t')" "outs = o1 # os" using Cons.prems(2) s by (auto split: prod.splits)
  note st = tr_step_queue [OF Cons.prems(1) s]
  from st Cons.IH [OF _ r(1)] have "ch_buf (tr_sendCh t1) @ accepted os = map route_frame (routes os) @ ch_buf (tr_sendCh t')"
    "chan_ok mediaSendCap (tr_sendCh t')" by auto
  moreover have "ch_buf (tr_sendCh t) @ accepted outs = map route_frame (routes [o1]) @ ch_buf (tr_sendCh t1) @ accepted os"
    using st accepted_Cons [of o1 os] r(2) by (metis append_assoc)
  ultimately show ?case using routes_Cons [of o1 os] r(2) by simp
qed simp

lemma tr_step_attached:
  assumes "tr_dconn t \<noteq> None" and "tr_step enc e t = (o1, t1)"
  shows "tr_dconn t1 \<noteq> None \<and> map_option os_bytes (tr_outMedia t1) = map_option os_bytes (tr_outMedia t)
    \<and> (\<forall>b. o1 \<noteq> Routed (ViaStream b)) \<and> (e = TPump False \<or> (\<forall>d. e \<noteq> TPump d) \<longrightarrow> list_all lost (routes [o1]))"
  using assms
  by (cases e) (auto simp: SendMedia_def sendPump_step_def tryAttachDatagram_def deliverRecv_def SendControl_def
      Close_transport_def RecvMedia_keeps Let_def option.map_comp comp_def split: prod.splits option.splits if_splits)

lemma tr_step_unattached:
  assumes "tr_dconn t = None" and "tr_step enc e t = (o1, t1)"
  shows "\<forall>b. o1 \<noteq> Routed (ViaDatagram b)"
  using assms
  by (cases e) (auto simp: SendMedia_def sendPump_step_def tryAttachDatagram_def deliverRecv_def SendControl_def
      Close_transport_def Let_def split: prod.splits option.splits if_splits)

lemma tr_run_attached:
  assumes "tr_dconn t \<noteq> None" and "tr_run enc es t = (outs, t')"
  shows "map_option os_bytes (tr_outMedia t') = map_option os_bytes (tr_outMedia t)
    \<and> (\<exists>ys. filter (\<lambda>r. \<not> lost r) (routes outs) = map ViaDatagram ys)
    \<and> ((\<forall>d. TPump d \<in> set es \<longrightarrow> \<not> d) \<longrightarrow> list_all lost (routes outs))"
  using assms
proof (induction es arbitrary: t outs)
  case (Cons e es)
  obtain o1 t1 where s: "tr_step enc e t = (o1, t1)" by fastforce
  obtain os where r: "tr_run enc es t1 = (os, t')" "outs = o1 # os" using Cons.prems(2) s by (auto split: prod.splits)
  note st = tr_step_attached [OF Cons.prems(1) s]
  obtain ys where ih: "map_option os_bytes (tr_outMedia t') = map_option os_bytes (tr_outMedia t1)"
    "filter (\<lambda>r. \<not> lost r) (routes os) = map ViaDatagram ys" "(\<forall>d. TPump d \<in> set es \<longrightarrow> \<not> d) \<longrightarrow> list_all lost (routes os)"
    using Cons.IH [OF _ r(1)] st by blast
  have "\<exists>xs. filter (\<lambda>r. \<not> lost r) (routes [o1]) = map ViaDatagram xs"
  proof (cases o1)
    case (Routed x)
    then show ?thesis using st by (cases x) (auto intro: exI [of _ "[]"] exI [of _ "[_]"])
  qed auto
  then have "\<exists>ys. filter (\<lambda>r. \<not> lost r) (routes outs) = map ViaDatagram ys"
    using ih(2) r(2) routes_Cons [of o1 os] by (metis filter_append map_append)
  moreover have "(\<forall>d. TPump d \<in> set (e # es) \<longrightarrow> \<not> d) \<longrightarrow> list_all lost (routes outs)"
    using ih(3) st r(2) routes_Cons [of o1 os] by auto
  ultimately show ?case using ih(1) st by simp
qed auto

lemma tr_run_paths:
  assumes "tr_run enc es t = (outs, t')"
  shows "\<exists>xs ys. filter (\<lambda>r. \<not> lost r) (routes outs) = map ViaStream xs @ map ViaDatagram ys"
  using assms
proof (induction es arbitrary: t outs)
  case (Cons e es)
  show ?case
  proof (cases "tr_dconn t")
    case None
    obtain o1 t1 where s: "tr_step enc e t = (o1, t1)" by fastforce
    obtain os where r: "tr_run enc es t1 = (os, t')" "outs = o1 # os" using Cons.prems s by (auto split: prod.splits)
    have "\<exists>zs. filter (\<lambda>r. \<not> lost r) (routes [o1]) = map ViaStream zs"
    proof (cases o1)
      case (Routed x)
      then show ?thesis using tr_step_unattached [OF None s] by (cases x) (auto intro: exI [of _ "[]"] exI [of _ "[_]"])
    qed auto
    then show ?thesis using Cons.IH [OF r(1)] r(2) routes_Cons [of o1 os] by (metis append_assoc filter_append map_append)
  next
    case Some
    then show ?thesis using tr_run_attached [OF _ Cons.prems] by (metis append_Nil list.map(1) option.discI)
  qed
qed auto

text \<open>C40: Sending is first in, first out over both paths, under every interleaving of the callers and pumps:
  the frames accepted so far are the frames the pump has taken, in order, followed by those still queued, at
  most 16 of them. The frames that went out are some over the stream and then some over datagrams: an
  upgrade happens once and is never undone.\<close>

theorem send_is_fifo_and_upgrades_once:
  fixes t :: Transport
  assumes "chan_ok mediaSendCap (tr_sendCh t)"
  shows "\<exists>outs t' xs ys. tr_run enc es t = (outs, t')
      \<and> ch_buf (tr_sendCh t) @ accepted outs = map route_frame (routes outs) @ ch_buf (tr_sendCh t')
      \<and> length (ch_buf (tr_sendCh t')) \<le> 16
      \<and> filter (\<lambda>r. \<not> lost r) (routes outs) = map ViaStream xs @ map ViaDatagram ys"
proof -
  obtain outs t' where r: "tr_run enc es t = (outs, t')" by fastforce
  from tr_run_queue [OF assms r] have "length (ch_buf (tr_sendCh t')) \<le> 16" by (simp add: chan_ok_def mediaSendCap_def)
  with tr_run_queue [OF assms r] tr_run_paths [OF r] r show ?thesis by blast
qed

theorem send_is_fifo_and_upgrades_once_witness:
  "\<exists>outs t' xs ys. tr_run (\<lambda>_. []) [TSend ''c'', TPump True, TAttach [None, Some 3], TPump True, TClose] (ex_transport None [''a'', ''b'']) = (outs, t')
      \<and> [''a'', ''b''] @ accepted outs = map route_frame (routes outs) @ ch_buf (tr_sendCh t')
      \<and> length (ch_buf (tr_sendCh t')) \<le> 16
      \<and> filter (\<lambda>r. \<not> lost r) (routes outs) = map ViaStream xs @ map ViaDatagram ys"
  using send_is_fifo_and_upgrades_once [of "ex_transport None [''a'', ''b'']" "\<lambda>_. []" "[TSend ''c'', TPump True, TAttach [None, Some 3], TPump True, TClose]"]
  by (simp add: ex_transport_def chan_ok_def mediaSendCap_def)

text \<open>Once a datagram connection is attached nothing is written to the media stream any more, and when that
  connection stops carrying datagrams every further frame is lost, although the stream is still open. The
  stream is not the fallback its comment promises.\<close>

theorem dead_datagram_path_loses_all:
  fixes t :: Transport
  assumes "tr_dconn t \<noteq> None" and "TPump True \<notin> set es"
  shows "\<exists>outs t'. tr_run enc es t = (outs, t') \<and> list_all lost (routes outs)
      \<and> map_option os_bytes (tr_outMedia t') = map_option os_bytes (tr_outMedia t)"
proof -
  obtain outs t' where r: "tr_run enc es t = (outs, t')" by fastforce
  have "\<forall>d. TPump d \<in> set es \<longrightarrow> \<not> d" using assms(2) by (metis (full_types))
  with tr_run_attached [OF assms(1) r] r show ?thesis by blast
qed

theorem dead_datagram_path_loses_all_witness:
  "\<exists>outs t'. tr_run (\<lambda>_. []) [TPump False, TPump False] ((ex_transport None [''a'', ''b''])\<lparr>tr_dconn := Some 3\<rparr>) = (outs, t')
      \<and> list_all lost (routes outs) \<and> map_option os_bytes (tr_outMedia t') = Some []"
  using dead_datagram_path_loses_all [of "(ex_transport None [''a'', ''b''])\<lparr>tr_dconn := Some 3\<rparr>" "[TPump False, TPump False]" "\<lambda>_. []"]
  by (simp add: ex_transport_def)

section \<open>The control loop closes its channel once\<close>

lemma control_loop_closes_once:
  assumes "waitAndReadControlLoop lns pick inCh (st, t) = (inCh', st', t')" and "ch_closed (tr_controlCh t) \<longleftrightarrow> st = CtrlDone"
  shows "(ch_closed (tr_controlCh t') \<longleftrightarrow> st' = CtrlDone) \<and> (st = CtrlDone \<longrightarrow> t' = t)"
  using assms by (cases "(lns, pick, inCh, st, t)" rule: waitAndReadControlLoop.cases)
    (auto simp: ctrl_finish_def close_chan_def split: prod.splits option.splits if_splits)

section \<open>Streams left over from an earlier call\<close>

text \<open>A media stream that an earlier call left unread shadows the next one. While stream \<open>s1\<close> waits for a
  peer, the stream \<open>s2\<close> the peer opens for its next call is queued behind it, and the new call's transport
  reads \<open>s1\<close>; \<open>s2\<close> stays behind for the call after that.\<close>

theorem stale_stream_shadows_next_call:
  fixes t :: Transport
  assumes "map_of reg (h, AudioMediaProtocol, remote) = Some ch" and "chan_ok 8 ch" and "ch_buf ch = s1 # rest"
    and "length rest < 7" and "\<not> tr_closed t"
  shows "\<exists>reg1 reg2 ch2. registerProto h AudioMediaProtocol remote s2 reg = Some reg1
      \<and> waitAndReadMediaLoop bytes pickClose h remote reg1 t = Some (Some s1, reg2, recvPumpStream (bytes s1) t)
      \<and> map_of reg2 (h, AudioMediaProtocol, remote) = Some ch2 \<and> ch_buf ch2 = rest @ [s2]"
  using assms
  by (auto simp: registerProto_def inboundChan_def waitAndReadMediaLoop_def chan_ok_def ch_full_def send_nb_def recv_nb_def)

theorem stale_stream_shadows_next_call_witness:
  "\<exists>reg1 reg2 ch2. registerProto 0 AudioMediaProtocol ''bob'' 2 [((0, AudioMediaProtocol, ''bob''), \<lparr>ch_cap = 8, ch_buf = [1], ch_closed = False\<rparr>)] = Some reg1
      \<and> waitAndReadMediaLoop (\<lambda>_. []) False 0 ''bob'' reg1 (ex_transport None []) = Some (Some 1, reg2, recvPumpStream [] (ex_transport None []))
      \<and> map_of reg2 (0, AudioMediaProtocol, ''bob'') = Some ch2 \<and> ch_buf ch2 = [2]"
  using stale_stream_shadows_next_call [of "[((0, AudioMediaProtocol, ''bob''), \<lparr>ch_cap = 8, ch_buf = [1], ch_closed = False\<rparr>)]"
      0 "''bob''" "\<lparr>ch_cap = 8, ch_buf = [1], ch_closed = False\<rparr>" 1 "[]" "ex_transport None []" 2 "\<lambda>_. []" False]
  by (simp add: ex_transport_def chan_ok_def)

end
