(* ===== verification/Audio_Pipeline.thy ===== *)
theory Audio_Pipeline
  imports Audio_Jitter Audio_Transport
begin

text \<open>
  \<open>internal/audio/pipeline.go\<close>, \<open>codec.go\<close> and \<open>aec.go\<close>: one call's capture and playback path. libopus, the RTP
  packet format (\<open>pion/rtp\<close>) and the audio devices are parameters: the state of the opus codec has a type of
  its own and is threaded through. The loops are steps: \<open>onCapture\<close> per captured frame, \<open>recvLoop_step\<close> per
  media frame received, \<open>onPull\<close> per frame the sink asks for. \<open>None\<close> is a receive loop stuck in \<open>Push\<close>.
\<close>

section \<open>Codec and echo cancellation\<close>

definition SampleRate :: int where "SampleRate = 48000"
definition FrameSize :: int where "FrameSize = SampleRate * FrameMs div 1000"

record 'c opus =
  op_encode :: "'c \<Rightarrow> pcm \<Rightarrow> string option \<times> 'c"
  op_decode :: "'c \<Rightarrow> string \<Rightarrow> (nat \<times> pcm) option \<times> 'c"
  op_plc :: "'c \<Rightarrow> pcm option \<times> 'c"

definition Encode_opus :: "'c opus \<Rightarrow> pcm \<Rightarrow> 'c \<Rightarrow> string option \<times> 'c" where
  "Encode_opus X xs c = (if int (length xs) \<noteq> FrameSize then (None, c) else op_encode X c xs)"

definition Decode_opus :: "'c opus \<Rightarrow> string option \<Rightarrow> 'c \<Rightarrow> pcm option \<times> 'c" where
  "Decode_opus X pkt c =
    (case pkt of
       None \<Rightarrow> op_plc X c
     | Some b \<Rightarrow>
         (case op_decode X c b of
            (None, c') \<Rightarrow> (None, c')
          | (Some (n, out), c') \<Rightarrow> if int n \<noteq> FrameSize then (None, c') else (Some out, c')))"

definition ProcessCapture :: "pcm \<Rightarrow> pcm" where "ProcessCapture xs = xs"

section \<open>The pipeline\<close>

record Packet =
  pk_Version :: int
  pk_PayloadType :: int
  pk_SequenceNumber :: "16 word"
  pk_Timestamp :: "32 word"
  pk_SSRC :: "32 word"
  pk_Payload :: string

record rtp =
  rtp_Marshal :: "Packet \<Rightarrow> string option"
  rtp_Unmarshal :: "string \<Rightarrow> Packet option"

definition rtpOpusPayloadType :: int where "rtpOpusPayloadType = 111"

record PipelineConfig =
  pc_deps :: bool
  pc_Bitrate :: int
  pc_JitterTargetMs :: int
  pc_JitterMaxMs :: int

record 'c Pipeline =
  pl_enc :: 'c
  pl_dec :: 'c
  pl_jb :: JitterBuffer
  pl_muted :: bool
  pl_txSeq :: "32 word"
  pl_txTs :: "32 word"
  pl_ssrc :: "32 word"
  pl_pullQ :: "pcm list"
  pl_stats :: Stats

datatype pipeline_error = ErrMissingDependency | ErrEncoder | ErrDecoder

text \<open>\<open>enc\<close> and \<open>dec\<close> are the codec states libopus creates (\<open>None\<close>: it fails), \<open>rnd\<close> the random SSRC.\<close>

definition NewPipeline ::
    "(int \<Rightarrow> 'c option) \<Rightarrow> 'c option \<Rightarrow> 32 word \<Rightarrow> Stats \<Rightarrow> PipelineConfig \<Rightarrow> pipeline_error + 'c Pipeline" where
  "NewPipeline enc dec rnd stats cfg =
    (if \<not> pc_deps cfg then Inl ErrMissingDependency
     else
       let bitrate = (if pc_Bitrate cfg = 0 then 48000 else pc_Bitrate cfg);
           target = (if pc_JitterTargetMs cfg = 0 then 60 else pc_JitterTargetMs cfg);
           cap = (if pc_JitterMaxMs cfg = 0 then 200 else pc_JitterMaxMs cfg)
       in (case enc bitrate of
             None \<Rightarrow> Inl ErrEncoder
           | Some e \<Rightarrow>
               (case dec of
                  None \<Rightarrow> Inl ErrDecoder
                | Some d \<Rightarrow>
                    Inr \<lparr>pl_enc = e, pl_dec = d, pl_jb = NewJitterBuffer target cap, pl_muted = False, pl_txSeq = 0,
                      pl_txTs = 0, pl_ssrc = rnd, pl_pullQ = [], pl_stats = SetEncoderBitrate bitrate stats\<rparr>)))"

definition pipeline_SetMuted :: "bool \<Rightarrow> 'c Pipeline \<Rightarrow> 'c Pipeline" where
  "pipeline_SetMuted m p = p\<lparr>pl_muted := m, pl_stats := stats_SetMuted m (pl_stats p)\<rparr>"

text \<open>\<open>Start\<close> as the calls it makes on the devices and codecs, in order, deferred calls included; \<open>srcOK\<close> and
  \<open>sinkOK\<close> are what starting the devices answers, and the wait for the context has ended.\<close>

datatype start_call = SourceStart | SourceStop | SinkStart | SinkStop | RecvLoop | EncClose | DecClose

definition Start_pipeline :: "bool \<Rightarrow> bool \<Rightarrow> bool \<times> start_call list" where
  "Start_pipeline srcOK sinkOK =
    (if \<not> srcOK then (False, [SourceStart, DecClose, EncClose])
     else if \<not> sinkOK then (False, [SourceStart, RecvLoop, SinkStart, SourceStop, DecClose, EncClose])
     else (True, [SourceStart, RecvLoop, SinkStart, SinkStop, SourceStop, DecClose, EncClose]))"

definition onCapture :: "'c opus \<Rightarrow> rtp \<Rightarrow> pcm \<Rightarrow> 'c Pipeline \<times> Transport \<Rightarrow> 'c Pipeline \<times> Transport" where
  "onCapture X R xs s =
    (case s of (p, t) \<Rightarrow>
      (let cleaned = ProcessCapture xs in
       if pl_muted p then (p, t)
       else case Encode_opus X cleaned (pl_enc p) of
         (None, e) \<Rightarrow> (p\<lparr>pl_enc := e\<rparr>, t)
       | (Some pkt, e) \<Rightarrow>
           (let seq = pl_txSeq p + 1; ts = pl_txTs p + word_of_int FrameSize;
                p1 = p\<lparr>pl_enc := e, pl_txSeq := seq, pl_txTs := ts\<rparr>;
                packet = \<lparr>pk_Version = 2, pk_PayloadType = rtpOpusPayloadType, pk_SequenceNumber = ucast seq,
                          pk_Timestamp = ts, pk_SSRC = pl_ssrc p, pk_Payload = pkt\<rparr>
            in (case rtp_Marshal R packet of
                  None \<Rightarrow> (p1\<lparr>pl_stats := ObserveTxDropped (pl_stats p1)\<rparr>, t)
                | Some bytes \<Rightarrow>
                    (case SendMedia bytes t of
                       (Some _, t1) \<Rightarrow> (p1\<lparr>pl_stats := ObserveTxDropped (pl_stats p1)\<rparr>, t1)
                     | (None, t1) \<Rightarrow> (p1\<lparr>pl_stats := ObserveTx (length bytes) cleaned (pl_stats p1)\<rparr>, t1))))))"

text \<open>One packet through the jitter buffer: in, then the frame that is due out.\<close>

definition jb_exchange :: "16 word \<Rightarrow> frame \<Rightarrow> JitterBuffer \<Rightarrow> (frame option \<times> JitterBuffer) option" where
  "jb_exchange seq payload jb = map_option (\<lambda>(_, jb1). Pop jb1) (Push seq payload jb)"

definition push_pull :: "pcm \<Rightarrow> pcm list \<Rightarrow> pcm list" where
  "push_pull d q = (if length q \<ge> 4 then tl q else q) @ [d]"

text \<open>The non-blocking look at the control channel; a closed channel gives a message of no type.\<close>

definition drain_control :: "'c Pipeline \<times> Transport \<Rightarrow> 'c Pipeline \<times> Transport" where
  "drain_control s =
    (case s of (p, t) \<Rightarrow>
      (case recv_nb (tr_controlCh t) of
         (None, _) \<Rightarrow> (p, t)
       | (Some m, ch) \<Rightarrow>
           (if cm_Type m = ''mute'' then p\<lparr>pl_stats := SetPeerMuted (cm_Value m) (pl_stats p)\<rparr> else p,
            t\<lparr>tr_controlCh := ch\<rparr>)))"

text \<open>One round of the receive loop on a received frame. The first component is what the decoder was given:
  \<open>None\<close> when the frame was no RTP packet, \<open>Some None\<close> for a concealed gap.\<close>

definition recvLoop_step ::
    "'c opus \<Rightarrow> rtp \<Rightarrow> string \<Rightarrow> 'c Pipeline \<times> Transport \<Rightarrow> (frame option option \<times> 'c Pipeline \<times> Transport) option" where
  "recvLoop_step X R dg s =
    (case s of (p, t) \<Rightarrow>
      (case rtp_Unmarshal R dg of
         None \<Rightarrow> Some (None, p\<lparr>pl_stats := ObserveRxDropped (pl_stats p)\<rparr>, t)
       | Some pkt \<Rightarrow>
           (case jb_exchange (pk_SequenceNumber pkt) (pk_Payload pkt) (pl_jb p) of
              None \<Rightarrow> None
            | Some (opusFrame, jb1) \<Rightarrow>
                (case Decode_opus X opusFrame (pl_dec p) of
                   (None, d) \<Rightarrow>
                     Some (Some opusFrame, p\<lparr>pl_jb := jb1, pl_dec := d, pl_stats := ObserveRxDropped (pl_stats p)\<rparr>, t)
                 | (Some decoded, d) \<Rightarrow>
                     Some (Some opusFrame,
                       drain_control (p\<lparr>pl_jb := jb1, pl_dec := d, pl_pullQ := push_pull decoded (pl_pullQ p),
                         pl_stats := ObserveRx decoded (pl_stats p)\<rparr>, t))))))"

definition onPull :: "'c Pipeline \<Rightarrow> pcm \<times> 'c Pipeline" where
  "onPull p = (case pl_pullQ p of [] \<Rightarrow> (replicate (nat FrameSize) 0, p) | f # fs \<Rightarrow> (f, p\<lparr>pl_pullQ := fs\<rparr>))"

text \<open>The receive loop over the frames that arrive until it is stopped, with what the decoder was given.\<close>

fun recvLoop ::
    "'c opus \<Rightarrow> rtp \<Rightarrow> string list \<Rightarrow> 'c Pipeline \<times> Transport \<Rightarrow> (frame option list \<times> 'c Pipeline \<times> Transport) option" where
  "recvLoop X R [] s = Some ([], s)"
| "recvLoop X R (dg # dgs) s =
    (case recvLoop_step X R dg s of
       None \<Rightarrow> None
     | Some (x, s1) \<Rightarrow>
         (case recvLoop X R dgs s1 of
            None \<Rightarrow> None
          | Some (xs, s2) \<Rightarrow> Some ((case x of None \<Rightarrow> [] | Some f \<Rightarrow> [f]) @ xs, s2)))"

section \<open>Playout\<close>

text \<open>
  Packets are numbered by integers; \<open>f i\<close> is the payload of packet \<open>i\<close>. After some packets the buffer
  holds exactly the packets between the playout point \<open>N\<close> and the newest \<open>K\<close> (excluded).
\<close>

definition seg :: "(int \<Rightarrow> frame) \<Rightarrow> int \<Rightarrow> int \<Rightarrow> int \<rightharpoonup> frame" where
  "seg f N K = (\<lambda>i. if N \<le> i \<and> i < K then Some (f i) else None)"

definition holds :: "(int \<Rightarrow> frame) \<Rightarrow> int \<Rightarrow> int \<Rightarrow> int \<Rightarrow> int \<Rightarrow> bool \<Rightarrow> JitterBuffer \<Rightarrow> bool" where
  "holds f T cap N K primed jb \<longleftrightarrow> jb_inv jb \<and> jb_hasNext jb \<and> jb_nextOut jb = of_int N \<and> window (jb_frames jb) N = seg f N K
     \<and> jb_targetFrames jb = T \<and> jb_maxFrames jb = cap \<and> jb_primed jb = primed"

lemma dom_seg: "dom (seg f N K) = {N..<K}"
  by (auto simp: seg_def dom_def)

lemma holds_length:
  assumes "holds f T cap N K primed jb"
  shows "int (length (jb_frames jb)) = max 0 (K - N)"
proof -
  have "ahead (jb_frames jb) (of_int N)" using assms by (auto simp: holds_def jb_inv_def ahead_def)
  from window_card [OF this] show ?thesis using assms by (simp add: holds_def dom_seg)
qed

lemma seg_insert: "N \<le> i \<Longrightarrow> i \<le> K \<Longrightarrow> (seg f N K)(i \<mapsto> f i) = seg f N (max K (i + 1))"
  by (auto simp: seg_def fun_eq_iff)

lemma Push_sel:
  assumes "Push s p jb = Some (ok, jb')"
  shows "jb_targetFrames jb' = jb_targetFrames jb" "jb_primed jb' = jb_primed jb" "jb_hasNext jb'"
proof -
  have loop: "jb_targetFrames b' = jb_targetFrames b \<and> jb_primed b' = jb_primed b \<and> jb_hasNext b' = jb_hasNext b"
    if "evict_loop b = Some b'" for b b'
  proof (rule evict_loop.raw_induct [OF _ that, of "\<lambda>b b'. jb_targetFrames b' = jb_targetFrames b \<and> jb_primed b' = jb_primed b \<and> jb_hasNext b' = jb_hasNext b"])
    fix loop b b'
    assume "\<And>b b'. loop b = Some b' \<Longrightarrow> jb_targetFrames b' = jb_targetFrames b \<and> jb_primed b' = jb_primed b \<and> jb_hasNext b' = jb_hasNext b"
      and "(if int (length (jb_frames b)) > jb_maxFrames b then loop (evict_one b) else Some b) = Some b'"
    then show "jb_targetFrames b' = jb_targetFrames b \<and> jb_primed b' = jb_primed b \<and> jb_hasNext b' = jb_hasNext b"
      by (cases "int (length (jb_frames b)) > jb_maxFrames b") auto
  qed
  have "jb_targetFrames jb' = jb_targetFrames jb \<and> jb_primed jb' = jb_primed jb \<and> jb_hasNext jb'"
  proof (cases "jb_hasNext jb \<and> seqDelta (jb_nextOut jb) s < 0")
    case True
    then show ?thesis using Push_late [of jb s p] assms by auto
  next
    case False
    have "evict_loop (pushed s p jb) = Some jb'" using Push_accepted [OF False, of p] assms by (cases "evict_loop (pushed s p jb)") auto
    from loop [OF this] show ?thesis by simp
  qed
  then show "jb_targetFrames jb' = jb_targetFrames jb" "jb_primed jb' = jb_primed jb" "jb_hasNext jb'" by auto
qed

text \<open>A packet that is new by one, a repetition or late: it is filed or ignored, never evicts.\<close>

lemma push_holds:
  assumes h: "holds f T cap N K primed jb" and i: "N - 32768 \<le> i" "i \<le> K" "i < N + 32768"
    and cap: "1 \<le> cap" "max K (i + 1) - N \<le> cap"
  shows "\<exists>ok jb'. Push (of_int i) (f i) jb = Some (ok, jb') \<and> holds f T cap N (max K (i + 1)) primed jb'"
proof -
  let ?K = "max K (i + 1)"
  from h cap(1) have a: "jb_inv jb" "1 \<le> jb_maxFrames jb" "jb_hasNext jb" "jb_nextOut jb = of_int N"
    and w: "window (jb_frames jb) N = seg f N K" by (auto simp: holds_def)
  obtain ok jb' N' where p: "Push (of_int i) (f i) jb = Some (ok, jb')" "jb_nextOut jb' = of_int N'"
    "spec_push cap i (f i) (N, seg f N K) = (ok, N', window (jb_frames jb') N')"
    using Push_refines [OF a i(1) i(3), of "f i"] h w by (auto simp: holds_def)
  have fits: "\<not> int (card {N..<?K}) > cap" using cap by auto
  have sp: "spec_push cap i (f i) (N, seg f N K) = (N \<le> i, N, seg f N ?K)"
  proof (cases "i < N")
    case True
    then have "seg f N ?K = seg f N K" by (auto simp: seg_def fun_eq_iff)
    with True show ?thesis by (simp add: spec_push_def)
  next
    case False
    then have "(seg f N K)(i \<mapsto> f i) = seg f N ?K" using i(2) by (intro seg_insert) auto
    moreover have "\<not> int (card (dom (seg f N ?K))) > cap" using fits by (simp add: dom_seg)
    ultimately show ?thesis using False by (simp add: spec_push_def Let_def del: dom_fun_upd)
  qed
  moreover have "jb_inv jb' \<and> jb_maxFrames jb' = cap" using Push_ok [OF a(1), of "of_int i" "f i"] p(1) h by (auto simp: holds_def)
  ultimately show ?thesis using p Push_sel [OF p(1)] h by (auto simp: holds_def)
qed

lemma pop_holds:
  assumes h: "holds f T cap N K primed jb"
  shows "if primed \<or> T \<le> max 0 (K - N)
    then fst (Pop jb) = (if N < K then Some (f N) else None) \<and> holds f T cap (N + 1) K True (snd (Pop jb))
    else Pop jb = (None, jb)"
proof -
  from h have a: "jb_inv jb" "jb_hasNext jb" "jb_nextOut jb = of_int N" and w: "window (jb_frames jb) N = seg f N K"
    by (auto simp: holds_def)
  have r: "ready jb \<longleftrightarrow> primed \<or> T \<le> max 0 (K - N)" using holds_length [OF h] h by (simp add: ready_def holds_def)
  show ?thesis
  proof (cases "ready jb")
    case True
    have s: "spec_pop True (N, seg f N K) = (if N < K then Some (f N) else None, N + 1, seg f (N + 1) K)"
      by (auto simp: spec_pop_def seg_def fun_eq_iff)
    obtain N' where p: "jb_nextOut (snd (Pop jb)) = of_int N'" "N' = N + 1" "fst (Pop jb) = (if N < K then Some (f N) else None)"
      "window (jb_frames (snd (Pop jb))) N' = seg f (N + 1) K"
      using Pop_refines [OF a] True w s by auto
    have "jb_hasNext (snd (Pop jb)) \<and> jb_primed (snd (Pop jb)) \<and> jb_targetFrames (snd (Pop jb)) = T"
      using True a h by (auto simp: Pop_def ready_def holds_def Let_def split: option.splits)
    with p True r Pop_ok [OF a(1)] h show ?thesis by (auto simp: holds_def)
  next
    case False
    with a r show ?thesis by (auto simp: Pop_def ready_def)
  qed
qed

lemma exchange_holds:
  assumes h: "holds f T cap N K primed jb" and i: "N - 32768 \<le> i" "i \<le> K" "i < N + 32768"
    and cap: "1 \<le> cap" "max K (i + 1) - N \<le> cap"
  shows "if primed \<or> T \<le> max 0 (max K (i + 1) - N)
    then \<exists>jb'. jb_exchange (of_int i) (f i) jb = Some (if N < max K (i + 1) then Some (f N) else None, jb')
      \<and> holds f T cap (N + 1) (max K (i + 1)) True jb'
    else \<exists>jb'. jb_exchange (of_int i) (f i) jb = Some (None, jb') \<and> holds f T cap N (max K (i + 1)) False jb'"
proof -
  from push_holds [OF assms] obtain ok jb1 where
    p: "Push (of_int i) (f i) jb = Some (ok, jb1)" "holds f T cap N (max K (i + 1)) primed jb1" by blast
  have e: "jb_exchange (of_int i) (f i) jb = Some (fst (Pop jb1), snd (Pop jb1))" using p(1) by (simp add: jb_exchange_def)
  show ?thesis using pop_holds [OF p(2)] e p(2) by (cases "Pop jb1") (auto split: if_splits)
qed

text \<open>The packets as they come off the network, and the loop of exchanges they cause.\<close>

fun exchanges :: "(16 word \<times> frame) list \<Rightarrow> JitterBuffer \<Rightarrow> (frame option list \<times> JitterBuffer) option" where
  "exchanges [] jb = Some ([], jb)"
| "exchanges ((s, p) # ps) jb =
    (case jb_exchange s p jb of
       None \<Rightarrow> None
     | Some (x, jb1) \<Rightarrow> map_option (\<lambda>(xs, jb2). (x # xs, jb2)) (exchanges ps jb1))"

lemma exchanges_append:
  "exchanges (ps @ qs) jb =
    (case exchanges ps jb of None \<Rightarrow> None | Some (xs, jb1) \<Rightarrow> map_option (\<lambda>(ys, jb2). (xs @ ys, jb2)) (exchanges qs jb1))"
  by (induction ps jb rule: exchanges.induct) (auto simp: map_option_case split: option.splits)

lemma drain_control_jb: "pl_jb (fst (drain_control s)) = pl_jb (fst s)"
  by (auto simp: drain_control_def split: prod.splits option.splits)

lemma recvLoop_step_jb:
  assumes "rtp_Unmarshal R dg = Some pkt" and "jb_exchange (pk_SequenceNumber pkt) (pk_Payload pkt) (pl_jb p) = Some (x, jb1)"
  shows "\<exists>p1 t1. recvLoop_step X R dg (p, t) = Some (Some x, p1, t1) \<and> pl_jb p1 = jb1"
proof (cases "Decode_opus X x (pl_dec p)")
  case (Pair r d)
  show ?thesis
  proof (cases r)
    case None
    with Pair assms show ?thesis by (simp add: recvLoop_step_def)
  next
    case (Some decoded)
    let ?s = "(p\<lparr>pl_jb := jb1, pl_dec := d, pl_pullQ := push_pull decoded (pl_pullQ p), pl_stats := ObserveRx decoded (pl_stats p)\<rparr>, t)"
    have "recvLoop_step X R dg (p, t) = Some (Some x, drain_control ?s)" using Some Pair assms by (simp add: recvLoop_step_def)
    then show ?thesis using drain_control_jb [of ?s] by (cases "drain_control ?s") auto
  qed
qed

lemma recvLoop_exchanges:
  assumes "\<forall>dg\<in>set dgs. rtp_Unmarshal R dg \<noteq> None"
    and "exchanges (map (\<lambda>dg. (pk_SequenceNumber (the (rtp_Unmarshal R dg)), pk_Payload (the (rtp_Unmarshal R dg)))) dgs) (pl_jb p) = Some (xs, jb')"
  shows "\<exists>p' t'. recvLoop X R dgs (p, t) = Some (xs, p', t') \<and> pl_jb p' = jb'"
  using assms
proof (induction dgs arbitrary: p t xs)
  case (Cons dg dgs)
  then obtain pkt where u: "rtp_Unmarshal R dg = Some pkt" by auto
  obtain x jb1 ys where e: "jb_exchange (pk_SequenceNumber pkt) (pk_Payload pkt) (pl_jb p) = Some (x, jb1)"
    and r: "exchanges (map (\<lambda>dg. (pk_SequenceNumber (the (rtp_Unmarshal R dg)), pk_Payload (the (rtp_Unmarshal R dg)))) dgs) jb1 = Some (ys, jb')"
    and xs: "xs = x # ys"
    using Cons.prems(2) u by (auto split: option.splits)
  obtain p1 t1 where s: "recvLoop_step X R dg (p, t) = Some (Some x, p1, t1)" "pl_jb p1 = jb1"
    using recvLoop_step_jb [OF u e] by blast
  from Cons.IH [of p1 ys t1] Cons.prems(1) r s(2) obtain p' t' where "recvLoop X R dgs (p1, t1) = Some (ys, p', t')" "pl_jb p' = jb'"
    by auto
  with s(1) xs show ?case by simp
qed simp

lemma exchange_fresh:
  assumes "\<not> jb_hasNext jb"
  shows "jb_exchange s p jb = jb_exchange s p (jb\<lparr>jb_nextOut := s, jb_hasNext := True\<rparr>)"
proof -
  have "pushed s p jb = pushed s p (jb\<lparr>jb_nextOut := s, jb_hasNext := True\<rparr>)" using assms by (simp add: pushed_def)
  then show ?thesis using assms Push_accepted [of jb s p] Push_accepted [of "jb\<lparr>jb_nextOut := s, jb_hasNext := True\<rparr>" s p]
    by (simp add: jb_exchange_def)
qed

definition started :: "int \<Rightarrow> int \<Rightarrow> int \<Rightarrow> JitterBuffer" where
  "started targetMs maxMs i0 = (NewJitterBuffer targetMs maxMs)\<lparr>jb_nextOut := of_int i0, jb_hasNext := True\<rparr>"

lemma started_holds:
  assumes "0 \<le> targetMs" "0 \<le> maxMs"
  shows "holds f (targetMs div 20) (maxMs div 20) i0 i0 False (started targetMs maxMs i0)"
  using assms
  by (auto simp: holds_def started_def NewJitterBuffer_def jb_inv_def FrameMs_def window_def seg_def fun_eq_iff signed_divide_int_def sgn_if)

lemma exchanges_started:
  "idx 0 = i0 \<Longrightarrow> exchanges (map (\<lambda>j. (of_int (idx j), f (idx j))) [0..<Suc n]) (NewJitterBuffer targetMs maxMs)
    = exchanges (map (\<lambda>j. (of_int (idx j), f (idx j))) [0..<Suc n]) (started targetMs maxMs i0)"
  using exchange_fresh [of "NewJitterBuffer targetMs maxMs" "of_int i0" "f i0"]
  by (simp add: upt_conv_Cons started_def NewJitterBuffer_def del: upt_Suc)

definition arrives :: "rtp \<Rightarrow> string list \<Rightarrow> (nat \<Rightarrow> int) \<Rightarrow> (int \<Rightarrow> frame) \<Rightarrow> bool" where
  "arrives R dgs idx f \<longleftrightarrow> (\<forall>j<length dgs. \<exists>pkt. rtp_Unmarshal R (dgs ! j) = Some pkt
     \<and> pk_SequenceNumber pkt = of_int (idx j) \<and> pk_Payload pkt = f (idx j))"

text \<open>The receive loop on packets whose numbers are known is the loop of exchanges on those numbers.\<close>

lemma recvLoop_arrives:
  assumes "arrives R dgs idx f" and "pl_jb p = NewJitterBuffer targetMs maxMs" and "idx 0 = i0"
    and "exchanges (map (\<lambda>j. (of_int (idx j), f (idx j))) [0..<length dgs]) (started targetMs maxMs i0) = Some (xs, jb')"
  shows "\<exists>p' t'. recvLoop X R dgs (p, t) = Some (xs, p', t')"
proof -
  have m: "map (\<lambda>dg. (pk_SequenceNumber (the (rtp_Unmarshal R dg)), pk_Payload (the (rtp_Unmarshal R dg)))) dgs
      = map (\<lambda>j. (of_int (idx j), f (idx j))) [0..<length dgs]"
    using assms(1) by (intro nth_equalityI) (auto simp: arrives_def)
  have u: "\<forall>dg\<in>set dgs. rtp_Unmarshal R dg \<noteq> None" using assms(1) by (fastforce simp: arrives_def in_set_conv_nth)
  show ?thesis
  proof (cases dgs)
    case Nil
    with assms(4) show ?thesis by simp
  next
    case (Cons dg ds)
    then have "exchanges (map (\<lambda>j. (of_int (idx j), f (idx j))) [0..<length dgs]) (pl_jb p) = Some (xs, jb')"
      using exchanges_started [of idx i0 f "length ds" targetMs maxMs, OF assms(3)] assms(2,4) by simp
    with m recvLoop_exchanges [OF u, of p xs jb' X t] show ?thesis by auto
  qed
qed

text \<open>One more packet at the end of a run whose state is known.\<close>

lemma exchanges_snoc:
  assumes "exchanges (map g [0..<n]) jb = Some (xs, jb1)" and "jb_exchange (fst (g n)) (snd (g n)) jb1 = Some (x, jb2)"
  shows "exchanges (map g [0..<Suc n]) jb = Some (xs @ [x], jb2)"
  using assms by (cases "g n") (simp add: exchanges_append)

lemma in_order_run:
  assumes T: "1 \<le> T" "T \<le> cap" "T \<le> 32768" and h: "holds f T cap i0 i0 False jb"
  shows "\<exists>jb'. exchanges (map (\<lambda>j. (of_int (i0 + int j), f (i0 + int j))) [0..<n]) jb
      = Some (map (\<lambda>j. if int j < T - 1 then None else Some (f (i0 + int j - (T - 1)))) [0..<n], jb')
    \<and> holds f T cap (i0 + max 0 (int n - (T - 1))) (i0 + int n) (T \<le> int n) jb'"
proof (induction n)
  case 0
  with T h show ?case by simp
next
  case (Suc n)
  let ?N = "i0 + max 0 (int n - (T - 1))" and ?K = "i0 + int n"
  from Suc obtain jb1 where e: "exchanges (map (\<lambda>j. (of_int (i0 + int j), f (i0 + int j))) [0..<n]) jb
      = Some (map (\<lambda>j. if int j < T - 1 then None else Some (f (i0 + int j - (T - 1)))) [0..<n], jb1)"
    and hj: "holds f T cap ?N ?K (T \<le> int n) jb1" by blast
  have mx: "max ?K (?K + 1) = ?K + 1" by simp
  have "\<exists>jb2. jb_exchange (of_int ?K) (f ?K) jb1 = Some (if int n < T - 1 then None else Some (f (i0 + int n - (T - 1))), jb2)
      \<and> holds f T cap (i0 + max 0 (int (Suc n) - (T - 1))) (i0 + int (Suc n)) (T \<le> int (Suc n)) jb2"
  proof (cases "int n < T - 1")
    case True
    then have N: "?N = i0" "max 0 (int (Suc n) - (T - 1)) = 0" "\<not> T \<le> int n" "\<not> T \<le> int (Suc n)" by auto
    have "\<exists>jb'. jb_exchange (of_int ?K) (f ?K) jb1 = Some (None, jb') \<and> holds f T cap i0 (?K + 1) False jb'"
      using exchange_holds [OF hj, of ?K] T True unfolding mx N by (auto split: if_splits)
    then show ?thesis using True N by (auto simp: algebra_simps)
  next
    case False
    then have N: "?N = i0 + int n - (T - 1)" "i0 + max 0 (int (Suc n) - (T - 1)) = ?N + 1" "T \<le> int (Suc n)" by auto
    have "\<exists>jb'. jb_exchange (of_int ?K) (f ?K) jb1 = Some (Some (f ?N), jb') \<and> holds f T cap (?N + 1) (?K + 1) True jb'"
      using exchange_holds [OF hj, of ?K] T False unfolding mx N(1) by (auto split: if_splits)
    then show ?thesis using False N by (auto simp: algebra_simps)
  qed
  then obtain jb2 where x: "jb_exchange (of_int ?K) (f ?K) jb1 = Some (if int n < T - 1 then None else Some (f (i0 + int n - (T - 1))), jb2)"
    and h2: "holds f T cap (i0 + max 0 (int (Suc n) - (T - 1))) (i0 + int (Suc n)) (T \<le> int (Suc n)) jb2" by blast
  have "exchanges (map (\<lambda>j. (of_int (i0 + int j), f (i0 + int j))) [0..<Suc n]) jb
      = Some (map (\<lambda>j. if int j < T - 1 then None else Some (f (i0 + int j - (T - 1)))) [0..<n]
          @ [if int n < T - 1 then None else Some (f (i0 + int n - (T - 1)))], jb2)"
    by (rule exchanges_snoc [OF e]) (use x in simp)
  with h2 show ?case by auto
qed


definition ex_rtp :: rtp where
  "ex_rtp = \<lparr>rtp_Marshal = (\<lambda>k. Some (pk_Payload k)),
     rtp_Unmarshal = (\<lambda>b. Some \<lparr>pk_Version = 2, pk_PayloadType = 111, pk_SequenceNumber = of_nat (length b),
       pk_Timestamp = 0, pk_SSRC = 0, pk_Payload = b\<rparr>)\<rparr>"

definition ex_opus :: "unit opus" where
  "ex_opus = \<lparr>op_encode = (\<lambda>c _. (Some [], c)), op_decode = (\<lambda>c _. (Some (960, []), c)), op_plc = (\<lambda>c. (Some [], c))\<rparr>"

definition ex_pipeline :: "unit Pipeline" where
  "ex_pipeline = \<lparr>pl_enc = (), pl_dec = (), pl_jb = NewJitterBuffer 60 200, pl_muted = False, pl_txSeq = 0, pl_txTs = 0,
     pl_ssrc = 0, pl_pullQ = [], pl_stats = NewStatsCore\<rparr>"

lemma ex_unmarshal:
  "rtp_Unmarshal ex_rtp b = Some \<lparr>pk_Version = 2, pk_PayloadType = 111, pk_SequenceNumber = of_nat (length b),
       pk_Timestamp = 0, pk_SSRC = 0, pk_Payload = b\<rparr>"
  by (simp add: ex_rtp_def)

lemma arrives_map:
  "\<forall>j<n. 0 \<le> idx j \<Longrightarrow> arrives ex_rtp (map (\<lambda>j. replicate (nat (idx j)) CHR ''x'') [0..<n]) idx (\<lambda>i. replicate (nat i) CHR ''x'')"
  by (simp add: arrives_def ex_unmarshal)


text \<open>Three packets, the third three times more, then the rest in order.\<close>

definition dup_idx :: "int \<Rightarrow> nat \<Rightarrow> int" where
  "dup_idx i0 j = (if j < 3 then i0 + int j else if j < 6 then i0 + 2 else i0 + int j - 3)"

definition dup_pkt :: "(int \<Rightarrow> frame) \<Rightarrow> int \<Rightarrow> nat \<Rightarrow> 16 word \<times> frame" where
  "dup_pkt f i0 j = (of_int (dup_idx i0 j), f (dup_idx i0 j))"

lemma dup_prefix:
  assumes h0: "holds f 3 10 i0 i0 False jb0"
  shows "\<exists>jb. exchanges (map (dup_pkt f i0) [0..<6]) jb0 = Some ([None, None, Some (f i0), Some (f (i0 + 1)), Some (f (i0 + 2)), None], jb)
      \<and> holds f 3 10 (i0 + 4) (i0 + 3) True jb"
proof -
  note step = exchange_holds [where T = 3 and cap = 10 and f = f]
  obtain b1 where b1: "jb_exchange (of_int i0) (f i0) jb0 = Some (None, b1)" "holds f 3 10 i0 (i0 + 1) False b1"
    using step [OF h0, of i0] by auto
  obtain b2 where b2: "jb_exchange (of_int (i0 + 1)) (f (i0 + 1)) b1 = Some (None, b2)" "holds f 3 10 i0 (i0 + 2) False b2"
    using step [OF b1(2), of "i0 + 1"] by (auto simp: max_def add.commute)
  obtain b3 where b3: "jb_exchange (of_int (i0 + 2)) (f (i0 + 2)) b2 = Some (Some (f i0), b3)" "holds f 3 10 (i0 + 1) (i0 + 3) True b3"
    using step [OF b2(2), of "i0 + 2"] by (auto simp: max_def add.commute)
  obtain b4 where b4: "jb_exchange (of_int (i0 + 2)) (f (i0 + 2)) b3 = Some (Some (f (i0 + 1)), b4)" "holds f 3 10 (i0 + 2) (i0 + 3) True b4"
    using step [OF b3(2), of "i0 + 2"] by (auto simp: max_def add.commute)
  obtain b5 where b5: "jb_exchange (of_int (i0 + 2)) (f (i0 + 2)) b4 = Some (Some (f (i0 + 2)), b5)" "holds f 3 10 (i0 + 3) (i0 + 3) True b5"
    using step [OF b4(2), of "i0 + 2"] by (auto simp: max_def add.commute)
  obtain b6 where b6: "jb_exchange (of_int (i0 + 2)) (f (i0 + 2)) b5 = Some (None, b6)" "holds f 3 10 (i0 + 4) (i0 + 3) True b6"
    using step [OF b5(2), of "i0 + 2"] by (auto simp: max_def add.commute)
  from b1 b2 b3 b4 b5 b6 show ?thesis by (simp add: upt_rec dup_pkt_def dup_idx_def)
qed

lemma dup_run:
  assumes h0: "holds f 3 10 i0 i0 False jb0"
  shows "\<exists>jb. exchanges (map (dup_pkt f i0) [0..<6 + n]) jb0
        = Some ([None, None, Some (f i0), Some (f (i0 + 1)), Some (f (i0 + 2))] @ replicate (Suc n) None, jb)
      \<and> holds f 3 10 (i0 + 4 + int n) (i0 + 3 + int n) True jb"
proof (induction n)
  case 0
  with dup_prefix [OF h0] show ?case by simp
next
  case (Suc n)
  then obtain jb where e: "exchanges (map (dup_pkt f i0) [0..<6 + n]) jb0
      = Some ([None, None, Some (f i0), Some (f (i0 + 1)), Some (f (i0 + 2))] @ replicate (Suc n) None, jb)"
    and h: "holds f 3 10 (i0 + 4 + int n) (i0 + 3 + int n) True jb" by blast
  obtain jb2 where j2: "jb_exchange (of_int (i0 + 3 + int n)) (f (i0 + 3 + int n)) jb = Some (None, jb2)"
    "holds f 3 10 (i0 + 4 + int n + 1) (i0 + 3 + int n + 1) True jb2"
    using exchange_holds [OF h, of "i0 + 3 + int n"] by (auto simp: max_def)
  have idx: "dup_pkt f i0 (6 + n) = (of_int (i0 + 3 + int n), f (i0 + 3 + int n))" by (simp add: dup_pkt_def dup_idx_def add.assoc add.left_commute)
  have "exchanges (map (dup_pkt f i0) [0..<Suc (6 + n)]) jb0
      = Some (([None, None, Some (f i0), Some (f (i0 + 1)), Some (f (i0 + 2))] @ replicate (Suc n) None) @ [None], jb2)"
    by (rule exchanges_snoc [OF e]) (simp only: idx fst_conv snd_conv j2(1))
  then show ?case using j2(2) by (auto simp: replicate_append_same algebra_simps)
qed

text \<open>Repeated packets end the audio. With the default jitter settings, after three packets in order the
  third one arrives three more times; then every later packet, although it comes in order and on time, is
  dropped as late and the decoder is given silence for the rest of the call. The comment in
  \<open>transport.go\<close> says that the buffer removes duplicates.\<close>

theorem duplicates_silence_the_call:
  fixes p :: "'c Pipeline" and t :: Transport
  assumes "pl_jb p = NewJitterBuffer 60 200" and "6 \<le> length dgs" and "arrives R dgs (dup_idx i0) f"
  shows "\<exists>p' t'. recvLoop X R dgs (p, t)
    = Some ([None, None, Some (f i0), Some (f (i0 + 1)), Some (f (i0 + 2))] @ replicate (length dgs - 5) None, p', t')"
proof -
  have h: "holds f 3 10 i0 i0 False (started 60 200 i0)" using started_holds [of 60 200 f i0] by simp
  have z: "dup_idx i0 0 = i0" by (simp add: dup_idx_def)
  from dup_run [OF h, of "length dgs - 6"] obtain jb where
    "exchanges (map (dup_pkt f i0) [0..<length dgs]) (started 60 200 i0)
      = Some ([None, None, Some (f i0), Some (f (i0 + 1)), Some (f (i0 + 2))] @ replicate (length dgs - 5) None, jb)"
    using assms(2) by (auto simp: Suc_diff_le simp del: replicate.simps)
  from recvLoop_arrives [OF assms(3,1) z this [unfolded dup_pkt_def], of X t] show ?thesis .
qed

theorem duplicates_silence_the_call_witness:
  "\<exists>p' t'. recvLoop ex_opus ex_rtp [''x'', ''xx'', ''xxx'', ''xxx'', ''xxx'', ''xxx'', ''xxxx'', ''xxxxx''] (ex_pipeline, ex_transport None [])
    = Some ([None, None, Some ''x'', Some ''xx'', Some ''xxx'', None, None, None], p', t')"
  using duplicates_silence_the_call [OF _ _ arrives_map [of 8 "dup_idx 1"],
      of ex_pipeline ex_opus "ex_transport None []"]
  by (simp add: ex_pipeline_def dup_idx_def upt_rec numeral_eq_Suc)

end
