(* ===== verification/Audio_Devices.thy ===== *)
theory Audio_Devices
  imports Audio_Pipeline
begin

text \<open>
  \<open>internal/audio/devices.go\<close>: capture and playback devices. malgo is a parameter: whether its context, the
  initialisation and the start of a device succeed. \<open>ml_live\<close> counts the native devices that are initialised
  and not yet released, so that a leak shows.
\<close>

section \<open>Samples and bytes\<close>

fun bytesToInt16LE :: "string \<Rightarrow> pcm" where
  "bytesToInt16LE (a # b # r) = word_of_nat (of_char a + 256 * of_char b) # bytesToInt16LE r"
| "bytesToInt16LE _ = []"

fun int16ToBytesLE :: "pcm \<Rightarrow> string" where
  "int16ToBytesLE [] = []"
| "int16ToBytesLE (s # ss) = char_of (unat s mod 256) # char_of (unat s div 256) # int16ToBytesLE ss"

lemma samples_roundtrip: "bytesToInt16LE (int16ToBytesLE xs) = xs"
proof (induction xs)
  case (Cons s xs)
  have "unat s < 2 ^ LENGTH(16)" by (rule unsigned_less)
  then have "unat s div 256 < 256" by simp
  then show ?case using Cons by simp
qed simp

lemma length_int16ToBytesLE: "length (int16ToBytesLE xs) = 2 * length xs"
  by (induction xs) auto

section \<open>Devices\<close>

record malgo =
  ml_device :: bool
  ml_live :: nat

datatype device_error = ErrNamedDevice | ErrMalgoInit | ErrAlreadyStarted | ErrInitDevice | ErrDeviceStart

definition malgo_ok :: "malgo \<Rightarrow> bool" where
  "malgo_ok d \<longleftrightarrow> ml_live d = (if ml_device d then 1 else 0)"

text \<open>The capturer and the player are made, started and stopped by the same code, once per direction.\<close>

definition NewMalgoCapturer :: "bool \<Rightarrow> string \<Rightarrow> device_error + malgo" where
  "NewMalgoCapturer ctxOK deviceName =
    (if deviceName \<noteq> [] \<and> deviceName \<noteq> ''auto'' then Inl ErrNamedDevice
     else if \<not> ctxOK then Inl ErrMalgoInit
     else Inr \<lparr>ml_device = False, ml_live = 0\<rparr>)"

definition NewMalgoPlayer :: "bool \<Rightarrow> string \<Rightarrow> device_error + malgo" where
  "NewMalgoPlayer ctxOK deviceName =
    (if deviceName \<noteq> [] \<and> deviceName \<noteq> ''auto'' then Inl ErrNamedDevice
     else if \<not> ctxOK then Inl ErrMalgoInit
     else Inr \<lparr>ml_device = False, ml_live = 0\<rparr>)"

definition Start_device :: "bool \<Rightarrow> bool \<Rightarrow> bool \<Rightarrow> malgo \<Rightarrow> device_error option \<times> malgo" where
  "Start_device ctxOK initOK startOK d =
    (if ml_device d then (Some ErrAlreadyStarted, d)
     else if \<not> ctxOK then (Some ErrMalgoInit, d)
     else if \<not> initOK then (Some ErrInitDevice, d)
     else let d1 = d\<lparr>ml_live := ml_live d + 1\<rparr> in
       if \<not> startOK then (Some ErrDeviceStart, d1\<lparr>ml_live := ml_live d1 - 1\<rparr>)
       else (None, d1\<lparr>ml_device := True\<rparr>))"

definition Stop_device :: "malgo \<Rightarrow> malgo" where
  "Stop_device d = (if \<not> ml_device d then d else d\<lparr>ml_live := ml_live d - 1, ml_device := False\<rparr>)"

text \<open>The data callbacks: a capture of another size than one frame is dropped; a pull of the wrong size plays
  silence.\<close>

definition capture_data :: "(pcm \<Rightarrow> 's \<Rightarrow> 's) \<Rightarrow> string \<Rightarrow> nat \<Rightarrow> 's \<Rightarrow> 's" where
  "capture_data onFrame input framecount s =
    (if int framecount \<noteq> FrameSize then s else onFrame (bytesToInt16LE input) s)"

definition playback_data :: "('s \<Rightarrow> pcm \<times> 's) \<Rightarrow> string \<Rightarrow> nat \<Rightarrow> 's \<Rightarrow> string \<times> 's" where
  "playback_data pull output framecount s =
    (case pull s of
       (xs, s') \<Rightarrow>
         if length xs \<noteq> framecount then (replicate (length output) (char_of (0 :: nat)), s')
         else (take (length output) (int16ToBytesLE xs) @ drop (length (int16ToBytesLE xs)) output, s'))"

lemma Start_device_ok:
  "malgo_ok d \<Longrightarrow> malgo_ok (snd (Start_device c i s d)) \<and> (ml_device (snd (Start_device c i s d)) \<longleftrightarrow> ml_device d \<or> fst (Start_device c i s d) = None)"
  by (auto simp: Start_device_def malgo_ok_def Let_def)

lemma Stop_device_ok: "malgo_ok d \<Longrightarrow> ml_live (Stop_device d) = 0 \<and> malgo_ok (Stop_device d)"
  by (auto simp: Stop_device_def malgo_ok_def)

lemma Stop_device_idem: "Stop_device (Stop_device d) = Stop_device d"
  by (simp add: Stop_device_def)

text \<open>What the sink plays of a pulled frame is what a capturer on the other side of a loopback reads.\<close>

lemma playback_capture:
  assumes "pull s = (xs, s')" and "length output = 2 * length xs"
  shows "bytesToInt16LE (fst (playback_data pull output (length xs) s)) = xs"
  using assms by (simp add: playback_data_def length_int16ToBytesLE samples_roundtrip)

end
