(* ===== verification/Audio_Session.thy ===== *)
theory Audio_Session
  imports Audio_Devices Call_Session
begin

text \<open>
  \<open>internal/audio/session.go\<close> and \<open>manager.go\<close>: the audio of one call, and the audio manager that starts it when
  the call connects and stops it when the call ends. The pipeline goroutine of a session is two steps: its
  device starts (\<open>run_devices\<close>) and its deferred stops, which run inside \<open>Close\<close>, as \<open>Close\<close> waits for them.
\<close>

section \<open>Session\<close>

record SessionOptions =
  so_CallID :: string
  so_Peer :: peer_id
  so_InputDevice :: string
  so_OutputDevice :: string
  so_Bitrate :: int
  so_JitterTargetMs :: int
  so_JitterMaxMs :: int
  so_AECEnabled :: bool

text \<open>Fields are optional, as a placeholder session has only its counters. The counters of a session with a
  pipeline are the pipeline's.\<close>

record 'c AudioSession =
  au_pipeline :: "'c Pipeline option"
  au_transport :: "Transport option"
  au_source :: "malgo option"
  au_sink :: "malgo option"
  au_stats :: Stats
  au_cancelled :: bool

text \<open>What the system answers: the malgo context, the streams to a peer, libopus, the starts of the devices.\<close>

record 'c audio_env =
  ae_ctxOK :: bool
  ae_ctrl :: "peer_id \<Rightarrow> ostream option"
  ae_media :: "peer_id \<Rightarrow> ostream option"
  ae_enc :: "int \<Rightarrow> 'c option"
  ae_dec :: "'c option"
  ae_rnd :: "32 word"
  ae_srcInit :: bool
  ae_srcStart :: bool
  ae_sinkInit :: bool
  ae_sinkStart :: bool

datatype audio_error = ErrCapturer device_error | ErrPlayer device_error | ErrTransport open_error | ErrPipeline pipeline_error

text \<open>The devices as \<open>Pipeline.Start\<close> leaves them while it waits: both running, or none when a start failed.\<close>

definition run_devices :: "'c audio_env \<Rightarrow> malgo \<Rightarrow> malgo \<Rightarrow> malgo \<times> malgo" where
  "run_devices E src sink =
    (case Start_device (ae_ctxOK E) (ae_srcInit E) (ae_srcStart E) src of
       (Some _, src1) \<Rightarrow> (src1, sink)
     | (None, src1) \<Rightarrow>
         (case Start_device (ae_ctxOK E) (ae_sinkInit E) (ae_sinkStart E) sink of
            (Some _, sink1) \<Rightarrow> (Stop_device src1, sink1)
          | (None, sink1) \<Rightarrow> (src1, sink1)))"

text \<open>A failed constructor returns the error and the transport it had to close, if there was one.\<close>

definition NewSessionWithDeps ::
    "'c audio_env \<Rightarrow> SessionOptions \<Rightarrow> malgo \<Rightarrow> malgo \<Rightarrow> Transport \<Rightarrow> (audio_error \<times> Transport option) + 'c AudioSession" where
  "NewSessionWithDeps E opts src sink tr =
    (case NewPipeline (ae_enc E) (ae_dec E) (ae_rnd E) NewStatsCore
        \<lparr>pc_deps = True, pc_Bitrate = so_Bitrate opts, pc_JitterTargetMs = so_JitterTargetMs opts, pc_JitterMaxMs = so_JitterMaxMs opts\<rparr> of
       Inl e \<Rightarrow> Inl (ErrPipeline e, Some (snd (Close_transport (None :: unit option) None tr)))
     | Inr p \<Rightarrow>
         (case run_devices E src sink of
            (src1, sink1) \<Rightarrow>
              Inr \<lparr>au_pipeline = Some p, au_transport = Some tr, au_source = Some src1, au_sink = Some sink1,
                   au_stats = NewStatsCore, au_cancelled = False\<rparr>))"

definition audio_NewSession ::
    "'c audio_env \<Rightarrow> SessionOptions \<Rightarrow> (audio_error \<times> Transport option) + 'c AudioSession" where
  "audio_NewSession E opts =
    (case NewMalgoCapturer (ae_ctxOK E) (so_InputDevice opts) of
       Inl e \<Rightarrow> Inl (ErrCapturer e, None)
     | Inr src \<Rightarrow>
         (case NewMalgoPlayer (ae_ctxOK E) (so_OutputDevice opts) of
            Inl e \<Rightarrow> Inl (ErrPlayer e, None)
          | Inr sink \<Rightarrow>
              (case NewLibp2pTransport (ae_ctrl E (so_Peer opts)) (ae_media E (so_Peer opts)) of
                 Inl (e, _) \<Rightarrow> Inl (ErrTransport e, None)
               | Inr tr \<Rightarrow> NewSessionWithDeps E opts src sink tr)))"

text \<open>\<open>SetMuted\<close> dereferences the pipeline and the transport: \<open>None\<close> is a nil pointer panic.\<close>

definition session_SetMuted :: "(ControlMessage \<Rightarrow> string) \<Rightarrow> bool \<Rightarrow> 'c AudioSession \<Rightarrow> 'c AudioSession option" where
  "session_SetMuted enc b s =
    (case (au_pipeline s, au_transport s) of
       (Some p, Some t) \<Rightarrow>
         Some (s\<lparr>au_pipeline := Some (pipeline_SetMuted b p),
                 au_transport := Some (snd (SendControl enc \<lparr>cm_Type = ''mute'', cm_Value = b, cm_Stats = None\<rparr> t))\<rparr>)
     | _ \<Rightarrow> None)"

definition session_Stats :: "'c AudioSession \<Rightarrow> Stats \<times> 'c AudioSession" where
  "session_Stats s =
    (case au_pipeline s of
       Some p \<Rightarrow> (case Snapshot (pl_stats p) of (out, st) \<Rightarrow> (out, s\<lparr>au_pipeline := Some (p\<lparr>pl_stats := st\<rparr>)\<rparr>))
     | None \<Rightarrow> (case Snapshot (au_stats s) of (out, st) \<Rightarrow> (out, s\<lparr>au_stats := st\<rparr>)))"

text \<open>One tick of the stats ticker: the current path, a snapshot, and the snapshot sent to the peer.\<close>

definition statsTicker_step :: "(ControlMessage \<Rightarrow> string) \<Rightarrow> 'c AudioSession \<Rightarrow> 'c AudioSession" where
  "statsTicker_step enc s =
    (case (au_pipeline s, au_transport s) of
       (Some p, Some t) \<Rightarrow>
         (case Snapshot (SetMediaMode (MediaMode t) (pl_stats p)) of
            (snap, st) \<Rightarrow>
              s\<lparr>au_pipeline := Some (p\<lparr>pl_stats := st\<rparr>),
                au_transport := Some (snd (SendControl enc \<lparr>cm_Type = ''stats'', cm_Value = False, cm_Stats = Some snap\<rparr> t))\<rparr>)
     | _ \<Rightarrow> s)"

definition Close_session :: "'c AudioSession \<Rightarrow> 'c AudioSession" where
  "Close_session s =
    s\<lparr>au_cancelled := True, au_sink := map_option Stop_device (au_sink s), au_source := map_option Stop_device (au_source s),
      au_transport := map_option (\<lambda>t. snd (Close_transport (None :: unit option) None t)) (au_transport s)\<rparr>"

section \<open>Manager\<close>

record ManagerConfig =
  mc_InputDevice :: string
  mc_OutputDevice :: string
  mc_Bitrate :: int
  mc_JitterTargetMs :: int
  mc_JitterMaxMs :: int
  mc_AECEnabled :: bool

record 'c AudioManager =
  am_hasHost :: bool
  am_config :: ManagerConfig
  am_sessions :: "(string \<times> 'c AudioSession) list"
  am_cancelled :: bool

definition audio_NewManager :: "bool \<Rightarrow> ManagerConfig \<Rightarrow> 'c AudioManager" where
  "audio_NewManager hasHost cfg = \<lparr>am_hasHost = hasHost, am_config = cfg, am_sessions = [], am_cancelled = False\<rparr>"

definition startSession :: "'c audio_env \<Rightarrow> StateChange \<Rightarrow> 'c AudioManager \<Rightarrow> 'c AudioManager" where
  "startSession E ev m =
    (if map_of (am_sessions m) (sc_SessionID ev) \<noteq> None then m
     else if \<not> am_hasHost m
     then m\<lparr>am_sessions := mput (sc_SessionID ev)
            \<lparr>au_pipeline = None, au_transport = None, au_source = None, au_sink = None, au_stats = NewStatsCore, au_cancelled = False\<rparr>
            (am_sessions m)\<rparr>
     else case audio_NewSession E
            \<lparr>so_CallID = sc_SessionID ev, so_Peer = sc_Remote ev, so_InputDevice = mc_InputDevice (am_config m),
             so_OutputDevice = mc_OutputDevice (am_config m), so_Bitrate = mc_Bitrate (am_config m),
             so_JitterTargetMs = mc_JitterTargetMs (am_config m), so_JitterMaxMs = mc_JitterMaxMs (am_config m),
             so_AECEnabled = mc_AECEnabled (am_config m)\<rparr> of
         Inl _ \<Rightarrow> m
       | Inr sess \<Rightarrow> m\<lparr>am_sessions := mput (sc_SessionID ev) sess (am_sessions m)\<rparr>)"

text \<open>Sessions that an operation closes are returned with it.\<close>

definition stopSession :: "string \<Rightarrow> 'c AudioManager \<Rightarrow> 'c AudioSession list \<times> 'c AudioManager" where
  "stopSession callID m =
    (case map_of (am_sessions m) callID of
       None \<Rightarrow> ([], m)
     | Some s \<Rightarrow> ([Close_session s], m\<lparr>am_sessions := mdel callID (am_sessions m)\<rparr>))"

definition Stop_manager :: "'c AudioManager \<Rightarrow> 'c AudioSession list \<times> 'c AudioManager" where
  "Stop_manager m = (map (Close_session \<circ> snd) (am_sessions m), m\<lparr>am_cancelled := True, am_sessions := []\<rparr>)"

text \<open>One event of the \<open>Start\<close> loop, and the loop over the events that arrive.\<close>

definition audio_event :: "'c audio_env \<Rightarrow> StateChange \<Rightarrow> 'c AudioManager \<Rightarrow> 'c AudioSession list \<times> 'c AudioManager" where
  "audio_event E ev m =
    (if sc_State ev = ''connected'' then ([], startSession E ev m)
     else if sc_State ev = ''ended'' then stopSession (sc_SessionID ev) m
     else ([], m))"

fun Start_manager ::
    "('c audio_env \<times> StateChange) list \<Rightarrow> 'c AudioManager \<Rightarrow> 'c AudioSession list \<times> 'c AudioManager" where
  "Start_manager [] m = ([], m)"
| "Start_manager ((E, ev) # evs) m =
    (case audio_event E ev m of (cs, m1) \<Rightarrow> case Start_manager evs m1 of (ds, m2) \<Rightarrow> (cs @ ds, m2))"

definition manager_SetMuted ::
    "(ControlMessage \<Rightarrow> string) \<Rightarrow> string \<Rightarrow> bool \<Rightarrow> 'c AudioManager \<Rightarrow> (bool \<times> 'c AudioManager) option" where
  "manager_SetMuted enc callID muted m =
    (case map_of (am_sessions m) callID of
       None \<Rightarrow> Some (False, m)
     | Some s \<Rightarrow> map_option (\<lambda>s'. (True, m\<lparr>am_sessions := mput callID s' (am_sessions m)\<rparr>)) (session_SetMuted enc muted s))"

definition manager_Stats :: "string \<Rightarrow> 'c AudioManager \<Rightarrow> Stats option \<times> 'c AudioManager" where
  "manager_Stats callID m =
    (case map_of (am_sessions m) callID of
       None \<Rightarrow> (None, m)
     | Some s \<Rightarrow> (case session_Stats s of (out, s') \<Rightarrow> (Some out, m\<lparr>am_sessions := mput callID s' (am_sessions m)\<rparr>)))"

section \<open>Everything a session holds is released\<close>

definition session_ok :: "'c AudioSession \<Rightarrow> bool" where
  "session_ok s \<longleftrightarrow> pred_option malgo_ok (au_source s) \<and> pred_option malgo_ok (au_sink s)"

definition transport_shut :: "Transport \<Rightarrow> bool" where
  "transport_shut t \<longleftrightarrow> tr_closed t \<and> os_closed (tr_outCtrl t) \<and> pred_option os_closed (tr_outMedia t)"

definition transport_ok :: "Transport \<Rightarrow> bool" where
  "transport_ok t \<longleftrightarrow> (tr_closed t \<longrightarrow> transport_shut t)"

definition released :: "'c AudioSession \<Rightarrow> bool" where
  "released s \<longleftrightarrow> au_cancelled s \<and> pred_option (\<lambda>d. ml_live d = 0) (au_source s) \<and> pred_option (\<lambda>d. ml_live d = 0) (au_sink s)
     \<and> pred_option transport_shut (au_transport s)"

definition manager_ok :: "'c AudioManager \<Rightarrow> bool" where
  "manager_ok m \<longleftrightarrow> distinct (map fst (am_sessions m))
     \<and> (\<forall>(_, s)\<in>set (am_sessions m). session_ok s \<and> pred_option transport_ok (au_transport s))"

lemma Close_transport_shut: "transport_ok t \<Longrightarrow> transport_shut (snd (Close_transport e1 e2 t))"
  by (auto simp: Close_transport_def transport_shut_def transport_ok_def option.pred_map comp_def option.pred_True)

lemma Close_session_released:
  assumes "session_ok s" and "pred_option transport_ok (au_transport s)"
  shows "released (Close_session s)"
  using assms Stop_device_ok Close_transport_shut
  by (cases "au_source s"; cases "au_sink s"; cases "au_transport s") (auto simp: released_def Close_session_def session_ok_def)

lemma run_devices_ok:
  assumes "malgo_ok src" and "malgo_ok sink" and "run_devices E src sink = (src1, sink1)"
  shows "malgo_ok src1 \<and> malgo_ok sink1"
  using assms Start_device_ok [of src "ae_ctxOK E" "ae_srcInit E" "ae_srcStart E"]
    Start_device_ok [of sink "ae_ctxOK E" "ae_sinkInit E" "ae_sinkStart E"] Stop_device_ok
  by (auto simp: run_devices_def split: prod.splits option.splits)

lemma audio_NewSession_ok:
  assumes "audio_NewSession E opts = Inr s"
  shows "session_ok s \<and> pred_option transport_ok (au_transport s)"
proof -
  let ?d = "\<lparr>ml_device = False, ml_live = 0\<rparr> :: malgo"
  have d: "malgo_ok ?d" by (simp add: malgo_ok_def)
  from assms obtain tr where tr: "NewLibp2pTransport (ae_ctrl E (so_Peer opts)) (ae_media E (so_Peer opts)) = Inr tr"
    "NewSessionWithDeps E opts ?d ?d tr = Inr s"
    by (auto simp: audio_NewSession_def NewMalgoCapturer_def NewMalgoPlayer_def split: sum.splits if_splits prod.splits)
  have "transport_ok tr" using tr(1) by (auto simp: NewLibp2pTransport_def transport_ok_def split: option.splits)
  with tr(2) run_devices_ok [OF d d, of E] show ?thesis
    by (auto simp: NewSessionWithDeps_def session_ok_def split: sum.splits prod.splits)
qed

lemma startSession_ok: "manager_ok m \<Longrightarrow> manager_ok (startSession E ev m)"
  using audio_NewSession_ok
  by (auto simp: startSession_def manager_ok_def session_ok_def split: sum.splits)

lemma stopSession_ok:
  assumes "manager_ok m" and "stopSession i m = (cs, m')"
  shows "manager_ok m' \<and> list_all released cs"
proof (cases "map_of (am_sessions m) i")
  case None
  with assms show ?thesis by (simp add: stopSession_def)
next
  case (Some s)
  then have "(i, s) \<in> set (am_sessions m)" by (rule map_of_SomeD)
  with assms Some Close_session_released [of s] show ?thesis by (auto simp: stopSession_def manager_ok_def)
qed

lemma audio_event_ok: "manager_ok m \<Longrightarrow> audio_event E ev m = (cs, m') \<Longrightarrow> manager_ok m' \<and> list_all released cs"
  using startSession_ok [of m E ev] stopSession_ok [of m "sc_SessionID ev" cs m'] by (auto simp: audio_event_def split: if_splits)

lemma Start_manager_ok: "manager_ok m \<Longrightarrow> Start_manager evs m = (cs, m') \<Longrightarrow> manager_ok m' \<and> list_all released cs"
proof (induction evs m arbitrary: cs rule: Start_manager.induct)
  case (2 E ev evs m)
  obtain c1 m1 where e: "audio_event E ev m = (c1, m1)" by fastforce
  obtain c2 where r: "Start_manager evs m1 = (c2, m')" "cs = c1 @ c2" using "2.prems"(2) e by (auto split: prod.splits)
  from audio_event_ok [OF "2.prems"(1) e] "2.IH" [OF e [symmetric] _ r(1)] r(2) show ?case by simp
qed simp

text \<open>C38: No audio resource outlives its call. Whatever state changes reach the audio manager, and whichever
  streams, codecs and devices fail to open or start on the way, every session it closes, at the end of its
  call or when the manager stops, has its native devices released, its transport closed on both streams and
  its context cancelled; after a stop no session is left.\<close>

theorem closed_audio_is_released:
  fixes m :: "'c AudioManager"
  assumes "manager_ok m"
  shows "\<exists>cs ds m1 m2. Start_manager evs m = (cs, m1) \<and> Stop_manager m1 = (ds, m2)
    \<and> list_all released (cs @ ds) \<and> am_sessions m2 = [] \<and> length ds = length (am_sessions m1)"
proof -
  obtain cs m1 where r: "Start_manager evs m = (cs, m1)" by fastforce
  note ok = Start_manager_ok [OF assms r]
  have "list_all released (map (Close_session \<circ> snd) (am_sessions m1))"
    using ok Close_session_released by (fastforce simp: list_all_iff manager_ok_def)
  with ok r show ?thesis by (auto simp: Stop_manager_def)
qed

definition ex_audio_env :: "unit audio_env" where
  "ex_audio_env = \<lparr>ae_ctxOK = True, ae_ctrl = (\<lambda>_. Some \<lparr>os_bytes = [], os_room = None, os_closed = False\<rparr>),
     ae_media = (\<lambda>_. Some \<lparr>os_bytes = [], os_room = None, os_closed = False\<rparr>), ae_enc = (\<lambda>_. Some ()), ae_dec = Some (),
     ae_rnd = 0, ae_srcInit = True, ae_srcStart = True, ae_sinkInit = True, ae_sinkStart = False\<rparr>"

definition ex_audio_manager :: "unit AudioManager" where
  "ex_audio_manager = audio_NewManager True \<lparr>mc_InputDevice = [], mc_OutputDevice = ''auto'', mc_Bitrate = 0,
     mc_JitterTargetMs = 60, mc_JitterMaxMs = 200, mc_AECEnabled = True\<rparr>"

definition ex_change :: "string \<Rightarrow> string \<Rightarrow> StateChange" where
  "ex_change i st = \<lparr>sc_SessionID = i, sc_State = st, sc_Direction = ''inbound'', sc_Remote = ''bob'', sc_Time = 0, sc_Reason = []\<rparr>"

theorem closed_audio_is_released_witness:
  "\<exists>cs ds m1 m2. Start_manager [(ex_audio_env, ex_change ''1'' ''connected''), (ex_audio_env, ex_change ''2'' ''connected''),
        (ex_audio_env, ex_change ''1'' ''ended'')] ex_audio_manager = (cs, m1) \<and> Stop_manager m1 = (ds, m2)
    \<and> list_all released (cs @ ds) \<and> am_sessions m2 = [] \<and> length ds = length (am_sessions m1)"
  by (rule closed_audio_is_released) (simp add: ex_audio_manager_def audio_NewManager_def manager_ok_def)

section \<open>Audio follows the calls\<close>

text \<open>The call sessions of the program, by id, and the state changes that operations on them announce.\<close>

type_synonym calls = "string \<Rightarrow> Session"

definition calls_step :: "string \<times> sess_op \<Rightarrow> calls \<Rightarrow> calls" where
  "calls_step x c = (case x of (i, y) \<Rightarrow> c(i := sess_step y (c i)))"

fun calls_events :: "(string \<times> sess_op) list \<Rightarrow> calls \<Rightarrow> StateChange list" where
  "calls_events [] c = []"
| "calls_events ((i, y) # xs) c = op_events y (c i) @ calls_events xs (calls_step (i, y) c)"

text \<open>The audio of a call can be set up: the devices and codecs open and the peer's streams too.\<close>

definition audio_works :: "'c audio_env \<Rightarrow> 'c AudioManager \<Rightarrow> bool" where
  "audio_works E m \<longleftrightarrow> ae_ctxOK E \<and> ae_dec E \<noteq> None \<and> (\<forall>b. ae_enc E b \<noteq> None) \<and> (\<forall>p. ae_ctrl E p \<noteq> None \<and> ae_media E p \<noteq> None)
     \<and> mc_InputDevice (am_config m) \<in> {[], ''auto''} \<and> mc_OutputDevice (am_config m) \<in> {[], ''auto''}"

definition in_step :: "calls \<Rightarrow> 'c AudioManager \<Rightarrow> bool" where
  "in_step c m \<longleftrightarrow> (\<forall>i. sess_id (c i) = i) \<and> (\<forall>i. map_of (am_sessions m) i \<noteq> None \<longleftrightarrow> sess_state (c i) = StateConnected)"

lemma NewPipeline_works:
  assumes "pc_deps cfg" and "dec \<noteq> None" and "\<forall>b. enc b \<noteq> None"
  shows "\<exists>p. NewPipeline enc dec rnd st cfg = Inr p"
proof -
  obtain e d where "enc (if pc_Bitrate cfg = 0 then 48000 else pc_Bitrate cfg) = Some e" "dec = Some d" using assms by blast
  then show ?thesis using assms(1) by (simp add: NewPipeline_def Let_def del: if_split)
qed

lemma NewSessionWithDeps_works:
  assumes "ae_dec E \<noteq> None" and "\<forall>b. ae_enc E b \<noteq> None"
  shows "\<exists>s. NewSessionWithDeps E opts src sink tr = Inr s"
  using NewPipeline_works [OF _ assms, of "\<lparr>pc_deps = True, pc_Bitrate = so_Bitrate opts, pc_JitterTargetMs = so_JitterTargetMs opts,
      pc_JitterMaxMs = so_JitterMaxMs opts\<rparr>" "ae_rnd E" NewStatsCore]
  by (auto simp: NewSessionWithDeps_def split: prod.split)

lemma audio_NewSession_works:
  assumes "audio_works E m" and "so_InputDevice opts = mc_InputDevice (am_config m)" and "so_OutputDevice opts = mc_OutputDevice (am_config m)"
  shows "\<exists>s. audio_NewSession E opts = Inr s"
proof -
  have "ae_ctrl E (so_Peer opts) \<noteq> None" "ae_media E (so_Peer opts) \<noteq> None" using assms(1) by (simp_all add: audio_works_def)
  then obtain tr where "NewLibp2pTransport (ae_ctrl E (so_Peer opts)) (ae_media E (so_Peer opts)) = Inr tr"
    by (auto simp: NewLibp2pTransport_def)
  then show ?thesis
    using assms NewSessionWithDeps_works [of E opts]
    by (auto simp: audio_works_def audio_NewSession_def NewMalgoCapturer_def NewMalgoPlayer_def)
qed

lemma startSession_map:
  assumes "audio_works E m"
  shows "map_of (am_sessions (startSession E ev m)) i \<noteq> None \<longleftrightarrow> i = sc_SessionID ev \<or> map_of (am_sessions m) i \<noteq> None"
    "am_config (startSession E ev m) = am_config m"
proof -
  let ?opts = "\<lparr>so_CallID = sc_SessionID ev, so_Peer = sc_Remote ev, so_InputDevice = mc_InputDevice (am_config m),
             so_OutputDevice = mc_OutputDevice (am_config m), so_Bitrate = mc_Bitrate (am_config m),
             so_JitterTargetMs = mc_JitterTargetMs (am_config m), so_JitterMaxMs = mc_JitterMaxMs (am_config m),
             so_AECEnabled = mc_AECEnabled (am_config m)\<rparr>"
  obtain s where "audio_NewSession E ?opts = Inr s" using audio_NewSession_works [OF assms, of ?opts] by auto
  then show "map_of (am_sessions (startSession E ev m)) i \<noteq> None \<longleftrightarrow> i = sc_SessionID ev \<or> map_of (am_sessions m) i \<noteq> None"
    "am_config (startSession E ev m) = am_config m"
    by (auto simp: startSession_def)
qed

lemma stopSession_map:
  "map_of (am_sessions (snd (stopSession j m))) i \<noteq> None \<longleftrightarrow> i \<noteq> j \<and> map_of (am_sessions m) i \<noteq> None"
  "am_config (snd (stopSession j m)) = am_config m"
  by (auto simp: stopSession_def split: option.splits)

text \<open>One operation on one call keeps the audio manager in step, after it has handled the event.\<close>

lemma in_step_step:
  assumes s: "in_step c m" and w: "audio_works E m"
  shows "in_step (calls_step (i, y) c) (snd (Start_manager (map (Pair E) (op_events y (c i))) m))
    \<and> audio_works E (snd (Start_manager (map (Pair E) (op_events y (c i))) m))"
proof (cases "sess_state (sess_step y (c i)) = sess_state (c i)")
  case True
  with s w show ?thesis by (auto simp: op_events_def in_step_def calls_step_def)
next
  case False
  then obtain st t r where tg: "sess_target y = Some (st, t, r)" by (auto simp: sess_step_state split: option.splits)
  with False have st: "sess_state (sess_step y (c i)) = st" "sess_state (c i) \<noteq> StateEnded" "st \<noteq> sess_state (c i)"
    by (auto simp: sess_step_state split: if_splits)
  have nc: "sess_state (c i) = StateConnected \<Longrightarrow> st = StateEnded"
    using False tg by (cases st) (auto simp: sess_step_state split: if_splits)
  have ev: "op_events y (c i) = [change_of (c i) st t r]" using False tg by (simp add: op_events_def)
  have id: "sc_SessionID (change_of (c i) st t r) = i" using s by (simp add: change_of_def in_step_def)
  show ?thesis
  proof (cases st)
    case StateConnected
    then show ?thesis using s w st ev id startSession_map [OF w]
      by (auto simp: in_step_def calls_step_def audio_event_def change_of_def audio_works_def)
  next
    case StateEnded
    then show ?thesis using s w st ev id stopSession_map [of i m]
      by (auto simp: in_step_def calls_step_def audio_event_def change_of_def audio_works_def split: prod.split)
  qed (use s w st nc ev id in \<open>auto simp: in_step_def calls_step_def audio_event_def change_of_def audio_works_def\<close>)
qed

lemma Start_manager_append:
  "snd (Start_manager (xs @ ys) m) = snd (Start_manager ys (snd (Start_manager xs m)))"
  by (induction xs m rule: Start_manager.induct) (auto split: prod.splits)

text \<open>C37: Audio runs exactly while a call is connected. Take any calls and any interleaving of operations on
  them; when the audio manager has handled the state changes they announced, and its devices and streams
  open, it has a session for exactly those calls whose state is connected.\<close>

theorem audio_follows_calls:
  fixes m :: "'c AudioManager"
  assumes "in_step c m" and "audio_works E m"
  shows "map_of (am_sessions (snd (Start_manager (map (Pair E) (calls_events xs c)) m))) i \<noteq> None
    \<longleftrightarrow> sess_state (fold calls_step xs c i) = StateConnected"
proof -
  have "in_step (fold calls_step xs c) (snd (Start_manager (map (Pair E) (calls_events xs c)) m))"
    using assms
  proof (induction xs arbitrary: c m)
    case (Cons x xs)
    obtain j y where x: "x = (j, y)" by fastforce
    from in_step_step [OF Cons.prems, of j y]
    show ?case using Cons.IH x by (simp add: Start_manager_append)
  qed simp
  then show ?thesis by (simp add: in_step_def)
qed

theorem audio_follows_calls_witness:
  "map_of (am_sessions (snd (Start_manager (map (Pair ex_audio_env)
      (calls_events [(''1'', SRinging 1), (''2'', SRinging 1), (''1'', SConnecting 2), (''1'', SConnected 3)]
        (\<lambda>i. NewSession i ''bob'' Inbound 0))) ex_audio_manager))) ''1'' \<noteq> None"
proof -
  have "in_step (\<lambda>i. NewSession i ''bob'' Inbound 0) ex_audio_manager"
    by (simp add: in_step_def ex_audio_manager_def audio_NewManager_def)
  moreover have "audio_works ex_audio_env ex_audio_manager"
    by (simp add: audio_works_def ex_audio_env_def ex_audio_manager_def audio_NewManager_def)
  ultimately have "map_of (am_sessions (snd (Start_manager (map (Pair ex_audio_env)
      (calls_events [(''1'', SRinging 1), (''2'', SRinging 1), (''1'', SConnecting 2), (''1'', SConnected 3)]
        (\<lambda>i. NewSession i ''bob'' Inbound 0))) ex_audio_manager))) ''1'' \<noteq> None
    \<longleftrightarrow> sess_state (fold calls_step [(''1'', SRinging 1), (''2'', SRinging 1), (''1'', SConnecting 2), (''1'', SConnected 3)]
        (\<lambda>i. NewSession i ''bob'' Inbound 0) ''1'') = StateConnected"
    by (rule audio_follows_calls)
  moreover have "sess_state (fold calls_step [(''1'', SRinging 1), (''2'', SRinging 1), (''1'', SConnecting 2), (''1'', SConnected 3)]
        (\<lambda>i. NewSession i ''bob'' Inbound 0) ''1'') = StateConnected" by (simp add: calls_step_def go_defs)
  ultimately show ?thesis by simp
qed

end
