(* ===== verification/Ipc_Methods.thy ===== *)
theory Ipc_Methods
  imports Ipc Identity Friends_Presence Call_Engine Invite_Manager Audio_Session
begin

text \<open>
  \<open>internal/ipc/methods\<close>: what the daemon does for each method. A handler's parameters are the decoded
  request (\<open>None\<close> when they do not decode), its answer is the error code it reports or the result. The wording
  of error messages is not modelled. The friends store is the one the invite manager adds to.
\<close>

record 'c Daemon =
  dm_inv :: InvState
  dm_presence :: Presence
  dm_engine :: EngineState
  dm_audio :: "'c AudioManager option"

type_synonym 'r reply = "int + 'r"

section \<open>Friends\<close>

record FriendsListEntry =
  fe_Name :: string
  fe_PeerID :: peer_id
  fe_Online :: bool
  fe_LastSeen :: "time option"
  fe_AddedAt :: time

record FriendsAddParams =
  fa_KeyPath :: string
  fa_Name :: string

text \<open>\<open>decode\<close> is libp2p's \<open>peer.Decode\<close>. Absent parameters are the empty ones.\<close>

definition FriendsAdd ::
    "('priv, 'pub) keys \<Rightarrow> (string \<Rightarrow> peer_id option) \<Rightarrow> PublicIdentity fs \<Rightarrow> io_env \<Rightarrow> time \<Rightarrow> FriendsAddParams option
     \<Rightarrow> 'c Daemon \<Rightarrow> FriendsListEntry reply \<times> 'c Daemon" where
  "FriendsAdd K decode files env now raw d =
    (case raw of
       None \<Rightarrow> (Inl ErrCodeInvalidParams, d)
     | Some p \<Rightarrow>
         if fa_KeyPath p = [] then (Inl ErrCodeInvalidParams, d)
         else case ReadExport K (fa_KeyPath p) files of
           Inl _ \<Rightarrow> (Inl ErrCodeInvalidParams, d)
         | Inr ident \<Rightarrow>
             (case decode (pi_PeerID ident) of
                None \<Rightarrow> (Inl ErrCodeInvalidParams, d)
              | Some pid \<Rightarrow>
                  (let name = (if fa_Name p = [] then pi_Name ident else fa_Name p) in
                   if name = [] then (Inl ErrCodeInvalidParams, d)
                   else
                     let f = \<lparr>fr_Name = name, fr_PeerID = pid, fr_PublicKey = pi_PublicKey ident, fr_AddedAt = now,
                              fr_RendezvousHint = pi_RendezvousHint ident\<rparr>;
                         inv = dm_inv d
                     in case Add f env (fst (im_friends inv)) (snd (im_friends inv)) of
                          (r, st) \<Rightarrow>
                            (case r of
                               Inl _ \<Rightarrow> Inl ErrCodeInvalidParams
                             | Inr _ \<Rightarrow> Inr \<lparr>fe_Name = fr_Name f, fe_PeerID = fr_PeerID f, fe_Online = False, fe_LastSeen = None,
                                             fe_AddedAt = fr_AddedAt f\<rparr>,
                             d\<lparr>dm_inv := inv\<lparr>im_friends := st\<rparr>\<rparr>))))"

definition FriendsList :: "'c Daemon \<Rightarrow> FriendsListEntry list" where
  "FriendsList d =
    map (\<lambda>f. \<lparr>fe_Name = fr_Name f, fe_PeerID = fr_PeerID f, fe_Online = IsOnline (fr_PeerID f) (dm_presence d),
              fe_LastSeen = LastSeen (fr_PeerID f) (dm_presence d), fe_AddedAt = fr_AddedAt f\<rparr>)
      (List_friends (fst (im_friends (dm_inv d))))"

definition FriendsRemove :: "io_env \<Rightarrow> string option \<Rightarrow> 'c Daemon \<Rightarrow> string reply \<times> 'c Daemon" where
  "FriendsRemove env raw d =
    (case raw of
       None \<Rightarrow> (Inl ErrCodeInvalidParams, d)
     | Some name \<Rightarrow>
         (let inv = dm_inv d in
          case Remove_friend name env (fst (im_friends inv)) (snd (im_friends inv)) of
            (r, st) \<Rightarrow>
              (case r of
                 Inl (ErrFriendNotFound _) \<Rightarrow> Inl ErrCodeNoSuchFriend
               | Inl _ \<Rightarrow> Inl ErrCodeInternalError
               | Inr _ \<Rightarrow> Inr name,
               d\<lparr>dm_inv := inv\<lparr>im_friends := st\<rparr>\<rparr>)))"

definition FriendsRename :: "io_env \<Rightarrow> (string \<times> string) option \<Rightarrow> 'c Daemon \<Rightarrow> (string \<times> string) reply \<times> 'c Daemon" where
  "FriendsRename env raw d =
    (case raw of
       None \<Rightarrow> (Inl ErrCodeInvalidParams, d)
     | Some (name, new) \<Rightarrow>
         (let inv = dm_inv d in
          case Rename name new env (fst (im_friends inv)) (snd (im_friends inv)) of
            (r, st) \<Rightarrow>
              (case r of
                 Inl (ErrFriendNotFound _) \<Rightarrow> Inl ErrCodeNoSuchFriend
               | Inl _ \<Rightarrow> Inl ErrCodeInvalidParams
               | Inr _ \<Rightarrow> Inr (name, new),
               d\<lparr>dm_inv := inv\<lparr>im_friends := st\<rparr>\<rparr>)))"

definition FriendsShow :: "string option \<Rightarrow> 'c Daemon \<Rightarrow> (Friend \<times> bool \<times> time option) reply" where
  "FriendsShow raw d =
    (case raw of
       None \<Rightarrow> Inl ErrCodeInvalidParams
     | Some name \<Rightarrow>
         (case Get_friend name (fst (im_friends (dm_inv d))) of
            None \<Rightarrow> Inl ErrCodeNoSuchFriend
          | Some f \<Rightarrow> Inr (f, IsOnline (fr_PeerID f) (dm_presence d), LastSeen (fr_PeerID f) (dm_presence d))))"

text \<open>A subscription takes a channel; its forwarder then copies every event of the channel to the connection.\<close>

definition FriendsSubscribePresence :: "'c Daemon \<Rightarrow> nat \<times> 'c Daemon" where
  "FriendsSubscribePresence d = (case presence_Subscribe (dm_presence d) of (i, p) \<Rightarrow> (i, d\<lparr>dm_presence := p\<rparr>))"

section \<open>Calls\<close>

definition looksLikePeerID :: "string \<Rightarrow> bool" where
  "looksLikePeerID s \<longleftrightarrow> 32 \<le> length s \<and> (take 4 s = ''12D3'' \<or> take 2 s \<in> {''Qm'', ''1A'', ''1B''})"

definition resolveTarget :: "(string \<Rightarrow> peer_id option) \<Rightarrow> string \<Rightarrow> Store option \<Rightarrow> peer_id reply" where
  "resolveTarget decode target store =
    (case Option.bind store (Get_friend target) of
       Some f \<Rightarrow> Inr (fr_PeerID f)
     | None \<Rightarrow>
         (case decode target of
            Some pid \<Rightarrow> Inr pid
          | None \<Rightarrow> if looksLikePeerID target then Inl ErrCodeInvalidParams else Inl ErrCodeNoSuchFriend))"

text \<open>\<open>pipeStateChanges\<close>: subscribe, read the state, emit it, then forward. \<open>pipe_current\<close> is the synthetic
  event; \<open>pipe_forward\<close> is the goroutine on the events its channel delivers.\<close>

definition pipe_current :: "Session \<Rightarrow> time \<Rightarrow> StateChange" where
  "pipe_current s now =
    \<lparr>sc_SessionID = sess_id s, sc_State = State_String (sess_state s), sc_Direction = Direction_String (sess_direction s),
     sc_Remote = sess_remote s, sc_Time = now, sc_Reason = []\<rparr>"

fun pipe_forward :: "bool \<Rightarrow> string \<Rightarrow> StateChange list \<Rightarrow> StateChange list" where
  "pipe_forward first current [] = []"
| "pipe_forward first current (ev # evs) =
    (if first \<and> sc_State ev = current then pipe_forward False current evs
     else ev # (if sc_State ev = ''ended'' then [] else pipe_forward False current evs))"

text \<open>\<open>race\<close> are the operations other goroutines do on the session between the subscription and the read of
  its state, \<open>later\<close> those that follow. The result is everything written for the subscription.\<close>

definition pipeStateChanges :: "sess_op list \<Rightarrow> sess_op list \<Rightarrow> time \<Rightarrow> Session \<Rightarrow> StateChange list" where
  "pipeStateChanges race later now s =
    (let s1 = snd (session_Subscribe s); s2 = fold sess_step race s1; current = pipe_current s2 now in
     current # (if sc_State current = ''ended'' then [] else pipe_forward True (sc_State current) (run_events (race @ later) s1)))"

definition CallsStart ::
    "libp2p \<Rightarrow> dial_env \<Rightarrow> wenv \<Rightarrow> (string \<Rightarrow> peer_id option) \<Rightarrow> string option \<Rightarrow> 'c Daemon \<Rightarrow> (string \<times> sref \<times> nat) reply \<times> 'c Daemon" where
  "CallsStart lp de w decode raw d =
    (case raw of
       None \<Rightarrow> (Inl ErrCodeInvalidParams, d)
     | Some target \<Rightarrow>
         if target = [] then (Inl ErrCodeInvalidParams, d)
         else case resolveTarget decode target (Some (fst (im_friends (dm_inv d)))) of
           Inl e \<Rightarrow> (Inl e, d)
         | Inr pid \<Rightarrow>
             (case Place lp de w pid (dm_engine d) of
                (Inl _, e) \<Rightarrow> (Inl ErrCodeInternalError, d\<lparr>dm_engine := e\<rparr>)
              | (Inr r, e) \<Rightarrow>
                  (case session_Subscribe (cm_heap e r) of
                     (sub, s) \<Rightarrow> (Inr (sess_id s, r, sub), d\<lparr>dm_engine := upd_session r (\<lambda>_. s) e\<rparr>))))"

record CallsListEntry =
  ce_CallID :: string
  ce_State :: string
  ce_Direction :: string
  ce_Remote :: peer_id
  ce_StartedAt :: time
  ce_Audio :: "Stats option"

definition calls_entry :: "EngineState \<Rightarrow> sref \<Rightarrow> Stats option \<Rightarrow> CallsListEntry" where
  "calls_entry e r st =
    (let s = cm_heap e r in
     \<lparr>ce_CallID = sess_id s, ce_State = State_String (sess_state s), ce_Direction = Direction_String (sess_direction s),
      ce_Remote = sess_remote s, ce_StartedAt = sess_startedAt s, ce_Audio = st\<rparr>)"

fun calls_rows :: "EngineState \<Rightarrow> sref list \<Rightarrow> 'c AudioManager option \<Rightarrow> CallsListEntry list \<times> 'c AudioManager option" where
  "calls_rows e [] a = ([], a)"
| "calls_rows e (r # rs) a =
    (case (case a of None \<Rightarrow> (None, None) | Some m \<Rightarrow> (case manager_Stats (sess_id (cm_heap e r)) m of (st, m') \<Rightarrow> (st, Some m'))) of
       (st, a1) \<Rightarrow> (case calls_rows e rs a1 of (rows, a2) \<Rightarrow> (calls_entry e r st # rows, a2)))"

definition CallsList :: "'c Daemon \<Rightarrow> CallsListEntry list \<times> 'c Daemon" where
  "CallsList d =
    (case calls_rows (dm_engine d) (List_calls (dm_engine d)) (dm_audio d) of (rows, a) \<Rightarrow> (rows, d\<lparr>dm_audio := a\<rparr>))"

definition CallsAttach :: "string option \<Rightarrow> 'c Daemon \<Rightarrow> (sref \<times> nat) reply \<times> 'c Daemon" where
  "CallsAttach raw d =
    (case raw of
       None \<Rightarrow> (Inl ErrCodeInvalidParams, d)
     | Some callID \<Rightarrow>
         (case Get_call callID (dm_engine d) of
            None \<Rightarrow> (Inl ErrCodeNoSuchCall, d)
          | Some r \<Rightarrow>
              (case session_Subscribe (cm_heap (dm_engine d) r) of
                 (sub, s) \<Rightarrow> (Inr (r, sub), d\<lparr>dm_engine := upd_session r (\<lambda>_. s) (dm_engine d)\<rparr>))))"

record CallsActionParams =
  ca_CallID :: string
  ca_Action :: string
  ca_Reason :: string

text \<open>Muting an audio placeholder panics (\<open>None\<close>).\<close>

definition mute_action :: "(ControlMessage \<Rightarrow> string) \<Rightarrow> string \<Rightarrow> bool \<Rightarrow> 'c Daemon \<Rightarrow> (unit reply \<times> 'c Daemon) option" where
  "mute_action enc callID b d =
    (case dm_audio d of
       None \<Rightarrow> Some (Inl ErrCodeNoSuchCall, d)
     | Some m \<Rightarrow>
         map_option (\<lambda>(ok, m'). (if ok then Inr () else Inl ErrCodeNoSuchCall, d\<lparr>dm_audio := Some m'\<rparr>)) (manager_SetMuted enc callID b m))"

definition CallsAction ::
    "(ControlMessage \<Rightarrow> string) \<Rightarrow> wenv \<Rightarrow> time \<Rightarrow> CallsActionParams option \<Rightarrow> 'c Daemon \<Rightarrow> (unit reply \<times> 'c Daemon) option" where
  "CallsAction enc w now raw d =
    (case raw of
       None \<Rightarrow> Some (Inl ErrCodeInvalidParams, d)
     | Some p \<Rightarrow>
         if ca_Action p = ''mute'' then mute_action enc (ca_CallID p) True d
         else if ca_Action p = ''unmute'' then mute_action enc (ca_CallID p) False d
         else case Get_call (ca_CallID p) (dm_engine d) of
           None \<Rightarrow> Some (Inl ErrCodeNoSuchCall, d)
         | Some r \<Rightarrow>
             if ca_Action p = ''accept''
             then (case Accept_call w now r (dm_engine d) of
                     (Some _, e) \<Rightarrow> Some (Inl ErrCodeInvalidParams, d\<lparr>dm_engine := e\<rparr>)
                   | (None, e) \<Rightarrow> Some (Inr (), d\<lparr>dm_engine := e\<rparr>))
             else if ca_Action p = ''hangup'' then Some (Inr (), d\<lparr>dm_engine := Hangup w now (ca_Reason p) r (dm_engine d)\<rparr>)
             else Some (Inl ErrCodeInvalidParams, d))"

definition CallsSubscribe :: "'c Daemon \<Rightarrow> nat \<times> 'c Daemon" where
  "CallsSubscribe d = (case SubscribeStateChanges (dm_engine d) of (ch, e) \<Rightarrow> (ch, d\<lparr>dm_engine := e\<rparr>))"

section \<open>Invites\<close>

text \<open>\<open>ttl\<close> is the parsed duration: \<open>None\<close> when the parameter is absent, \<open>Some None\<close> when it does not parse.\<close>

definition InviteCreate ::
    "('priv, 'pub) InvEnv \<Rightarrow> create_env \<Rightarrow> time option option option \<Rightarrow> 'c Daemon \<Rightarrow> (string \<times> string \<times> int \<times> bool) reply \<times> 'c Daemon" where
  "InviteCreate v ce raw d =
    (case raw of
       None \<Rightarrow> (Inl ErrCodeInvalidParams, d)
     | Some (Some None) \<Rightarrow> (Inl ErrCodeInvalidParams, d)
     | Some t \<Rightarrow>
         (let ttl = (case t of Some (Some x) \<Rightarrow> x | _ \<Rightarrow> 30 * 60 * 1000000000) in
          case Create v ce ttl (dm_inv d) of
            (Inl _, s) \<Rightarrow> (Inl ErrCodeInternalError, d\<lparr>dm_inv := s\<rparr>)
          | (Inr res, s) \<Rightarrow> (Inr (Pretty (cr_Code res), cr_URL res, cr_ExpiresAt res div 1000000000, cr_DHTPublishErr res), d\<lparr>dm_inv := s\<rparr>)))"

record InviteListEntry =
  ie_Code :: string
  ie_Pretty :: string
  ie_Active :: bool
  ie_Consumed :: bool
  ie_ConsumedBy :: string
  ie_ExpiresAt :: time

definition InviteList :: "time \<Rightarrow> 'c Daemon \<Rightarrow> InviteListEntry list" where
  "InviteList now d =
    map (\<lambda>e. \<lparr>ie_Code = en_Code e, ie_Pretty = Pretty (en_Code e), ie_Active = (\<not> en_Consumed e \<and> now < en_ExpiresAt e),
              ie_Consumed = en_Consumed e, ie_ConsumedBy = en_ConsumedBy e, ie_ExpiresAt = en_ExpiresAt e\<rparr>)
      (AllList (fst (im_store (dm_inv d))))"

definition InviteRevoke :: "('priv, 'pub) InvEnv \<Rightarrow> io_env \<Rightarrow> string option \<Rightarrow> 'c Daemon \<Rightarrow> string reply \<times> 'c Daemon" where
  "InviteRevoke v env raw d =
    (case raw of
       None \<Rightarrow> (Inl ErrCodeInvalidParams, d)
     | Some code \<Rightarrow>
         (case Parse_code (iv_upper v) code of
            Inl _ \<Rightarrow> (Inl ErrCodeInvalidParams, d)
          | Inr c \<Rightarrow>
              (case Revoke c env (dm_inv d) of
                 (ok, s) \<Rightarrow> (if ok then Inr (Pretty c) else Inl ErrCodeInvalidParams, d\<lparr>dm_inv := s\<rparr>))))"

definition InviteSubscribeRedemption :: "string option \<Rightarrow> 'c Daemon \<Rightarrow> nat reply \<times> 'c Daemon" where
  "InviteSubscribeRedemption raw d =
    (case raw of
       None \<Rightarrow> (Inl ErrCodeInvalidParams, d)
     | Some code \<Rightarrow>
         if code = [] then (Inl ErrCodeInvalidParams, d)
         else (case SubscribeRedemption code (dm_inv d) of (ch, s) \<Rightarrow> (Inr ch, d\<lparr>dm_inv := s\<rparr>)))"

fun contains_scheme :: "string \<Rightarrow> bool" where
  "contains_scheme [] = False"
| "contains_scheme (x # xs) = (take 3 (x # xs) = ''://'' \<or> contains_scheme xs)"

definition InviteRedeem ::
    "('priv, 'pub) InvEnv \<Rightarrow> redeem_env \<Rightarrow> (string \<Rightarrow> string option) \<Rightarrow> string option \<Rightarrow> 'c Daemon \<Rightarrow> FriendsListEntry reply \<times> 'c Daemon" where
  "InviteRedeem v rv get raw d =
    (case raw of
       None \<Rightarrow> (Inl ErrCodeInvalidParams, d)
     | Some code \<Rightarrow>
         (let redeem = (if contains_scheme code then Inr (RedeemURL v rv code (dm_inv d))
                        else case Parse_code (iv_upper v) code of Inl e \<Rightarrow> Inl e | Inr c \<Rightarrow> Inr (Redeem v rv get c (dm_inv d)))
          in case redeem of
               Inl _ \<Rightarrow> (Inl ErrCodeInvalidParams, d)
             | Inr (Inl _, s) \<Rightarrow> (Inl ErrCodeInternalError, d\<lparr>dm_inv := s\<rparr>)
             | Inr (Inr fr, s) \<Rightarrow>
                 (Inr \<lparr>fe_Name = fr_Name fr, fe_PeerID = fr_PeerID fr, fe_Online = False, fe_LastSeen = None, fe_AddedAt = fr_AddedAt fr\<rparr>,
                  d\<lparr>dm_inv := s\<rparr>)))"

section \<open>The stream of call states\<close>

text \<open>The states a session goes through are strictly increasing, from the one it is in to the one it ends in,
  and each is announced once.\<close>

lemma State_String_inj: "State_String a = State_String b \<longleftrightarrow> a = b"
  by (cases a; cases b) auto

lemma state_num_le: "state_num a \<le> 4"
  by (cases a) auto

lemma op_events_cases:
  "(op_events y s = [] \<and> sess_state (sess_step y s) = sess_state s)
   \<or> (\<exists>st t r. op_events y s = [change_of s st t r] \<and> sess_state (sess_step y s) = st \<and> state_num (sess_state s) < state_num st)"
proof (cases "sess_state (sess_step y s) = sess_state s")
  case False
  then obtain st t r where tg: "sess_target y = Some (st, t, r)" by (auto simp: sess_step_state split: option.splits)
  with False have n: "sess_state (sess_step y s) = st" "sess_state s \<noteq> StateEnded"
    "st = StateEnded \<or> state_num st = state_num (sess_state s) + 1" by (auto simp: sess_step_state split: if_splits)
  then have "state_num (sess_state s) < state_num st" by (cases "sess_state s") auto
  with False tg n show ?thesis by (auto simp: op_events_def)
qed (simp add: op_events_def)

lemma run_states:
  "\<exists>sts. map sc_State (run_events xs s) = map State_String sts
     \<and> sorted_wrt (\<lambda>a b. state_num a < state_num b) (sess_state s # sts) \<and> last (sess_state s # sts) = sess_state (fold sess_step xs s)"
proof (induction xs arbitrary: s)
  case (Cons x xs)
  from Cons [of "sess_step x s"] obtain sts where i: "map sc_State (run_events xs (sess_step x s)) = map State_String sts"
    "sorted_wrt (\<lambda>a b. state_num a < state_num b) (sess_state (sess_step x s) # sts)"
    "last (sess_state (sess_step x s) # sts) = sess_state (fold sess_step xs (sess_step x s))" by blast
  from op_events_cases [of x s] show ?case
  proof
    assume "op_events x s = [] \<and> sess_state (sess_step x s) = sess_state s"
    with i show ?thesis by auto
  next
    assume "\<exists>st t r. op_events x s = [change_of s st t r] \<and> sess_state (sess_step x s) = st \<and> state_num (sess_state s) < state_num st"
    then obtain st t r where o: "op_events x s = [change_of s st t r]" "sess_state (sess_step x s) = st" "state_num (sess_state s) < state_num st" by blast
    with i have "map sc_State (run_events (x # xs) s) = map State_String (st # sts)" by (simp add: change_of_def)
    moreover have "sorted_wrt (\<lambda>a b. state_num a < state_num b) (sess_state s # st # sts)" using i(2) o by fastforce
    ultimately show ?thesis using i(3) o(2) by (intro exI [of _ "st # sts"]) simp
  qed
qed (intro exI [of _ "[]"], simp)

text \<open>Without a duplicate to drop, and as nothing follows an ended state, the forwarder copies its channel.\<close>

lemma pipe_forward_copies:
  assumes "map sc_State evs = map State_String sts" and "sorted_wrt (\<lambda>a b. state_num a < state_num b) sts"
  shows "pipe_forward False cur evs = evs"
  using assms
proof (induction evs arbitrary: sts)
  case (Cons ev evs)
  then obtain st sts' where s: "sts = st # sts'" "sc_State ev = State_String st" "map sc_State evs = map State_String sts'" by (cases sts) auto
  have "evs = []" if "sc_State ev = ''ended''"
  proof -
    have "st = StateEnded" using that s(2) by (cases st) auto
    then have "sts' = []" using Cons.prems(2) s(1) state_num_le by (cases sts') (auto simp: not_less [symmetric])
    with s(3) show ?thesis by simp
  qed
  with Cons.IH [OF s(3)] Cons.prems(2) s(1) show ?case by auto
qed simp

lemma pipe_forward_first:
  assumes "map sc_State evs = map State_String zs" and "sorted_wrt (\<lambda>a b. state_num a < state_num b) zs"
  shows "pipe_forward True cur evs = (if evs \<noteq> [] \<and> sc_State (hd evs) = cur then tl evs else evs)"
proof (cases evs)
  case (Cons e es)
  then obtain z zs' where z: "zs = z # zs'" "map sc_State es = map State_String zs'" using assms(1) by (cases zs) auto
  have "pipe_forward False cur es = es" "pipe_forward False cur (e # es) = e # es"
    using pipe_forward_copies [OF z(2)] pipe_forward_copies [OF assms(1)] assms(2) Cons z(1) by auto
  then show ?thesis using Cons by (auto split: if_splits)
qed simp

text \<open>The first event of the channel repeats the state that was read exactly when one change fell in between.\<close>

lemma first_event_repeats:
  assumes a: "sorted_wrt (\<lambda>a b. state_num a < state_num b) (x # as)" and b: "sorted_wrt (\<lambda>a b. state_num a < state_num b) (last (x # as) # bs)"
  shows "(as @ bs \<noteq> [] \<and> hd (as @ bs) = last (x # as)) \<longleftrightarrow> length as = 1"
proof (cases as)
  case Nil
  then show ?thesis using b by (cases bs) auto
next
  case (Cons y ys)
  then show ?thesis using a by (cases "ys = []") (auto dest: last_in_set)
qed

lemma session_Subscribe_state: "sess_state (snd (session_Subscribe s)) = sess_state s"
  by (simp add: session_Subscribe_def Let_def)


definition ex_session :: Session where
  "ex_session = snd (ToRinging 1 (NewSession ''c'' ''bob'' Outbound 0))"


section \<open>Adding a friend\<close>

text \<open>The file another user exported is accepted, and the name it is stored under can then be called.\<close>

lemma exported_identity_can_be_called:
  assumes "keys_ok K" and "keypair_of K priv = Inr kp" and "Export K kp name = Inr ident" and "name \<noteq> []"
    and "files path = Some (Data ident)" and "path \<noteq> []" and decode: "\<And>p. decode (k_idStr K p) = Some p"
    and st: "im_friends (dm_inv d) = (s, fs)" and new: "name \<notin> fr_Name ` set (st_friends s)" "kp_PeerID kp \<notin> fr_PeerID ` set (st_friends s)"
    and io: "io_success env" "fresh_temp (st_path s) env fs"
  shows "\<exists>e d'. FriendsAdd K decode files env now (Some \<lparr>fa_KeyPath = path, fa_Name = []\<rparr>) d = (Inr e, d') \<and> fe_PeerID e = kp_PeerID kp
    \<and> resolveTarget decode name (Some (fst (im_friends (dm_inv d')))) = Inr (kp_PeerID kp)"
proof -
  let ?f = "\<lparr>fr_Name = name, fr_PeerID = kp_PeerID kp, fr_PublicKey = pi_PublicKey ident, fr_AddedAt = now, fr_RendezvousHint = pi_RendezvousHint ident\<rparr>"
  have i: "pi_Name ident = name" "pi_PeerID ident = k_idStr K (kp_PeerID kp)" using assms(3) by (auto simp: Export_def split: option.splits)
  have "add_conflict ?f (st_friends s) = None" using new by (auto simp: add_conflict_None)
  moreover have "\<exists>fs'. persistLocked env (s\<lparr>st_friends := st_friends s @ [?f]\<rparr>) fs = (Inr (), fs')"
    using persistLocked_ok [of "s\<lparr>st_friends := st_friends s @ [?f]\<rparr>" env fs] io by auto
  ultimately obtain fs' where a: "Add ?f env s fs = (Inr (), s\<lparr>st_friends := st_friends s @ [?f]\<rparr>, fs')"
    by (auto simp: Add_def Let_def)
  have "find (\<lambda>f. fr_Name f = name) (st_friends s @ [?f]) = Some ?f" using new(1) by (intro find_snoc_new) auto
  moreover have "ReadExport K path files = Inr ident" using assms(1-3,5) by (rule Read_Export)
  ultimately show ?thesis
    using a i assms(4,6) st decode by (simp add: FriendsAdd_def resolveTarget_def Get_friend_def Let_def)
qed

text \<open>C27: \<open>friends.add\<close> binds the friend to a key. Whatever file the user was handed, a friend that is stored is one
  more entry at the end of the list, under a new non-empty name and a new peer ID, and that peer ID is the one
  derived from the stored public key.\<close>

theorem friends_add_binds_key:
  assumes decode: "\<And>p. decode (k_idStr K p) = Some p" and add: "FriendsAdd K decode files env now raw d = (Inr e, d')"
  shows "\<exists>f key pub. st_friends (fst (im_friends (dm_inv d'))) = st_friends (fst (im_friends (dm_inv d))) @ [f]
    \<and> fr_Name f \<noteq> [] \<and> fr_Name f \<notin> fr_Name ` set (st_friends (fst (im_friends (dm_inv d))))
    \<and> fr_PeerID f \<notin> fr_PeerID ` set (st_friends (fst (im_friends (dm_inv d))))
    \<and> std_decode (fr_PublicKey f) = Some key \<and> k_unmarshalPub K key = Some pub \<and> k_idFromPub K pub = Some (fr_PeerID f)
    \<and> fe_Name e = fr_Name f \<and> fe_PeerID e = fr_PeerID f"
proof -
  let ?st = "im_friends (dm_inv d)"
  obtain p ident pid where r: "ReadExport K (fa_KeyPath p) files = Inr ident" "decode (pi_PeerID ident) = Some pid" "raw = Some p" "fa_KeyPath p \<noteq> []"
    using add by (auto simp: FriendsAdd_def split: option.splits if_splits sum.splits)
  define f where "f = \<lparr>fr_Name = if fa_Name p = [] then pi_Name ident else fa_Name p, fr_PeerID = pid, fr_PublicKey = pi_PublicKey ident,
    fr_AddedAt = now, fr_RendezvousHint = pi_RendezvousHint ident\<rparr>"
  obtain q s' fs' where q: "Add f env (fst ?st) (snd ?st) = (q, s', fs')" by (cases "Add f env (fst ?st) (snd ?st)") auto
  have "fr_Name f \<noteq> [] \<and> q = Inr () \<and> im_friends (dm_inv d') = (s', fs') \<and> fe_Name e = fr_Name f \<and> fe_PeerID e = fr_PeerID f"
    using add r q [unfolded f_def] by (auto simp: FriendsAdd_def f_def Let_def split: if_splits sum.splits)
  note f = this Add_result [of f env "fst ?st" "snd ?st" "()" s' fs']
  obtain pub i where k: "PubKey K ident = Inr pub" "k_idFromPub K pub = Some i" "pi_PeerID ident = k_idStr K i"
    using ReadExport_sound [OF r(1)] by blast
  then obtain key where "std_decode (pi_PublicKey ident) = Some key" "k_unmarshalPub K key = Some pub"
    by (auto simp: PubKey_def split: option.splits)
  moreover have "pid = i" "fr_PeerID f = pid" "fr_PublicKey f = pi_PublicKey ident" using r(2) k(3) decode by (auto simp: f_def)
  ultimately show ?thesis using f q k(2) by auto
qed

definition ex_daemon :: "unit Daemon" where
  "ex_daemon = \<lparr>dm_inv = ex_state [], dm_presence = NewPresence, dm_engine = ex_a, dm_audio = None\<rparr>"

definition ex_ident :: PublicIdentity where
  "ex_ident = \<lparr>pi_Version = 1, pi_Name = ''bob'', pi_PeerID = ''bob'', pi_PublicKey = std_encode ''bob'', pi_RendezvousHint = []\<rparr>"

theorem friends_add_binds_key_witness:
  "\<exists>e d' f. FriendsAdd ex_keys Some [''bob.yaml'' \<mapsto> Data ex_ident] ex_io 5 (Some \<lparr>fa_KeyPath = ''bob.yaml'', fa_Name = []\<rparr>) ex_daemon = (Inr e, d')
    \<and> st_friends (fst (im_friends (dm_inv d'))) = [f] \<and> std_decode (fr_PublicKey f) = Some (fr_PeerID f) \<and> fe_PeerID e = ''bob''"
proof -
  have "keypair_of ex_keys ''bob'' = Inr \<lparr>kp_Priv = ''bob'', kp_Pub = ''bob'', kp_PeerID = ''bob''\<rparr>" by (simp add: keypair_of_def)
  moreover have "Export ex_keys \<lparr>kp_Priv = ''bob'', kp_Pub = ''bob'', kp_PeerID = ''bob''\<rparr> ''bob'' = Inr ex_ident"
    by (simp add: Export_def ex_ident_def)
  ultimately obtain e d' where r: "FriendsAdd ex_keys Some [''bob.yaml'' \<mapsto> Data ex_ident] ex_io 5 (Some \<lparr>fa_KeyPath = ''bob.yaml'', fa_Name = []\<rparr>) ex_daemon = (Inr e, d')"
    "fe_PeerID e = ''bob''"
    using exported_identity_can_be_called [of ex_keys "''bob''" _ "''bob''" ex_ident "[''bob.yaml'' \<mapsto> Data ex_ident]" "''bob.yaml''" Some ex_daemon
        "\<lparr>st_path = ''f'', st_friends = []\<rparr>" Map.empty ex_io 5] ex_keys_ok
    by (auto simp: ex_daemon_def ex_state_def ex_io_def io_success_def fresh_temp_def)
  have k: "k_idStr ex_keys = id" "k_unmarshalPub ex_keys = Some" "k_idFromPub ex_keys = Some" by simp_all
  have "Some (k_idStr ex_keys p) = Some p" for p by simp
  from friends_add_binds_key [OF this r(1)] obtain f key pub where
    f: "st_friends (fst (im_friends (dm_inv d'))) = [f]" "std_decode (fr_PublicKey f) = Some key" "key = pub" "pub = fr_PeerID f" "fe_PeerID e = fr_PeerID f"
    by (auto simp: k ex_daemon_def ex_state_def)
  with r show ?thesis by metis
qed

end
