(* ===== verification/P2p.thy ===== *)
theory P2p
  imports Call_Engine Friends_Store Friends_Presence
begin

text \<open>
  \<open>internal/transport/p2p\<close>: the libp2p host (\<open>host.go\<close>), LAN discovery and bootstrap lists (\<open>discovery.go\<close>) and
  the address file (\<open>peerstore.go\<close>).

  libp2p itself is a parameter: \<open>multiaddrs\<close> is what the code asks of its address library (an address is its
  text), and the construction of the host is a function of the options the code puts together. The network keeps
  the open connections; each notification about a connection is delivered as a step of its own.
\<close>

record multiaddrs =
  ma_new :: "string \<Rightarrow> addr option"
  ma_comps :: "addr \<Rightarrow> (string \<times> string) list"
  ma_info :: "addr \<Rightarrow> AddrInfo option"
  ma_public :: "addr \<Rightarrow> bool"
  ma_decode :: "string \<Rightarrow> peer_id option"

section \<open>Construction of the host\<close>

datatype Reach = ReachabilityUnknown | ReachabilityPublic | ReachabilityPrivate

datatype DHTMode = ModeAuto | ModeServer | ModeClient

text \<open>A nil relay list (\<open>None\<close>) is not the same as an empty one; a nil bootstrap list is.\<close>

record 'priv HostOptions =
  ho_PrivKey :: "'priv option"
  ho_ListenAddrs :: "addr list"
  ho_BootstrapPeers :: "AddrInfo list"
  ho_RelayPeers :: "AddrInfo list option"
  ho_DHTMode :: DHTMode
  ho_ForceReachability :: Reach
  ho_RelayServiceUnlimited :: bool

text \<open>The options that depend on the arguments. \<open>lo_AutoRelay\<close> is the static relay list, when AutoRelay is on.\<close>

record 'priv libp2pOpts =
  lo_Identity :: 'priv
  lo_Listen :: "addr list"
  lo_Bootstraps :: "AddrInfo list"
  lo_Mode :: DHTMode
  lo_Unlimited :: bool
  lo_AutoRelay :: "AddrInfo list option"
  lo_Force :: "Reach option"

datatype host_error = ErrNoPrivKey | ErrDefaultListen string | ErrBootstrap string | ErrConstruct string | ErrNoDHT

record Host =
  hs_ID :: peer_id
  hs_Addrs :: "addr list"
  hs_reachability :: Reach
  hs_watching :: bool
  hs_closed :: bool

definition publicBootstrapAddrs :: "string list" where
  "publicBootstrapAddrs =
    [''/dnsaddr/bootstrap.libp2p.io/p2p/QmNnooDu7bfjPFoTZYxMNLWUQJyrVwtbZg5gBMjTezGAJN'',
     ''/dnsaddr/bootstrap.libp2p.io/p2p/QmQCU2EcMqAqQPR2i9bChDtGNJchTbq5TbXJJ16u19uLTa'',
     ''/dnsaddr/bootstrap.libp2p.io/p2p/QmbLHAnMoJPWSCR5Zhtx6BHJX9KiKNN6tpvbUcqanj75Nb'',
     ''/dnsaddr/bootstrap.libp2p.io/p2p/QmcZf59bWwK5XFi76CZX8cbJ4BhTzzA3gU1ZjYZcYW3dwt'']"

fun bootstrap_infos :: "multiaddrs \<Rightarrow> string list \<Rightarrow> host_error + AddrInfo list" where
  "bootstrap_infos M [] = Inr []"
| "bootstrap_infos M (s # ss) =
    (case Option.bind (ma_new M s) (ma_info M) of
       None \<Rightarrow> Inl (ErrBootstrap s)
     | Some i \<Rightarrow> (case bootstrap_infos M ss of Inl e \<Rightarrow> Inl e | Inr is \<Rightarrow> Inr (i # is)))"

definition publicBootstrapAddrInfo :: "multiaddrs \<Rightarrow> host_error + AddrInfo list" where
  "publicBootstrapAddrInfo M = bootstrap_infos M publicBootstrapAddrs"

fun parse_listen :: "multiaddrs \<Rightarrow> string list \<Rightarrow> host_error + addr list" where
  "parse_listen M [] = Inr []"
| "parse_listen M (s # ss) =
    (case ma_new M s of
       None \<Rightarrow> Inl (ErrDefaultListen s)
     | Some a \<Rightarrow> (case parse_listen M ss of Inl e \<Rightarrow> Inl e | Inr as \<Rightarrow> Inr (a # as)))"

text \<open>\<open>mk\<close> is \<open>libp2p.New\<close>: an error text, or the new host's peer ID and addresses, and whether the routing
  callback was run.\<close>

definition New_host ::
    "multiaddrs \<Rightarrow> ('priv libp2pOpts \<Rightarrow> string + (peer_id \<times> addr list \<times> bool)) \<Rightarrow> bool \<Rightarrow> 'priv HostOptions \<Rightarrow> host_error + Host" where
  "New_host M mk subscribed opts =
    (case ho_PrivKey opts of
       None \<Rightarrow> Inl ErrNoPrivKey
     | Some key \<Rightarrow>
         (case (if ho_ListenAddrs opts = []
                then parse_listen M [''/ip4/0.0.0.0/tcp/0'', ''/ip6/::/tcp/0'', ''/ip4/0.0.0.0/udp/0/quic-v1'', ''/ip6/::/udp/0/quic-v1'']
                else Inr (ho_ListenAddrs opts)) of
            Inl e \<Rightarrow> Inl e
          | Inr listen \<Rightarrow>
              (case (case ho_RelayPeers opts of None \<Rightarrow> publicBootstrapAddrInfo M | Some rs \<Rightarrow> Inr rs) of
                 Inl e \<Rightarrow> Inl e
               | Inr relays \<Rightarrow>
                   (case mk \<lparr>lo_Identity = key, lo_Listen = listen, lo_Bootstraps = ho_BootstrapPeers opts, lo_Mode = ho_DHTMode opts,
                             lo_Unlimited = ho_RelayServiceUnlimited opts,
                             lo_AutoRelay = (if relays = [] then None else Some relays),
                             lo_Force = (case ho_ForceReachability opts of ReachabilityUnknown \<Rightarrow> None | r \<Rightarrow> Some r)\<rparr> of
                      Inl e \<Rightarrow> Inl (ErrConstruct e)
                    | Inr (i, as, dht) \<Rightarrow>
                        if \<not> dht then Inl ErrNoDHT
                        else Inr \<lparr>hs_ID = i, hs_Addrs = as, hs_reachability = ReachabilityUnknown, hs_watching = subscribed,
                                  hs_closed = False\<rparr>))))"

text \<open>One event of the reachability watcher, and what the status shows.\<close>

definition reachability_event :: "Reach \<Rightarrow> Host \<Rightarrow> Host" where
  "reachability_event r h = (if hs_watching h then h\<lparr>hs_reachability := r\<rparr> else h)"

definition Reachability :: "Host \<Rightarrow> string" where
  "Reachability h =
    (case hs_reachability h of ReachabilityPublic \<Rightarrow> ''public'' | ReachabilityPrivate \<Rightarrow> ''private'' | ReachabilityUnknown \<Rightarrow> ''unknown'')"

definition Close_host :: "Host \<Rightarrow> Host" where
  "Close_host h = h\<lparr>hs_watching := False, hs_closed := True\<rparr>"

section \<open>Addresses\<close>

definition ListenAddrs :: "(peer_id \<Rightarrow> string) \<Rightarrow> Host \<Rightarrow> string list" where
  "ListenAddrs str h = map (\<lambda>a. a @ ''/p2p/'' @ str (hs_ID h)) (hs_Addrs h)"

definition InviteAddrs :: "Host \<Rightarrow> addr list" where
  "InviteAddrs h = hs_Addrs h"

definition isRelayCircuitAddr :: "multiaddrs \<Rightarrow> addr \<Rightarrow> bool" where
  "isRelayCircuitAddr M a \<longleftrightarrow> ''p2p-circuit'' \<in> fst ` set (ma_comps M a)"

definition PublicAddrs :: "multiaddrs \<Rightarrow> Host \<Rightarrow> addr list" where
  "PublicAddrs M h = filter (\<lambda>a. ma_public M a \<or> isRelayCircuitAddr M a) (hs_Addrs h)"

text \<open>The walk over the components, with \<open>lastPeer\<close> the value of the last \<open>p2p\<close> component; \<open>None\<close> is not found.\<close>

fun circuit_walk :: "string \<Rightarrow> (string \<times> string) list \<Rightarrow> string option" where
  "circuit_walk lastPeer [] = None"
| "circuit_walk lastPeer ((name, val) # cs) =
    (if name = ''p2p'' then circuit_walk val cs
     else if name = ''p2p-circuit'' then (if lastPeer = [] then None else Some lastPeer)
     else circuit_walk lastPeer cs)"

definition relayIDFromCircuitAddr :: "multiaddrs \<Rightarrow> addr \<Rightarrow> peer_id option" where
  "relayIDFromCircuitAddr M a = Option.bind (circuit_walk [] (ma_comps M a)) (ma_decode M)"

fun reservations :: "multiaddrs \<Rightarrow> peer_id list \<Rightarrow> addr list \<Rightarrow> peer_id list" where
  "reservations M out [] = out"
| "reservations M out (a # as) =
    (case relayIDFromCircuitAddr M a of
       None \<Rightarrow> reservations M out as
     | Some i \<Rightarrow> reservations M (if i \<in> set out then out else out @ [i]) as)"

definition RelayReservations :: "multiaddrs \<Rightarrow> Host \<Rightarrow> peer_id list" where
  "RelayReservations M h = reservations M [] (hs_Addrs h)"

definition HostAddrInfo :: "Host \<Rightarrow> AddrInfo option" where
  "HostAddrInfo h = (if hs_Addrs h = [] then None else Some \<lparr>ai_ID = hs_ID h, ai_Addrs = hs_Addrs h\<rparr>)"

text \<open>Each relay that granted a reservation is listed once.\<close>

lemma reservations_set:
  "distinct out \<Longrightarrow> distinct (reservations M out as)
     \<and> set (reservations M out as) = set out \<union> {i. \<exists>a\<in>set as. relayIDFromCircuitAddr M a = Some i}"
  by (induction M out as rule: reservations.induct) (auto split: option.splits)

lemma RelayReservations_set:
  "distinct (RelayReservations M h) \<and> set (RelayReservations M h) = {i. \<exists>a\<in>set (hs_Addrs h). relayIDFromCircuitAddr M a = Some i}"
  using reservations_set [of "[]"] by (simp add: RelayReservations_def)

text \<open>The relay is named by the last \<open>p2p\<close> component before the circuit, whatever follows it.\<close>

lemma circuit_walk_relay:
  assumes "''p2p-circuit'' \<notin> fst ` set (xs @ ys)" and "''p2p'' \<notin> fst ` set ys" and "r \<noteq> []"
  shows "circuit_walk l (xs @ (''p2p'', r) # ys @ (''p2p-circuit'', v) # zs) = Some r"
proof -
  have "circuit_walk r (ys @ (''p2p-circuit'', v) # zs) = Some r"
    using assms by (induction ys) auto
  then show ?thesis using assms(1) by (induction xs arbitrary: l) auto
qed

text \<open>Every relay that is listed appears among the addresses that are published.\<close>

lemma circuit_walk_component: "circuit_walk l cs = Some r \<Longrightarrow> ''p2p-circuit'' \<in> fst ` set cs"
  by (induction l cs rule: circuit_walk.induct) (auto split: if_splits)

lemma reservation_is_published:
  assumes "i \<in> set (RelayReservations M h)"
  shows "\<exists>a\<in>set (PublicAddrs M h). relayIDFromCircuitAddr M a = Some i"
  using assms circuit_walk_component
  by (fastforce simp: RelayReservations_set PublicAddrs_def isRelayCircuitAddr_def relayIDFromCircuitAddr_def split: Option.bind_splits)

section \<open>The address file\<close>

text \<open>libp2p's peerstore is read as \<open>peers\<close> and \<open>addrs\<close>; what is added to it is the list of \<open>AddAddrs\<close> calls.\<close>

type_synonym peerstoreEntry = "peer_id \<times> string list"

definition SavePeerstore ::
    "peer_id \<Rightarrow> peer_id list \<Rightarrow> (peer_id \<Rightarrow> addr list) \<Rightarrow> string \<Rightarrow> io_env \<Rightarrow> peerstoreEntry list fs
     \<Rightarrow> (io_error + unit) \<times> peerstoreEntry list fs" where
  "SavePeerstore self peers addrs path env fs =
    AtomicWriteFile path (map (\<lambda>i. (i, addrs i)) (filter (\<lambda>i. i \<noteq> self \<and> addrs i \<noteq> []) peers)) env fs"

datatype peerstore_error = ErrPeerstoreRead | ErrPeerstoreParse

fun load_peers :: "multiaddrs \<Rightarrow> peerstoreEntry list \<Rightarrow> (peer_id \<times> addr list) list" where
  "load_peers M [] = []"
| "load_peers M ((i, ss) # es) =
    (let as = List.map_filter (ma_new M) ss in if as = [] then load_peers M es else (i, as) # load_peers M es)"

definition LoadPeerstore :: "multiaddrs \<Rightarrow> bool \<Rightarrow> string \<Rightarrow> peerstoreEntry list fs \<Rightarrow> peerstore_error + (peer_id \<times> addr list) list" where
  "LoadPeerstore M readable path fs =
    (case fs path of
       None \<Rightarrow> Inr []
     | Some c \<Rightarrow>
         if \<not> readable then Inl ErrPeerstoreRead
         else (case c of Partial \<Rightarrow> Inl ErrPeerstoreParse | Data es \<Rightarrow> Inr (load_peers M es)))"

lemma map_filter_Some: "(\<And>x. x \<in> set xs \<Longrightarrow> f x = Some x) \<Longrightarrow> List.map_filter f xs = xs"
  by (induction xs) (auto simp: map_filter_simps)

lemma load_peers_saved:
  assumes "\<And>i a. i \<in> set is \<Longrightarrow> a \<in> set (addrs i) \<Longrightarrow> ma_new M a = Some a"
  shows "load_peers M (map (\<lambda>i. (i, addrs i)) (filter (\<lambda>i. i \<noteq> self \<and> addrs i \<noteq> []) is))
      = map (\<lambda>i. (i, addrs i)) (filter (\<lambda>i. i \<noteq> self \<and> addrs i \<noteq> []) is)"
  using assms
proof (induction "is")
  case (Cons i "is")
  have "List.map_filter (ma_new M) (addrs i) = addrs i" using Cons.prems by (intro map_filter_Some) auto
  with Cons show ?case by auto
qed simp

text \<open>The addresses a daemon saved when it stopped are the ones the next one adds, for every peer but itself.\<close>

lemma peerstore_roundtrip:
  assumes "\<And>i a. i \<in> set peers \<Longrightarrow> a \<in> set (addrs i) \<Longrightarrow> ma_new M a = Some a"
    and "fresh_temp path env fs" and "io_success env" and "SavePeerstore self peers addrs path env fs = (r, fs')"
  shows "LoadPeerstore M True path fs' = Inr (map (\<lambda>i. (i, addrs i)) (filter (\<lambda>i. i \<noteq> self \<and> addrs i \<noteq> []) peers))"
  using assms(4) AtomicWriteFile_ok [OF assms(2,3)] load_peers_saved [OF assms(1)]
  by (auto simp: SavePeerstore_def LoadPeerstore_def)

text \<open>mDNS: the addresses of a peer that was found are added and the peer is dialed.\<close>

definition HandlePeerFound :: "AddrInfo \<Rightarrow> (peer_id \<times> addr list) list \<times> AddrInfo list \<Rightarrow> (peer_id \<times> addr list) list \<times> AddrInfo list" where
  "HandlePeerFound pi s = (fst s @ [(ai_ID pi, ai_Addrs pi)], snd s @ [pi])"

text \<open>The record validator of the program's DHT namespaces takes every record, and the first of several.\<close>

definition Validate :: "string \<Rightarrow> string \<Rightarrow> bool" where
  "Validate key rec \<longleftrightarrow> True"

definition Select :: "string \<Rightarrow> string list \<Rightarrow> nat" where
  "Select key recs = 0"

section \<open>Connections and presence\<close>

text \<open>The two notifications that do something, for a filter, callbacks that may be nil and the number of connections
  the network has to the peer at that moment.\<close>

definition Connected :: "(peer_id \<Rightarrow> bool) \<Rightarrow> (peer_id \<Rightarrow> 's \<Rightarrow> 's) option \<Rightarrow> peer_id \<Rightarrow> 's \<Rightarrow> 's" where
  "Connected flt online i s = (if \<not> flt i then s else case online of None \<Rightarrow> s | Some f \<Rightarrow> f i s)"

definition Disconnected :: "(peer_id \<Rightarrow> bool) \<Rightarrow> nat \<Rightarrow> (peer_id \<Rightarrow> 's \<Rightarrow> 's) option \<Rightarrow> peer_id \<Rightarrow> 's \<Rightarrow> 's" where
  "Disconnected flt conns offline i s =
    (if \<not> flt i then s else if conns > 0 then s else case offline of None \<Rightarrow> s | Some f \<Rightarrow> f i s)"

text \<open>The network with the friends and the presence tracker of the daemon. \<open>nt_toC\<close> and \<open>nt_toD\<close> are the
  notifications still to be delivered; a connection's \<open>Disconnected\<close> comes after its \<open>Connected\<close>, and
  notifications of different connections come in any order.\<close>

record Net =
  nt_conns :: "(nat \<times> peer_id) list"
  nt_toC :: "(nat \<times> peer_id) list"
  nt_toD :: "(nat \<times> peer_id) list"
  nt_next :: nat
  nt_friends :: Store
  nt_presence :: Presence

datatype net_op = NOpen peer_id | NClose "nat \<times> peer_id" | NConnected "nat \<times> peer_id" time | NDisconnected "nat \<times> peer_id" time | NFriends Store

definition friend_filter :: "Store \<Rightarrow> peer_id \<Rightarrow> bool" where
  "friend_filter st i \<longleftrightarrow> GetByPeerID i st \<noteq> None"

fun net_step :: "net_op \<Rightarrow> Net \<Rightarrow> Net" where
  "net_step (NOpen p) n = n\<lparr>nt_conns := (nt_next n, p) # nt_conns n, nt_toC := (nt_next n, p) # nt_toC n, nt_next := Suc (nt_next n)\<rparr>"
| "net_step (NClose c) n =
    (if c \<in> set (nt_conns n) then n\<lparr>nt_conns := removeAll c (nt_conns n), nt_toD := c # nt_toD n\<rparr> else n)"
| "net_step (NConnected c t) n =
    (if c \<in> set (nt_toC n)
     then n\<lparr>nt_toC := removeAll c (nt_toC n),
            nt_presence := Connected (friend_filter (nt_friends n)) (Some (\<lambda>i. MarkOnline i t)) (snd c) (nt_presence n)\<rparr>
     else n)"
| "net_step (NDisconnected c t) n =
    (if c \<in> set (nt_toD n) \<and> c \<notin> set (nt_toC n)
     then n\<lparr>nt_toD := removeAll c (nt_toD n),
            nt_presence := Disconnected (friend_filter (nt_friends n)) (length (filter (\<lambda>d. snd d = snd c) (nt_conns n)))
              (Some (\<lambda>i. MarkOffline i t)) (snd c) (nt_presence n)\<rparr>
     else n)"
| "net_step (NFriends st) n = n\<lparr>nt_friends := st\<rparr>"

definition NewNet :: "Store \<Rightarrow> Net" where
  "NewNet st = \<lparr>nt_conns = [], nt_toC = [], nt_toD = [], nt_next = 0, nt_friends = st, nt_presence = NewPresence\<rparr>"

definition connected_to :: "peer_id \<Rightarrow> Net \<Rightarrow> bool" where
  "connected_to q n \<longleftrightarrow> q \<in> snd ` set (nt_conns n)"

text \<open>What holds of a peer that is a friend all along.\<close>

definition tracks :: "peer_id \<Rightarrow> Net \<Rightarrow> bool" where
  "tracks q n \<longleftrightarrow>
     (\<forall>c\<in>set (nt_conns n). snd c = q \<longrightarrow> c \<notin> set (nt_toC n) \<longrightarrow> IsOnline q (nt_presence n))
   \<and> (IsOnline q (nt_presence n) \<longrightarrow> q \<in> snd ` set (nt_conns n) \<union> snd ` set (nt_toD n))
   \<and> set (nt_toC n) \<subseteq> set (nt_conns n) \<union> set (nt_toD n)"

lemma connected_online:
  "IsOnline q (Connected flt (Some (\<lambda>i. MarkOnline i t)) p s) \<longleftrightarrow> (q = p \<and> flt p) \<or> IsOnline q s"
  by (auto simp: Connected_def MarkOnline_def presence_transition_online)

lemma disconnected_online:
  "IsOnline q (Disconnected flt k (Some (\<lambda>i. MarkOffline i t)) p s) \<longleftrightarrow> IsOnline q s \<and> (q = p \<longrightarrow> flt p \<longrightarrow> 0 < k)"
  by (auto simp: Disconnected_def MarkOffline_def presence_transition_online)

lemma tracks_step:
  assumes "tracks q n" and "friend_filter (nt_friends n) q"
  shows "tracks q (net_step x n)"
proof (cases x)
  case (NConnected c t)
  with assms show ?thesis by (cases c) (fastforce simp: tracks_def connected_online image_iff)
next
  case (NDisconnected c t)
  with assms show ?thesis
    by (cases c) (fastforce simp: tracks_def disconnected_online filter_empty_conv image_iff length_greater_0_conv)
qed (use assms in \<open>auto simp: tracks_def image_iff\<close>)

lemma net_step_friends: "nt_friends (net_step x n) = (case x of NFriends st \<Rightarrow> st | _ \<Rightarrow> nt_friends n)"
  by (cases x) auto

lemma tracks_run:
  assumes "tracks q n" and "friend_filter (nt_friends n) q" and "\<forall>st. NFriends st \<in> set xs \<longrightarrow> friend_filter st q"
  shows "tracks q (fold net_step xs n)"
  using assms
proof (induction xs arbitrary: n)
  case (Cons x xs)
  then have "friend_filter (nt_friends (net_step x n)) q" by (auto simp: net_step_friends split: net_op.splits)
  with Cons tracks_step [OF Cons.prems(1,2), of x] show ?case by auto
qed simp



lemma offline_step:
  assumes "\<not> IsOnline q (nt_presence n)" and "q \<notin> snd ` set (nt_toC n)" and "x \<noteq> NOpen q"
  shows "\<not> IsOnline q (nt_presence (net_step x n)) \<and> q \<notin> snd ` set (nt_toC (net_step x n))"
  using assms by (cases x) (auto simp: connected_online disconnected_online image_iff)

lemma offline_run:
  assumes "\<not> IsOnline q (nt_presence n)" and "q \<notin> snd ` set (nt_toC n)" and "NOpen q \<notin> set xs"
  shows "\<not> IsOnline q (nt_presence (fold net_step xs n))"
  using assms
proof (induction xs arbitrary: n)
  case (Cons x xs)
  from Cons.prems(3) have "x \<noteq> NOpen q" by auto
  from offline_step [OF Cons.prems(1,2) this] Cons show ?case by simp
qed simp

lemma stranger_offline:
  assumes "\<forall>st. NFriends st \<in> set xs \<longrightarrow> \<not> friend_filter st q" and "\<not> friend_filter (nt_friends n) q" and "\<not> IsOnline q (nt_presence n)"
  shows "\<not> IsOnline q (nt_presence (fold net_step xs n))"
  using assms
proof (induction xs arbitrary: n)
  case (Cons x xs)
  have "\<not> IsOnline q (nt_presence (net_step x n))" using Cons.prems(2,3) by (cases x) (auto simp: connected_online disconnected_online)
  moreover have "\<not> friend_filter (nt_friends (net_step x n)) q" using Cons.prems by (auto simp: net_step_friends split: net_op.splits)
  ultimately show ?case using Cons by auto
qed simp

text \<open>A friend added over an open connection is shown offline. A peer that connected before it was a friend, as
  every inviter and redeemer of an invite does, is not shown online when it is added and stays so however long the
  connection lasts, until a further connection to it is opened.\<close>

theorem friend_added_while_connected_stays_offline:
  assumes "\<not> friend_filter st q" and "\<forall>st'. NFriends st' \<in> set xs \<longrightarrow> \<not> friend_filter st' q"
    and "n = fold net_step xs (NewNet st)" and "q \<notin> snd ` set (nt_toC n)" and "NOpen q \<notin> set ys"
  shows "\<not> IsOnline q (nt_presence (fold net_step (NFriends st' # ys) n))"
proof -
  have "\<not> IsOnline q (nt_presence n)"
    using stranger_offline [OF assms(2), of "NewNet st"] assms(1,3) by (simp add: NewNet_def NewPresence_def IsOnline_def)
  then show ?thesis using offline_run [OF _ assms(4), of "NFriends st' # ys"] assms(5) by simp
qed

theorem friend_added_while_connected_stays_offline_witness:
  "let st' = \<lparr>st_path = [], st_friends = [ex_friend ''bob'' ''q'']\<rparr>;
       n = fold net_step [NOpen ''q'', NConnected (0, ''q'') 5] (NewNet \<lparr>st_path = [], st_friends = []\<rparr>)
   in connected_to ''q'' (fold net_step [NFriends st', NOpen ''r''] n) \<and> friend_filter st' ''q''
      \<and> \<not> IsOnline ''q'' (nt_presence (fold net_step [NFriends st', NOpen ''r''] n))"
  unfolding Let_def
  by (intro conjI friend_added_while_connected_stays_offline [OF _ _ refl])
    (simp_all add: NewNet_def connected_to_def friend_filter_def GetByPeerID_def ex_friend_def)

end
