(* ===== verification/Version.thy ===== *)
theory Version
  imports Go_Strings Iox
begin

text \<open>
  \<open>internal/version/version.go\<close>: the cache of the latest release and the comparison of versions.

  An HTTP answer is the status and the tag of the payload (\<open>None\<close> when it does not decode). An \<open>int\<close> of the
  program is a 64-bit one; \<open>Sscanf\<close> leaves the variable at 0 when the number does not fit.
\<close>

record version_Cache =
  vc_Latest :: string
  vc_FetchedAt :: time
  vc_Repo :: string

definition empty_Cache :: version_Cache where
  "empty_Cache = \<lparr>vc_Latest = [], vc_FetchedAt = 0, vc_Repo = []\<rparr>"

record version_Result =
  vr_Current :: string
  vr_Latest :: string
  vr_UpgradeAvailable :: bool
  vr_FetchedAt :: time

record Checker =
  ck_CachePath :: string
  ck_Repo :: string

definition DefaultRepo :: string where "DefaultRepo = ''Noah-Wilderom/opencom''"
definition CacheFileName :: string where "CacheFileName = ''latest-release.json''"

text \<open>\<open>join\<close> is \<open>filepath.Join\<close>.\<close>

definition New_checker :: "(string \<Rightarrow> string \<Rightarrow> string) \<Rightarrow> string \<Rightarrow> Checker" where
  "New_checker pjoin stateDir = \<lparr>ck_CachePath = pjoin stateDir CacheFileName, ck_Repo = DefaultRepo\<rparr>"

section \<open>Numbers of a version\<close>

text \<open>\<open>Sscanf(p, "%d", &n)\<close>: white space is skipped (a newline is an error), then a sign and digits are read.\<close>

function skip_space :: "string \<Rightarrow> string option" where
  "skip_space s =
    (if s = [] then Some []
     else case decode_rune s of (r, w) \<Rightarrow>
       if r = 13 \<and> take 1 (drop w s) = [CHR 0x0A] then skip_space (drop w s)
       else if r = 10 then None
       else if is_space r then skip_space (drop w s)
       else Some s)"
  by pat_completeness auto
termination
  by (relation "measure length") (auto intro: decode_rune_shrink)

declare skip_space.simps [simp del]

definition scan_int :: "string \<Rightarrow> int" where
  "scan_int p =
    (case skip_space p of
       None \<Rightarrow> 0
     | Some s \<Rightarrow>
         (let sg = (if s \<noteq> [] \<and> hd s \<in> {CHR ''+'', CHR ''-''} then [hd s] else []);
              ds = takeWhile is_digit (drop (length sg) s)
          in if ds = [] then 0 else case ParseInt (sg @ ds) of None \<Rightarrow> 0 | Some i \<Rightarrow> i))"

definition splitVersion :: "string \<Rightarrow> int list" where
  "splitVersion v = map scan_int (split_on CHR ''.'' (fst (cut CHR ''+'' (fst (cut CHR ''-'' v)))))"

text \<open>The loop runs until both lists are used up; a missing number is 0.\<close>

fun newer_loop :: "int list \<Rightarrow> int list \<Rightarrow> bool" where
  "newer_loop [] [] = False"
| "newer_loop (a # as) [] = (if a \<noteq> 0 then a > 0 else newer_loop as [])"
| "newer_loop [] (b # bs) = (if 0 \<noteq> b then 0 > b else newer_loop [] bs)"
| "newer_loop (a # as) (b # bs) = (if a \<noteq> b then a > b else newer_loop as bs)"

definition isNewer :: "string \<Rightarrow> string \<Rightarrow> bool" where
  "isNewer a b = newer_loop (splitVersion a) (splitVersion b)"

definition Compare :: "string \<Rightarrow> version_Cache \<Rightarrow> version_Result" where
  "Compare currentVersion cache =
    (let current = TrimPrefix ''v'' currentVersion;
         r = \<lparr>vr_Current = current, vr_Latest = vc_Latest cache, vr_UpgradeAvailable = False, vr_FetchedAt = vc_FetchedAt cache\<rparr>
     in if current = [] \<or> current = ''dev'' \<or> vc_Latest cache = [] then r
        else r\<lparr>vr_UpgradeAvailable := isNewer (vc_Latest cache) current\<rparr>)"

section \<open>The cache file\<close>

text \<open>Which calls succeed; \<open>vw_dir\<close> says whether the path has a directory to create.\<close>

record cache_env =
  vw_dir :: bool
  vw_mkdir :: bool
  vw_write :: bool
  vw_rename :: bool

definition writeCacheAtomic :: "string \<Rightarrow> version_Cache \<Rightarrow> cache_env \<Rightarrow> version_Cache fs \<Rightarrow> bool \<times> version_Cache fs" where
  "writeCacheAtomic path entry env fs =
    (if vw_dir env \<and> \<not> vw_mkdir env then (False, fs)
     else let tmp = path @ ''.tmp'' in
       if \<not> vw_write env then (False, fs(tmp \<mapsto> Partial))
       else if \<not> vw_rename env then (False, fs(tmp \<mapsto> Data entry))
       else (True, fs(tmp := None, path \<mapsto> Data entry)))"

definition ReadCache :: "bool \<Rightarrow> Checker \<Rightarrow> version_Cache fs \<Rightarrow> version_Cache \<times> bool" where
  "ReadCache readable c fs =
    (case fs (ck_CachePath c) of
       None \<Rightarrow> (empty_Cache, True)
     | Some x \<Rightarrow> if \<not> readable then (empty_Cache, False) else (case x of Partial \<Rightarrow> empty_Cache | Data e \<Rightarrow> e, True))"

datatype refresh_error = ErrFetch | ErrStatus nat | ErrPayload | ErrWriteCache

text \<open>\<open>resp\<close>: \<open>None\<close> when the request fails, else the status and the decoded tag.\<close>

definition Refresh ::
    "(nat \<times> string option) option \<Rightarrow> time \<Rightarrow> cache_env \<Rightarrow> Checker \<Rightarrow> version_Cache fs \<Rightarrow> (refresh_error + version_Cache) \<times> version_Cache fs" where
  "Refresh resp now env c fs =
    (case resp of
       None \<Rightarrow> (Inl ErrFetch, fs)
     | Some (status, tag) \<Rightarrow>
         if status \<noteq> 200 then (Inl (ErrStatus status), fs)
         else (case tag of
            None \<Rightarrow> (Inl ErrPayload, fs)
          | Some t \<Rightarrow>
              (let entry = \<lparr>vc_Latest = TrimPrefix ''v'' t, vc_FetchedAt = now, vc_Repo = ck_Repo c\<rparr>
               in case writeCacheAtomic (ck_CachePath c) entry env fs of
                    (ok, fs') \<Rightarrow> (if ok then Inr entry else Inl ErrWriteCache, fs'))))"

text \<open>A refresh that fails leaves the last known release in place.\<close>

lemma Refresh_cases:
  "Refresh resp now env c fs = (r, fs') \<Longrightarrow>
     (case r of Inl _ \<Rightarrow> fs' (ck_CachePath c) = fs (ck_CachePath c) | Inr e \<Rightarrow> fs' (ck_CachePath c) = Some (Data e))"
  by (auto simp: Refresh_def writeCacheAtomic_def Let_def split: option.splits prod.splits if_splits sum.splits)

section \<open>The order on versions\<close>

definition nth0 :: "int list \<Rightarrow> nat \<Rightarrow> int" where
  "nth0 xs i = (if i < length xs then xs ! i else 0)"

text \<open>The intended order: the first number that differs decides, and missing numbers are 0.\<close>

definition version_gt :: "int list \<Rightarrow> int list \<Rightarrow> bool" where
  "version_gt xs ys \<longleftrightarrow> (\<exists>k. (\<forall>j<k. nth0 xs j = nth0 ys j) \<and> nth0 xs k > nth0 ys k)"

lemma nth0_simps [simp]: "nth0 [] i = 0" "nth0 (x # xs) 0 = x" "nth0 (x # xs) (Suc i) = nth0 xs i"
  by (auto simp: nth0_def)

lemma nth0_tl: "nth0 (tl xs) i = nth0 xs (Suc i)"
  by (cases xs) auto

lemma version_gt_unfold:
  "version_gt xs ys \<longleftrightarrow> nth0 xs 0 > nth0 ys 0 \<or> (nth0 xs 0 = nth0 ys 0 \<and> version_gt (tl xs) (tl ys))"
proof
  assume "version_gt xs ys"
  then obtain k where k: "\<forall>j<k. nth0 xs j = nth0 ys j" "nth0 xs k > nth0 ys k" by (auto simp: version_gt_def)
  show "nth0 xs 0 > nth0 ys 0 \<or> (nth0 xs 0 = nth0 ys 0 \<and> version_gt (tl xs) (tl ys))"
  proof (cases k)
    case (Suc i)
    then have "\<forall>j<i. nth0 (tl xs) j = nth0 (tl ys) j" "nth0 (tl xs) i > nth0 (tl ys) i" using k by (auto simp: nth0_tl)
    with k(1) Suc show ?thesis unfolding version_gt_def by auto
  qed (use k in simp)
next
  assume "nth0 xs 0 > nth0 ys 0 \<or> (nth0 xs 0 = nth0 ys 0 \<and> version_gt (tl xs) (tl ys))"
  then show "version_gt xs ys"
  proof
    assume "nth0 xs 0 = nth0 ys 0 \<and> version_gt (tl xs) (tl ys)"
    then obtain i where "nth0 xs 0 = nth0 ys 0" "\<forall>j<i. nth0 xs (Suc j) = nth0 ys (Suc j)" "nth0 xs (Suc i) > nth0 ys (Suc i)"
      by (auto simp: version_gt_def nth0_tl)
    then show ?thesis unfolding version_gt_def by (intro exI [of _ "Suc i"]) (auto simp: less_Suc_eq_0_disj)
  qed (auto simp: version_gt_def)
qed

lemma newer_loop_order: "newer_loop xs ys = version_gt xs ys"
proof (induction xs ys rule: newer_loop.induct)
  case 1
  show ?case by (simp add: version_gt_def)
next
  case (2 a as)
  then show ?case by (subst version_gt_unfold) auto
next
  case (3 b bs)
  then show ?case by (subst version_gt_unfold) auto
next
  case (4 a as b bs)
  then show ?case by (subst version_gt_unfold) auto
qed

text \<open>A version that is printed with dots, whatever suffix follows, is read back.\<close>

definition print_version :: "int list \<Rightarrow> string" where
  "print_version ns = join ''.'' (map FormatInt ns)"

definition release_suffix :: "string \<Rightarrow> bool" where
  "release_suffix suf \<longleftrightarrow> suf = [] \<or> hd suf = CHR ''-'' \<or> hd suf = CHR ''+''"

lemma FormatInt_digits: "0 \<le> i \<Longrightarrow> list_all is_digit (FormatInt i)"
  using fmt_nat_ok by (simp add: FormatInt_def)

lemma FormatInt_chars: "0 \<le> i \<Longrightarrow> c \<in> set (FormatInt i) \<Longrightarrow> is_digit c"
  using FormatInt_digits by (auto simp: list_all_iff)

lemma skip_space_digit: "is_digit c \<Longrightarrow> skip_space (c # s) = Some (c # s)"
  by (subst skip_space.simps) (auto simp: is_digit_def is_space_def)

lemma scan_int_FormatInt:
  assumes "0 \<le> i" and "i < 2 ^ 63"
  shows "scan_int (FormatInt i) = i"
proof -
  obtain c s where cs: "FormatInt i = c # s" using FormatInt_nonempty by (cases "FormatInt i") auto
  have d: "\<forall>x\<in>set (c # s). is_digit x" using FormatInt_chars [OF assms(1)] cs by auto
  then have "c \<noteq> CHR ''+''" "c \<noteq> CHR ''-''" by (auto simp: is_digit_def)
  then show ?thesis
    using assms ParseInt_FormatInt [of i] skip_space_digit [of c s] d cs by (simp add: scan_int_def takeWhile_eq_all_conv [THEN iffD2])
qed

lemma print_version_chars:
  assumes "\<forall>n\<in>set ns. 0 \<le> n" and "c \<in> set (print_version ns)"
  shows "is_digit c \<or> c = CHR ''.''"
proof -
  have "c \<in> set (join ''.'' xs) \<Longrightarrow> c = CHR ''.'' \<or> (\<exists>x\<in>set xs. c \<in> set x)" for xs
    by (induction "''.''" xs rule: join.induct) auto
  with assms FormatInt_chars show ?thesis by (fastforce simp: print_version_def)
qed

lemma cut_suffix: "d \<notin> set x \<Longrightarrow> suf = [] \<or> hd suf = d \<Longrightarrow> fst (cut d (x @ suf)) = x"
  by (cases suf) auto

lemma splitVersion_print:
  assumes ns: "ns \<noteq> []" "\<forall>n\<in>set ns. 0 \<le> n \<and> n < 2 ^ 63" and suf: "release_suffix suf"
  shows "splitVersion (print_version ns @ suf) = ns"
proof -
  let ?p = "print_version ns"
  have p: "CHR ''-'' \<notin> set ?p" "CHR ''+'' \<notin> set ?p" using print_version_chars [of ns] ns(2) by (fastforce simp: is_digit_def)+
  have "fst (cut CHR ''+'' (fst (cut CHR ''-'' (?p @ suf)))) = ?p"
  proof (cases "suf \<noteq> [] \<and> hd suf = CHR ''+''")
    case True
    then obtain t where t: "suf = CHR ''+'' # t" by (cases suf) auto
    have "fst (cut CHR ''-'' (?p @ suf)) = ?p @ CHR ''+'' # takeWhile (\<lambda>c. c \<noteq> CHR ''-'') t"
      using p(1) t by (simp add: cut_def, subst takeWhile_append2) auto
    then show ?thesis using p(2) by simp
  next
    case False
    then have "fst (cut CHR ''-'' (?p @ suf)) = ?p" using suf p(1) by (intro cut_suffix) (auto simp: release_suffix_def)
    then show ?thesis using p(2) by simp
  qed
  moreover have "split_on CHR ''.'' ?p = map FormatInt ns"
    unfolding print_version_def using ns FormatInt_chars by (intro split_join) (fastforce simp: is_digit_def)+
  ultimately show ?thesis using ns(2) scan_int_FormatInt by (simp add: splitVersion_def map_idI)
qed



end
