(* ===== verification/Config.thy ===== *)
theory Config
  imports Iox
begin

text \<open>
  \<open>internal/config\<close>: the configuration file (\<open>defaults.go\<close>, \<open>load.go\<close>) and the paths of the program (\<open>paths.go\<close>).
  YAML is a parameter: decoding works on a seed whose fields the document may replace. Environment variables
  are the empty text when they are not set.
\<close>

section \<open>Configuration\<close>

record AudioConfig =
  au_InputDevice :: string
  au_OutputDevice :: string
  au_InputGain :: int
  au_OutputGain :: int
  au_Bitrate :: int
  au_JitterTargetMs :: int
  au_JitterMaxMs :: int
  au_AEC :: bool

record VideoConfig =
  vi_Device :: string
  vi_Resolution :: string
  vi_Framerate :: int
  vi_Bitrate :: int
  vi_EnableOnCallStart :: bool

record NetworkConfig =
  ne_ListenPort :: int
  ne_BitrateCap :: int
  ne_ForceReachability :: string

record DiscoveryConfig =
  di_MDNS :: bool
  di_DHT :: bool
  di_TTL :: time
  di_DHTMode :: string
  di_Bootstraps :: "string list"

record RelayConfig =
  re_Enabled :: bool
  re_Peers :: "string list"
  re_Unlimited :: bool

record UIConfig =
  ui_Theme :: string
  ui_NotificationSound :: bool
  ui_Ringtone :: string
  ui_Notifications :: bool

record Config =
  cf_UserName :: string
  cf_Audio :: AudioConfig
  cf_Video :: VideoConfig
  cf_Network :: NetworkConfig
  cf_Discovery :: DiscoveryConfig
  cf_Relay :: RelayConfig
  cf_UI :: UIConfig
  cf_Autostart :: bool
  cf_LogLevel :: string

definition opencomPublicNode :: "string list" where
  "opencomPublicNode =
    [''/dns4/opencom.noahwilderom.dev/tcp/4001/p2p/12D3KooWDBH9WwBd79Jjwk1sNenTbvteBeLF6GeDGgY6eyUFyxgJ'',
     ''/dns4/opencom.noahwilderom.dev/udp/4001/quic-v1/p2p/12D3KooWDBH9WwBd79Jjwk1sNenTbvteBeLF6GeDGgY6eyUFyxgJ'',
     ''/dns6/opencom.noahwilderom.dev/tcp/4001/p2p/12D3KooWDBH9WwBd79Jjwk1sNenTbvteBeLF6GeDGgY6eyUFyxgJ'',
     ''/dns6/opencom.noahwilderom.dev/udp/4001/quic-v1/p2p/12D3KooWDBH9WwBd79Jjwk1sNenTbvteBeLF6GeDGgY6eyUFyxgJ'']"

text \<open>\<open>user\<close> is \<open>$USER\<close>; a duration is in nanoseconds.\<close>

definition Default :: "string \<Rightarrow> Config" where
  "Default user =
    \<lparr>cf_UserName = (if user = [] then ''user'' else user),
     cf_Audio = \<lparr>au_InputDevice = ''auto'', au_OutputDevice = ''auto'', au_InputGain = 100, au_OutputGain = 100,
       au_Bitrate = 48000, au_JitterTargetMs = 60, au_JitterMaxMs = 200, au_AEC = True\<rparr>,
     cf_Video = \<lparr>vi_Device = ''auto'', vi_Resolution = ''640x480'', vi_Framerate = 30, vi_Bitrate = 500000, vi_EnableOnCallStart = True\<rparr>,
     cf_Network = \<lparr>ne_ListenPort = 0, ne_BitrateCap = 0, ne_ForceReachability = ''private''\<rparr>,
     cf_Discovery = \<lparr>di_MDNS = True, di_DHT = True, di_TTL = 600000000000, di_DHTMode = ''auto'', di_Bootstraps = opencomPublicNode\<rparr>,
     cf_Relay = \<lparr>re_Enabled = True, re_Peers = opencomPublicNode, re_Unlimited = False\<rparr>,
     cf_UI = \<lparr>ui_Theme = ''auto'', ui_NotificationSound = True, ui_Ringtone = [], ui_Notifications = True\<rparr>,
     cf_Autostart = False, cf_LogLevel = ''info''\<rparr>"

datatype config_error = ErrConfigMissing | ErrConfigRead | ErrConfigParse

text \<open>\<open>decode\<close> is \<open>yaml.UnmarshalStrict\<close> into a seed. Both results are returned, as in the code.\<close>

definition Load_config ::
    "('y \<Rightarrow> Config \<Rightarrow> Config option) \<Rightarrow> Config \<Rightarrow> string \<Rightarrow> bool \<Rightarrow> string \<Rightarrow> 'y fs \<Rightarrow> Config \<times> config_error option" where
  "Load_config decode zero user readable path fs =
    (case fs path of
       None \<Rightarrow> (Default user, Some ErrConfigMissing)
     | Some c \<Rightarrow>
         if \<not> readable then (zero, Some ErrConfigRead)
         else (case c of
            Partial \<Rightarrow> (zero, Some ErrConfigParse)
          | Data y \<Rightarrow> (case decode y (Default user) of None \<Rightarrow> (zero, Some ErrConfigParse) | Some cfg \<Rightarrow> (cfg, None))))"

definition Save_config :: "(Config \<Rightarrow> 'y) \<Rightarrow> string \<Rightarrow> Config \<Rightarrow> io_env \<Rightarrow> 'y fs \<Rightarrow> (io_error + unit) \<times> 'y fs" where
  "Save_config encode path cfg env fs = AtomicWriteFile path (encode cfg) env fs"

text \<open>What was saved is loaded, whatever user loads it: the file sets every field.\<close>

lemma config_roundtrip:
  assumes "\<And>seed. decode (encode cfg) seed = Some cfg" and "fresh_temp path env fs" and "io_success env"
    and "Save_config encode path cfg env fs = (r, fs')"
  shows "Load_config decode zero user True path fs' = (cfg, None)"
  using assms(4) AtomicWriteFile_ok [OF assms(2,3)] assms(1) by (auto simp: Save_config_def Load_config_def)

section \<open>Paths\<close>

datatype GOOS = Windows | Darwin | OtherOS

record Paths =
  pa_ConfigDir :: string
  pa_StateDir :: string
  pa_RuntimeDir :: string
  pa_ConfigFile :: string
  pa_PrivateKey :: string
  pa_FriendsFile :: string
  pa_SocketPath :: string
  pa_Peerstore :: string
  pa_LogFile :: string
  pa_PeerCache :: string
  pa_ActiveInvites :: string

text \<open>The environment: \<open>pjoin\<close> is \<open>filepath.Join\<close> of two parts, \<open>pbase\<close> is \<open>filepath.Base\<close>; directories that cannot
  be determined are \<open>None\<close>, as is the current user.\<close>

record path_env =
  pn_os :: GOOS
  pn_join :: "string \<Rightarrow> string \<Rightarrow> string"
  pn_base :: "string \<Rightarrow> string"
  pn_config :: "string option"
  pn_cache :: "string option"
  pn_home :: "string option"
  pn_runtime :: string
  pn_xdgState :: string
  pn_localAppData :: string
  pn_user :: "string option"

definition userStateDir :: "path_env \<Rightarrow> string option" where
  "userStateDir v =
    (let under = (\<lambda>parts. map_option (\<lambda>h. foldl (pn_join v) h parts) (pn_home v)) in
     if pn_xdgState v \<noteq> [] then Some (pn_xdgState v)
     else case pn_os v of
       Windows \<Rightarrow> if pn_localAppData v \<noteq> [] then Some (pn_localAppData v) else under [''.local'', ''state'']
     | Darwin \<Rightarrow> under [''Library'', ''Application Support'']
     | OtherOS \<Rightarrow> under [''.local'', ''state''])"

definition socketPathFor :: "path_env \<Rightarrow> string \<Rightarrow> string \<Rightarrow> string" where
  "socketPathFor v runtimeDir cacheRoot =
    (if pn_os v = Windows
     then [CHR 0x5C, CHR 0x5C, CHR ''.'', CHR 0x5C] @ ''pipe'' @ [CHR 0x5C] @ ''opencom-'' @
       (case pn_user v of Some u \<Rightarrow> if u \<noteq> [] then pn_base v u else ''user'' | None \<Rightarrow> ''user'')
     else if runtimeDir \<noteq> [] then pn_join v runtimeDir ''opencom.sock''
     else pn_join v (pn_join v cacheRoot ''opencom'') ''opencom.sock'')"

definition DefaultPaths :: "path_env \<Rightarrow> Paths option" where
  "DefaultPaths v =
    (case pn_config v of
       None \<Rightarrow> None
     | Some cfgRoot \<Rightarrow>
         (case pn_cache v of
            None \<Rightarrow> None
          | Some cacheRoot \<Rightarrow>
              (case userStateDir v of
                 None \<Rightarrow> None
               | Some stateRoot \<Rightarrow>
                   (let c = pn_join v cfgRoot ''opencom''; s = pn_join v stateRoot ''opencom'' in
                    Some \<lparr>pa_ConfigDir = c, pa_StateDir = s, pa_RuntimeDir = pn_runtime v,
                      pa_ConfigFile = pn_join v c ''config.yaml'', pa_PrivateKey = pn_join v c ''priv.key'',
                      pa_FriendsFile = pn_join v c ''friends.json'', pa_SocketPath = socketPathFor v (pn_runtime v) cacheRoot,
                      pa_Peerstore = pn_join v s ''peerstore'', pa_LogFile = pn_join v s ''daemon.log'',
                      pa_PeerCache = pn_join v s ''peer-cache.json'', pa_ActiveInvites = pn_join v s ''active-invites.json''\<rparr>))))"

text \<open>No two files of the program share a path: an injective join keeps the stores apart.\<close>

lemma stores_have_own_files:
  assumes inj: "\<And>a b c d. pn_join v a b = pn_join v c d \<Longrightarrow> a = c \<and> b = d" and p: "DefaultPaths v = Some p"
  shows "distinct [pa_ConfigFile p, pa_PrivateKey p, pa_FriendsFile p] \<and> distinct [pa_Peerstore p, pa_LogFile p, pa_PeerCache p, pa_ActiveInvites p]"
  using p by (auto simp: DefaultPaths_def Let_def dest!: inj split: option.splits)

end
