(* ===== verification/Notify.thy ===== *)
theory Notify
  imports Go_Strings Friends_Store Call_Session
begin

text \<open>
  \<open>internal/notify\<close>: desktop notifications for call state changes (\<open>calls.go\<close>). What is shown is the list of
  notifications; the desktop itself (\<open>beeep\<close>) is not modelled. Text outside ASCII is its UTF-8 bytes.
\<close>

definition short_id :: "string \<Rightarrow> string" where
  "short_id s = (if length s > 12 then take 6 s @ encode_rune 8230 @ drop (length s - 4) s else s)"

text \<open>\<open>str\<close> is \<open>peer.ID.String\<close>; a nil store is \<open>None\<close>.\<close>

definition friendName :: "(peer_id \<Rightarrow> string) \<Rightarrow> Store option \<Rightarrow> peer_id \<Rightarrow> string" where
  "friendName str names i =
    (case Option.bind names (GetByPeerID i) of
       Some f \<Rightarrow> if fr_Name f \<noteq> [] then fr_Name f else short_id (str i)
     | None \<Rightarrow> short_id (str i))"

definition formatNotification :: "(peer_id \<Rightarrow> string) \<Rightarrow> StateChange \<Rightarrow> Store option \<Rightarrow> string \<times> string" where
  "formatNotification str ev names =
    (let who = friendName str names (sc_Remote ev) in
     if sc_State ev = ''ringing''
     then (if sc_Direction ev = ''inbound'' then (''Incoming call'', ''from '' @ who) else (''Calling'' @ encode_rune 8230, who))
     else if sc_State ev = ''connected'' then (''Call connected'', who)
     else if sc_State ev = ''ended''
     then (''Call ended'', if sc_Reason ev \<noteq> [] then who @ '' '' @ encode_rune 8212 @ '' '' @ sc_Reason ev else who)
     else ([], []))"

text \<open>One event of the loop, and the loop on the events its channel delivers. \<open>Notify\<close> is what a notifier shows:
  \<open>Disabled\<close> nothing, \<open>Beeep\<close> everything.\<close>

definition Notify_shown :: "bool \<Rightarrow> string \<times> string \<Rightarrow> (string \<times> string) list" where
  "Notify_shown beeep n = (if beeep then [n] else [])"

definition watch_event :: "(peer_id \<Rightarrow> string) \<Rightarrow> Store option \<Rightarrow> bool \<Rightarrow> StateChange \<Rightarrow> (string \<times> string) list" where
  "watch_event str names beeep ev =
    (let n = formatNotification str ev names in if fst n = [] then [] else Notify_shown beeep n)"

definition WatchCalls :: "(peer_id \<Rightarrow> string) \<Rightarrow> Store option \<Rightarrow> bool \<Rightarrow> StateChange list \<Rightarrow> (string \<times> string) list" where
  "WatchCalls str names beeep evs = concat (map (watch_event str names beeep) evs)"

text \<open>What a call shows: for each state it announced other than connecting one notification, in order. So a call
  shows at most that it rings, that it is connected and that it ended, each once.\<close>

fun shown_title :: "string \<Rightarrow> string \<Rightarrow> string list" where
  "shown_title dir st =
    (if st = ''ringing'' then [if dir = ''inbound'' then ''Incoming call'' else ''Calling'' @ encode_rune 8230]
     else if st = ''connected'' then [''Call connected'']
     else if st = ''ended'' then [''Call ended'']
     else [])"

lemma watch_titles:
  "(\<forall>ev\<in>set evs. sc_Direction ev = dir) \<Longrightarrow>
     map fst (WatchCalls str names True evs) = concat (map (shown_title dir) (map sc_State evs))"
  by (induction evs) (auto simp: WatchCalls_def watch_event_def formatNotification_def Notify_shown_def Let_def)

lemma run_events_direction: "ev \<in> set (run_events xs s) \<Longrightarrow> sc_Direction ev = Direction_String (sess_direction s)"
proof (induction xs arbitrary: s)
  case (Cons x xs)
  moreover have "sess_direction (sess_step x s) = sess_direction s"
    by (cases x) (auto simp: go_defs split: option.splits prod.splits)
  ultimately show ?case by (auto simp: op_events_def change_of_def split: option.splits if_splits)
qed simp

lemma call_notifications:
  "\<exists>sts. map fst (WatchCalls str names True (run_events xs (NewSession i r d t))) = concat (map (shown_title (Direction_String d)) sts)
     \<and> lifecycle (fold sess_step xs (NewSession i r d t)) sts"
proof -
  let ?evs = "run_events xs (NewSession i r d t)"
  have "\<forall>ev\<in>set ?evs. sc_Direction ev = Direction_String d" using run_events_direction by (fastforce simp: NewSession_def)
  moreover have "lifecycle (fold sess_step xs (NewSession i r d t)) (map sc_State ?evs)"
    using lifecycle_run [OF lifecycle_New, of xs i r d t] by simp
  ultimately show ?thesis using watch_titles by blast
qed

end
