(* ===== verification/Daemon.thy ===== *)
theory Daemon
  imports Ipc_Methods P2p Version Config Notify
begin

text \<open>
  \<open>internal/app/daemon.go\<close> and the methods of \<open>internal/ipc/methods\<close> that report on the daemon (\<open>daemon.go\<close>,
  \<open>identity.go\<close>, \<open>status.go\<close>, \<open>version.go\<close>): how the configuration becomes the options of the host, the order in which
  the daemon starts and stops its parts, and what its status shows.
\<close>

section \<open>Options from the configuration\<close>

text \<open>\<open>uni\<close> is the part of \<open>unicode.ToLower\<close> outside ASCII. The flag says whether the value was known.\<close>

definition parseDHTMode :: "(rune \<Rightarrow> rune) \<Rightarrow> string \<Rightarrow> DHTMode \<times> bool" where
  "parseDHTMode uni s =
    (let t = ToLower uni (TrimSpace s) in
     if t = [] \<or> t = ''auto'' then (ModeAuto, True)
     else if t = ''server'' then (ModeServer, True)
     else if t = ''client'' then (P2p.ModeClient, True)
     else (ModeAuto, False))"

definition parseReachability :: "(rune \<Rightarrow> rune) \<Rightarrow> string \<Rightarrow> Reach \<times> bool" where
  "parseReachability uni s =
    (let t = ToLower uni (TrimSpace s) in
     if t = [] \<or> t = ''auto'' then (ReachabilityUnknown, True)
     else if t = ''private'' then (ReachabilityPrivate, True)
     else if t = ''public'' then (ReachabilityPublic, True)
     else (ReachabilityUnknown, False))"

text \<open>The loop keeps the merged entry of each peer and the order in which peers first appeared.\<close>

definition merge_info :: "AddrInfo \<Rightarrow> (peer_id \<times> AddrInfo) list \<times> peer_id list \<Rightarrow> (peer_id \<times> AddrInfo) list \<times> peer_id list" where
  "merge_info info s =
    (case s of (byPeer, order) \<Rightarrow>
       (case map_of byPeer (ai_ID info) of
          Some e \<Rightarrow> (mput (ai_ID info) (e\<lparr>ai_Addrs := ai_Addrs e @ ai_Addrs info\<rparr>) byPeer, order)
        | None \<Rightarrow> (mput (ai_ID info) info byPeer, order @ [ai_ID info])))"

definition parseAddrInfoList :: "multiaddrs \<Rightarrow> string list \<Rightarrow> AddrInfo list" where
  "parseAddrInfoList M addrs =
    (case fold merge_info (List.map_filter (\<lambda>s. Option.bind (ma_new M s) (ma_info M)) addrs) ([], []) of
       (byPeer, order) \<Rightarrow> map (\<lambda>i. the (map_of byPeer i)) order)"

record 'priv Options =
  op_Priv :: 'priv
  op_Config :: Config
  op_DisableMDNS :: bool
  op_HostBootstraps :: "AddrInfo list option"
  op_HostRelays :: "AddrInfo list option"
  op_DisableAudio :: bool

text \<open>The listen addresses for a fixed port; \<open>None\<close> when one does not parse.\<close>

definition listen_addrs :: "multiaddrs \<Rightarrow> int \<Rightarrow> (host_error + addr list)" where
  "listen_addrs M port =
    (if port > 0
     then parse_listen M [''/ip4/0.0.0.0/tcp/'' @ FormatInt port, ''/ip6/::/tcp/'' @ FormatInt port,
                          ''/ip4/0.0.0.0/udp/'' @ FormatInt port @ ''/quic-v1'', ''/ip6/::/udp/'' @ FormatInt port @ ''/quic-v1'']
     else Inr [])"

definition host_options :: "(rune \<Rightarrow> rune) \<Rightarrow> multiaddrs \<Rightarrow> 'priv Options \<Rightarrow> host_error + 'priv HostOptions" where
  "host_options uni M opts =
    (let cfg = op_Config opts;
         bootstraps = (case op_HostBootstraps opts of Some b \<Rightarrow> b | None \<Rightarrow> parseAddrInfoList M (di_Bootstraps (cf_Discovery cfg)));
         relays = (case op_HostRelays opts of Some r \<Rightarrow> r | None \<Rightarrow> parseAddrInfoList M (re_Peers (cf_Relay cfg)))
     in case listen_addrs M (ne_ListenPort (cf_Network cfg)) of
          Inl e \<Rightarrow> Inl e
        | Inr listen \<Rightarrow>
            Inr \<lparr>ho_PrivKey = Some (op_Priv opts), ho_ListenAddrs = listen, ho_BootstrapPeers = bootstraps, ho_RelayPeers = Some relays,
                 ho_DHTMode = fst (parseDHTMode uni (di_DHTMode (cf_Discovery cfg))),
                 ho_ForceReachability = fst (parseReachability uni (ne_ForceReachability (cf_Network cfg))),
                 ho_RelayServiceUnlimited = re_Unlimited (cf_Relay cfg)\<rparr>)"

text \<open>The list that results names each peer once, in the order peers first appear, with the addresses of all its entries.\<close>

definition infos_of :: "multiaddrs \<Rightarrow> string list \<Rightarrow> AddrInfo list" where
  "infos_of M addrs = List.map_filter (\<lambda>s. Option.bind (ma_new M s) (ma_info M)) addrs"

fun first_seen :: "'a list \<Rightarrow> 'a list" where
  "first_seen [] = []"
| "first_seen (x # xs) = x # filter (\<lambda>y. y \<noteq> x) (first_seen xs)"

definition addrs_of :: "peer_id \<Rightarrow> AddrInfo list \<Rightarrow> addr list" where
  "addrs_of i is = concat (map ai_Addrs (filter (\<lambda>x. ai_ID x = i) is))"

lemma set_first_seen [simp]: "set (first_seen xs) = set xs"
  by (induction xs) auto

lemma distinct_first_seen: "distinct (first_seen xs)"
  by (induction xs) auto

lemma first_seen_snoc: "first_seen (xs @ [x]) = (if x \<in> set xs then first_seen xs else first_seen xs @ [x])"
  by (induction xs) auto

lemma addrs_of_snoc: "addrs_of i (xs @ [x]) = addrs_of i xs @ (if ai_ID x = i then ai_Addrs x else [])"
  by (simp add: addrs_of_def)

lemma addrs_of_absent: "i \<notin> ai_ID ` set xs \<Longrightarrow> addrs_of i xs = []"
  by (induction xs) (auto simp: addrs_of_def)

lemma merge_infos:
  "fold merge_info is ([], []) = (byPeer, order) \<Longrightarrow>
     order = first_seen (map ai_ID is)
     \<and> map_of byPeer = (\<lambda>i. if i \<in> ai_ID ` set is then Some \<lparr>ai_ID = i, ai_Addrs = addrs_of i is\<rparr> else None)"
proof (induction "is" arbitrary: byPeer order rule: rev_induct)
  case (snoc x xs)
  obtain b od where bo: "fold merge_info xs ([], []) = (b, od)" by fastforce
  have "merge_info x (b, od) = (byPeer, order)" using snoc.prems bo by simp
  then show ?case using snoc.IH [OF bo]
    by (cases "ai_ID x \<in> ai_ID ` set xs")
      (auto simp: merge_info_def first_seen_snoc addrs_of_snoc addrs_of_absent fun_eq_iff)
qed (simp add: addrs_of_def)

lemma parseAddrInfoList_merges:
  "parseAddrInfoList M addrs
    = map (\<lambda>i. \<lparr>ai_ID = i, ai_Addrs = addrs_of i (infos_of M addrs)\<rparr>) (first_seen (map ai_ID (infos_of M addrs)))"
proof -
  obtain b od where bo: "fold merge_info (infos_of M addrs) ([], []) = (b, od)" by fastforce
  show ?thesis using merge_infos [OF bo] bo by (simp add: parseAddrInfoList_def flip: infos_of_def)
qed

text \<open>The daemon always passes a relay list of its own: the public relays that \<open>p2p.New\<close> has as its default are never
  used, and with no configured relay AutoRelay is off.\<close>

lemma daemon_never_uses_default_relays:
  assumes "host_options uni M opts = Inr h"
  shows "ho_RelayPeers h \<noteq> None
    \<and> (op_HostRelays opts = None \<and> re_Peers (cf_Relay (op_Config opts)) = []
        \<longrightarrow> New_host M mk sub h = New_host M (\<lambda>opt. mk (opt\<lparr>lo_AutoRelay := None\<rparr>)) sub h)"
  using assms by (auto simp: host_options_def New_host_def Let_def parseAddrInfoList_def map_filter_simps split: sum.splits)

section \<open>Start and stop\<close>

text \<open>\<open>Run\<close> is a list of actions. \<open>Try\<close> returns its error; \<open>Acquire\<close> takes a resource and defers its release;
  \<open>Attempt\<close> does so only when it succeeds; \<open>Spawn\<close> starts a goroutine, on the context of the caller or on the one
  that ends with the daemon.\<close>

datatype stage = StSocketDir | StFriends | StPeerCache | StInviteStore | StListen | StHost | StPeerstoreDir | StResolver | StPublisher
  | StAudio | StInvites | StMDNS | StSocket

datatype resource = RHost | RPeerstoreFile | REngine | RAudio | RControlHandler | RMediaHandler | RInvites | RMDNS | RSocket | RContext

datatype goroutine = GAudio | GNotify | GPublisher | GAddresses | GVersion

datatype action = Try stage | Acquire resource | Attempt stage resource | Spawn bool goroutine

datatype run_event = Started resource | Stopped resource | Spawned bool goroutine

fun run_actions :: "(stage \<Rightarrow> bool) \<Rightarrow> action list \<Rightarrow> resource list \<Rightarrow> run_event list \<times> stage option" where
  "run_actions ok [] held = (map Stopped held, None)"
| "run_actions ok (Try s # as) held = (if ok s then run_actions ok as held else (map Stopped held, Some s))"
| "run_actions ok (Acquire r # as) held = (case run_actions ok as (r # held) of (tr, e) \<Rightarrow> (Started r # tr, e))"
| "run_actions ok (Attempt s r # as) held =
    (if ok s then case run_actions ok as (r # held) of (tr, e) \<Rightarrow> (Started r # tr, e) else run_actions ok as held)"
| "run_actions ok (Spawn outer g # as) held = (case run_actions ok as held of (tr, e) \<Rightarrow> (Spawned outer g # tr, e))"

definition daemon_actions :: "bool \<Rightarrow> bool \<Rightarrow> bool \<Rightarrow> action list" where
  "daemon_actions disableAudio disableMDNS subscribed =
    [Try StSocketDir, Try StFriends, Try StPeerCache, Try StInviteStore, Try StListen, Try StHost, Acquire RHost,
     Try StPeerstoreDir, Acquire RPeerstoreFile, Try StResolver, Try StPublisher, Acquire REngine]
    @ (if disableAudio then [] else [Try StAudio, Spawn True GAudio, Acquire RAudio, Acquire RControlHandler, Acquire RMediaHandler])
    @ [Spawn True GNotify, Try StInvites, Acquire RInvites]
    @ (if disableMDNS then [] else [Attempt StMDNS RMDNS])
    @ [Try StSocket, Acquire RSocket, Acquire RContext, Spawn False GPublisher]
    @ (if subscribed then [Spawn False GAddresses] else [])
    @ [Spawn False GVersion]"

definition Run_daemon :: "(stage \<Rightarrow> bool) \<Rightarrow> 'priv Options \<Rightarrow> bool \<Rightarrow> run_event list \<times> stage option" where
  "Run_daemon ok opts subscribed = run_actions ok (daemon_actions (op_DisableAudio opts) (op_DisableMDNS opts) subscribed) []"

text \<open>Whatever stage fails, what was started is stopped, in the reverse order, and nothing else is.\<close>

fun started :: "run_event list \<Rightarrow> resource list" where
  "started [] = []"
| "started (Started r # tr) = r # started tr"
| "started (e # tr) = started tr"

lemma run_actions_balanced:
  "run_actions ok as held = (tr, e) \<Longrightarrow>
     \<exists>pre. tr = pre @ map Stopped (rev (started pre) @ held) \<and> (\<forall>r. Stopped r \<notin> set pre)"
proof (induction as arbitrary: held tr)
  case (Cons a as)
  have step: ?case if "run_actions ok as (r # held) = (t, e)" "tr = Started r # t" for r t
  proof -
    from Cons.IH [OF that(1)] obtain pre where "t = pre @ map Stopped (rev (started pre) @ r # held)" "\<forall>r. Stopped r \<notin> set pre" by blast
    with that(2) show ?thesis by (intro exI [of _ "Started r # pre"]) auto
  qed
  show ?case
  proof (cases a)
    case (Try s)
    with Cons.prems Cons.IH [of held tr] show ?thesis by (cases "ok s") (auto intro: exI [of _ "[]"])
  next
    case (Acquire r)
    with Cons.prems step show ?thesis by (auto split: prod.splits)
  next
    case (Attempt s r)
    with Cons.prems step Cons.IH [of held tr] show ?thesis by (auto split: prod.splits if_splits)
  next
    case (Spawn b g)
    with Cons.prems obtain t where t: "run_actions ok as held = (t, e)" "tr = Spawned b g # t" by (auto split: prod.splits)
    from Cons.IH [OF t(1)] obtain pre where "t = pre @ map Stopped (rev (started pre) @ held)" "\<forall>r. Stopped r \<notin> set pre" by blast
    with t(2) show ?thesis by (intro exI [of _ "Spawned b g # pre"]) auto
  qed
qed (auto intro: exI [of _ "[]"])

lemma Run_daemon_releases:
  assumes "Run_daemon ok opts subscribed = (tr, e)"
  shows "\<exists>pre. tr = pre @ map Stopped (rev (started pre)) \<and> (\<forall>r. Stopped r \<notin> set pre)"
  using run_actions_balanced [of ok _ "[]" tr e] assms by (simp add: Run_daemon_def)

section \<open>Methods\<close>

record DaemonStatusResult =
  ds_Version :: string
  ds_PeerID :: peer_id
  ds_StartedAt :: time
  ds_ListenAddrs :: "string list"
  ds_CurrentCalls :: "string list"
  ds_Reachability :: string
  ds_Relays :: "peer_id list"

text \<open>Each of the three functions may be nil.\<close>

definition DaemonStatus :: "string \<Rightarrow> peer_id \<Rightarrow> time \<Rightarrow> string list option \<Rightarrow> string option \<Rightarrow> peer_id list option \<Rightarrow> DaemonStatusResult" where
  "DaemonStatus ver pid since listenAddrs reachability relays =
    \<lparr>ds_Version = ver, ds_PeerID = pid, ds_StartedAt = since, ds_ListenAddrs = (case listenAddrs of None \<Rightarrow> [] | Some a \<Rightarrow> a),
     ds_CurrentCalls = [], ds_Reachability = (case reachability of None \<Rightarrow> ''unknown'' | Some r \<Rightarrow> r),
     ds_Relays = (case relays of None \<Rightarrow> [] | Some r \<Rightarrow> r)\<rparr>"

definition daemon_status :: "(peer_id \<Rightarrow> string) \<Rightarrow> multiaddrs \<Rightarrow> string \<Rightarrow> peer_id \<Rightarrow> time \<Rightarrow> Host \<Rightarrow> DaemonStatusResult" where
  "daemon_status str M ver pid since h =
    DaemonStatus ver pid since (Some (ListenAddrs str h)) (Some (Reachability h)) (Some (RelayReservations M h))"

record IdentityGetResult =
  ig_PeerID :: peer_id
  ig_PublicKey :: string
  ig_DisplayName :: string

definition IdentityGet :: "('priv, 'pub) keys \<Rightarrow> ('priv, 'pub) Keypair \<Rightarrow> Config \<Rightarrow> IdentityGetResult reply" where
  "IdentityGet K kp cfg =
    (case k_marshalPub K (kp_Pub kp) of
       None \<Rightarrow> Inl ErrCodeInternalError
     | Some b \<Rightarrow> Inr \<lparr>ig_PeerID = kp_PeerID kp, ig_PublicKey = std_encode b, ig_DisplayName = cf_UserName cfg\<rparr>)"

text \<open>A checker may be nil; an error of its cache counts as no cache.\<close>

definition VersionCheck :: "string \<Rightarrow> bool \<Rightarrow> Checker option \<Rightarrow> version_Cache fs \<Rightarrow> version_Result" where
  "VersionCheck currentVersion readable checker fs =
    Compare currentVersion (case checker of None \<Rightarrow> empty_Cache | Some c \<Rightarrow> fst (ReadCache readable c fs))"

record DaemonStatusSummaryResult =
  ss_Identity :: DaemonStatusResult
  ss_Friends :: "FriendsListEntry list"
  ss_Calls :: "CallsListEntry list"
  ss_Invites :: "InviteListEntry list"
  ss_ServiceStatus :: string

text \<open>The calls are listed without an audio manager.\<close>

definition DaemonStatusSummary :: "DaemonStatusResult \<Rightarrow> time \<Rightarrow> 'c Daemon \<Rightarrow> DaemonStatusSummaryResult" where
  "DaemonStatusSummary ident now d =
    \<lparr>ss_Identity = ident, ss_Friends = FriendsList d, ss_Calls = fst (CallsList (d\<lparr>dm_audio := None\<rparr>)),
     ss_Invites = InviteList now d, ss_ServiceStatus = []\<rparr>"

end
