(* ===== verification/Tui_Panes.thy ===== *)
theory Tui_Panes
  imports Ipc_Methods
begin

text \<open>
  The parts of the terminal interface (\<open>internal/cli/tui\<close>): the friends sidebar (\<open>friends_pane.go\<close>), the friend
  in focus (\<open>focus_pane.go\<close>), the call dock (\<open>call_dock.go\<close>), the footer (\<open>status_footer.go\<close>) and the text
  functions of \<open>modal.go\<close> and \<open>modal_help.go\<close>. The styles of \<open>theme.go\<close> and the measuring of text are lipgloss:
  they are arguments of what uses them.
\<close>

section \<open>Styles\<close>

record styles =
  th_accent :: "string \<Rightarrow> string"
  th_dim :: "string \<Rightarrow> string"
  th_ok :: "string \<Rightarrow> string"
  th_warn :: "string \<Rightarrow> string"
  th_err :: "string \<Rightarrow> string"
  th_key :: "string \<Rightarrow> string"
  th_head :: "string \<Rightarrow> string"

abbreviation nl :: string where "nl \<equiv> [CHR 0x0A]"

section \<open>Text\<close>

text \<open>\<open>strings.Contains\<close> and \<open>strings.Repeat\<close> of a space.\<close>

fun str_contains :: "string \<Rightarrow> string \<Rightarrow> bool" where
  "str_contains [] q = (q = [])"
| "str_contains (c # cs) q = (take (length q) (c # cs) = q \<or> str_contains cs q)"

definition spaces :: "nat \<Rightarrow> string" where "spaces n = replicate n (CHR '' '')"

definition of_runes :: "rune list \<Rightarrow> string" where "of_runes rs = concat (map encode_rune rs)"

definition ellipsis :: string where "ellipsis = encode_rune 8230"

text \<open>The byte-indexed cut of a peer ID that several views show when a friend has no name.\<close>

definition short_peer :: "string \<Rightarrow> string" where
  "short_peer s = (if length s > 12 then take 6 s @ ellipsis @ drop (length s - 4) s else s)"

text \<open>\<open>s[:max-1]\<close> panics in Go when \<open>max\<close> is zero and \<open>s\<close> is not empty.\<close>

definition truncate_str :: "string \<Rightarrow> nat \<Rightarrow> string option" where
  "truncate_str s mx = (if length s \<le> mx then Some s else if mx = 0 then None else Some (take (mx - 1) s @ ellipsis))"

definition padOrTrunc :: "string \<Rightarrow> nat \<Rightarrow> string option" where
  "padOrTrunc s w =
    (let rs = runes s in
     if length rs > w then (if w = 0 then None else Some (of_runes (take (w - 1) rs) @ ellipsis))
     else if length rs < w then Some (s @ spaces (w - length rs))
     else Some s)"

definition padLeft :: "string \<Rightarrow> nat \<Rightarrow> string" where
  "padLeft s w = (if length s \<ge> w then s else spaces (w - length s) @ s)"

text \<open>\<open>width\<close> is \<open>lipgloss.Width\<close>.\<close>

definition padRight :: "(string \<Rightarrow> int) \<Rightarrow> string \<Rightarrow> int \<Rightarrow> string" where
  "padRight width s w = (let pad = w - width s in if pad \<le> 0 then s else s @ spaces (nat pad))"

text \<open>\<open>Duration.Round\<close> to a minute rounds half away from zero; the quotients then truncate.\<close>

definition minute :: time where "minute = 60 * 1000000000"

definition round_minute :: "time \<Rightarrow> time" where
  "round_minute d =
    (if d < 0 then - ((- d + minute div 2) div minute * minute) else (d + minute div 2) div minute * minute)"

definition relTime :: "time \<Rightarrow> time \<Rightarrow> string" where
  "relTime now t =
    (let d = round_minute (now - t) in
     if d < minute then ''just now''
     else if d < 60 * minute then FormatInt (d div minute) @ ''m ago''
     else if d < 24 * 60 * minute then FormatInt (d div (60 * minute)) @ ''h ago''
     else FormatInt (d div (24 * 60 * minute)) @ ''d ago'')"

section \<open>Escape sequences\<close>

datatype ansi_state = StText | StEsc | StCSI

fun strip_loop :: "ansi_state \<Rightarrow> rune list \<Rightarrow> rune list" where
  "strip_loop st [] = []"
| "strip_loop StText (r # rs) = (if r = 27 then strip_loop StEsc rs else r # strip_loop StText rs)"
| "strip_loop StEsc (r # rs) = (if r = 91 then strip_loop StCSI rs else strip_loop StText rs)"
| "strip_loop StCSI (r # rs) = (if 64 \<le> r \<and> r \<le> 126 then strip_loop StText rs else strip_loop StCSI rs)"

definition stripANSI :: "string \<Rightarrow> string" where
  "stripANSI s = of_runes (strip_loop StText (runes s))"

lemma strip_no_esc: "27 \<notin> set (strip_loop st rs)"
  by (induction st rs rule: strip_loop.induct) auto

lemma strip_plain: "27 \<notin> set rs \<Longrightarrow> strip_loop StText rs = rs"
  by (induction rs) auto

lemma strip_idem: "strip_loop StText (strip_loop st rs) = strip_loop st rs"
  by (rule strip_plain, rule strip_no_esc)

text \<open>A complete control sequence leaves no trace, so styled text measures as what it shows.\<close>

lemma strip_params: "\<forall>r\<in>set ps. 64 \<le> r \<longrightarrow> \<not> r \<le> 126 \<Longrightarrow> strip_loop StCSI (ps @ rs) = strip_loop StCSI rs"
  by (induction ps) auto

lemma strip_csi:
  "(\<forall>r\<in>set ps. \<not> (64 \<le> r \<and> r \<le> 126)) \<Longrightarrow> 64 \<le> f \<Longrightarrow> f \<le> 126 \<Longrightarrow>
     strip_loop StText (27 # 91 # ps @ f # rs) = strip_loop StText rs"
  using strip_params [of ps "f # rs"] by simp

lemma strip_styled:
  assumes "27 \<notin> set shown" and "\<forall>r\<in>set ps. \<not> (64 \<le> r \<and> r \<le> 126)" and "64 \<le> f" and "f \<le> 126"
  shows "strip_loop StText (shown @ 27 # 91 # ps @ f # rs) = shown @ strip_loop StText rs"
  using assms(1) by (induction shown) (auto simp: strip_params [OF assms(2) [simplified]] assms(3,4))

section \<open>Overlay\<close>

text \<open>\<open>s[i:j]\<close> on a slice of runes, \<open>None\<close> where Go panics (the code never slices beyond the length).\<close>

definition rune_slice :: "'a list \<Rightarrow> int \<Rightarrow> int \<Rightarrow> 'a list option" where
  "rune_slice xs i j = (if 0 \<le> i \<and> i \<le> j \<and> j \<le> int (length xs) then Some (take (nat (j - i)) (drop (nat i) xs)) else None)"

text \<open>Go's \<open>/\<close> truncates; both uses are followed by a clamp at zero.\<close>

definition centred :: "int \<Rightarrow> int \<Rightarrow> int" where
  "centred outer inner = (let d = outer - inner; q = (if d < 0 then - (- d div 2) else d div 2) in if q < 0 then 0 else q)"

definition overlay_row ::
    "(string \<Rightarrow> int) \<Rightarrow> (string \<Rightarrow> string) \<Rightarrow> string list \<Rightarrow> int \<Rightarrow> int \<Rightarrow> int \<Rightarrow> int \<Rightarrow> string \<Rightarrow> string option" where
  "overlay_row width grey fgLines tp left w i line =
    (let plain = runes (stripANSI line);
         plain1 = (if int (length plain) < w then plain @ replicate (nat w - length plain) 32 else plain)
     in if i < tp \<or> i \<ge> tp + int (length fgLines)
        then map_option (\<lambda>p. grey (of_runes p)) (rune_slice plain1 0 w)
        else
          let fl = fgLines ! nat (i - tp);
              e = left + width fl;
              e1 = (if e > w then w else e)
          in case (rune_slice plain1 0 left, rune_slice plain1 e1 w) of
               (Some l, Some t) \<Rightarrow> Some (grey (of_runes l) @ fl @ grey (of_runes t))
             | _ \<Rightarrow> None)"

fun all_some :: "'a option list \<Rightarrow> 'a list option" where
  "all_some [] = Some []"
| "all_some (None # xs) = None"
| "all_some (Some x # xs) = map_option (\<lambda>ys. x # ys) (all_some xs)"

definition overlay_rows ::
    "(string \<Rightarrow> int) \<Rightarrow> (string \<Rightarrow> string) \<Rightarrow> string list \<Rightarrow> int \<Rightarrow> int \<Rightarrow> int \<Rightarrow> nat \<Rightarrow> string list \<Rightarrow> string list option" where
  "overlay_rows width grey fgLines tp left w k ls =
    all_some (map (\<lambda>(i, line). overlay_row width grey fgLines tp left w (int i) line) (enumerate k ls))"

definition overlay_lines :: "(string \<Rightarrow> int) \<Rightarrow> (string \<Rightarrow> string) \<Rightarrow> string \<Rightarrow> string \<Rightarrow> int \<Rightarrow> int \<Rightarrow> string list option" where
  "overlay_lines width grey bg fg w h =
    (let bg0 = split_on (CHR 0x0A) bg;
         bgLines = bg0 @ replicate (nat h - length bg0) [];
         fgLines = split_on (CHR 0x0A) fg;
         tp = centred h (int (length fgLines));
         left = centred w (width fg)
     in overlay_rows width grey fgLines tp left w 0 bgLines)"

definition renderOverlay :: "(string \<Rightarrow> int) \<Rightarrow> (string \<Rightarrow> string) \<Rightarrow> string \<Rightarrow> string \<Rightarrow> int \<Rightarrow> int \<Rightarrow> string option" where
  "renderOverlay width grey bg fg w h = map_option (join [CHR 0x0A]) (overlay_lines width grey bg fg w h)"

lemma all_some_map: "(\<And>x. x \<in> set xs \<Longrightarrow> f x \<noteq> None) \<Longrightarrow> \<exists>ys. all_some (map f xs) = Some ys \<and> length ys = length xs"
proof (induction xs)
  case (Cons a xs)
  then obtain ys b where "all_some (map f xs) = Some ys" "length ys = length xs" "f a = Some b"
    by (metis list.set_intros(1) list.set_intros(2) not_None_eq)
  then show ?case by simp
qed simp

lemma centred_bounds: "0 \<le> inner \<Longrightarrow> 0 \<le> outer \<Longrightarrow> 0 \<le> centred outer inner \<and> centred outer inner \<le> outer"
  by (auto simp: centred_def Let_def)

lemma overlay_row_defined:
  assumes "0 \<le> w" and "0 \<le> left" and "left \<le> w" and "\<forall>s. 0 \<le> width s"
  shows "\<exists>r. overlay_row width grey fgLines tp left w i line = Some r"
proof -
  define plain where "plain = runes (stripANSI line)"
  define plain1 where "plain1 = (if int (length plain) < w then plain @ replicate (nat w - length plain) (32::nat) else plain)"
  have len: "w \<le> int (length plain1)" using assms(1) by (auto simp: plain1_def)
  have "0 \<le> width (fgLines ! nat (i - tp))" using assms(4) by blast
  then show ?thesis using len assms(1-3)
    by (simp add: overlay_row_def Let_def plain_def [symmetric] plain1_def [symmetric] rune_slice_def)
qed

lemma overlay_lines_defined:
  assumes "0 \<le> w" and "\<And>s. 0 \<le> width s"
  shows "\<exists>rows. overlay_lines width grey bg fg w h = Some rows \<and>
           length rows = max (nat h) (length (split_on (CHR 0x0A) bg))"
proof -
  define bgLines where "bgLines = split_on (CHR 0x0A) bg @ replicate (nat h - length (split_on (CHR 0x0A) bg)) []"
  have c: "0 \<le> centred w (width fg) \<and> centred w (width fg) \<le> w" using assms by (intro centred_bounds) auto
  have "\<exists>rows. overlay_lines width grey bg fg w h = Some rows \<and> length rows = length bgLines"
    unfolding overlay_lines_def overlay_rows_def Let_def bgLines_def [symmetric]
    using c by (subst length_enumerate [of 0 bgLines, symmetric], intro all_some_map)
      (auto intro!: overlay_row_defined assms)
  then show ?thesis by (auto simp: bgLines_def)
qed

text \<open>On a terminal of any size, whatever is drawn and however large the dialog is, the overlay cuts no row out of
  bounds: it gives as many rows as the background has, or as the terminal has if that is more.\<close>
theorem renderOverlay_defined:
  assumes "0 \<le> w" and "\<And>s. 0 \<le> width s"
  shows "\<exists>rows. renderOverlay width grey bg fg w h = Some (join [CHR 0x0A] rows) \<and>
           length rows = max (nat h) (length (split_on (CHR 0x0A) bg))"
  using overlay_lines_defined [OF assms] by (fastforce simp: renderOverlay_def)

theorem renderOverlay_defined_witness:
  "\<exists>rows. renderOverlay (\<lambda>s. int (length s)) id ''background'' ''a dialog wider'' 4 3 = Some (join [CHR 0x0A] rows) \<and>
     length rows = 3"
  using renderOverlay_defined [of 4 "\<lambda>s. int (length s)" id "''background''" "''a dialog wider''" 3] by simp

section \<open>The friends sidebar\<close>

record friendsPane =
  fp_friends :: "FriendsListEntry list"
  fp_selected :: int
  fp_filter :: string

definition visible :: "(rune \<Rightarrow> rune) \<Rightarrow> friendsPane \<Rightarrow> FriendsListEntry list" where
  "visible lower p =
    (if fp_filter p = [] then fp_friends p
     else List.filter (\<lambda>f. str_contains (ToLower lower (fe_Name f)) (ToLower lower (fp_filter p))) (fp_friends p))"

definition SetFriends :: "FriendsListEntry list \<Rightarrow> friendsPane \<Rightarrow> friendsPane" where
  "SetFriends fs p = p\<lparr>fp_friends := fs, fp_selected := (if fp_selected p \<ge> int (length fs) then 0 else fp_selected p)\<rparr>"

text \<open>\<open>Selected\<close> also repairs the selection.\<close>

definition Selected :: "(rune \<Rightarrow> rune) \<Rightarrow> friendsPane \<Rightarrow> FriendsListEntry option \<times> friendsPane" where
  "Selected lower p =
    (let vis = visible lower p in
     if vis = [] then (None, p)
     else
       let p1 = (if fp_selected p \<ge> int (length vis) then p\<lparr>fp_selected := 0\<rparr> else p)
       in (Some (vis ! nat (fp_selected p1)), p1))"

definition MoveUp :: "friendsPane \<Rightarrow> friendsPane" where
  "MoveUp p = (if fp_selected p > 0 then p\<lparr>fp_selected := fp_selected p - 1\<rparr> else p)"

definition MoveDown :: "(rune \<Rightarrow> rune) \<Rightarrow> friendsPane \<Rightarrow> friendsPane" where
  "MoveDown lower p = (if fp_selected p < int (length (visible lower p)) - 1 then p\<lparr>fp_selected := fp_selected p + 1\<rparr> else p)"

definition SetFilter :: "string \<Rightarrow> friendsPane \<Rightarrow> friendsPane" where
  "SetFilter s p = p\<lparr>fp_filter := s, fp_selected := 0\<rparr>"

text \<open>What every view shows of the list: the selected index points at a visible friend, if there is one.\<close>

definition pane_ok :: "(rune \<Rightarrow> rune) \<Rightarrow> friendsPane \<Rightarrow> bool" where
  "pane_ok lower p \<longleftrightarrow> 0 \<le> fp_selected p \<and> (visible lower p \<noteq> [] \<longrightarrow> fp_selected p < int (length (visible lower p)))"

lemma visible_selected [simp]: "visible lower (p\<lparr>fp_selected := k\<rparr>) = visible lower p"
  by (simp add: visible_def)

lemma Selected_ok: "0 \<le> fp_selected p \<Longrightarrow> pane_ok lower (snd (Selected lower p))"
  by (auto simp: pane_ok_def Selected_def Let_def)

lemma Selected_stable:
  "0 \<le> fp_selected p \<Longrightarrow> Selected lower (snd (Selected lower p)) = Selected lower p"
  by (auto simp: Selected_def Let_def)

lemma Selected_keeps: "pane_ok lower p \<Longrightarrow> Selected lower p = (r, q) \<Longrightarrow> q = p"
  by (auto simp: Selected_def pane_ok_def Let_def split: if_splits)

lemma Selected_frame [simp]:
  "visible lower (snd (Selected lower p)) = visible lower p"
  "fp_friends (snd (Selected lower p)) = fp_friends p" "fp_filter (snd (Selected lower p)) = fp_filter p"
  by (simp_all add: Selected_def Let_def)

lemma pane_sel_nonneg:
  "pane_ok lower p \<Longrightarrow> 0 \<le> fp_selected p" "0 \<le> fp_selected p \<Longrightarrow> 0 \<le> fp_selected (MoveUp p)"
  "0 \<le> fp_selected p \<Longrightarrow> 0 \<le> fp_selected (MoveDown lower p)" "0 \<le> fp_selected (SetFilter s p)"
  "0 \<le> fp_selected p \<Longrightarrow> 0 \<le> fp_selected (SetFriends fs p)"
  by (auto simp: pane_ok_def MoveUp_def MoveDown_def SetFilter_def SetFriends_def)

lemma pane_filter [simp]:
  "fp_filter (MoveUp p) = fp_filter p" "fp_filter (MoveDown lower p) = fp_filter p"
  "fp_filter (SetFilter s p) = s" "fp_filter (SetFriends fs p) = fp_filter p"
  by (auto simp: MoveUp_def MoveDown_def SetFilter_def SetFriends_def)

text \<open>Moving down and up again is where one was, away from the ends.\<close>

lemma MoveUp_MoveDown:
  "fp_selected p < int (length (visible lower p)) - 1 \<Longrightarrow> 0 \<le> fp_selected p \<Longrightarrow> MoveUp (MoveDown lower p) = p"
  by (simp add: MoveUp_def MoveDown_def)

text \<open>The rows of the list. \<open>now\<close> is the clock, \<open>str\<close> is \<open>peer.ID.String\<close>; a zero time is \<open>None\<close>.\<close>

definition friend_status :: "time \<Rightarrow> FriendsListEntry \<Rightarrow> string" where
  "friend_status now f =
    (if fe_Online f then ''online'' else case fe_LastSeen f of None \<Rightarrow> ''offline'' | Some t \<Rightarrow> relTime now t)"

definition friend_row :: "(peer_id \<Rightarrow> string) \<Rightarrow> time \<Rightarrow> bool \<Rightarrow> FriendsListEntry \<Rightarrow> string option" where
  "friend_row str now sel f =
    (let name = (if fe_Name f = [] then short_peer (str (fe_PeerID f)) else fe_Name f)
     in map_option
       (\<lambda>n. (if sel then encode_rune 9612 @ '' '' else ''  '') @ encode_rune (if fe_Online f then 9679 else 9675) @ '' '' @ n @ '' '' @ friend_status now f)
       (padOrTrunc name 12))"

definition friends_view ::
    "(peer_id \<Rightarrow> string) \<Rightarrow> (rune \<Rightarrow> rune) \<Rightarrow> (string \<Rightarrow> string) \<Rightarrow> time \<Rightarrow> friendsPane \<Rightarrow> bool \<Rightarrow> string \<Rightarrow> string option" where
  "friends_view str lower grey now p filterActive filterValue =
    (let header = (if filterActive then '' /'' @ filterValue @ encode_rune 9608 @ [CHR 0x0A] else []);
         vis = visible lower p
     in if vis = [] then Some (header @ grey ''No friends yet'')
        else map_option (\<lambda>rows. header @ concat (map (\<lambda>r. r @ [CHR 0x0A]) rows))
          (all_some (map (\<lambda>(i, f). friend_row str now (int i = fp_selected p) f) (enumerate 0 vis))))"

section \<open>The friend in focus\<close>

text \<open>\<open>date\<close> formats a day; a zero \<open>AddedAt\<close> is the time 0 here.\<close>

definition focus_view ::
    "(peer_id \<Rightarrow> string) \<Rightarrow> (string \<Rightarrow> string) \<Rightarrow> (string \<Rightarrow> string) \<Rightarrow> (time \<Rightarrow> string) \<Rightarrow> FriendsListEntry option \<Rightarrow> string" where
  "focus_view str grey key date friend =
    (case friend of
       None \<Rightarrow> grey (''Press '' @ key ''a'' @ '' to add a friend, or '' @ key ''c'' @ '' to generate an invite to share.'')
     | Some f \<Rightarrow>
         (let name = (if fe_Name f = [] then short_peer (str (fe_PeerID f)) @ '' (no name set)'' else fe_Name f)
          in name @ nl @ nl @ ''peer id     '' @ str (fe_PeerID f) @ nl
             @ ''status      '' @ (if fe_Online f then ''online'' else ''offline'') @ nl
             @ (if fe_AddedAt f = 0 then [] else ''added       '' @ date (fe_AddedAt f) @ nl)
             @ nl @ key ''enter'' @ '' call   '' @ key ''r'' @ '' rename   '' @ key ''x'' @ '' remove'' @ nl))"

section \<open>The call dock\<close>

record callDockState =
  dk_State :: string
  dk_CallID :: string
  dk_Remote :: string
  dk_StartedAt :: time
  dk_Mode :: string
  dk_RxDB :: int
  dk_TxDB :: int
  dk_Reason :: string
  dk_Muted :: bool

definition idleDock :: callDockState where
  "idleDock = \<lparr>dk_State = [], dk_CallID = [], dk_Remote = [], dk_StartedAt = 0, dk_Mode = [], dk_RxDB = 0, dk_TxDB = 0,
     dk_Reason = [], dk_Muted = False\<rparr>"

definition Active :: "callDockState \<Rightarrow> bool" where
  "Active d \<longleftrightarrow> dk_State d \<noteq> [] \<and> dk_State d \<noteq> ''ended''"

text \<open>\<open>dur\<close> prints a duration rounded to a second. \<open>View\<close> renders this in a box of the given size, except the idle line.\<close>

definition dock_view :: "styles \<Rightarrow> (time \<Rightarrow> string) \<Rightarrow> time \<Rightarrow> callDockState \<Rightarrow> string" where
  "dock_view t dur now d =
    (let bullet = encode_rune 9679 in
     if dk_State d = [] then th_dim t '' no active calls''
     else if dk_State d = ''calling'' then '' '' @ th_warn t bullet @ '' Calling '' @ dk_Remote d @ ellipsis
     else if dk_State d = ''ringing'' then '' '' @ th_warn t bullet @ '' Ringing '' @ encode_rune 8212 @ '' '' @ dk_Remote d
     else if dk_State d = ''connecting'' then '' '' @ th_warn t bullet @ '' Connecting to '' @ dk_Remote d @ ellipsis
     else if dk_State d = ''connected''
     then '' '' @ th_head t (dk_Remote d) @ ''   '' @ dur (now - dk_StartedAt d) @ ''   ''
            @ th_dim t (if dk_Mode d = [] then encode_rune 8212 else dk_Mode d)
            @ ''   rx '' @ FormatInt (dk_RxDB d) @ '' dB   tx '' @ FormatInt (dk_TxDB d) @ '' dB''
            @ nl @ '' '' @ th_key t ''m'' @ '' mute  '' @ th_key t ''h'' @ '' hangup  '' @ th_key t ''d'' @ '' diag  '' @ th_key t ''esc'' @ '' back''
     else if dk_State d = ''ended'' then '' '' @ th_dim t bullet @ '' call ended  '' @ th_dim t (dk_Reason d)
     else [])"

section \<open>The footer\<close>

datatype statusKind = statusIdle | statusRinging | statusConnected | statusDaemonDown | statusNoRelay | statusError

record statusFooterState =
  sf_Status :: statusKind
  sf_Detail :: string
  sf_Width :: int

definition footer_keys :: "styles \<Rightarrow> string" where
  "footer_keys t =
    join ''  '' [th_dim t ''/'' @ ''search'', th_key t ''a'' @ '' add'', th_key t ''c'' @ '' code'', th_key t ''s'' @ '' settings'',
      th_key t ''?'' @ ''help'', th_key t ''q'' @ '' quit'']"

definition footer_indicator :: "styles \<Rightarrow> statusFooterState \<Rightarrow> string" where
  "footer_indicator t s =
    (let bullet = encode_rune 9679 in
     case sf_Status s of
       statusConnected \<Rightarrow> th_ok t (bullet @ '' connected to '' @ sf_Detail s)
     | statusRinging \<Rightarrow> th_warn t (bullet @ '' ringing '' @ encode_rune 8212 @ '' '' @ sf_Detail s)
     | statusDaemonDown \<Rightarrow> th_err t (bullet @ '' daemon down'')
     | statusNoRelay \<Rightarrow> th_warn t (encode_rune 9888 @ '' no relay reservation'')
     | statusError \<Rightarrow> th_err t (encode_rune 10006 @ '' '' @ sf_Detail s)
     | statusIdle \<Rightarrow> th_dim t (bullet @ '' relay reserved''))"

definition renderStatusFooter :: "(string \<Rightarrow> int) \<Rightarrow> styles \<Rightarrow> statusFooterState \<Rightarrow> string" where
  "renderStatusFooter width t s =
    (let keys = footer_keys t; ind = footer_indicator t s in
     if sf_Width s \<le> 0 then keys @ ''  '' @ ind
     else let used = width keys + width ind in
       if used \<ge> sf_Width s then keys @ ''  '' @ ind
       else keys @ spaces (nat (sf_Width s - used)) @ ind)"

text \<open>The footer is as wide as the terminal when its two ends fit; otherwise it is wider than the terminal, so the
  terminal wraps it. The width of text is additive and a space is one column wide.\<close>

lemma footer_width:
  assumes "\<And>a b. width (a @ b) = width a + width b" and "\<And>n. width (spaces n) = int n" and "0 < sf_Width s"
  shows "width (renderStatusFooter width t s) = sf_Width s \<or>
    sf_Width s < width (renderStatusFooter width t s) \<and>
      sf_Width s \<le> width (footer_keys t) + width (footer_indicator t s)"
proof -
  have two: "width ''  '' = 2" using assms(2) [of 2] by (simp add: spaces_def numeral_2_eq_2)
  show ?thesis using assms(3)
    by (simp add: renderStatusFooter_def Let_def assms(1,2) two del: append_Cons append_Nil)
qed

end
