(* ===== verification/Tui_Modals.thy ===== *)
theory Tui_Modals
  imports Tui_Panes
begin

text \<open>
  The dialogs of the terminal interface (\<open>modal_*.go\<close>). A dialog reacts to keys; what it does besides changing
  itself (copying to the clipboard, running an editor) is an effect. \<open>Update\<close> of a dialog returns whether it closed,
  the dialog after the key (the code keeps the pointer of the one that closed and reads its action) and the effects.
  A \<open>tea.KeyMsg\<close> is its type, its runes and its name (\<open>String\<close>), as Bubble Tea delivers them.
\<close>

datatype KeyType = KeyRunes | KeyEsc | KeyEnter | KeyBackspace | KeyOther

record Key =
  k_type :: KeyType
  k_runes :: "rune list"
  k_string :: string

datatype ui_effect = ClipWrite string | RunEditor string string

section \<open>Add a friend\<close>

datatype addFriendState = addStateEmpty | addStateNewPeer | addStateDuplicate

record addFriendModal =
  af_state :: addFriendState
  af_codeText :: string
  af_parsed :: string
  af_friend :: "FriendsListEntry option"
  af_inviter :: string
  af_Action :: string
  af_clipboardErr :: "string option"
  af_manualEntry :: string

definition emptyAddFriend :: addFriendModal where
  "emptyAddFriend =
    \<lparr>af_state = addStateEmpty, af_codeText = [], af_parsed = [], af_friend = None, af_inviter = [], af_Action = [],
     af_clipboardErr = None, af_manualEntry = []\<rparr>"

text \<open>\<open>friends\<close> is what the daemon answers to the synchronous \<open>FriendsList\<close>, \<open>None\<close> for an error. The short code is
  tried when the text is not a URL or the URL does not parse.\<close>

definition detect_code :: "(rune \<Rightarrow> rune) \<Rightarrow> string \<Rightarrow> addFriendModal \<Rightarrow> addFriendModal" where
  "detect_code upper s m =
    (case Parse_code upper s of
       Inr c \<Rightarrow> m\<lparr>af_codeText := s, af_parsed := Pretty c, af_inviter := ''(short code)'', af_state := addStateNewPeer\<rparr>
     | Inl _ \<Rightarrow> m\<lparr>af_state := addStateEmpty\<rparr>)"

definition applyDetection ::
    "(rune \<Rightarrow> rune) \<Rightarrow> (rune \<Rightarrow> rune) \<Rightarrow> (peer_id \<Rightarrow> string) \<Rightarrow> FriendsListEntry list option \<Rightarrow> string \<Rightarrow> addFriendModal \<Rightarrow> addFriendModal" where
  "applyDetection upper lower str friends text m =
    (let s = TrimSpace text in
     if s = [] then m\<lparr>af_state := addStateEmpty\<rparr>
     else if take (length URLPrefix) (ToLower lower s) = URLPrefix
     then (case ParseURL upper lower s of
             Inr p \<Rightarrow>
               if up_PeerID p = [] then detect_code upper s m
               else
                 let m1 = m\<lparr>af_codeText := s, af_parsed := s,
                            af_inviter := (if up_DisplayName p = [] then ''(unnamed)'' else up_DisplayName p)\<rparr>
                 in (case Option.bind friends (find (\<lambda>f. str (fe_PeerID f) = up_PeerID p)) of
                       Some f \<Rightarrow> m1\<lparr>af_state := addStateDuplicate, af_friend := Some f\<rparr>
                     | None \<Rightarrow> m1\<lparr>af_state := addStateNewPeer\<rparr>)
           | Inl _ \<Rightarrow> detect_code upper s m)
     else detect_code upper s m)"

text \<open>The clipboard gives an error or its contents.\<close>

definition newAddFriendModal ::
    "(rune \<Rightarrow> rune) \<Rightarrow> (rune \<Rightarrow> rune) \<Rightarrow> (peer_id \<Rightarrow> string) \<Rightarrow> FriendsListEntry list option \<Rightarrow> string + string \<Rightarrow> addFriendModal" where
  "newAddFriendModal upper lower str friends clip =
    (case clip of
       Inl e \<Rightarrow> emptyAddFriend\<lparr>af_clipboardErr := Some e\<rparr>
     | Inr contents \<Rightarrow> applyDetection upper lower str friends contents emptyAddFriend)"

definition addfriend_typed :: "Key \<Rightarrow> addFriendModal \<Rightarrow> addFriendModal" where
  "addfriend_typed k m =
    (if af_state m = addStateEmpty \<and> k_type k = KeyRunes then m\<lparr>af_manualEntry := af_manualEntry m @ of_runes (k_runes k)\<rparr> else m)"

definition addfriend_update :: "Key \<Rightarrow> addFriendModal \<Rightarrow> bool \<times> addFriendModal" where
  "addfriend_update k m =
    (if k_string k = ''esc'' then (True, m\<lparr>af_Action := ''cancel''\<rparr>)
     else if k_string k = ''enter''
     then (case af_state m of
             addStateNewPeer \<Rightarrow> (True, m\<lparr>af_Action := ''redeem''\<rparr>)
           | addStateDuplicate \<Rightarrow> (True, m\<lparr>af_Action := ''open''\<rparr>)
           | addStateEmpty \<Rightarrow>
               if af_manualEntry m \<noteq> []
               then (True, m\<lparr>af_codeText := af_manualEntry m, af_parsed := af_manualEntry m, af_Action := ''redeem''\<rparr>)
               else (False, addfriend_typed k m))
     else if k_string k = ''backspace''
     then (False, addfriend_typed k (if af_state m = addStateEmpty \<and> af_manualEntry m \<noteq> [] then m\<lparr>af_manualEntry := butlast (af_manualEntry m)\<rparr> else m))
     else (False, addfriend_typed k m))"

definition CodeText :: "addFriendModal \<Rightarrow> string" where
  "CodeText m = (if af_codeText m \<noteq> [] then af_codeText m else af_manualEntry m)"

definition addfriend_view :: "styles \<Rightarrow> (time \<Rightarrow> string) \<Rightarrow> addFriendModal \<Rightarrow> string" where
  "addfriend_view t date m =
    th_head t ''Add friend'' @ nl @ nl @
    (case af_state m of
       addStateNewPeer \<Rightarrow>
         th_ok t (encode_rune 10003) @ '' found invite in clipboard'' @ nl @ nl
         @ ''Inviter:    '' @ th_head t (af_inviter m) @ nl
         @ ''Code:       '' @ af_parsed m @ nl @ nl
         @ ''[ '' @ th_key t ''enter'' @ '' add ]   [ '' @ th_key t ''esc'' @ '' cancel ]''
     | addStateDuplicate \<Rightarrow>
         (let f = the (af_friend m) in
          th_warn t (encode_rune 9888) @ '' already a friend'' @ nl @ nl
          @ ''Clipboard contains an invite for '' @ th_head t (fe_Name f) @ ''.'' @ nl
          @ ''(added '' @ date (fe_AddedAt f) @ '')'' @ nl @ nl
          @ ''[ '' @ th_key t ''enter'' @ '' open '' @ fe_Name f @ '' ]   [ '' @ th_key t ''esc'' @ '' close ]'')
     | addStateEmpty \<Rightarrow>
         ''Paste an opencom:// URL or OPEN-XXXX code:'' @ nl @ th_dim t (af_manualEntry m) @ ''_'' @ nl @ nl
         @ (case af_clipboardErr m of
              Some e \<Rightarrow> th_warn t (''clipboard unavailable: '' @ e)
            | None \<Rightarrow> th_dim t (''clipboard checked '' @ encode_rune 8212 @ '' no invite found''))
         @ nl @ nl @ ''[ '' @ th_key t ''enter'' @ '' add ]   [ '' @ th_key t ''esc'' @ '' cancel ]'')"

text \<open>While the dialog is open no action is chosen, and what it recognised is not empty; so what it asks the daemon to
  redeem never is.\<close>

definition addfriend_open :: "addFriendModal \<Rightarrow> bool" where
  "addfriend_open m \<longleftrightarrow>
    (af_state m = addStateEmpty \<or> af_codeText m \<noteq> []) \<and> af_Action m = []
    \<and> (af_state m = addStateDuplicate \<longrightarrow> af_friend m \<noteq> None)"

lemma detect_code_open: "af_Action m = [] \<Longrightarrow> s \<noteq> [] \<Longrightarrow> addfriend_open (detect_code upper s m)"
  by (auto simp: detect_code_def addfriend_open_def split: sum.splits)

lemma newAddFriend_open: "addfriend_open (newAddFriendModal upper lower str friends clip)"
proof (cases clip)
  case (Inl e)
  then show ?thesis by (simp add: newAddFriendModal_def emptyAddFriend_def addfriend_open_def)
next
  case (Inr contents)
  have "addfriend_open (applyDetection upper lower str friends contents emptyAddFriend)"
    by (auto simp: applyDetection_def Let_def emptyAddFriend_def intro!: detect_code_open split: sum.splits option.splits)
      (auto simp: addfriend_open_def)
  with Inr show ?thesis by (simp add: newAddFriendModal_def)
qed

lemma addfriend_update_open:
  "addfriend_open m \<Longrightarrow> addfriend_update k m = (c, m') \<Longrightarrow>
     (\<not> c \<longrightarrow> addfriend_open m') \<and> (c \<and> af_Action m' = ''redeem'' \<longrightarrow> CodeText m' \<noteq> [])"
  by (auto simp: addfriend_update_def addfriend_typed_def addfriend_open_def CodeText_def split: if_splits addFriendState.splits)

section \<open>Generate an invite\<close>

record InviteCreateResult =
  ic_Code :: string
  ic_URL :: string
  ic_ExpiresAt :: int
  ic_DHTPublishWarning :: string
  ic_ReachableAddrs :: "string list"

datatype inviteModalState = inviteStateLoading | inviteStateActive | inviteStateRedeemed

record inviteModal =
  iv_state :: inviteModalState
  iv_result :: InviteCreateResult
  iv_qr :: string
  iv_redeemer :: string

definition newInviteModal :: inviteModal where
  "newInviteModal = \<lparr>iv_state = inviteStateLoading,
     iv_result = \<lparr>ic_Code = [], ic_URL = [], ic_ExpiresAt = 0, ic_DHTPublishWarning = [], ic_ReachableAddrs = []\<rparr>, iv_qr = [], iv_redeemer = []\<rparr>"

text \<open>\<open>renderASCIIQR\<close>: two rows of modules per line. \<open>bitmap\<close> is the QR library, \<open>None\<close> when the text is too long.\<close>

definition qr_cell :: "bool \<Rightarrow> bool \<Rightarrow> string" where
  "qr_cell upper_half lower_half =
    encode_rune (if upper_half \<and> lower_half then 9608 else if upper_half then 9600 else if lower_half then 9604 else 32)"

fun qr_rows :: "bool list list \<Rightarrow> string" where
  "qr_rows [] = []"
| "qr_rows [r] = concat (map (\<lambda>b. qr_cell b False) r) @ nl"
| "qr_rows (r # r' # rs) = concat (map2 qr_cell r r') @ nl @ qr_rows rs"

definition renderASCIIQR :: "(string \<Rightarrow> bool list list option) \<Rightarrow> string \<Rightarrow> string option" where
  "renderASCIIQR bitmap payload = map_option qr_rows (bitmap payload)"

definition SetResult :: "(string \<Rightarrow> bool list list option) \<Rightarrow> InviteCreateResult \<Rightarrow> inviteModal \<Rightarrow> inviteModal" where
  "SetResult bitmap r m =
    m\<lparr>iv_result := r, iv_qr := (case renderASCIIQR bitmap (ic_URL r) of Some q \<Rightarrow> q | None \<Rightarrow> iv_qr m), iv_state := inviteStateActive\<rparr>"

definition SetRedeemed :: "string \<Rightarrow> inviteModal \<Rightarrow> inviteModal" where
  "SetRedeemed by_id m = m\<lparr>iv_redeemer := by_id, iv_state := inviteStateRedeemed\<rparr>"

definition invite_update :: "Key \<Rightarrow> inviteModal \<Rightarrow> bool \<times> ui_effect list" where
  "invite_update k m =
    (if k_string k = ''esc'' then (True, [])
     else if k_string k = ''u'' \<and> iv_state m = inviteStateActive then (False, [ClipWrite (ic_URL (iv_result m))])
     else if k_string k = ''k'' \<and> iv_state m = inviteStateActive then (False, [ClipWrite (ic_Code (iv_result m))])
     else (False, []))"

definition invite_view :: "styles \<Rightarrow> inviteModal \<Rightarrow> string" where
  "invite_view t m =
    th_head t ''Generate invite'' @ nl @ nl @
    (case iv_state m of
       inviteStateLoading \<Rightarrow> th_dim t (''contacting daemon'' @ ellipsis)
     | inviteStateActive \<Rightarrow>
         ''code: '' @ th_head t (ic_Code (iv_result m)) @ nl @ ''url:  '' @ ic_URL (iv_result m) @ nl @ nl
         @ (if iv_qr m \<noteq> [] then iv_qr m @ nl else [])
         @ (if ic_DHTPublishWarning (iv_result m) \<noteq> []
            then th_warn t (encode_rune 9888) @ '' '' @ ic_DHTPublishWarning (iv_result m) @ nl else [])
         @ nl @ ''[ '' @ th_key t ''u'' @ '' copy URL ]   [ '' @ th_key t ''k'' @ '' copy code ]   [ '' @ th_key t ''esc'' @ '' close ]''
     | inviteStateRedeemed \<Rightarrow> th_ok t (encode_rune 10003) @ '' redeemed by '' @ th_head t (iv_redeemer m))"

section \<open>Incoming call, quitting, settings, help\<close>

record incomingModal =
  in_CallID :: string
  in_Caller :: string
  in_PeerID :: string
  in_Fingerprint :: string
  in_Verified :: bool
  in_Action :: string

definition incoming_update :: "Key \<Rightarrow> incomingModal \<Rightarrow> bool \<times> incomingModal" where
  "incoming_update k m =
    (if k_string k = ''a'' then (True, m\<lparr>in_Action := ''accept''\<rparr>)
     else if k_string k = ''d'' then (True, m\<lparr>in_Action := ''decline''\<rparr>)
     else if k_string k = ''esc'' then (True, m\<lparr>in_Action := ''ignore''\<rparr>)
     else (False, m))"

definition incoming_view :: "styles \<Rightarrow> incomingModal \<Rightarrow> string" where
  "incoming_view t m =
    th_head t ''Incoming call'' @ nl @ nl @ th_head t (in_Caller m) @ nl @ th_dim t (in_PeerID m) @ nl
    @ ''fingerprint  '' @ in_Fingerprint m @ ''  '' @ (if in_Verified m then th_ok t ''(verified)'' else th_dim t ''(unverified)'') @ nl @ nl
    @ ''[ '' @ th_key t ''a'' @ '' accept ]   [ '' @ th_key t ''d'' @ '' decline ]   [ '' @ th_key t ''esc'' @ '' ignore ]''"

record quitModal =
  qm_remote :: string
  qm_Action :: string

definition quit_update :: "Key \<Rightarrow> quitModal \<Rightarrow> bool \<times> quitModal" where
  "quit_update k m =
    (if k_string k = ''d'' then (True, m\<lparr>qm_Action := ''detach''\<rparr>)
     else if k_string k = ''h'' then (True, m\<lparr>qm_Action := ''hangup''\<rparr>)
     else if k_string k = ''esc'' then (True, m\<lparr>qm_Action := ''cancel''\<rparr>)
     else (False, m))"

definition quit_view :: "styles \<Rightarrow> quitModal \<Rightarrow> string" where
  "quit_view t m =
    ''You'' @ [CHR 0x27] @ ''re on a call with '' @ th_head t (qm_remote m) @ ''.'' @ nl @ nl
    @ ''[ '' @ th_key t ''d'' @ '' detach (call continues) ]   [ '' @ th_key t ''h'' @ '' hang up ]   [ '' @ th_key t ''esc'' @ '' cancel ]''"

record settingsModal =
  se_path :: string
  se_editor :: string

text \<open>\<open>env\<close> is the environment, \<open>has\<close> whether a program is on the path.\<close>

definition pickEditor :: "(string \<Rightarrow> string) \<Rightarrow> (string \<Rightarrow> bool) \<Rightarrow> bool \<Rightarrow> string" where
  "pickEditor env has windows =
    (case find (\<lambda>v. v \<noteq> []) (map env [''EDITOR'', ''VISUAL'']) of
       Some v \<Rightarrow> v
     | None \<Rightarrow> (case find has [''vim'', ''vi'', ''nano''] of Some c \<Rightarrow> c | None \<Rightarrow> if windows then ''notepad'' else ''vi''))"

definition newSettingsModal :: "string \<Rightarrow> string \<Rightarrow> string \<Rightarrow> settingsModal" where
  "newSettingsModal picked path editorOverride =
    \<lparr>se_path = path, se_editor = (if editorOverride = [] then picked else editorOverride)\<rparr>"

definition settings_update :: "Key \<Rightarrow> settingsModal \<Rightarrow> bool \<times> ui_effect list" where
  "settings_update k m =
    (if k_string k = ''o'' then (True, [RunEditor (se_editor m) (se_path m)])
     else if k_string k = ''esc'' then (True, []) else (False, []))"

definition settings_view :: "styles \<Rightarrow> settingsModal \<Rightarrow> string" where
  "settings_view t m =
    ''Settings live in '' @ se_path m @ ''.'' @ nl @ ''After editing, run `opencom daemon restart` to apply.'' @ nl @ nl
    @ ''[ '' @ th_key t ''o'' @ '' open in $EDITOR ]   [ '' @ th_key t ''esc'' @ '' close ]''"

definition help_update :: "Key \<Rightarrow> bool" where
  "help_update k = (k_string k = ''?'' \<or> k_string k = ''esc'')"

definition help_groups :: "(string \<times> (string \<times> string) list) list" where
  "help_groups =
    [(''Global'', [(''/'', ''filter friends''), (''a'', ''add friend''), (''c'', ''generate invite''), (''s'', ''settings''),
        (''?'', ''this help''), (''q'', ''quit'')]),
     (''Friends'', [(encode_rune 8593 @ ''/k'', ''select previous''), (encode_rune 8595 @ ''/j'', ''select next''),
        (''enter'', ''place call''), (''r'', ''rename''), (''x'', ''remove'')]),
     (''In call'', [(''m'', ''toggle mute''), (''h'', ''hang up''), (''esc'', ''detach (call lives in daemon)'')]),
     (''In modal'', [(''esc'', ''cancel / close''), (''enter'', ''confirm'')])]"

definition help_view :: "styles \<Rightarrow> string" where
  "help_view t =
    th_head t ''Keybindings'' @ nl @ nl
    @ concat (map (\<lambda>(title, items). th_accent t title @ nl
        @ concat (map (\<lambda>(k, d). ''  '' @ th_key t (padLeft k 6) @ ''  '' @ d @ nl) items) @ nl) help_groups)
    @ th_dim t ''press ? or esc to close''"

section \<open>Any dialog\<close>

datatype modalView =
    AddFriendM addFriendModal
  | InviteM inviteModal
  | IncomingM incomingModal
  | QuitM quitModal
  | SettingsM settingsModal
  | HelpM

fun modal_update :: "Key \<Rightarrow> modalView \<Rightarrow> bool \<times> modalView \<times> ui_effect list" where
  "modal_update k (AddFriendM m) = (case addfriend_update k m of (c, m') \<Rightarrow> (c, AddFriendM m', []))"
| "modal_update k (InviteM m) = (case invite_update k m of (c, es) \<Rightarrow> (c, InviteM m, es))"
| "modal_update k (IncomingM m) = (case incoming_update k m of (c, m') \<Rightarrow> (c, IncomingM m', []))"
| "modal_update k (QuitM m) = (case quit_update k m of (c, m') \<Rightarrow> (c, QuitM m', []))"
| "modal_update k (SettingsM m) = (case settings_update k m of (c, es) \<Rightarrow> (c, SettingsM m, es))"
| "modal_update k HelpM = (help_update k, HelpM, [])"

fun modal_view :: "styles \<Rightarrow> (time \<Rightarrow> string) \<Rightarrow> modalView \<Rightarrow> string" where
  "modal_view t date (AddFriendM m) = addfriend_view t date m"
| "modal_view t date (InviteM m) = invite_view t m"
| "modal_view t date (IncomingM m) = incoming_view t m"
| "modal_view t date (QuitM m) = quit_view t m"
| "modal_view t date (SettingsM m) = settings_view t m"
| "modal_view t date HelpM = help_view t"

text \<open>Esc closes every dialog.\<close>

lemma esc_closes: "k_string k = ''esc'' \<Longrightarrow> fst (modal_update k m)"
  by (cases m) (auto simp: addfriend_update_def invite_update_def incoming_update_def quit_update_def settings_update_def
      help_update_def split: prod.splits)

end
