(* ===== verification/Tui.thy ===== *)
theory Tui
  imports Tui_Modals Daemon
begin

text \<open>
  The root model of the terminal interface (\<open>model.go\<close>): its messages (\<open>messages.go\<close>), the commands it returns
  (\<open>ipc_commands.go\<close>) and \<open>Update\<close>, which folds a message into the model. A command that is nil is \<open>None\<close>.
  The raw JSON of an event is a type variable, its two decodings are arguments. The client and the clipboard are
  not part of the state: what they answer during \<open>Update\<close> is in \<open>tui_env\<close>.
\<close>

section \<open>Messages and commands\<close>

record 'j SubEvent =
  se_Method :: string
  se_Data :: 'j

text \<open>Subscriptions are numbered in the order they are opened.\<close>

datatype 'j Msg =
    WindowSizeMsg int int
  | KeyMsg Key
  | ErrMsg string string
  | FriendsLoadedMsg "FriendsListEntry list"
  | PresenceChangedMsg string string bool
  | CallStateMsg StateChange
  | DaemonStatusMsg DaemonStatusResult
  | InviteCreatedMsg InviteCreateResult
  | InviteRedeemedMsg string string
  | CallsListMsg "CallsListEntry list"
  | InviteRedeemDoneMsg FriendsListEntry
  | FriendAddedMsg FriendsListEntry
  | FriendRenamedMsg string string
  | FriendRemovedMsg string
  | CallStartedMsg nat
  | CallActionDoneMsg string string
  | PresenceSubMsg nat
  | CallsSubMsg nat
  | InviteRedemptionSubMsg nat string
  | SubEventMsg string "'j SubEvent"
  | SubClosedMsg string

datatype Cmd =
    LoadFriends
  | LoadCalls
  | LoadDaemonStatus
  | AddFriendCmd string string
  | RenameFriendCmd string string
  | RemoveFriendCmd string
  | CreateInviteCmd string
  | RedeemInviteCmd string
  | StartCallCmd string
  | CallActionCmd string string string
  | SubscribePresenceCmd
  | SubscribeCallsCmd
  | SubscribeInviteRedemptionCmd string
  | TickDaemonStatus
  | TickCallsList
  | WaitForSubEvent nat string
  | Quit
  | Batch "Cmd list"
  | SequenceCmd "Cmd list"

section \<open>The model\<close>

record Model =
  m_width :: int
  m_height :: int
  m_friends :: friendsPane
  m_focus :: "FriendsListEntry option"
  m_dock :: callDockState
  m_footer :: statusFooterState
  m_filtering :: bool
  m_filterInput :: string
  m_modal :: "modalView option"
  m_configPath :: string
  m_editorOverride :: string
  m_callTargetName :: string

record 'j tui_env =
  te_str :: "peer_id \<Rightarrow> string"
  te_upper :: "rune \<Rightarrow> rune"
  te_lower :: "rune \<Rightarrow> rune"
  te_clip :: "string + string"
  te_friends :: "FriendsListEntry list option"
  te_editor :: string
  te_qr :: "string \<Rightarrow> bool list list option"
  te_state :: "'j \<Rightarrow> StateChange option"
  te_redeemed :: "'j \<Rightarrow> (string \<times> string) option"

definition NewModel :: "string \<Rightarrow> string \<Rightarrow> Model" where
  "NewModel configPath editor =
    \<lparr>m_width = 0, m_height = 0, m_friends = \<lparr>fp_friends = [], fp_selected = 0, fp_filter = []\<rparr>, m_focus = None, m_dock = idleDock,
     m_footer = \<lparr>sf_Status = statusIdle, sf_Detail = [], sf_Width = 0\<rparr>, m_filtering = False, m_filterInput = [], m_modal = None,
     m_configPath = configPath, m_editorOverride = editor, m_callTargetName = []\<rparr>"

definition Init :: Cmd where
  "Init = Batch [LoadFriends, SubscribeCallsCmd, LoadDaemonStatus, TickDaemonStatus]"

definition syncFocusFromSelection :: "'j tui_env \<Rightarrow> Model \<Rightarrow> Model" where
  "syncFocusFromSelection E m =
    (case Selected (te_lower E) (m_friends m) of (sel, p) \<Rightarrow> m\<lparr>m_friends := p, m_focus := sel\<rparr>)"

definition friendNameForPeer :: "'j tui_env \<Rightarrow> peer_id \<Rightarrow> Model \<Rightarrow> string" where
  "friendNameForPeer E i m =
    (case find (\<lambda>f. fe_PeerID f = i) (fp_friends (m_friends m)) of
       Some f \<Rightarrow> fe_Name f
     | None \<Rightarrow> short_peer (te_str E i))"

definition footer_for :: "string \<Rightarrow> string \<Rightarrow> statusFooterState \<Rightarrow> statusFooterState" where
  "footer_for st remote f =
    (if st = ''ringing'' \<or> st = ''calling'' \<or> st = ''connecting'' then f\<lparr>sf_Status := statusRinging, sf_Detail := remote\<rparr>
     else if st = ''connected'' then f\<lparr>sf_Status := statusConnected, sf_Detail := remote\<rparr>
     else if st = ''ended'' then f\<lparr>sf_Status := statusIdle, sf_Detail := []\<rparr>
     else f)"

definition incoming_for :: "'j tui_env \<Rightarrow> StateChange \<Rightarrow> Model \<Rightarrow> incomingModal" where
  "incoming_for E sc m =
    \<lparr>in_CallID = sc_SessionID sc, in_Caller = friendNameForPeer E (sc_Remote sc) m, in_PeerID = te_str E (sc_Remote sc),
     in_Fingerprint = [], in_Verified = False, in_Action = []\<rparr>"

definition dock_for :: "'j tui_env \<Rightarrow> StateChange \<Rightarrow> Model \<Rightarrow> callDockState" where
  "dock_for E sc m =
    (let d = m_dock m in
     \<lparr>dk_State = sc_State sc, dk_CallID = sc_SessionID sc, dk_Remote = friendNameForPeer E (sc_Remote sc) m,
      dk_StartedAt = (if sc_State sc = ''connected'' then sc_Time sc else 0), dk_Mode = dk_Mode d, dk_RxDB = dk_RxDB d,
      dk_TxDB = dk_TxDB d, dk_Reason = sc_Reason sc, dk_Muted = dk_Muted d\<rparr>)"

definition applyCallStateChange :: "'j tui_env \<Rightarrow> StateChange \<Rightarrow> Model \<Rightarrow> Model" where
  "applyCallStateChange E sc m =
    (if dk_CallID (m_dock m) \<noteq> [] \<and> dk_CallID (m_dock m) \<noteq> sc_SessionID sc then m
     else
       let m1 = (if sc_State sc = ''ringing'' \<and> sc_Direction sc = ''inbound'' \<and> m_modal m = None
                 then m\<lparr>m_modal := Some (IncomingM (incoming_for E sc m))\<rparr> else m)
       in m1\<lparr>m_dock := dock_for E sc m, m_footer := footer_for (sc_State sc) (friendNameForPeer E (sc_Remote sc) m) (m_footer m)\<rparr>)"

fun handleModalClosed :: "modalView \<Rightarrow> Model \<Rightarrow> Cmd option" where
  "handleModalClosed (IncomingM im) m =
    (if in_Action im = ''accept'' then Some (CallActionCmd (in_CallID im) ''accept'' [])
     else if in_Action im = ''decline'' then Some (CallActionCmd (in_CallID im) ''hangup'' ''declined'')
     else None)"
| "handleModalClosed (QuitM qm) m =
    (if qm_Action qm = ''detach'' then Some Quit
     else if qm_Action qm = ''hangup''
     then Some (SequenceCmd [CallActionCmd (dk_CallID (m_dock m)) ''hangup'' ''user requested'', Quit])
     else None)"
| "handleModalClosed (AddFriendM am) m =
    (if af_Action am = ''redeem'' \<and> CodeText am \<noteq> [] then Some (RedeemInviteCmd (CodeText am)) else None)"
| "handleModalClosed _ m = None"

section \<open>Keys\<close>

definition update_modal_key :: "Key \<Rightarrow> modalView \<Rightarrow> Model \<Rightarrow> Model \<times> Cmd option \<times> ui_effect list" where
  "update_modal_key k mv m =
    (case modal_update k mv of
       (closes, mv', es) \<Rightarrow>
         if closes then (m\<lparr>m_modal := None\<rparr>, handleModalClosed mv' m, es) else (m\<lparr>m_modal := Some mv'\<rparr>, None, es))"

text \<open>The filter takes these four types of key; others fall through to the bindings below.\<close>

definition update_filter_key :: "'j tui_env \<Rightarrow> Key \<Rightarrow> Model \<Rightarrow> Model option" where
  "update_filter_key E k m =
    (case k_type k of
       KeyEsc \<Rightarrow> Some (syncFocusFromSelection E (m\<lparr>m_filtering := False, m_filterInput := [], m_friends := SetFilter [] (m_friends m)\<rparr>))
     | KeyEnter \<Rightarrow> Some (syncFocusFromSelection E (m\<lparr>m_filtering := False\<rparr>))
     | KeyBackspace \<Rightarrow>
         Some (if m_filterInput m \<noteq> []
               then let s = butlast (m_filterInput m) in
                 syncFocusFromSelection E (m\<lparr>m_filterInput := s, m_friends := SetFilter s (m_friends m)\<rparr>)
               else m)
     | KeyRunes \<Rightarrow>
         (let s = m_filterInput m @ of_runes (k_runes k) in
          Some (syncFocusFromSelection E (m\<lparr>m_filterInput := s, m_friends := SetFilter s (m_friends m)\<rparr>)))
     | KeyOther \<Rightarrow> None)"

definition update_dock_key :: "Key \<Rightarrow> Model \<Rightarrow> (Model \<times> Cmd option) option" where
  "update_dock_key k m =
    (if Active (m_dock m)
     then if k_string k = ''m'' then Some (m, Some (CallActionCmd (dk_CallID (m_dock m)) ''mute'' []))
          else if k_string k = ''h'' then Some (m, Some (CallActionCmd (dk_CallID (m_dock m)) ''hangup'' ''user requested''))
          else if k_string k = ''esc'' then Some (m\<lparr>m_dock := idleDock\<rparr>, None)
          else None
     else None)"

definition update_global_key :: "'j tui_env \<Rightarrow> Key \<Rightarrow> Model \<Rightarrow> Model \<times> Cmd option" where
  "update_global_key E k m =
    (let s = k_string k in
     if s = ''down'' \<or> s = ''j'' then (syncFocusFromSelection E (m\<lparr>m_friends := MoveDown (te_lower E) (m_friends m)\<rparr>), None)
     else if s = ''up'' \<or> s = ''k'' then (syncFocusFromSelection E (m\<lparr>m_friends := MoveUp (m_friends m)\<rparr>), None)
     else if s = ''enter''
     then (case Selected (te_lower E) (m_friends m) of
             (Some sel, p) \<Rightarrow> (m\<lparr>m_friends := p, m_callTargetName := fe_Name sel\<rparr>, Some (StartCallCmd (fe_Name sel)))
           | (None, p) \<Rightarrow> (m\<lparr>m_friends := p\<rparr>, None))
     else if s = ''q''
     then (if Active (m_dock m)
           then (m\<lparr>m_modal := Some (QuitM \<lparr>qm_remote = dk_Remote (m_dock m), qm_Action = []\<rparr>)\<rparr>, None)
           else (m, Some Quit))
     else if s = ''?'' then (m\<lparr>m_modal := Some HelpM\<rparr>, None)
     else if s = ''s'' then (m\<lparr>m_modal := Some (SettingsM (newSettingsModal (te_editor E) (m_configPath m) (m_editorOverride m)))\<rparr>, None)
     else if s = ''a''
     then (m\<lparr>m_modal := Some (AddFriendM (newAddFriendModal (te_upper E) (te_lower E) (te_str E) (te_friends E) (te_clip E)))\<rparr>, None)
     else if s = ''c'' then (m\<lparr>m_modal := Some (InviteM newInviteModal)\<rparr>, Some (CreateInviteCmd []))
     else if s = ''/'' then (m\<lparr>m_filtering := True\<rparr>, None)
     else (m, None))"

definition update_key :: "'j tui_env \<Rightarrow> Key \<Rightarrow> Model \<Rightarrow> Model \<times> Cmd option \<times> ui_effect list" where
  "update_key E k m =
    (case m_modal m of
       Some mv \<Rightarrow> update_modal_key k mv m
     | None \<Rightarrow>
         (case (if m_filtering m then update_filter_key E k m else None) of
            Some m' \<Rightarrow> (m', None, [])
          | None \<Rightarrow>
              (case update_dock_key k m of
                 Some (m', c) \<Rightarrow> (m', c, [])
               | None \<Rightarrow> (case update_global_key E k m of (m', c) \<Rightarrow> (m', c, [])))))"

section \<open>Update\<close>

definition update_call_event :: "'j tui_env \<Rightarrow> 'j SubEvent \<Rightarrow> Model \<Rightarrow> Model \<times> Cmd option" where
  "update_call_event E ev m =
    (case te_state E (se_Data ev) of
       None \<Rightarrow> (m, None)
     | Some sc \<Rightarrow>
         (let m' = applyCallStateChange E sc m
          in (m', if \<not> Active (m_dock m) \<and> Active (m_dock m') then Some TickCallsList else None)))"

definition update_invite_event :: "'j tui_env \<Rightarrow> 'j SubEvent \<Rightarrow> Model \<Rightarrow> Model" where
  "update_invite_event E ev m =
    (case m_modal m of
       Some (InviteM im) \<Rightarrow>
         (case te_redeemed E (se_Data ev) of
            Some (code, by_id) \<Rightarrow> m\<lparr>m_modal := Some (InviteM (SetRedeemed by_id im))\<rparr>
          | None \<Rightarrow> m)
     | _ \<Rightarrow> m)"

text \<open>The levels of an entry without audio are zero.\<close>

definition refresh_dock :: "CallsListEntry \<Rightarrow> callDockState \<Rightarrow> callDockState" where
  "refresh_dock c d =
    (if ce_CallID c = dk_CallID d
     then (case ce_Audio c of
             Some st \<Rightarrow> d\<lparr>dk_RxDB := sx_RxPeakDBFS st, dk_TxDB := sx_TxPeakDBFS st, dk_Mode := sx_MediaMode st, dk_Muted := sx_Muted st\<rparr>
           | None \<Rightarrow> d\<lparr>dk_RxDB := 0, dk_TxDB := 0, dk_Mode := [], dk_Muted := False\<rparr>)
     else d)"

definition HasPrefix :: "string \<Rightarrow> string \<Rightarrow> bool" where "HasPrefix s p \<longleftrightarrow> take (length p) s = p"

definition update_calling :: "Model \<Rightarrow> Model" where
  "update_calling m =
    (if Active (m_dock m) then m
     else m\<lparr>m_dock := idleDock\<lparr>dk_State := ''calling'', dk_Remote := m_callTargetName m\<rparr>,
            m_footer := (m_footer m)\<lparr>sf_Status := statusRinging, sf_Detail := m_callTargetName m\<rparr>\<rparr>)"

definition update_status :: "DaemonStatusResult \<Rightarrow> Model \<Rightarrow> Model" where
  "update_status st m =
    (if sf_Status (m_footer m) \<noteq> statusConnected \<and> sf_Status (m_footer m) \<noteq> statusRinging
     then m\<lparr>m_footer := (m_footer m)\<lparr>sf_Status := (if ds_Relays st = [] then statusNoRelay else statusIdle)\<rparr>\<rparr>
     else m)"

definition update_error :: "string \<Rightarrow> string \<Rightarrow> Model \<Rightarrow> Model \<times> Cmd option" where
  "update_error src e m =
    (if src = ''daemon.status''
     then (m\<lparr>m_footer := (m_footer m)\<lparr>sf_Status := statusDaemonDown, sf_Detail := []\<rparr>\<rparr>, Some TickDaemonStatus)
     else (m\<lparr>m_footer := (m_footer m)\<lparr>sf_Status := statusError, sf_Detail := src @ '': '' @ e\<rparr>\<rparr>, None))"

definition update_created :: "'j tui_env \<Rightarrow> InviteCreateResult \<Rightarrow> Model \<Rightarrow> Model \<times> Cmd option" where
  "update_created E r m =
    (case m_modal m of
       Some (InviteM im) \<Rightarrow> (m\<lparr>m_modal := Some (InviteM (SetResult (te_qr E) r im))\<rparr>, Some (SubscribeInviteRedemptionCmd (ic_Code r)))
     | _ \<Rightarrow> (m, None))"

text \<open>Everything but keys has no effect beside the model and the command.\<close>

definition update_msg :: "'j tui_env \<Rightarrow> 'j Msg \<Rightarrow> Model \<Rightarrow> Model \<times> Cmd option" where
  "update_msg E msg m =
    (case msg of
       WindowSizeMsg w h \<Rightarrow> (m\<lparr>m_width := w, m_height := h, m_footer := (m_footer m)\<lparr>sf_Width := w\<rparr>\<rparr>, None)
     | FriendsLoadedMsg fs \<Rightarrow> (syncFocusFromSelection E (m\<lparr>m_friends := SetFriends fs (m_friends m)\<rparr>), None)
     | CallsSubMsg s \<Rightarrow> (m, Some (WaitForSubEvent s ''calls''))
     | CallStartedMsg s \<Rightarrow> (update_calling m, Some (WaitForSubEvent s ''calls.start''))
     | InviteCreatedMsg r \<Rightarrow> update_created E r m
     | InviteRedemptionSubMsg s code \<Rightarrow> (m, Some (WaitForSubEvent s (''invite:'' @ code)))
     | SubEventMsg label ev \<Rightarrow>
         if label = ''calls'' \<or> label = ''calls.start'' then update_call_event E ev m
         else if HasPrefix label ''invite:'' then (update_invite_event E ev m, None)
         else (m, None)
     | CallsListMsg cs \<Rightarrow>
         (let m' = m\<lparr>m_dock := fold refresh_dock cs (m_dock m)\<rparr> in (m', if Active (m_dock m') then Some TickCallsList else None))
     | DaemonStatusMsg st \<Rightarrow> (update_status st m, Some TickDaemonStatus)
     | ErrMsg src e \<Rightarrow> update_error src e m
     | _ \<Rightarrow> (m, None))"

definition Update :: "'j tui_env \<Rightarrow> 'j Msg \<Rightarrow> Model \<Rightarrow> Model \<times> Cmd option \<times> ui_effect list" where
  "Update E msg m =
    (case msg of
       KeyMsg k \<Rightarrow> update_key E k m
     | _ \<Rightarrow> (case update_msg E msg m of (m', c) \<Rightarrow> (m', c, [])))"

abbreviation updated :: "'j tui_env \<Rightarrow> 'j Msg \<Rightarrow> Model \<Rightarrow> Model" where "updated E msg m \<equiv> fst (Update E msg m)"
abbreviation cmd_of :: "'j tui_env \<Rightarrow> 'j Msg \<Rightarrow> Model \<Rightarrow> Cmd option" where "cmd_of E msg m \<equiv> fst (snd (Update E msg m))"

text \<open>A run of the model over messages, each with what the clipboard and the daemon answer meanwhile.\<close>

fun run_msgs :: "('j tui_env \<times> 'j Msg) list \<Rightarrow> Model \<Rightarrow> Model" where
  "run_msgs [] m = m"
| "run_msgs ((E, msg) # ms) m = run_msgs ms (updated E msg m)"

section \<open>What the panes show is consistent\<close>

definition ui_inv :: "(rune \<Rightarrow> rune) \<Rightarrow> Model \<Rightarrow> bool" where
  "ui_inv lower m \<longleftrightarrow>
    pane_ok lower (m_friends m) \<and> m_focus m = fst (Selected lower (m_friends m)) \<and> m_filterInput m = fp_filter (m_friends m)
    \<and> (\<forall>am. m_modal m = Some (AddFriendM am) \<longrightarrow> addfriend_open am)"

lemma ui_inv_NewModel: "ui_inv lower (NewModel cfg ed)"
  by (simp add: ui_inv_def NewModel_def pane_ok_def visible_def Selected_def)

lemma ui_inv_frame:
  "ui_inv lower m \<Longrightarrow> m_friends m' = m_friends m \<Longrightarrow> m_focus m' = m_focus m \<Longrightarrow> m_filterInput m' = m_filterInput m \<Longrightarrow>
     (\<And>am. m_modal m' = Some (AddFriendM am) \<Longrightarrow> m_modal m = Some (AddFriendM am)) \<Longrightarrow> ui_inv lower m'"
  by (simp add: ui_inv_def)

lemma ui_inv_sync:
  assumes "0 \<le> fp_selected (m_friends m)" and "m_filterInput m = fp_filter (m_friends m)"
    and "\<And>am. m_modal m = Some (AddFriendM am) \<Longrightarrow> addfriend_open am"
  shows "ui_inv (te_lower E) (syncFocusFromSelection E m)"
proof -
  obtain sel p where sp: "Selected (te_lower E) (m_friends m) = (sel, p)" by fastforce
  then have "pane_ok (te_lower E) p" "Selected (te_lower E) p = (sel, p)" "fp_filter p = fp_filter (m_friends m)"
    using Selected_ok [OF assms(1), of "te_lower E"] Selected_stable [OF assms(1), of "te_lower E"]
      Selected_frame(3) [of "te_lower E" "m_friends m"] by simp_all
  with sp assms(2,3) show ?thesis by (simp add: ui_inv_def syncFocusFromSelection_def)
qed

lemma applyCallStateChange_frame:
  "m_friends (applyCallStateChange E sc m) = m_friends m" "m_focus (applyCallStateChange E sc m) = m_focus m"
  "m_filterInput (applyCallStateChange E sc m) = m_filterInput m"
  "m_modal (applyCallStateChange E sc m) = Some (AddFriendM am) \<Longrightarrow> m_modal m = Some (AddFriendM am)"
  by (auto simp: applyCallStateChange_def Let_def split: if_splits)

lemma ui_inv_modal_key:
  assumes "ui_inv lower m" and "m_modal m = Some mv"
  shows "ui_inv lower (fst (update_modal_key k mv m))"
proof (cases mv)
  case (AddFriendM am)
  then have "addfriend_open am" using assms by (simp add: ui_inv_def)
  then show ?thesis using assms(1) AddFriendM addfriend_update_open [of am k]
    by (auto simp: update_modal_key_def ui_inv_def split: prod.splits)
qed (use assms(1) in \<open>auto simp: update_modal_key_def ui_inv_def split: prod.splits\<close>)

lemma ui_inv_filter_key:
  assumes "ui_inv (te_lower E) m" and "update_filter_key E k m = Some m'"
  shows "ui_inv (te_lower E) m'"
proof -
  have n: "0 \<le> fp_selected (m_friends m)" using assms(1) by (auto simp: ui_inv_def dest: pane_sel_nonneg(1))
  have am: "m_modal m = Some (AddFriendM am) \<Longrightarrow> addfriend_open am" for am using assms(1) by (simp add: ui_inv_def)
  have f: "m_filterInput m = fp_filter (m_friends m)" using assms(1) by (simp add: ui_inv_def)
  show ?thesis using assms(2)
    by (auto simp: update_filter_key_def Let_def n f pane_sel_nonneg am assms(1) split: KeyType.splits if_splits intro!: ui_inv_sync)
      (use assms(1) f in auto)
qed

lemma ui_inv_dock_key: "ui_inv lower m \<Longrightarrow> update_dock_key k m = Some (m', c) \<Longrightarrow> ui_inv lower m'"
  by (auto simp: update_dock_key_def ui_inv_def split: if_splits)

lemma ui_inv_global_key:
  assumes "ui_inv (te_lower E) m" and "m_modal m = None"
  shows "ui_inv (te_lower E) (fst (update_global_key E k m))"
proof -
  have n: "0 \<le> fp_selected (m_friends m)" using assms by (auto simp: ui_inv_def dest: pane_sel_nonneg(1))
  have ok: "pane_ok (te_lower E) (m_friends m)" and f: "m_filterInput m = fp_filter (m_friends m)"
    and foc: "m_focus m = fst (Selected (te_lower E) (m_friends m))" using assms(1) by (simp_all add: ui_inv_def)
  have sync: "ui_inv (te_lower E) (syncFocusFromSelection E (m\<lparr>m_friends := p\<rparr>))"
    if "0 \<le> fp_selected p" and "fp_filter p = fp_filter (m_friends m)" for p
    using that assms(2) f by (intro ui_inv_sync) auto
  have keep: "ui_inv (te_lower E) m'"
    if "m_friends m' = m_friends m" "m_focus m' = m_focus m" "m_filterInput m' = m_filterInput m"
      "\<And>am. m_modal m' = Some (AddFriendM am) \<Longrightarrow> addfriend_open am" for m'
    using that assms(1) by (simp add: ui_inv_def)
  show ?thesis
    by (auto simp: update_global_key_def Let_def n pane_sel_nonneg newAddFriend_open assms(2) split: prod.splits option.splits
          dest!: Selected_keeps [OF ok] intro!: sync keep)
qed

lemma ui_inv_key:
  assumes "ui_inv (te_lower E) m"
  shows "ui_inv (te_lower E) (fst (update_key E k m))"
proof (cases "m_modal m")
  case None
  then show ?thesis using assms ui_inv_global_key [OF assms None, of k] ui_inv_filter_key [OF assms] ui_inv_dock_key [OF assms]
    by (auto simp: update_key_def split: option.splits prod.splits if_splits)
next
  case (Some mv)
  then show ?thesis using ui_inv_modal_key [OF assms Some] by (simp add: update_key_def)
qed

text \<open>Every message but a new list of friends leaves the list and the focus alone, and none opens an add-friend dialog.\<close>

definition same_panes :: "Model \<Rightarrow> Model \<Rightarrow> bool" where
  "same_panes m m' \<longleftrightarrow> m_friends m' = m_friends m \<and> m_focus m' = m_focus m \<and> m_filterInput m' = m_filterInput m
    \<and> (\<forall>am. m_modal m' = Some (AddFriendM am) \<longrightarrow> m_modal m = Some (AddFriendM am))"

lemma same_panes_intros:
  "same_panes m m" "same_panes m (update_status st m)" "same_panes m (update_calling m)" "same_panes m (fst (update_error src e m))"
  "same_panes m (m\<lparr>m_dock := d\<rparr>)" "same_panes m (m\<lparr>m_width := w, m_height := h, m_footer := ft\<rparr>)"
  by (simp_all add: same_panes_def update_status_def update_calling_def update_error_def)

lemma same_panes_events:
  "same_panes m (fst (update_call_event E ev m))" "same_panes m (update_invite_event E ev m)" "same_panes m (fst (update_created E r m))"
  using applyCallStateChange_frame
  by (auto simp: same_panes_def update_call_event_def update_invite_event_def update_created_def Let_def
      split: option.splits modalView.splits)

lemma same_panes_msg: "\<nexists>fs. msg = FriendsLoadedMsg fs \<Longrightarrow> same_panes m (fst (update_msg E msg m))"
  by (cases msg) (simp_all add: update_msg_def same_panes_intros same_panes_events Let_def)

lemma ui_inv_msg:
  assumes "ui_inv (te_lower E) m"
  shows "ui_inv (te_lower E) (fst (update_msg E msg m))"
proof (cases "\<exists>fs. msg = FriendsLoadedMsg fs")
  case True
  have "0 \<le> fp_selected (m_friends m)" using assms(1) by (auto simp: ui_inv_def dest: pane_sel_nonneg(1))
  with True assms show ?thesis
    by (auto simp: update_msg_def ui_inv_def [of _ m] pane_sel_nonneg intro!: ui_inv_sync)
next
  case False
  then have "same_panes m (fst (update_msg E msg m))" by (rule same_panes_msg)
  with assms show ?thesis by (simp add: same_panes_def ui_inv_def)
qed

lemma ui_inv_updated: "ui_inv (te_lower E) m \<Longrightarrow> ui_inv (te_lower E) (updated E msg m)"
  using ui_inv_key [of E m] ui_inv_msg [of E m msg] by (auto simp: Update_def split: Msg.splits prod.splits)

lemma ui_inv_run: "(\<forall>(E, msg)\<in>set ms. te_lower E = lower) \<Longrightarrow> ui_inv lower m \<Longrightarrow> ui_inv lower (run_msgs ms m)"
proof (induction ms arbitrary: m)
  case (Cons x ms)
  obtain E msg where x: "x = (E, msg)" by (cases x)
  then have "ui_inv lower (updated E msg m)" using Cons.prems ui_inv_updated [of E m msg] by auto
  with Cons x show ?case by simp
qed simp

text \<open>C26: Whatever keys and messages arrive, in whatever order and whatever the filter: the friend shown in focus is the
  friend at the selected row of the list as filtered, which exists unless no friend is visible; the filter shown is
  the filter applied; an open add-friend dialog never holds an empty invite.\<close>
theorem tui_selection_consistent:
  assumes "\<forall>(E, msg)\<in>set ms. te_lower E = lower" and "m = run_msgs ms (NewModel cfg ed)"
  shows "(if visible lower (m_friends m) = [] then m_focus m = None
          else 0 \<le> fp_selected (m_friends m) \<and> nat (fp_selected (m_friends m)) < length (visible lower (m_friends m)) \<and>
               m_focus m = Some (visible lower (m_friends m) ! nat (fp_selected (m_friends m)))) \<and>
         m_filterInput m = fp_filter (m_friends m) \<and> (\<forall>am. m_modal m = Some (AddFriendM am) \<longrightarrow> addfriend_open am)"
proof -
  have "ui_inv lower m" unfolding assms(2) using assms(1) ui_inv_NewModel by (rule ui_inv_run)
  then show ?thesis by (auto simp: ui_inv_def pane_ok_def Selected_def Let_def)
qed

definition ex_tui :: "StateChange tui_env" where
  "ex_tui = \<lparr>te_str = id, te_upper = id, te_lower = id, te_clip = Inr [], te_friends = None, te_editor = ''vi'', te_qr = (\<lambda>_. None),
     te_state = Some, te_redeemed = (\<lambda>_. None)\<rparr>"

definition ex_friend_row :: "string \<Rightarrow> peer_id \<Rightarrow> FriendsListEntry" where
  "ex_friend_row n i = \<lparr>fe_Name = n, fe_PeerID = i, fe_Online = False, fe_LastSeen = None, fe_AddedAt = 0\<rparr>"

definition ex_press :: "string \<Rightarrow> Key" where
  "ex_press s = \<lparr>k_type = (if s = ''esc'' then KeyEsc else if s = ''enter'' then KeyEnter else if s = ''up'' \<or> s = ''down'' then KeyOther else KeyRunes),
     k_runes = map byte s, k_string = s\<rparr>"

definition ex_msgs :: "(StateChange tui_env \<times> StateChange Msg) list" where
  "ex_msgs = map (\<lambda>msg. (ex_tui, msg))
     [FriendsLoadedMsg [ex_friend_row ''ann'' ''a'', ex_friend_row ''bob'' ''b''], KeyMsg (ex_press ''down'')]"

theorem tui_selection_consistent_witness:
  "m_focus (run_msgs ex_msgs (NewModel [] [])) = Some (ex_friend_row ''bob'' ''b'')"
proof -
  have fin: "visible id (m_friends (run_msgs ex_msgs (NewModel [] []))) = [ex_friend_row ''ann'' ''a'', ex_friend_row ''bob'' ''b''] \<and>
    fp_selected (m_friends (run_msgs ex_msgs (NewModel [] []))) = 1"
    by (simp add: ex_msgs_def Update_def update_msg_def update_key_def update_dock_key_def update_global_key_def ex_press_def NewModel_def
        syncFocusFromSelection_def Selected_def SetFriends_def MoveDown_def visible_def idleDock_def Active_def)
  show ?thesis using tui_selection_consistent [of ex_msgs id _ "[]" "[]", OF _ refl] fin
    by (simp add: ex_msgs_def ex_tui_def)
qed

end
