(* ===== verification/Tui_Run.thy ===== *)
theory Tui_Run
  imports Tui
begin

text \<open>
  The terminal interface as it runs: what each command sends back (\<open>ipc_commands.go\<close>), and the Bubble Tea loop
  around \<open>Update\<close>, which runs the commands it returns concurrently, each command of a sequence after the one
  before, and feeds their messages and the keys to \<open>Update\<close> one at a time, in any order.
\<close>

section \<open>Commands\<close>

text \<open>What the daemon answers to a command, or what a subscription gives.\<close>

datatype 'j answer =
    AnsErr string
  | AnsFriends "FriendsListEntry list"
  | AnsCalls "CallsListEntry list"
  | AnsStatus DaemonStatusResult
  | AnsEntry FriendsListEntry
  | AnsInvite InviteCreateResult
  | AnsDone
  | AnsSub
  | AnsEvent "'j SubEvent"
  | AnsClosed

fun cmd_source :: "Cmd \<Rightarrow> string" where
  "cmd_source LoadFriends = ''friends.list''"
| "cmd_source LoadCalls = ''calls.list''"
| "cmd_source LoadDaemonStatus = ''daemon.status''"
| "cmd_source (AddFriendCmd keyPath name) = ''friends.add''"
| "cmd_source (RenameFriendCmd name newName) = ''friends.rename''"
| "cmd_source (RemoveFriendCmd name) = ''friends.remove''"
| "cmd_source (CreateInviteCmd ttl) = ''invite.create''"
| "cmd_source (RedeemInviteCmd code) = ''invite.redeem''"
| "cmd_source (StartCallCmd target) = ''calls.start''"
| "cmd_source (CallActionCmd callID action reason) = ''calls.action''"
| "cmd_source SubscribePresenceCmd = ''friends.subscribe_presence''"
| "cmd_source SubscribeCallsCmd = ''calls.subscribe''"
| "cmd_source (SubscribeInviteRedemptionCmd code) = ''invite.subscribe_redemption''"
| "cmd_source TickDaemonStatus = ''daemon.status''"
| "cmd_source TickCallsList = ''calls.list''"
| "cmd_source _ = []"

text \<open>The message a command ends with, when the answer is of the kind it waits for; \<open>n\<close> numbers a subscription it opens.\<close>

fun cmd_ok :: "nat \<Rightarrow> Cmd \<Rightarrow> 'j answer \<Rightarrow> 'j Msg option" where
  "cmd_ok n LoadFriends a = (case a of AnsFriends fs \<Rightarrow> Some (FriendsLoadedMsg fs) | _ \<Rightarrow> None)"
| "cmd_ok n LoadCalls a = (case a of AnsCalls cs \<Rightarrow> Some (CallsListMsg cs) | _ \<Rightarrow> None)"
| "cmd_ok n LoadDaemonStatus a = (case a of AnsStatus st \<Rightarrow> Some (DaemonStatusMsg st) | _ \<Rightarrow> None)"
| "cmd_ok n (AddFriendCmd keyPath name) a = (case a of AnsEntry f \<Rightarrow> Some (FriendAddedMsg f) | _ \<Rightarrow> None)"
| "cmd_ok n (RenameFriendCmd name newName) a = (case a of AnsDone \<Rightarrow> Some (FriendRenamedMsg name newName) | _ \<Rightarrow> None)"
| "cmd_ok n (RemoveFriendCmd name) a = (case a of AnsDone \<Rightarrow> Some (FriendRemovedMsg name) | _ \<Rightarrow> None)"
| "cmd_ok n (CreateInviteCmd ttl) a = (case a of AnsInvite r \<Rightarrow> Some (InviteCreatedMsg r) | _ \<Rightarrow> None)"
| "cmd_ok n (RedeemInviteCmd code) a = (case a of AnsEntry f \<Rightarrow> Some (InviteRedeemDoneMsg f) | _ \<Rightarrow> None)"
| "cmd_ok n (StartCallCmd target) a = (case a of AnsSub \<Rightarrow> Some (CallStartedMsg n) | _ \<Rightarrow> None)"
| "cmd_ok n (CallActionCmd callID action reason) a = (case a of AnsDone \<Rightarrow> Some (CallActionDoneMsg callID action) | _ \<Rightarrow> None)"
| "cmd_ok n SubscribePresenceCmd a = (case a of AnsSub \<Rightarrow> Some (PresenceSubMsg n) | _ \<Rightarrow> None)"
| "cmd_ok n SubscribeCallsCmd a = (case a of AnsSub \<Rightarrow> Some (CallsSubMsg n) | _ \<Rightarrow> None)"
| "cmd_ok n (SubscribeInviteRedemptionCmd code) a = (case a of AnsSub \<Rightarrow> Some (InviteRedemptionSubMsg n code) | _ \<Rightarrow> None)"
| "cmd_ok n TickDaemonStatus a = (case a of AnsStatus st \<Rightarrow> Some (DaemonStatusMsg st) | _ \<Rightarrow> None)"
| "cmd_ok n TickCallsList a = (case a of AnsCalls cs \<Rightarrow> Some (CallsListMsg cs) | _ \<Rightarrow> None)"
| "cmd_ok n (WaitForSubEvent sub label) a =
    (case a of AnsEvent ev \<Rightarrow> Some (SubEventMsg label ev) | AnsClosed \<Rightarrow> Some (SubClosedMsg label) | _ \<Rightarrow> None)"
| "cmd_ok n Quit a = None"
| "cmd_ok n (Batch cs) a = None"
| "cmd_ok n (SequenceCmd cs) a = None"

definition cmd_msg :: "nat \<Rightarrow> Cmd \<Rightarrow> 'j answer \<Rightarrow> 'j Msg option" where
  "cmd_msg n c a =
    (case a of AnsErr e \<Rightarrow> (if cmd_source c = [] then None else Some (ErrMsg (cmd_source c) e)) | _ \<Rightarrow> cmd_ok n c a)"

section \<open>The loop\<close>

record 'j Runtime =
  rt_model :: Model
  rt_tasks :: "Cmd list list"
  rt_msgs :: "'j Msg list"
  rt_next :: nat
  rt_seen :: "(nat \<times> string) list"
  rt_quit :: bool

fun tasks_of :: "Cmd \<Rightarrow> Cmd list list" where
  "tasks_of (Batch cs) = concat (map tasks_of cs)"
| "tasks_of (SequenceCmd cs) = [cs]"
| "tasks_of c = [[c]]"

definition tasks_opt :: "Cmd option \<Rightarrow> Cmd list list" where
  "tasks_opt c = (case c of None \<Rightarrow> [] | Some c \<Rightarrow> tasks_of c)"

definition rt_start :: "Model \<Rightarrow> 'j Runtime" where
  "rt_start m = \<lparr>rt_model = m, rt_tasks = tasks_of Init, rt_msgs = [], rt_next = 0, rt_seen = [], rt_quit = False\<rparr>"

definition next_after :: "'j Msg \<Rightarrow> nat \<Rightarrow> nat" where
  "next_after msg n = (case msg of CallStartedMsg k \<Rightarrow> Suc n | PresenceSubMsg k \<Rightarrow> Suc n | CallsSubMsg k \<Rightarrow> Suc n
     | InviteRedemptionSubMsg k code \<Rightarrow> Suc n | _ \<Rightarrow> n)"

text \<open>The subscription and label an event was read for; \<open>rt_seen\<close> collects them.\<close>

definition seen_by :: "Cmd \<Rightarrow> 'j Msg \<Rightarrow> (nat \<times> string) list" where
  "seen_by c msg = (case (c, msg) of (WaitForSubEvent k label, SubEventMsg _ _) \<Rightarrow> [(k, label)] | _ \<Rightarrow> [])"

definition user_input :: "'j Msg \<Rightarrow> bool" where
  "user_input msg \<longleftrightarrow> (case msg of KeyMsg k \<Rightarrow> True | WindowSizeMsg w h \<Rightarrow> True | _ \<Rightarrow> False)"

definition process :: "'j tui_env \<Rightarrow> 'j Msg \<Rightarrow> 'j Runtime \<Rightarrow> 'j Runtime" where
  "process E msg s = s\<lparr>rt_model := updated E msg (rt_model s), rt_tasks := rt_tasks s @ tasks_opt (cmd_of E msg (rt_model s))\<rparr>"

inductive rt_step :: "'j Runtime \<Rightarrow> 'j Runtime \<Rightarrow> bool" where
  run_command: "\<not> rt_quit s \<Longrightarrow> rt_tasks s = ts1 @ (c # cs) # ts2 \<Longrightarrow> cmd_msg (rt_next s) c a = Some msg \<Longrightarrow>
    rt_step s (s\<lparr>rt_tasks := ts1 @ cs # ts2, rt_msgs := rt_msgs s @ [msg], rt_next := next_after msg (rt_next s),
      rt_seen := rt_seen s @ seen_by c msg\<rparr>)"
| deliver: "\<not> rt_quit s \<Longrightarrow> rt_msgs s = ms1 @ msg # ms2 \<Longrightarrow> rt_step s (process E msg (s\<lparr>rt_msgs := ms1 @ ms2\<rparr>))"
| input: "\<not> rt_quit s \<Longrightarrow> user_input msg \<Longrightarrow> rt_step s (process E msg s)"
| quit: "\<not> rt_quit s \<Longrightarrow> rt_tasks s = ts1 @ (Quit # cs) # ts2 \<Longrightarrow> rt_step s (s\<lparr>rt_quit := True\<rparr>)"

definition steps_in :: "(Model \<Rightarrow> bool) \<Rightarrow> 'j Runtime \<Rightarrow> 'j Runtime \<Rightarrow> bool" where
  "steps_in I = (\<lambda>s t. rt_step s t \<and> I (rt_model s) \<and> I (rt_model t))\<^sup>*\<^sup>*"

abbreviation reach :: "'j Runtime \<Rightarrow> 'j Runtime \<Rightarrow> bool" where "reach s t \<equiv> steps_in (\<lambda>_. True) s t"

section \<open>Budgets\<close>

text \<open>
  Several facts about a run count things: pending commands, messages on their way, events seen. They have one shape: each
  command, message, event and unused subscription number has a weight, running a command does not add to the sum, and
  neither does handling a message. Then the sum never grows. Negated weights give a lower bound.
\<close>

locale budget =
  fixes wc :: "Cmd \<Rightarrow> int" and wm :: "'j Msg \<Rightarrow> int" and ws :: "nat \<times> string \<Rightarrow> int" and wf :: "nat \<Rightarrow> int"
    and I :: "Model \<Rightarrow> bool"
  assumes run: "cmd_msg n c a = Some msg \<Longrightarrow>
      wm msg + sum_list (map ws (seen_by c msg)) + wf (next_after msg n) \<le> wc c + wf n"
    and upd: "I m \<Longrightarrow> I (updated E msg m) \<Longrightarrow> \<not> user_input msg \<Longrightarrow>
      sum_list (map wc (concat (tasks_opt (cmd_of E msg m)))) \<le> wm msg"
    and inp: "I m \<Longrightarrow> I (updated E msg m) \<Longrightarrow> user_input msg \<Longrightarrow> sum_list (map wc (concat (tasks_opt (cmd_of E msg m)))) \<le> 0"
    and never_input: "user_input msg \<Longrightarrow> 0 \<le> wm msg"
begin

definition total :: "'j Runtime \<Rightarrow> int" where
  "total s = sum_list (map wc (concat (rt_tasks s))) + sum_list (map wm (rt_msgs s)) + sum_list (map ws (rt_seen s)) + wf (rt_next s)"

lemma step_total: "rt_step s t \<Longrightarrow> I (rt_model s) \<Longrightarrow> I (rt_model t) \<Longrightarrow> total t \<le> total s"
proof (induction rule: rt_step.induct)
  case (run_command s ts1 c cs ts2 a msg)
  then show ?case using run [of "rt_next s" c a msg] by (simp add: total_def)
next
  case (deliver s ms1 msg ms2 E)
  then have "sum_list (map wc (concat (tasks_opt (cmd_of E msg (rt_model s))))) \<le> wm msg"
    using upd [of "rt_model s" E msg] inp [of "rt_model s" E msg] never_input [of msg] by (cases "user_input msg") (auto simp: process_def)
  then show ?case using deliver by (simp add: total_def process_def)
next
  case (input s msg E)
  then show ?case using inp [of "rt_model s" E msg] by (simp add: total_def process_def)
qed (simp add: total_def)

lemma steps_total: "steps_in I s t \<Longrightarrow> total t \<le> total s"
  unfolding steps_in_def by (induction rule: rtranclp_induct) (auto dest: step_total)

end

section \<open>The commands Update returns\<close>

definition key_cmd :: "Cmd \<Rightarrow> bool" where
  "key_cmd c = (case c of StartCallCmd t \<Rightarrow> True | CallActionCmd i a r \<Rightarrow> a \<noteq> ''unmute'' | CreateInviteCmd t \<Rightarrow> True
     | RedeemInviteCmd code \<Rightarrow> code \<noteq> [] | Quit \<Rightarrow> True | _ \<Rightarrow> False)"

lemma tasks_opt_simps [simp]: "tasks_opt None = []" "tasks_opt (Some c) = tasks_of c"
  by (simp_all add: tasks_opt_def)

lemma modal_closed_cmds: "c \<in> set (concat (tasks_opt (handleModalClosed mv m))) \<Longrightarrow> key_cmd c"
  by (cases mv) (auto simp: key_cmd_def split: if_splits)

lemma key_cmds:
  "c \<in> set (concat (tasks_opt (cmd_of E (KeyMsg k) m))) \<Longrightarrow> key_cmd c"
proof (cases "m_modal m")
  case (Some mv)
  then show "c \<in> set (concat (tasks_opt (cmd_of E (KeyMsg k) m))) \<Longrightarrow> key_cmd c"
    using modal_closed_cmds [of c _ m] by (auto simp: Update_def update_key_def update_modal_key_def simp del: set_concat split: prod.splits if_splits)
next
  case None
  then show "c \<in> set (concat (tasks_opt (cmd_of E (KeyMsg k) m))) \<Longrightarrow> key_cmd c"
    by (auto simp: Update_def update_key_def update_dock_key_def update_global_key_def Let_def key_cmd_def
        split: option.splits if_splits prod.splits)
qed

lemma input_cmds: "user_input msg \<Longrightarrow> c \<in> set (concat (tasks_opt (cmd_of E msg m))) \<Longrightarrow> key_cmd c"
  using key_cmds [of c E _ m] by (auto simp: user_input_def Update_def update_msg_def split: Msg.splits prod.splits)

lemma weight_zero: "(\<And>c. c \<in> set cs \<Longrightarrow> f c = (0::int)) \<Longrightarrow> sum_list (map f cs) = 0"
  by (induction cs) auto

lemma input_weight: "user_input msg \<Longrightarrow> (\<And>c. key_cmd c \<Longrightarrow> f c = (0::int)) \<Longrightarrow> sum_list (map f (concat (tasks_opt (cmd_of E msg m)))) = 0"
  by (intro weight_zero) (simp add: input_cmds del: set_concat)

lemma msg_cmds:
  "\<not> user_input msg \<Longrightarrow> cmd_of E msg m =
    (case msg of
       CallsSubMsg s \<Rightarrow> Some (WaitForSubEvent s ''calls'')
     | CallStartedMsg s \<Rightarrow> Some (WaitForSubEvent s ''calls.start'')
     | InviteRedemptionSubMsg s code \<Rightarrow> Some (WaitForSubEvent s (''invite:'' @ code))
     | InviteCreatedMsg r \<Rightarrow> (case m_modal m of Some (InviteM im) \<Rightarrow> Some (SubscribeInviteRedemptionCmd (ic_Code r)) | _ \<Rightarrow> None)
     | SubEventMsg label ev \<Rightarrow>
         if (label = ''calls'' \<or> label = ''calls.start'') \<and> te_state E (se_Data ev) \<noteq> None \<and> \<not> Active (m_dock m) \<and> Active (m_dock (updated E msg m))
         then Some TickCallsList else None
     | CallsListMsg cs \<Rightarrow> if Active (m_dock (updated E msg m)) then Some TickCallsList else None
     | DaemonStatusMsg st \<Rightarrow> Some TickDaemonStatus
     | ErrMsg src e \<Rightarrow> if src = ''daemon.status'' then Some TickDaemonStatus else None
     | _ \<Rightarrow> None)"
  by (cases msg) (auto simp: user_input_def Update_def update_msg_def update_call_event_def update_created_def update_error_def Let_def
      split: option.splits modalView.splits)

fun sends :: "nat \<Rightarrow> Cmd \<Rightarrow> 'j Msg \<Rightarrow> bool" where
  "sends n LoadFriends msg = (\<exists>fs. msg = FriendsLoadedMsg fs)"
| "sends n LoadCalls msg = (\<exists>cs. msg = CallsListMsg cs)"
| "sends n LoadDaemonStatus msg = (\<exists>st. msg = DaemonStatusMsg st)"
| "sends n (AddFriendCmd keyPath name) msg = (\<exists>f. msg = FriendAddedMsg f)"
| "sends n (RenameFriendCmd name newName) msg = (msg = FriendRenamedMsg name newName)"
| "sends n (RemoveFriendCmd name) msg = (msg = FriendRemovedMsg name)"
| "sends n (CreateInviteCmd ttl) msg = (\<exists>r. msg = InviteCreatedMsg r)"
| "sends n (RedeemInviteCmd code) msg = (\<exists>f. msg = InviteRedeemDoneMsg f)"
| "sends n (StartCallCmd target) msg = (msg = CallStartedMsg n)"
| "sends n (CallActionCmd callID action reason) msg = (msg = CallActionDoneMsg callID action)"
| "sends n SubscribePresenceCmd msg = (msg = PresenceSubMsg n)"
| "sends n SubscribeCallsCmd msg = (msg = CallsSubMsg n)"
| "sends n (SubscribeInviteRedemptionCmd code) msg = (msg = InviteRedemptionSubMsg n code)"
| "sends n TickDaemonStatus msg = (\<exists>st. msg = DaemonStatusMsg st)"
| "sends n TickCallsList msg = (\<exists>cs. msg = CallsListMsg cs)"
| "sends n (WaitForSubEvent sub label) msg = ((\<exists>ev. msg = SubEventMsg label ev) \<or> msg = SubClosedMsg label)"
| "sends n Quit msg = False"
| "sends n (Batch cs) msg = False"
| "sends n (SequenceCmd cs) msg = False"

lemma cmd_ok_sends: "cmd_ok n c a = Some msg \<Longrightarrow> sends n c msg"
  by (cases c; cases a) auto

lemma cmd_msg_cases:
  assumes "cmd_msg n c a = Some msg"
  obtains (err) e where "msg = ErrMsg (cmd_source c) e" | (ok) "sends n c msg"
  using assms by (auto simp: cmd_msg_def dest: cmd_ok_sends split: answer.splits if_splits)

section \<open>Each subscription is read once\<close>

definition carries :: "nat \<Rightarrow> 'j Msg \<Rightarrow> bool" where
  "carries k msg = (case msg of CallStartedMsg i \<Rightarrow> i = k | CallsSubMsg i \<Rightarrow> i = k | PresenceSubMsg i \<Rightarrow> i = k
     | InviteRedemptionSubMsg i code \<Rightarrow> i = k | _ \<Rightarrow> False)"

definition waits :: "nat \<Rightarrow> Cmd \<Rightarrow> bool" where "waits k c = (case c of WaitForSubEvent i l \<Rightarrow> i = k | _ \<Rightarrow> False)"

lemma not_key_cmd [simp]: "key_cmd c \<Longrightarrow> \<not> waits k c"
  by (simp add: key_cmd_def waits_def split: Cmd.splits)

lemma sub_run:
  assumes "cmd_msg n c a = Some msg"
  shows "of_bool (carries k msg) + sum_list (map (\<lambda>x. of_bool (fst x = k)) (seen_by c msg)) + of_bool (next_after msg n \<le> k)
    \<le> of_bool (waits k c) + (of_bool (n \<le> k) :: int)"
  using assms
proof (cases rule: cmd_msg_cases)
  case ok
  then show ?thesis by (cases c) (auto simp: carries_def waits_def seen_by_def next_after_def)
qed (auto simp: carries_def waits_def seen_by_def next_after_def split: Cmd.splits)

lemma sub_upd:
  "\<not> user_input msg \<Longrightarrow> sum_list (map (\<lambda>c. of_bool (waits k c)) (concat (tasks_opt (cmd_of E msg m)))) \<le> (of_bool (carries k msg) :: int)"
  by (subst msg_cmds, assumption) (simp add: waits_def carries_def split: Msg.splits option.splits modalView.splits)

interpretation read_once: budget "\<lambda>c. of_bool (waits k c)" "\<lambda>msg. of_bool (carries k msg)" "\<lambda>x. of_bool (fst x = k)" "\<lambda>n. of_bool (n \<le> k)"
    "\<lambda>_. True" for k
  by (rule budget.intro, erule sub_run, erule sub_upd, simp_all add: input_weight)

definition calls_cmd :: "Cmd \<Rightarrow> bool" where
  "calls_cmd c = (case c of SubscribeCallsCmd \<Rightarrow> True | WaitForSubEvent i l \<Rightarrow> l = ''calls'' | _ \<Rightarrow> False)"

definition calls_msg :: "'j Msg \<Rightarrow> bool" where "calls_msg msg = (case msg of CallsSubMsg i \<Rightarrow> True | _ \<Rightarrow> False)"

lemma calls_not_key [simp]: "key_cmd c \<Longrightarrow> \<not> calls_cmd c"
  by (simp add: key_cmd_def calls_cmd_def split: Cmd.splits)

lemma calls_run:
  assumes "cmd_msg n c a = Some msg"
  shows "of_bool (calls_msg msg) + sum_list (map (\<lambda>x. of_bool (snd x = ''calls'')) (seen_by c msg)) + (0::int) \<le> of_bool (calls_cmd c) + 0"
  using assms
proof (cases rule: cmd_msg_cases)
  case ok
  then show ?thesis by (cases c) (auto simp: calls_msg_def calls_cmd_def seen_by_def)
qed (auto simp: calls_msg_def calls_cmd_def seen_by_def split: Cmd.splits)

lemma calls_upd:
  "\<not> user_input msg \<Longrightarrow> sum_list (map (\<lambda>c. of_bool (calls_cmd c)) (concat (tasks_opt (cmd_of E msg m)))) \<le> (of_bool (calls_msg msg) :: int)"
  by (subst msg_cmds, assumption) (simp add: calls_cmd_def calls_msg_def split: Msg.splits option.splits modalView.splits)

interpretation calls_once: budget "\<lambda>c. of_bool (calls_cmd c)" "\<lambda>msg. of_bool (calls_msg msg)" "\<lambda>x. of_bool (snd x = ''calls'')" "\<lambda>_. 0"
    "\<lambda>_. True"
  by (rule budget.intro, erule calls_run, erule calls_upd, simp_all add: input_weight)

lemma reach_counts:
  fixes s :: "'j Runtime"
  assumes "reach (rt_start m) s"
  shows "length (filter (\<lambda>x. fst x = k) (rt_seen s)) \<le> 1" and "length (filter (\<lambda>x. snd x = ''calls'') (rt_seen s)) \<le> 1"
proof -
  have pos: "0 \<le> sum_list (map (\<lambda>x. of_bool (P x) :: int) xs)" for P :: "'b \<Rightarrow> bool" and xs by (induction xs) auto
  have len: "sum_list (map (\<lambda>x. of_bool (P x) :: int) xs) = int (length (filter P xs))" for P :: "'b \<Rightarrow> bool" and xs by (induction xs) auto
  have start: "read_once.total k (rt_start m :: 'j Runtime) = 1" "calls_once.total (rt_start m :: 'j Runtime) = 1"
    unfolding read_once.total_def calls_once.total_def by (simp_all add: rt_start_def Init_def waits_def calls_cmd_def)
  show "length (filter (\<lambda>x. fst x = k) (rt_seen s)) \<le> 1"
    using read_once.steps_total [OF assms, of k] start(1) pos [of "waits k" "concat (rt_tasks s)"] pos [of "carries k" "rt_msgs s"]
    by (cases "rt_next s \<le> k") (simp_all add: read_once.total_def len)
  show "length (filter (\<lambda>x. snd x = ''calls'') (rt_seen s)) \<le> 1"
    using calls_once.steps_total [OF assms] start(2) pos [of calls_cmd "concat (rt_tasks s)"] pos [of calls_msg "rt_msgs s"]
    by (simp add: calls_once.total_def len)
qed

lemma distinct_by_count: "(\<And>k. length (filter (\<lambda>x. f x = k) xs) \<le> 1) \<Longrightarrow> distinct (map f xs)"
proof (induction xs)
  case (Cons x xs)
  have "length (filter (\<lambda>y. f y = k) xs) \<le> 1" for k using Cons.prems [of k] by (simp split: if_splits)
  moreover have "f x \<notin> f ` set xs" using Cons.prems [of "f x"] by (auto simp: filter_empty_conv)
  ultimately show ?case using Cons.IH by simp
qed simp

text \<open>C31: However keys, answers and events interleave, the interface reads at most one event of each subscription it opens,
  and at most one event of the daemon-wide call stream in the whole session: nothing reads a subscription again after
  its first event.\<close>
theorem subscriptions_read_once:
  assumes "reach (rt_start (NewModel cfg ed)) s"
  shows "distinct (map fst (rt_seen s)) \<and> length (filter (\<lambda>x. snd x = ''calls'') (rt_seen s)) \<le> 1"
  using reach_counts [OF assms] by (auto intro: distinct_by_count)

theorem subscriptions_read_once_witness:
  "\<exists>s. reach (rt_start (NewModel [] [])) s \<and> rt_seen s = [(0, ''calls'')] \<and> distinct (map fst (rt_seen s)) \<and>
     length (filter (\<lambda>x. snd x = ''calls'') (rt_seen (s :: StateChange Runtime))) \<le> 1"
proof -
  let ?m = "NewModel [] []" and ?ev = "\<lparr>se_Method = [], se_Data = undefined\<rparr> :: StateChange SubEvent"
  let ?s0 = "rt_start ?m :: StateChange Runtime"
  have t0: "rt_tasks ?s0 = [[LoadFriends]] @ (SubscribeCallsCmd # []) # [[LoadDaemonStatus], [TickDaemonStatus]]"
    by (simp add: rt_start_def Init_def)
  have r1: "rt_step ?s0 (?s0\<lparr>rt_tasks := [[LoadFriends]] @ [] # [[LoadDaemonStatus], [TickDaemonStatus]], rt_msgs := [CallsSubMsg 0], rt_next := 1\<rparr>)"
    (is "rt_step _ ?s1")
    using rt_step.run_command [OF _ t0, of AnsSub "CallsSubMsg 0"]
    by (simp add: rt_start_def cmd_msg_def next_after_def seen_by_def)
  have r2: "rt_step ?s1 (process ex_tui (CallsSubMsg 0) (?s1\<lparr>rt_msgs := []\<rparr>))" (is "rt_step _ ?s2")
    using rt_step.deliver [of ?s1 "[]" "CallsSubMsg 0" "[]" ex_tui] by (simp add: rt_start_def)
  have t2: "rt_tasks ?s2 = [[LoadFriends], [], [LoadDaemonStatus], [TickDaemonStatus]] @ (WaitForSubEvent 0 ''calls'' # []) # []"
    and n2: "rt_next ?s2 = 1" and e2: "rt_seen ?s2 = []" "\<not> rt_quit ?s2"
    by (simp_all add: process_def msg_cmds user_input_def rt_start_def)
  obtain s3 where r3: "rt_step ?s2 s3" and s3: "rt_seen s3 = [(0, ''calls'')]"
    using rt_step.run_command [OF e2(2) t2, of "AnsEvent ?ev" "SubEventMsg ''calls'' ?ev"] e2(1)
    by (auto simp: cmd_msg_def seen_by_def n2)
  have "reach ?s0 s3"
    unfolding steps_in_def using r1 r2 r3 by (meson converse_rtranclp_into_rtranclp rtranclp.rtrancl_refl)
  with subscriptions_read_once [OF this] s3 show ?thesis by blast
qed

section \<open>Polling\<close>

definition status_cmd :: "Cmd \<Rightarrow> bool" where
  "status_cmd c = (case c of LoadDaemonStatus \<Rightarrow> True | TickDaemonStatus \<Rightarrow> True | _ \<Rightarrow> False)"

definition status_msg :: "'j Msg \<Rightarrow> bool" where
  "status_msg msg = (case msg of DaemonStatusMsg st \<Rightarrow> True | ErrMsg src e \<Rightarrow> src = ''daemon.status'' | _ \<Rightarrow> False)"

lemma status_not_key [simp]: "key_cmd c \<Longrightarrow> \<not> status_cmd c"
  by (simp add: key_cmd_def status_cmd_def split: Cmd.splits)

lemma status_run: "cmd_msg n c a = Some msg \<Longrightarrow> status_msg msg = status_cmd c"
proof (erule cmd_msg_cases)
  assume "sends n c msg"
  then show ?thesis by (cases c) (auto simp: status_msg_def status_cmd_def)
next
  fix e assume "msg = ErrMsg (cmd_source c) e"
  then show ?thesis by (cases c) (auto simp: status_msg_def status_cmd_def)
qed

lemma status_upd:
  "\<not> user_input msg \<Longrightarrow> sum_list (map (\<lambda>c. of_bool (status_cmd c)) (concat (tasks_opt (cmd_of E msg m)))) = (of_bool (status_msg msg) :: int)"
  by (subst msg_cmds, assumption) (simp add: status_cmd_def status_msg_def split: Msg.splits option.splits modalView.splits)

lemma status_input: "user_input msg \<Longrightarrow> \<not> status_msg msg"
  by (simp add: user_input_def status_msg_def split: Msg.splits)

lemma neg_sum: "sum_list (map (\<lambda>c. - f c) xs) = - (sum_list (map f xs) :: int)"
  by (induction xs) auto

interpretation polls_most: budget "\<lambda>c. of_bool (status_cmd c)" "\<lambda>msg. of_bool (status_msg msg)" "\<lambda>_. 0" "\<lambda>_. 0" "\<lambda>_. True"
  by unfold_locales (simp_all add: status_run status_upd input_weight)

interpretation polls_least: budget "\<lambda>c. - of_bool (status_cmd c)" "\<lambda>msg. - of_bool (status_msg msg)" "\<lambda>_. 0" "\<lambda>_. 0" "\<lambda>_. True"
  by unfold_locales (simp_all add: status_run neg_sum status_upd input_weight status_input)

text \<open>As long as the interface runs, the poll of the daemon's status never stops, whatever fails: at every moment
  exactly two status requests are scheduled, in progress or answered but not yet handled (start-up launches two
  polling loops, an immediate one and a timed one, and each schedules its successor).\<close>
theorem status_poll_never_stops:
  fixes s :: "'j Runtime"
  assumes "reach (rt_start (NewModel cfg ed)) s"
  shows "length (filter status_cmd (concat (rt_tasks s))) + length (filter status_msg (rt_msgs s)) = 2"
proof -
  have len: "sum_list (map (\<lambda>x. of_bool (P x) :: int) xs) = int (length (filter P xs))" for P :: "'b \<Rightarrow> bool" and xs by (induction xs) auto
  have "polls_most.total (rt_start (NewModel cfg ed) :: 'j Runtime) = 2" "polls_least.total (rt_start (NewModel cfg ed) :: 'j Runtime) = - 2"
    unfolding polls_most.total_def polls_least.total_def by (simp_all add: rt_start_def Init_def status_cmd_def)
  moreover have "polls_least.total s = - polls_most.total s"
    unfolding polls_most.total_def polls_least.total_def by (simp add: neg_sum)
  ultimately have "polls_most.total s = 2"
    using polls_most.steps_total [OF assms] polls_least.steps_total [OF assms] by simp
  then show ?thesis unfolding polls_most.total_def len by (simp add: map_replicate_const sum_list_replicate)
qed

theorem status_poll_never_stops_witness:
  "length (filter status_cmd (concat (rt_tasks (rt_start (NewModel [] []) :: StateChange Runtime)))) = 2"
  using status_poll_never_stops [of "[]" "[]" "rt_start (NewModel [] []) :: StateChange Runtime"]
  by (simp add: steps_in_def rt_start_def)

end
