(* ===== verification/Tui_Calls.thy ===== *)
theory Tui_Calls
  imports Tui_Run
begin

text \<open>
  Calls in the terminal interface: how an incoming call is announced and answered, what the dock shows of an outgoing
  call, what a call that ended leaves behind, and when the program quits (\<open>model.go\<close>).
\<close>

section \<open>Answering\<close>

lemma modal_key: "m_modal m = Some mv \<Longrightarrow> Update E (KeyMsg k) m = update_modal_key k mv m"
  by (simp add: Update_def update_key_def)

text \<open>C21: When an inbound call rings, the dock holds no other call and no dialog is open, the interface shows the call, and
  each answer sends exactly one action for that call: accept accepts it, decline hangs it up, ignore sends nothing.\<close>
theorem incoming_call_answered:
  assumes "label = ''calls'' \<or> label = ''calls.start''" and "te_state E (se_Data ev) = Some sc"
    and "sc_State sc = ''ringing''" and "sc_Direction sc = ''inbound''"
    and "dk_CallID (m_dock m) = [] \<or> dk_CallID (m_dock m) = sc_SessionID sc" and "m_modal m = None"
    and "m1 = updated E (SubEventMsg label ev) m"
  shows "m_modal m1 = Some (IncomingM (incoming_for E sc m)) \<and> dk_CallID (m_dock m1) = sc_SessionID sc \<and> Active (m_dock m1)
      \<and> sf_Status (m_footer m1) = statusRinging \<and>
    (\<forall>F k. (k_string k = ''a'' \<longrightarrow> Update F (KeyMsg k) m1 = (m1\<lparr>m_modal := None\<rparr>, Some (CallActionCmd (sc_SessionID sc) ''accept'' []), [])) \<and>
           (k_string k = ''d'' \<longrightarrow> Update F (KeyMsg k) m1 = (m1\<lparr>m_modal := None\<rparr>, Some (CallActionCmd (sc_SessionID sc) ''hangup'' ''declined''), [])) \<and>
           (k_string k = ''esc'' \<longrightarrow> Update F (KeyMsg k) m1 = (m1\<lparr>m_modal := None\<rparr>, None, [])))"
proof -
  have m1: "m1 = applyCallStateChange E sc m"
    using assms(1,2) by (auto simp: assms(7) Update_def update_msg_def update_call_event_def Let_def)
  have mo: "m_modal m1 = Some (IncomingM (incoming_for E sc m))" using assms(3-6) by (auto simp: m1 applyCallStateChange_def)
  have "dk_CallID (m_dock m1) = sc_SessionID sc \<and> Active (m_dock m1) \<and> sf_Status (m_footer m1) = statusRinging"
    using assms(3-6) by (auto simp: m1 applyCallStateChange_def Active_def dock_for_def footer_for_def Let_def)
  with mo show ?thesis by (simp add: modal_key [OF mo] update_modal_key_def incoming_update_def incoming_for_def)
qed

definition ex_ring :: StateChange where
  "ex_ring = \<lparr>sc_SessionID = ''c1'', sc_State = ''ringing'', sc_Direction = ''inbound'', sc_Remote = ''p'', sc_Time = 1, sc_Reason = []\<rparr>"

theorem incoming_call_answered_witness:
  "fst (snd (Update ex_tui (KeyMsg (ex_press ''a''))
     (updated ex_tui (SubEventMsg ''calls'' \<lparr>se_Method = [], se_Data = ex_ring\<rparr>) (NewModel [] [])))) =
   Some (CallActionCmd ''c1'' ''accept'' [])"
proof -
  have f: "te_state ex_tui (se_Data \<lparr>se_Method = [], se_Data = ex_ring\<rparr>) = Some ex_ring" "sc_State ex_ring = ''ringing''"
    "sc_Direction ex_ring = ''inbound''" "sc_SessionID ex_ring = ''c1''" "dk_CallID (m_dock (NewModel [] [])) = []"
    "m_modal (NewModel [] []) = None" "k_string (ex_press ''a'') = ''a''"
    by (simp_all add: ex_tui_def ex_ring_def NewModel_def idleDock_def ex_press_def)
  let ?m = "updated ex_tui (SubEventMsg ''calls'' \<lparr>se_Method = [], se_Data = ex_ring\<rparr>) (NewModel [] [])"
  have "\<forall>F k. k_string k = ''a'' \<longrightarrow>
      Update F (KeyMsg k) ?m = (?m\<lparr>m_modal := None\<rparr>, Some (CallActionCmd (sc_SessionID ex_ring) ''accept'' []), [])"
    using incoming_call_answered [OF disjI1 [OF refl] f(1-3) disjI1 [OF f(5)] f(6) refl] by blast
  then have "Update ex_tui (KeyMsg (ex_press ''a'')) ?m = (?m\<lparr>m_modal := None\<rparr>, Some (CallActionCmd (sc_SessionID ex_ring) ''accept'' []), [])"
    using f(7) by blast
  then show ?thesis by (simp add: f(4))
qed

section \<open>A call that ended\<close>

text \<open>What a message leaves of a dock whose call ended.\<close>

definition stale_dock :: "string \<Rightarrow> Model \<Rightarrow> bool" where
  "stale_dock c m \<longleftrightarrow> dk_CallID (m_dock m) = c \<and> dk_State (m_dock m) = ''ended'' \<and> (\<forall>im. m_modal m \<noteq> Some (IncomingM im))"

definition unrelated :: "string \<Rightarrow> 'j tui_env \<Rightarrow> 'j Msg \<Rightarrow> bool" where
  "unrelated c E msg \<longleftrightarrow>
    (case msg of
       CallStartedMsg k \<Rightarrow> False
     | SubEventMsg l ev \<Rightarrow> (case te_state E (se_Data ev) of None \<Rightarrow> True | Some sc \<Rightarrow> sc_SessionID sc \<noteq> c)
     | _ \<Rightarrow> True)"

lemma refresh_dock_ids: "dk_CallID (refresh_dock c d) = dk_CallID d" "dk_State (refresh_dock c d) = dk_State d"
  by (simp_all add: refresh_dock_def split: option.split)

lemma fold_refresh_ids: "dk_CallID (fold refresh_dock cs d) = dk_CallID d" "dk_State (fold refresh_dock cs d) = dk_State d"
  by (induction cs arbitrary: d) (simp_all add: refresh_dock_ids)

lemma sync_frame [simp]:
  "m_dock (syncFocusFromSelection E m) = m_dock m" "m_modal (syncFocusFromSelection E m) = m_modal m"
  by (simp_all add: syncFocusFromSelection_def split: prod.split)

lemma modal_update_incoming: "modal_update k mv = (c, IncomingM im, es) \<Longrightarrow> \<exists>im'. mv = IncomingM im'"
  by (cases mv) (auto split: prod.splits)

lemma stale_key:
  assumes "stale_dock c m"
  shows "stale_dock c (fst (update_key E k m))"
proof (cases "m_modal m")
  case (Some mv)
  with assms have "\<nexists>im. mv = IncomingM im" by (auto simp: stale_dock_def)
  then show ?thesis using assms Some modal_update_incoming [of k mv]
    by (auto simp: update_key_def update_modal_key_def stale_dock_def split: prod.splits)
next
  case None
  have na: "\<not> Active (m_dock m)" using assms by (simp add: Active_def stale_dock_def)
  have f: "m_dock m' = m_dock m \<and> m_modal m' = None" if "update_filter_key E k m = Some m'" for m'
    using that None by (auto simp: update_filter_key_def Let_def split: KeyType.splits if_splits)
  have g: "m_dock (fst (update_global_key E k m)) = m_dock m \<and> (\<forall>im. m_modal (fst (update_global_key E k m)) \<noteq> Some (IncomingM im))"
    using None na by (auto simp: update_global_key_def Let_def split: prod.splits option.splits)
  show ?thesis using assms None f g na
    by (auto simp: update_key_def update_dock_key_def stale_dock_def split: option.splits prod.splits if_splits)
qed

lemma stale_msg:
  assumes "stale_dock c m" and "c \<noteq> []" and "unrelated c E msg"
  shows "stale_dock c (fst (update_msg E msg m))"
proof (cases "\<exists>l ev. msg = SubEventMsg l ev")
  case True
  then obtain l ev where msg: "msg = SubEventMsg l ev" by blast
  have "applyCallStateChange E sc m = m" if "te_state E (se_Data ev) = Some sc" for sc
    using assms that by (simp add: msg unrelated_def stale_dock_def applyCallStateChange_def)
  then have a: "stale_dock c (fst (update_call_event E ev m))"
    using assms(1) by (auto simp: update_call_event_def Let_def split: option.split)
  have "stale_dock c (update_invite_event E ev m)"
    using assms(1) by (auto simp: update_invite_event_def stale_dock_def split: option.split modalView.split)
  with a assms(1) show ?thesis by (simp add: msg update_msg_def)
next
  case False
  have created: "stale_dock c (fst (update_created E r m))" for r
    using assms(1) by (auto simp: update_created_def stale_dock_def split: option.split modalView.split)
  show ?thesis using False assms(1,3)
    by (cases msg) (simp_all add: update_msg_def created [unfolded stale_dock_def] unrelated_def update_status_def update_error_def Let_def
        stale_dock_def fold_refresh_ids)
qed

text \<open>A call that ended stays in the dock with its call ID, and as long as the user places no call of their own, every
  event of any other call is ignored: no incoming call is announced, whatever keys are pressed.\<close>
theorem ended_call_hides_later_calls:
  assumes "stale_dock c m" and "c \<noteq> []" and "\<forall>(E, msg)\<in>set ms. unrelated c E msg"
  shows "stale_dock c (run_msgs ms m)"
  using assms
proof (induction ms arbitrary: m)
  case (Cons x ms)
  obtain E msg where x: "x = (E, msg)" by (cases x)
  have "stale_dock c (updated E msg m)"
    using stale_key [OF Cons.prems(1), of E] stale_msg [OF Cons.prems(1,2), of E msg] Cons.prems(3)
    by (auto simp: x Update_def split: Msg.split prod.split)
  with Cons x show ?case by simp
qed simp

theorem ended_call_hides_later_calls_witness:
  "m_modal (run_msgs [(ex_tui, SubEventMsg ''calls'' \<lparr>se_Method = [], se_Data = ex_ring\<lparr>sc_State := ''ended''\<rparr>\<rparr>),
      (ex_tui, SubEventMsg ''calls'' \<lparr>se_Method = [], se_Data = ex_ring\<lparr>sc_SessionID := ''c2''\<rparr>\<rparr>)] (NewModel [] [])) \<noteq>
    Some (IncomingM (incoming_for ex_tui (ex_ring\<lparr>sc_SessionID := ''c2''\<rparr>) (NewModel [] [])))"
proof -
  let ?m = "updated ex_tui (SubEventMsg ''calls'' \<lparr>se_Method = [], se_Data = ex_ring\<lparr>sc_State := ''ended''\<rparr>\<rparr>) (NewModel [] [])"
  have "stale_dock ''c1'' ?m"
    by (simp add: stale_dock_def Update_def update_msg_def update_call_event_def applyCallStateChange_def Let_def ex_tui_def ex_ring_def
        NewModel_def idleDock_def dock_for_def)
  from ended_call_hides_later_calls
      [OF this, of "[(ex_tui, SubEventMsg ''calls'' \<lparr>se_Method = [], se_Data = ex_ring\<lparr>sc_SessionID := ''c2''\<rparr>\<rparr>)]"]
  show ?thesis by (simp add: unrelated_def ex_tui_def ex_ring_def stale_dock_def)
qed

section \<open>An outgoing call\<close>

definition levels_idle :: "Model \<Rightarrow> bool" where
  "levels_idle m \<longleftrightarrow> dk_RxDB (m_dock m) = 0 \<and> dk_TxDB (m_dock m) = 0 \<and> dk_Mode (m_dock m) = [] \<and> \<not> dk_Muted (m_dock m)"

definition list_cmd :: "Cmd \<Rightarrow> bool" where "list_cmd c \<longleftrightarrow> c = TickCallsList \<or> c = LoadCalls"

definition list_msg :: "'j Msg \<Rightarrow> bool" where "list_msg msg = (case msg of CallsListMsg cs \<Rightarrow> True | _ \<Rightarrow> False)"

lemma list_not_key [simp]: "key_cmd c \<Longrightarrow> \<not> list_cmd c"
  by (auto simp: key_cmd_def list_cmd_def)

lemma list_run: "cmd_msg n c a = Some msg \<Longrightarrow> list_msg msg \<Longrightarrow> list_cmd c"
proof (erule cmd_msg_cases)
  assume "sends n c msg" "list_msg msg"
  then show ?thesis by (cases c) (auto simp: list_msg_def list_cmd_def)
qed (simp add: list_msg_def)

lemma list_upd:
  "\<not> user_input msg \<Longrightarrow> Active (m_dock m) \<Longrightarrow>
     sum_list (map (\<lambda>c. of_bool (list_cmd c)) (concat (tasks_opt (cmd_of E msg m)))) \<le> (of_bool (list_msg msg) :: int)"
  by (subst msg_cmds, assumption) (simp add: list_cmd_def list_msg_def split: Msg.splits option.splits modalView.splits)

interpretation levels: budget "\<lambda>c. of_bool (list_cmd c)" "\<lambda>msg. of_bool (list_msg msg)" "\<lambda>_. 0" "\<lambda>_. 0" "\<lambda>m. Active (m_dock m)"
  by (rule budget.intro, use list_run in force, erule list_upd, simp_all add: input_weight)

lemma sum_bool_nonneg: "0 \<le> sum_list (map (\<lambda>x. of_bool (P x) :: int) xs)"
  by (induction xs) auto

lemma sum_bool_zero: "sum_list (map (\<lambda>x. of_bool (P x) :: int) xs) \<le> 0 \<longleftrightarrow> (\<forall>x\<in>set xs. \<not> P x)"
proof (induction xs)
  case (Cons x xs)
  then show ?case using sum_bool_nonneg [of P xs] by (cases "P x") auto
qed simp

lemma levels_modal_key: "m_dock (fst (update_modal_key k mv m)) = m_dock m"
  by (simp add: update_modal_key_def split: prod.split)

lemma levels_key: "levels_idle m \<Longrightarrow> levels_idle (fst (update_key E k m))"
  by (auto simp: update_key_def levels_idle_def levels_modal_key update_filter_key_def update_dock_key_def update_global_key_def
      idleDock_def Let_def split: option.splits prod.splits if_splits KeyType.splits)

lemma levels_msg:
  assumes "levels_idle m" and "\<not> list_msg msg"
  shows "levels_idle (fst (update_msg E msg m))"
proof -
  have call: "levels_idle (fst (update_call_event E ev m))" for ev
    using assms(1) by (auto simp: update_call_event_def applyCallStateChange_def levels_idle_def dock_for_def Let_def split: option.split)
  have inv: "m_dock (update_invite_event E ev m) = m_dock m" "m_dock (fst (update_created E r m)) = m_dock m" for ev r
    by (auto simp: update_invite_event_def update_created_def split: option.split modalView.split)
  have keep: "levels_idle m'" if "m_dock m' = m_dock m" for m' using that assms(1) by (simp add: levels_idle_def)
  have calling: "levels_idle (update_calling m)"
    using assms(1) by (simp add: update_calling_def levels_idle_def idleDock_def)
  show ?thesis using assms call
    by (cases msg) (simp_all add: keep inv calling update_msg_def list_msg_def update_status_def update_error_def)
qed

lemma levels_updated: "levels_idle m \<Longrightarrow> \<not> list_msg msg \<Longrightarrow> levels_idle (updated E msg m)"
  using levels_key [of m E] levels_msg [of m msg E] by (auto simp: Update_def split: Msg.split prod.split)

lemma levels_steps:
  assumes "steps_in (\<lambda>m. Active (m_dock m)) s t" and "levels.total s \<le> 0" and "levels_idle (rt_model s)"
  shows "levels_idle (rt_model t)"
  using assms(1) unfolding steps_in_def
proof (induction rule: rtranclp_induct)
  case (step u v)
  have "levels.total u \<le> 0"
    using levels.steps_total [of s u] step.hyps(1) assms(2) by (simp add: steps_in_def)
  then have no: "\<not> list_msg msg" if "msg \<in> set (rt_msgs u)" for msg
    using that sum_bool_nonneg [of list_cmd "concat (rt_tasks u)"] sum_bool_zero [of list_msg "rt_msgs u"]
    by (simp add: levels.total_def del: set_concat)
  have "rt_step u v" using step.hyps(2) by simp
  then show ?case
  proof cases
    case (deliver ms1 msg ms2 E)
    then show ?thesis using step.IH no [of msg] levels_updated by (simp add: process_def)
  next
    case (input msg E)
    then have "\<not> list_msg msg" by (simp add: user_input_def list_msg_def split: Msg.splits)
    then show ?thesis using input step.IH levels_updated by (simp add: process_def)
  qed (use step.IH in simp_all)
qed (use assms(3) in simp)

text \<open>A call the user places from an idle dock never shows its audio levels, its media mode or whether it is muted: no
  request for them is ever scheduled while the dock is active.\<close>
theorem outgoing_call_shows_no_levels:
  assumes "\<not> Active (m_dock (rt_model s))" and "\<not> (\<exists>c\<in>set (concat (rt_tasks s)). list_cmd c)" and "\<not> (\<exists>msg\<in>set (rt_msgs s). list_msg msg)"
    and "rt_msgs s = ms1 @ CallStartedMsg k # ms2"
    and "steps_in (\<lambda>m. Active (m_dock m)) (process E (CallStartedMsg k) (s\<lparr>rt_msgs := ms1 @ ms2\<rparr>)) t"
  shows "levels_idle (rt_model t) \<and> \<not> (\<exists>c\<in>set (concat (rt_tasks t)). list_cmd c)"
proof -
  let ?s1 = "process E (CallStartedMsg k) (s\<lparr>rt_msgs := ms1 @ ms2\<rparr>)"
  have tasks: "concat (rt_tasks ?s1) = concat (rt_tasks s) @ [WaitForSubEvent k ''calls.start'']"
    by (simp add: process_def msg_cmds user_input_def)
  have "\<forall>c\<in>set (concat (rt_tasks ?s1)). \<not> list_cmd c"
    using assms(2) unfolding tasks by (auto simp: list_cmd_def)
  moreover have "\<forall>msg\<in>set (rt_msgs ?s1). \<not> list_msg msg" using assms(3,4) by (simp add: process_def)
  ultimately have zero: "levels.total ?s1 \<le> 0"
    using sum_bool_zero [of list_cmd "concat (rt_tasks ?s1)"] sum_bool_zero [of list_msg "rt_msgs ?s1"]
    unfolding levels.total_def by simp
  have "levels_idle (rt_model ?s1)"
    using assms(1) by (simp add: process_def Update_def update_msg_def update_calling_def levels_idle_def idleDock_def)
  then have idle: "levels_idle (rt_model t)" by (rule levels_steps [OF assms(5) zero])
  have "levels.total t \<le> 0" using levels.steps_total [OF assms(5)] zero by simp
  then have "\<forall>c\<in>set (concat (rt_tasks t)). \<not> list_cmd c"
    using sum_bool_nonneg [of list_msg "rt_msgs t"] sum_bool_zero [of list_cmd "concat (rt_tasks t)"]
    by (simp add: levels.total_def del: set_concat)
  with idle show ?thesis by blast
qed

definition ex_calling :: "StateChange Runtime" where
  "ex_calling = (rt_start ((NewModel [] [])\<lparr>m_callTargetName := ''bob''\<rparr>))\<lparr>rt_msgs := [CallStartedMsg 0]\<rparr>"

theorem outgoing_call_shows_no_levels_witness:
  "levels_idle (rt_model (process ex_tui (CallStartedMsg 0) (ex_calling\<lparr>rt_msgs := []\<rparr>)))"
proof -
  have "\<not> Active (m_dock (rt_model ex_calling))" "\<not> (\<exists>c\<in>set (concat (rt_tasks ex_calling)). list_cmd c)"
    "\<not> (\<exists>msg\<in>set (rt_msgs ex_calling). list_msg msg)" "rt_msgs ex_calling = [] @ CallStartedMsg 0 # []"
    by (simp_all add: ex_calling_def rt_start_def NewModel_def idleDock_def Active_def Init_def list_cmd_def list_msg_def)
  from outgoing_call_shows_no_levels [OF this, of ex_tui "process ex_tui (CallStartedMsg 0) (ex_calling\<lparr>rt_msgs := []\<rparr>)"]
  show ?thesis by (simp add: steps_in_def)
qed

section \<open>Quitting\<close>

fun quits :: "Cmd \<Rightarrow> bool" where
  "quits Quit = True"
| "quits (SequenceCmd cs) = (Quit \<in> set cs)"
| "quits _ = False"

text \<open>The interface quits on a key only: \<open>q\<close> without an active call, or a choice in the dialog that \<open>q\<close> opens
  during one; choosing to hang up sends the hangup first.\<close>

lemma quit_on_key:
  assumes "cmd_of E (KeyMsg k) m = Some c" and "quits c"
  shows "(m_modal m = None \<and> k_string k = ''q'' \<and> \<not> Active (m_dock m) \<and> c = Quit) \<or>
    (\<exists>qm. m_modal m = Some (QuitM qm) \<and>
       (k_string k = ''d'' \<and> c = Quit \<or>
        k_string k = ''h'' \<and> c = SequenceCmd [CallActionCmd (dk_CallID (m_dock m)) ''hangup'' ''user requested'', Quit] \<or>
        qm_Action qm \<noteq> []))"
proof (cases "m_modal m")
  case None
  then show ?thesis using assms
    by (auto simp: Update_def update_key_def update_dock_key_def update_global_key_def Let_def split: option.splits if_splits prod.splits)
next
  case (Some mv)
  then show ?thesis using assms
    by (cases mv) (auto simp: modal_key [OF Some] update_modal_key_def quit_update_def split: prod.splits if_splits)
qed

lemma quit_only_on_key: "cmd_of E msg m = Some c \<Longrightarrow> quits c \<Longrightarrow> \<exists>k. msg = KeyMsg k"
proof (cases "user_input msg")
  case False
  then show "cmd_of E msg m = Some c \<Longrightarrow> quits c \<Longrightarrow> ?thesis"
    by (subst (asm) msg_cmds) (auto split: Msg.splits option.splits modalView.splits if_splits)
qed (auto simp: user_input_def Update_def update_msg_def split: Msg.splits)

text \<open>A call is hung up, muted or answered, but never unmuted: no key sends that action.\<close>

lemma unmute_never_sent:
  assumes "c \<in> set (concat (tasks_opt (cmd_of E msg m)))"
  shows "c \<noteq> CallActionCmd i ''unmute'' r"
proof (cases "user_input msg")
  case True
  with assms have "key_cmd c" by (rule input_cmds [rotated])
  then show ?thesis by (auto simp: key_cmd_def)
next
  case False
  then show ?thesis using assms
    by (subst (asm) msg_cmds) (auto split: Msg.splits option.splits modalView.splits if_splits)
qed

text \<open>Two keys the help lists do nothing.\<close>

lemma rename_remove_unbound:
  "m_modal m = None \<Longrightarrow> \<not> m_filtering m \<Longrightarrow> k_string k = ''r'' \<or> k_string k = ''x'' \<Longrightarrow> Update E (KeyMsg k) m = (m, None, [])"
  "(''r'', ''rename'') \<in> set (concat (map snd help_groups))" "(''x'', ''remove'') \<in> set (concat (map snd help_groups))"
  by (elim disjE; simp add: Update_def update_key_def update_dock_key_def update_global_key_def)
    (simp_all add: help_groups_def)

section \<open>Adding a friend\<close>

lemma escape_char_visible: "x \<in> set (escape_char c) \<Longrightarrow> 33 \<le> byte x \<and> byte x \<le> 126"
proof -
  have d: "byte c div 16 < 16" "byte c mod 16 < 16" by (simp_all add: less_mult_imp_div_less)
  have h: "n < 16 \<Longrightarrow> 33 \<le> byte (hex_upper n) \<and> byte (hex_upper n) \<le> 126" for n by (auto simp: hex_upper_def)
  show "x \<in> set (escape_char c) \<Longrightarrow> ?thesis" using h [OF d(1)] h [OF d(2)]
    by (auto simp: escape_char_def unreserved_def Let_def split: if_splits)
qed

lemma QueryEscape_visible: "x \<in> set (QueryEscape s) \<Longrightarrow> 33 \<le> byte x \<and> byte x \<le> 126"
  by (auto simp: QueryEscape_def dest: escape_char_visible)

lemma join_visible:
  "(\<And>s x. s \<in> set xs \<Longrightarrow> x \<in> set s \<Longrightarrow> Q x) \<Longrightarrow> (\<And>x. x \<in> set sep \<Longrightarrow> Q x) \<Longrightarrow> x \<in> set (join sep xs) \<Longrightarrow> Q x"
  by (induction sep xs rule: join.induct) auto

lemma FormatURL_visible: "x \<in> set (FormatURL p) \<Longrightarrow> 33 \<le> byte x \<and> byte x \<le> 126"
proof -
  have "x \<in> set (encode_values vs) \<Longrightarrow> 33 \<le> byte x \<and> byte x \<le> 126" for vs
    unfolding encode_values_def by (erule join_visible [rotated 2]) (auto dest: QueryEscape_visible)
  then show "x \<in> set (FormatURL p) \<Longrightarrow> ?thesis" by (auto simp: FormatURL_def URLPrefix_def)
qed

lemma TrimSpace_FormatURL: "TrimSpace (FormatURL p) = FormatURL p"
proof (rule TrimSpace_id)
  have ne: "FormatURL p \<noteq> []" by (simp add: FormatURL_def URLPrefix_def)
  have sp: "33 \<le> b \<Longrightarrow> b \<le> 126 \<Longrightarrow> \<not> is_space b" for b by (auto simp: is_space_def)
  show "ascii (FormatURL p)" by (auto simp: ascii_def dest: FormatURL_visible)
  show "\<not> is_space (byte (hd (FormatURL p)))" "\<not> is_space (byte (last (FormatURL p)))"
    using FormatURL_visible [OF hd_in_set [OF ne]] FormatURL_visible [OF last_in_set [OF ne]] by (simp_all add: sp)
  show "FormatURL p \<noteq> []" by (rule ne)
qed

text \<open>With the URL of an invite on the clipboard, \<open>a\<close> and then enter ask the daemon to redeem exactly that URL, unless
  its peer is in the friends list the daemon answers with; then nothing is sent.\<close>
theorem clipboard_invite_redeemed:
  assumes "m_modal m = None" and "\<not> m_filtering m" and "te_clip E = Inr (FormatURL p)" and "payload_ok p"
    and "te_friends E = Some fs" and "k_string ka = ''a''" and "k_string ke = ''enter''"
  shows "cmd_of F (KeyMsg ke) (updated E (KeyMsg ka) m) =
    (if \<exists>f\<in>set fs. te_str E (fe_PeerID f) = up_PeerID p then None else Some (RedeemInviteCmd (FormatURL p)))"
proof -
  let ?am = "newAddFriendModal (te_upper E) (te_lower E) (te_str E) (te_friends E) (te_clip E)"
  have "update_dock_key ka m = None" using assms(6) by (simp add: update_dock_key_def)
  then have "updated E (KeyMsg ka) m = m\<lparr>m_modal := Some (AddFriendM ?am)\<rparr>"
    using assms(1,2,6) by (simp add: Update_def update_key_def update_global_key_def)
  then have mo: "m_modal (updated E (KeyMsg ka) m) = Some (AddFriendM ?am)" by simp
  have am: "?am = applyDetection (te_upper E) (te_lower E) (te_str E) (Some fs) (FormatURL p) emptyAddFriend"
    by (simp add: newAddFriendModal_def assms(3,5))
  have url: "FormatURL p \<noteq> []" "take (length URLPrefix) (ToLower (te_lower E) (FormatURL p)) = URLPrefix"
    "ParseURL (te_upper E) (te_lower E) (FormatURL p) = Inr p" "up_PeerID p \<noteq> []"
    using assms(4) ParseURL_FormatURL [OF assms(4)] by (simp_all add: FormatURL_def ToLower_prefix payload_ok_def URLPrefix_def [symmetric])
  have st: "af_state ?am = (if \<exists>f\<in>set fs. te_str E (fe_PeerID f) = up_PeerID p then addStateDuplicate else addStateNewPeer)"
    and code: "af_codeText ?am = FormatURL p"
    by (auto simp: am applyDetection_def TrimSpace_FormatURL url Let_def find_None_iff find_Some_iff split: option.splits)
  show ?thesis
    using st code url(1) assms(7)
    by (simp add: modal_key [OF mo] update_modal_key_def addfriend_update_def CodeText_def)
qed

definition ex_payload :: URLPayload where
  "ex_payload = \<lparr>up_PeerID = ''12D3'', up_PublicKey = ''AQ=='', up_Addresses = [''/ip4/1.2.3.4/udp/9''], up_DisplayName = ''bob'',
     up_Code = ''A7B2X9K4'', up_ExpiresAt = 17, up_Signature = ''cw==''\<rparr>"

theorem clipboard_invite_redeemed_witness:
  "cmd_of ex_tui (KeyMsg (ex_press ''enter''))
     (updated (ex_tui\<lparr>te_clip := Inr (FormatURL ex_payload), te_friends := Some [ex_friend_row ''ann'' ''a'']\<rparr>) (KeyMsg (ex_press ''a'')) (NewModel [] []))
   = Some (RedeemInviteCmd (FormatURL ex_payload))"
proof -
  let ?E = "ex_tui\<lparr>te_clip := Inr (FormatURL ex_payload), te_friends := Some [ex_friend_row ''ann'' ''a'']\<rparr>"
  have "payload_ok ex_payload" by (simp add: ex_payload_def payload_ok_def valid_code_def codeLength_def crockfordAlphabet_def)
  moreover have "m_modal (NewModel [] []) = None" "\<not> m_filtering (NewModel [] [])" by (simp_all add: NewModel_def)
  moreover have "k_string (ex_press s) = s" for s by (simp add: ex_press_def)
  ultimately show ?thesis
    using clipboard_invite_redeemed [of "NewModel [] []" ?E ex_payload "[ex_friend_row ''ann'' ''a'']" "ex_press ''a''" "ex_press ''enter''" ex_tui]
    by (simp add: ex_friend_row_def ex_payload_def [THEN arg_cong [where f = up_PeerID]] ex_tui_def)
qed

end
