(* ===== verification/Tui_View.thy ===== *)
theory Tui_View
  imports Tui
begin

text \<open>
  What the terminal shows (\<open>View\<close> of \<open>model.go\<close>): the two panes side by side, the dock while a call is active, the
  footer, and an open dialog laid over them. The boxes, the joining of blocks and the measuring of text are lipgloss.
\<close>

record lipgloss =
  lg_box :: "int \<Rightarrow> int \<Rightarrow> string \<Rightarrow> string"
  lg_modalBox :: "string \<Rightarrow> string"
  lg_joinH :: "string \<Rightarrow> string \<Rightarrow> string"
  lg_joinV :: "string list \<Rightarrow> string"
  lg_width :: "string \<Rightarrow> int"
  lg_overlayDim :: "string \<Rightarrow> string"

definition sidebarW :: int where "sidebarW = 28"

definition focusW :: "Model \<Rightarrow> int" where
  "focusW m = (let w = m_width m - sidebarW - 4 in if w < 20 then 20 else w)"

definition dockH :: "Model \<Rightarrow> int" where "dockH m = (if Active (m_dock m) then 6 else 0)"

definition upperH :: "Model \<Rightarrow> int" where
  "upperH m = (let h = m_height m - 3 - dockH m in if h < 5 then 5 else h)"

text \<open>\<open>now\<close> is the clock, \<open>date\<close> and \<open>dur\<close> print a day and a duration. \<open>friendsPane.View\<close>, \<open>focusPane.View\<close> and
  \<open>callDock.View\<close> put their contents into boxes; only the dock without a call has none.\<close>

definition dock_block :: "lipgloss \<Rightarrow> styles \<Rightarrow> (time \<Rightarrow> string) \<Rightarrow> time \<Rightarrow> Model \<Rightarrow> string" where
  "dock_block L t dur now m =
    (let body = dock_view t dur now (m_dock m) in
     if dk_State (m_dock m) = [] then body else lg_box L (m_width m) (dockH m) body)"

definition View :: "lipgloss \<Rightarrow> styles \<Rightarrow> (time \<Rightarrow> string) \<Rightarrow> (time \<Rightarrow> string) \<Rightarrow> 'j tui_env \<Rightarrow> time \<Rightarrow> Model \<Rightarrow> string option" where
  "View L t date dur E now m =
    (if m_width m = 0 then Some []
     else
       (case friends_view (te_str E) (te_lower E) (th_dim t) now (m_friends m) (m_filtering m) (m_filterInput m) of
          None \<Rightarrow> None
        | Some fv \<Rightarrow>
            (let left = lg_box L sidebarW (upperH m) fv;
                 right = lg_box L (focusW m) (upperH m) (focus_view (te_str E) (th_dim t) (th_key t) date (m_focus m));
                 upper = lg_joinH L left right;
                 footer = renderStatusFooter (lg_width L) t (m_footer m);
                 bg = (if dockH m > 0 then lg_joinV L [upper, dock_block L t dur now m, footer] else lg_joinV L [upper, footer])
             in case m_modal m of
                  None \<Rightarrow> Some bg
                | Some mv \<Rightarrow> renderOverlay (lg_width L) (lg_overlayDim L) bg (lg_modalBox L (modal_view t date mv)) (m_width m) (m_height m))))"

lemma padOrTrunc_defined: "0 < w \<Longrightarrow> \<exists>r. padOrTrunc s w = Some r"
  by (simp add: padOrTrunc_def Let_def)

lemma friends_view_defined: "\<exists>v. friends_view str lower grey now p act val = Some v"
proof -
  have "\<exists>r. friend_row str now sel f = Some r" for sel f
    using padOrTrunc_defined [of 12] by (fastforce simp: friend_row_def Let_def)
  then have "\<exists>rows. all_some (map (\<lambda>(i, f). friend_row str now (int i = fp_selected p) f) xs) = Some rows \<and> length rows = length xs" for xs
    by (intro all_some_map) auto
  then show ?thesis by (fastforce simp: friends_view_def Let_def)
qed

text \<open>Drawing never panics, whatever the state and however large the dialog.\<close>

lemma View_defined:
  assumes "0 \<le> m_width m" and "\<And>s. 0 \<le> lg_width L s"
  shows "\<exists>v. View L t date dur E now m = Some v"
proof -
  obtain fv where fv: "friends_view (te_str E) (te_lower E) (th_dim t) now (m_friends m) (m_filtering m) (m_filterInput m) = Some fv"
    using friends_view_defined by blast
  have "\<exists>v. renderOverlay (lg_width L) d bg fg (m_width m) h = Some v" for d bg fg h
    using overlay_lines_defined [OF assms] by (fastforce simp: renderOverlay_def)
  then show ?thesis by (simp add: View_def fv Let_def split: option.split)
qed

text \<open>The sizes the layout comes to. \<open>rows w s\<close> is the number of rows text takes when it is wrapped at \<open>w\<close> columns.
  What is relied on of lipgloss: a box whose contents fit is two rows and two columns larger than asked for (its border);
  side by side the higher block counts and widths add; stacked, heights add and the wider block counts.\<close>

definition box_law :: "(string \<Rightarrow> int) \<Rightarrow> (string \<Rightarrow> int) \<Rightarrow> (int \<Rightarrow> string \<Rightarrow> int) \<Rightarrow> lipgloss \<Rightarrow> bool" where
  "box_law height width rows L \<longleftrightarrow>
    (\<forall>w h s. 0 \<le> w \<longrightarrow> 0 \<le> h \<longrightarrow> rows w s \<le> h \<longrightarrow> height (lg_box L w h s) = h + 2 \<and> width (lg_box L w h s) = w + 2)
    \<and> (\<forall>a b. height (lg_joinH L a b) = max (height a) (height b) \<and> width (lg_joinH L a b) = width a + width b)
    \<and> (\<forall>xs. height (lg_joinV L xs) = sum_list (map height xs) \<and> width (lg_joinV L xs) = fold max (map width xs) 0)"

text \<open>Without a call the frame is as large as the terminal: the panes fill its width and the panes and a one-row footer
  its height. While a call is active the frame is two rows higher and two columns wider than the terminal, because the
  dock is drawn in a box whose border the layout does not count.\<close>
theorem active_dock_overflows:
  assumes "box_law height width rows L" and "52 \<le> m_width m" and "14 \<le> m_height m" and "m_modal m = None"
    and "View L t date dur E now m = Some v"
    and "\<And>fv. friends_view (te_str E) (te_lower E) (th_dim t) now (m_friends m) (m_filtering m) (m_filterInput m) = Some fv \<Longrightarrow>
      rows sidebarW fv \<le> upperH m"
    and "rows (focusW m) (focus_view (te_str E) (th_dim t) (th_key t) date (m_focus m)) \<le> upperH m"
    and "rows (m_width m) (dock_view t dur now (m_dock m)) \<le> dockH m"
    and "height (renderStatusFooter (lg_width L) t (m_footer m)) = 1"
    and "width (renderStatusFooter (lg_width L) t (m_footer m)) = m_width m"
  shows "(height v, width v) =
    (if Active (m_dock m) then (m_height m + 2, m_width m + 2) else (m_height m, m_width m))"
proof -
  obtain fv where fv: "friends_view (te_str E) (te_lower E) (th_dim t) now (m_friends m) (m_filtering m) (m_filterInput m) = Some fv"
    using friends_view_defined by blast
  have box: "0 \<le> w \<Longrightarrow> 0 \<le> h \<Longrightarrow> rows w s \<le> h \<Longrightarrow> height (lg_box L w h s) = h + 2 \<and> width (lg_box L w h s) = w + 2" for w h s
    using assms(1) by (simp add: box_law_def)
  have pos: "0 \<le> m_width m" "0 \<le> focusW m" "0 \<le> upperH m"
    using assms(2) by (simp_all add: focusW_def upperH_def Let_def)
  have left: "height (lg_box L sidebarW (upperH m) fv) = upperH m + 2 \<and> width (lg_box L sidebarW (upperH m) fv) = 30"
    using box [OF _ pos(3) assms(6) [OF fv]] by (simp add: sidebarW_def)
  note right = box [OF pos(2,3) assms(7)]
  have dock: "Active (m_dock m) \<Longrightarrow> height (dock_block L t dur now m) = 8 \<and> width (dock_block L t dur now m) = m_width m + 2"
    using box [OF _ _ assms(8)] assms(2) by (simp add: dock_block_def Active_def dockH_def Let_def)
  have up: "upperH m = m_height m - 3 - dockH m" "focusW m = m_width m - 32"
    using assms(2,3) by (simp_all add: upperH_def focusW_def dockH_def sidebarW_def Let_def)
  have joins: "height (lg_joinH L a b) = max (height a) (height b)" "width (lg_joinH L a b) = width a + width b"
    "height (lg_joinV L xs) = sum_list (map height xs)" "width (lg_joinV L xs) = fold max (map width xs) 0" for a b xs
    using assms(1) by (simp_all add: box_law_def)
  have mw: "m_width m \<noteq> 0" using assms(2) by simp
  from assms(5) show ?thesis
    unfolding View_def using mw assms(2) left right dock up
    by (auto simp: fv assms(4,9,10) joins dockH_def Let_def)
qed

text \<open>A terminal in which the bytes 1 and 2 count rows and columns.\<close>

definition ex_size :: "char \<Rightarrow> string \<Rightarrow> int" where "ex_size b s = int (length (filter (\<lambda>c. c = b) s))"

definition ex_block :: "int \<Rightarrow> int \<Rightarrow> string" where
  "ex_block h w = replicate (nat h) (CHR 0x01) @ replicate (nat w) (CHR 0x02)"

definition ex_lip :: lipgloss where
  "ex_lip = \<lparr>lg_box = (\<lambda>w h s. ex_block (h + 2) (w + 2)), lg_modalBox = id,
     lg_joinH = (\<lambda>a b. ex_block (max (ex_size (CHR 0x01) a) (ex_size (CHR 0x01) b)) (ex_size (CHR 0x02) a + ex_size (CHR 0x02) b)),
     lg_joinV = (\<lambda>xs. ex_block (sum_list (map (ex_size (CHR 0x01)) xs)) (fold max (map (ex_size (CHR 0x02)) xs) 0)), lg_width = (\<lambda>_. 0), lg_overlayDim = id\<rparr>"

definition ex_styles :: styles where
  "ex_styles = \<lparr>th_accent = id, th_dim = id, th_ok = (\<lambda>_. ex_block 1 80), th_warn = id, th_err = id, th_key = id, th_head = id\<rparr>"

definition ex_in_call :: Model where
  "ex_in_call = (NewModel [] [])\<lparr>m_width := 80, m_height := 24, m_dock := idleDock\<lparr>dk_State := ''connected''\<rparr>,
     m_footer := \<lparr>sf_Status = statusConnected, sf_Detail = [], sf_Width = 0\<rparr>\<rparr>"

lemma ex_size_block [simp]: "0 \<le> h \<Longrightarrow> ex_size (CHR 0x01) (ex_block h w) = h" "0 \<le> w \<Longrightarrow> ex_size (CHR 0x02) (ex_block h w) = w"
  by (simp_all add: ex_size_def ex_block_def)

lemma ex_size_nonneg [simp]: "0 \<le> ex_size n s" by (simp add: ex_size_def)

lemma fold_max_ge: "a \<le> fold max xs (a :: int)"
proof (induction xs arbitrary: a)
  case (Cons x xs)
  have "max x a \<le> fold max xs (max x a)" by (rule Cons)
  then show ?case by simp
qed simp

lemma ex_box_law: "box_law (ex_size (CHR 0x01)) (ex_size (CHR 0x02)) (\<lambda>_ _. 0) ex_lip"
proof -
  have "0 \<le> max (ex_size b x) (ex_size b y)" for b x y using ex_size_nonneg [of b x] by linarith
  moreover have "0 \<le> sum_list (map (ex_size b) xs)" for b xs by (rule sum_list_nonneg) auto
  ultimately show ?thesis by (simp add: box_law_def ex_lip_def fold_max_ge)
qed

theorem active_dock_overflows_witness:
  "\<exists>v. View ex_lip ex_styles (\<lambda>_. []) (\<lambda>_. []) ex_tui 0 ex_in_call = Some v \<and> (ex_size (CHR 0x01) v, ex_size (CHR 0x02) v) = (26, 82)"
proof -
  have m: "m_width ex_in_call = 80" "m_height ex_in_call = 24" "m_modal ex_in_call = None" "Active (m_dock ex_in_call)"
    by (simp_all add: ex_in_call_def NewModel_def Active_def)
  obtain v where v: "View ex_lip ex_styles (\<lambda>_. []) (\<lambda>_. []) ex_tui 0 ex_in_call = Some v"
    using View_defined [of ex_in_call ex_lip ex_styles "\<lambda>_. []" "\<lambda>_. []" ex_tui 0] m(1)
    by (auto simp: ex_lip_def [THEN arg_cong [where f = lg_width]])
  have foot: "ex_size (CHR 0x01) (renderStatusFooter (lg_width ex_lip) ex_styles (m_footer ex_in_call)) = 1"
    "ex_size (CHR 0x02) (renderStatusFooter (lg_width ex_lip) ex_styles (m_footer ex_in_call)) = 80"
    by (simp_all add: renderStatusFooter_def footer_keys_def footer_indicator_def ex_in_call_def ex_styles_def ex_size_def ex_block_def)
  have "(ex_size (CHR 0x01) v, ex_size (CHR 0x02) v) = (26, 82)"
    using active_dock_overflows [OF ex_box_law _ _ m(3) v _ _ _ foot(1)] foot(2) m
    by (simp add: upperH_def dockH_def Let_def)
  with v show ?thesis by blast
qed

end
