(* ===== verification/Client_Requests.thy ===== *)
theory Client_Requests
  imports Tui_Run "HOL-Library.Sublist"
begin

text \<open>
  What the two clients send to the daemon: the terminal interface through \<open>realClient\<close> (\<open>cli/tui/ipc_client.go\<close>) and
  the commands (\<open>cli/*.go\<close>), against the table of methods the daemon registers (\<open>app/daemon.go\<close>) with what each
  handler decodes and answers. Then \<open>realSubscription\<close>, the goroutine that hands the events of a subscription on.
\<close>

section \<open>Requests\<close>

datatype request_params =
    NoParams
  | FriendsAddP string string
  | NameP string
  | RenameP string string
  | TargetP string
  | CallIDP string
  | ActionP string string string
  | TTLP string
  | CodeP string

datatype params_shape = ShIgnored | ShFriendsAdd | ShName | ShRename | ShTarget | ShCallID | ShAction | ShTTL | ShCode

datatype result_shape =
    RsFriendsList | RsFriend | RsRemoved | RsRenamed | RsShow | RsSubscription | RsCalls | RsStatusText | RsDaemon | RsInvite
  | RsInviteList | RsRedeem | RsSummary | RsVersion | RsIdentity

fun shape_of :: "request_params \<Rightarrow> params_shape option" where
  "shape_of NoParams = None"
| "shape_of (FriendsAddP k n) = Some ShFriendsAdd"
| "shape_of (NameP n) = Some ShName"
| "shape_of (RenameP n m) = Some ShRename"
| "shape_of (TargetP t) = Some ShTarget"
| "shape_of (CallIDP i) = Some ShCallID"
| "shape_of (ActionP i a r) = Some ShAction"
| "shape_of (TTLP t) = Some ShTTL"
| "shape_of (CodeP c) = Some ShCode"

text \<open>The methods \<open>Run\<close> registers, with the type their handler decodes and the type it answers. A start or an attach
  answers with a struct that has a subscription id.\<close>

definition registered :: "(string \<times> params_shape \<times> result_shape) list" where
  "registered =
    [(''daemon.status'', ShIgnored, RsDaemon), (''daemon.shutdown'', ShIgnored, RsStatusText), (''version.check'', ShIgnored, RsVersion),
     (''identity.get'', ShIgnored, RsIdentity),
     (''friends.add'', ShFriendsAdd, RsFriend), (''friends.list'', ShIgnored, RsFriendsList), (''friends.remove'', ShName, RsRemoved),
     (''friends.rename'', ShRename, RsRenamed), (''friends.show'', ShName, RsShow),
     (''friends.subscribe_presence'', ShIgnored, RsSubscription),
     (''calls.start'', ShTarget, RsSubscription), (''calls.list'', ShIgnored, RsCalls), (''calls.attach'', ShCallID, RsSubscription),
     (''calls.action'', ShAction, RsStatusText), (''calls.subscribe'', ShIgnored, RsSubscription),
     (''invite.create'', ShTTL, RsInvite), (''invite.list'', ShIgnored, RsInviteList), (''invite.revoke'', ShCode, RsRemoved),
     (''invite.redeem'', ShCode, RsRedeem), (''invite.subscribe_redemption'', ShCode, RsSubscription),
     (''daemon.status_summary'', ShIgnored, RsSummary)]"

text \<open>The request a command of the terminal interface makes, and what it decodes the answer into.\<close>

fun tui_request :: "Cmd \<Rightarrow> (string \<times> request_params \<times> result_shape) option" where
  "tui_request LoadFriends = Some (''friends.list'', NoParams, RsFriendsList)"
| "tui_request LoadCalls = Some (''calls.list'', NoParams, RsCalls)"
| "tui_request LoadDaemonStatus = Some (''daemon.status'', NoParams, RsDaemon)"
| "tui_request (AddFriendCmd keyPath name) = Some (''friends.add'', FriendsAddP keyPath name, RsFriend)"
| "tui_request (RenameFriendCmd name newName) = Some (''friends.rename'', RenameP name newName, RsRenamed)"
| "tui_request (RemoveFriendCmd name) = Some (''friends.remove'', NameP name, RsRemoved)"
| "tui_request (CreateInviteCmd ttl) = Some (''invite.create'', TTLP ttl, RsInvite)"
| "tui_request (RedeemInviteCmd code) = Some (''invite.redeem'', CodeP code, RsRedeem)"
| "tui_request (StartCallCmd target) = Some (''calls.start'', TargetP target, RsSubscription)"
| "tui_request (CallActionCmd callID action reason) = Some (''calls.action'', ActionP callID action reason, RsStatusText)"
| "tui_request SubscribePresenceCmd = Some (''friends.subscribe_presence'', NoParams, RsSubscription)"
| "tui_request SubscribeCallsCmd = Some (''calls.subscribe'', NoParams, RsSubscription)"
| "tui_request (SubscribeInviteRedemptionCmd code) = Some (''invite.subscribe_redemption'', CodeP code, RsSubscription)"
| "tui_request TickDaemonStatus = Some (''daemon.status'', NoParams, RsDaemon)"
| "tui_request TickCallsList = Some (''calls.list'', NoParams, RsCalls)"
| "tui_request _ = None"

text \<open>The requests of the commands; a result that is \<open>None\<close> is not decoded.\<close>

datatype cli_call =
    CliFriendsAdd string string | CliFriendsList | CliFriendsRemove string | CliFriendsRename string string | CliFriendsShow string
  | CliCallsList | CliCallsAction string string string | CliCallsStart string | CliCallsAttach string
  | CliShutdown | CliDaemonStatus | CliSummary | CliVersionCheck
  | CliInviteCreate string | CliInviteList | CliInviteRevoke string | CliInviteRedeem string

fun cli_request :: "cli_call \<Rightarrow> string \<times> request_params \<times> result_shape option" where
  "cli_request (CliFriendsAdd keyPath name) = (''friends.add'', FriendsAddP keyPath name, Some RsFriend)"
| "cli_request CliFriendsList = (''friends.list'', NoParams, Some RsFriendsList)"
| "cli_request (CliFriendsRemove name) = (''friends.remove'', NameP name, None)"
| "cli_request (CliFriendsRename name to) = (''friends.rename'', RenameP name to, None)"
| "cli_request (CliFriendsShow name) = (''friends.show'', NameP name, Some RsShow)"
| "cli_request CliCallsList = (''calls.list'', NoParams, Some RsCalls)"
| "cli_request (CliCallsAction callID action reason) = (''calls.action'', ActionP callID action reason, None)"
| "cli_request (CliCallsStart target) = (''calls.start'', TargetP target, Some RsSubscription)"
| "cli_request (CliCallsAttach callID) = (''calls.attach'', CallIDP callID, Some RsSubscription)"
| "cli_request CliShutdown = (''daemon.shutdown'', NoParams, Some RsStatusText)"
| "cli_request CliDaemonStatus = (''daemon.status'', NoParams, Some RsDaemon)"
| "cli_request CliSummary = (''daemon.status_summary'', NoParams, Some RsSummary)"
| "cli_request CliVersionCheck = (''version.check'', NoParams, Some RsVersion)"
| "cli_request (CliInviteCreate ttl) = (''invite.create'', TTLP ttl, Some RsInvite)"
| "cli_request CliInviteList = (''invite.list'', NoParams, Some RsInviteList)"
| "cli_request (CliInviteRevoke code) = (''invite.revoke'', CodeP code, Some RsRemoved)"
| "cli_request (CliInviteRedeem code) = (''invite.redeem'', CodeP code, Some RsRedeem)"

text \<open>A request is well typed when its method is registered, its handler decodes what it carries or decodes nothing, and
  what the client decodes the answer into is what the handler answers.\<close>

definition well_typed :: "string \<times> request_params \<times> result_shape option \<Rightarrow> bool" where
  "well_typed q =
    (case q of (m, p, r) \<Rightarrow>
       case map_of registered m of
         None \<Rightarrow> False
       | Some (s, a) \<Rightarrow> (s = ShIgnored \<or> shape_of p = Some s) \<and> (case r of None \<Rightarrow> True | Some r \<Rightarrow> r = a))"


section \<open>Subscriptions of the terminal interface\<close>

text \<open>The forwarding goroutine between the channel of the IPC client and the channel the interface reads; \<open>fw_hold\<close> is
  the event it has received and not yet sent. The IPC client adds to the inner channel without blocking.\<close>

record 'e Forward =
  fw_inner :: "'e chan"
  fw_hold :: "'e option"
  fw_ch :: "'e chan"
  fw_done :: bool
  fw_running :: bool

definition wrapSubscription :: "'e chan \<Rightarrow> 'e Forward" where
  "wrapSubscription inner = \<lparr>fw_inner = inner, fw_hold = None, fw_ch = make_chan 16, fw_done = False, fw_running = True\<rparr>"

definition forward_stop :: "'e Forward \<Rightarrow> 'e Forward" where
  "forward_stop f = f\<lparr>fw_running := False, fw_hold := None, fw_ch := close_chan (fw_ch f)\<rparr>"

text \<open>The turns of the goroutine: receive, send, and the ways it returns. When several are possible any may happen.\<close>

datatype fwd_turn = FwdReceive | FwdSend | FwdInnerClosed | FwdDone

fun forward_turn :: "fwd_turn \<Rightarrow> 'e Forward \<Rightarrow> 'e Forward" where
  "forward_turn FwdReceive f =
    (if fw_running f \<and> fw_hold f = None
     then (case recv_nb (fw_inner f) of (Some e, c) \<Rightarrow> f\<lparr>fw_inner := c, fw_hold := Some e\<rparr> | (None, _) \<Rightarrow> f) else f)"
| "forward_turn FwdSend f =
    (if fw_running f \<and> \<not> ch_full (fw_ch f)
     then (case fw_hold f of Some e \<Rightarrow> f\<lparr>fw_ch := send_nb e (fw_ch f), fw_hold := None\<rparr> | None \<Rightarrow> f) else f)"
| "forward_turn FwdInnerClosed f =
    (if fw_running f \<and> fw_hold f = None \<and> ch_buf (fw_inner f) = [] \<and> ch_closed (fw_inner f) then forward_stop f else f)"
| "forward_turn FwdDone f = (if fw_running f \<and> fw_done f then forward_stop f else f)"

definition Close_subscription :: "'e Forward \<Rightarrow> 'e Forward" where
  "Close_subscription f = f\<lparr>fw_done := True, fw_inner := close_chan (fw_inner f)\<rparr>"

datatype 'e fwd_op = Arrive 'e | Turn fwd_turn | ReadEvent | CloseSub

text \<open>A run keeps, beside the state, what the inner channel accepted and what the interface read.\<close>

fun fwd_step :: "'e fwd_op \<Rightarrow> 'e list \<times> 'e list \<times> 'e Forward \<Rightarrow> 'e list \<times> 'e list \<times> 'e Forward" where
  "fwd_step (Arrive e) (acc, got, f) =
    ((if ch_closed (fw_inner f) \<or> ch_full (fw_inner f) then acc else acc @ [e]), got, f\<lparr>fw_inner := send_nb e (fw_inner f)\<rparr>)"
| "fwd_step (Turn t) (acc, got, f) = (acc, got, forward_turn t f)"
| "fwd_step ReadEvent (acc, got, f) =
    (case recv_nb (fw_ch f) of (Some e, c) \<Rightarrow> (acc, got @ [e], f\<lparr>fw_ch := c\<rparr>) | (None, _) \<Rightarrow> (acc, got, f))"
| "fwd_step CloseSub (acc, got, f) = (acc, got, Close_subscription f)"

definition fwd_inv :: "'e list \<times> 'e list \<times> 'e Forward \<Rightarrow> bool" where
  "fwd_inv s =
    (case s of (acc, got, f) \<Rightarrow>
       (fw_running f \<longrightarrow> \<not> ch_closed (fw_ch f) \<and>
          acc = got @ ch_buf (fw_ch f) @ (case fw_hold f of None \<Rightarrow> [] | Some e \<Rightarrow> [e]) @ ch_buf (fw_inner f)) \<and>
       (\<exists>rest. acc = got @ ch_buf (fw_ch f) @ rest) \<and>
       (\<not> fw_running f \<longrightarrow> ch_closed (fw_ch f) \<and> fw_hold f = None) \<and>
       (\<not> fw_running f \<and> \<not> fw_done f \<longrightarrow> ch_closed (fw_inner f) \<and> acc = got @ ch_buf (fw_ch f)))"

lemma fwd_inv_turn: "fwd_inv (acc, got, f) \<Longrightarrow> fwd_inv (acc, got, forward_turn t f)"
  by (cases t)
    (auto simp: fwd_inv_def forward_stop_def close_chan_def recv_nb_def send_nb_def split: list.splits option.splits)

lemma fwd_inv_step: "fwd_inv s \<Longrightarrow> fwd_inv (fwd_step op s)"
proof (cases s)
  case (fields acc got f)
  assume "fwd_inv s"
  then show ?thesis
  proof (cases op)
    case (Turn t)
    with \<open>fwd_inv s\<close> fields show ?thesis by (simp add: fwd_inv_turn)
  qed (use fields \<open>fwd_inv s\<close> in \<open>auto simp: fwd_inv_def recv_nb_def send_nb_def Close_subscription_def close_chan_def
      split: list.splits option.splits if_splits\<close>)
qed

text \<open>Whatever the interleaving, the interface reads of a subscription a prefix of what the IPC client queued for it, in
  order; as long as nobody closed the subscription nothing is lost, also not when the connection ends: what was read
  and what still waits in the two channels and the goroutine is all of it.\<close>
theorem subscription_forwards_in_order:
  assumes "ch_buf inner = []" and "\<not> ch_closed inner" and "fold fwd_step ops ([], [], wrapSubscription inner) = (acc, got, f)"
  shows "prefix got acc \<and>
    (\<not> fw_done f \<longrightarrow> acc = got @ ch_buf (fw_ch f) @ (case fw_hold f of None \<Rightarrow> [] | Some e \<Rightarrow> [e]) @ (if fw_running f then ch_buf (fw_inner f) else []))"
proof -
  have "fwd_inv ([], [], wrapSubscription inner)" using assms(1,2) by (simp add: fwd_inv_def wrapSubscription_def make_chan_def)
  then have "fwd_inv (fold fwd_step ops ([], [], wrapSubscription inner))"
    by (induction ops rule: rev_induct) (auto simp: fwd_inv_step)
  then show ?thesis by (auto simp: assms(3) fwd_inv_def prefix_def)
qed

theorem subscription_forwards_in_order_witness:
  "\<exists>acc got f. fold fwd_step [Arrive ''e1'', Turn FwdReceive, Arrive ''e2'', Turn FwdSend, ReadEvent] ([], [], wrapSubscription (make_chan 16))
     = (acc, got, f) \<and> got = [''e1''] \<and> prefix got acc"
proof -
  obtain acc got f where r: "fold fwd_step [Arrive ''e1'', Turn FwdReceive, Arrive ''e2'', Turn FwdSend, ReadEvent]
      ([], [], wrapSubscription (make_chan 16)) = (acc, got, f)" by (metis prod_cases3)
  then have "got = [''e1'']"
    by (auto simp: wrapSubscription_def make_chan_def send_nb_def recv_nb_def ch_full_def)
  moreover have "prefix got acc"
    using subscription_forwards_in_order [OF _ _ r] by (simp add: make_chan_def)
  ultimately show ?thesis using r by blast
qed

end
