(* ===== verification/Cli_Upgrade.thy ===== *)
theory Cli_Upgrade
  imports Version Go_Encoding
begin

text \<open>
  \<open>opencom upgrade\<close> (\<open>cli/upgrade.go\<close>): finding the release asset for the platform, downloading it, checking its
  SHA-256 sum, unpacking the binary and putting it in place of the running one. The web, the hash, gzip and tar are
  parameters; the directory of the binary is a file system as in \<open>Iox\<close>.
\<close>

section \<open>Release assets\<close>

record releaseAsset =
  ra_tag :: string
  ra_tarballName :: string
  ra_tarballURL :: string
  ra_checksumsURL :: string

datatype extract_error = ErrOpenArchive | ErrGzip | ErrTar | ErrBinaryNotFound | ErrCreateBinary | ErrReadEntry

datatype upgrade_error =
    ErrDevBuild | ErrExecutable | ErrSymlinks | ErrFetchRelease | ErrReleaseStatus nat | ErrReleaseDecode | ErrNoTag
  | ErrUnsupportedOS string | ErrUnsupportedArch string | ErrNoAsset string | ErrNoChecksumsAsset | ErrTempDir
  | ErrDownloadTarball | ErrDownloadChecksums | ErrNoChecksumEntry | ErrHash | ErrChecksumMismatch string string
  | ErrExtract extract_error | ErrChmodNew | ErrReplaceBinary

definition platformAssetParts :: "string \<Rightarrow> string \<Rightarrow> upgrade_error + string \<times> string \<times> string" where
  "platformAssetParts goos goarch =
    (case (if goos = ''linux'' then Some (''Linux'', ''tar.gz'') else if goos = ''darwin'' then Some (''Darwin'', ''tar.gz'')
           else if goos = ''windows'' then Some (''Windows'', ''zip'') else None) of
       None \<Rightarrow> Inl (ErrUnsupportedOS goos)
     | Some (osTitle, ext) \<Rightarrow>
         if goarch = ''amd64'' then Inr (osTitle, ''x86_64'', ext)
         else if goarch = ''arm64'' then Inr (osTitle, ''arm64'', ext)
         else Inl (ErrUnsupportedArch goarch))"

text \<open>The loop over the assets: of several with the same name the last one counts.\<close>

fun pick_assets :: "string \<Rightarrow> (string \<times> string) list \<Rightarrow> releaseAsset \<Rightarrow> releaseAsset" where
  "pick_assets want [] a = a"
| "pick_assets want ((name, url) # rest) a =
    pick_assets want rest
      (if name = want then a\<lparr>ra_tarballURL := url\<rparr> else if name = ''checksums.txt'' then a\<lparr>ra_checksumsURL := url\<rparr> else a)"

definition tarball_name :: "string \<Rightarrow> string \<times> string \<times> string \<Rightarrow> string" where
  "tarball_name tag parts =
    (case parts of (osTitle, arch, ext) \<Rightarrow> ''opencom_'' @ TrimPrefix ''v'' tag @ ''_'' @ osTitle @ ''_'' @ arch @ ''.'' @ ext)"

text \<open>The answer of the releases API: \<open>None\<close> when it cannot be reached, its status, and its tag and assets when they decode.\<close>

definition resolveReleaseAsset ::
    "string \<Rightarrow> string \<Rightarrow> (nat \<times> (string \<times> (string \<times> string) list) option) option \<Rightarrow> upgrade_error + releaseAsset" where
  "resolveReleaseAsset goos goarch answer =
    (case answer of
       None \<Rightarrow> Inl ErrFetchRelease
     | Some (status, payload) \<Rightarrow>
         if status \<noteq> 200 then Inl (ErrReleaseStatus status)
         else (case payload of
            None \<Rightarrow> Inl ErrReleaseDecode
          | Some (tag, assets) \<Rightarrow>
              if tag = [] then Inl ErrNoTag
              else (case platformAssetParts goos goarch of
                 Inl e \<Rightarrow> Inl e
               | Inr parts \<Rightarrow>
                   (let want = tarball_name tag parts;
                        a = pick_assets want assets \<lparr>ra_tag = tag, ra_tarballName = want, ra_tarballURL = [], ra_checksumsURL = []\<rparr>
                    in if ra_tarballURL a = [] then Inl (ErrNoAsset want)
                       else if ra_checksumsURL a = [] then Inl ErrNoChecksumsAsset
                       else Inr a))))"

section \<open>Downloads and checksums\<close>

text \<open>\<open>web\<close> gives the status of a URL, its body, and whether the body arrived whole. The result is the file written.\<close>

definition download_to :: "(string \<Rightarrow> (nat \<times> string \<times> bool) option) \<Rightarrow> bool \<Rightarrow> string \<Rightarrow> string option" where
  "download_to web create url =
    (case web url of
       None \<Rightarrow> None
     | Some (status, body, whole) \<Rightarrow> if status = 200 \<and> create \<and> whole then Some body else None)"

text \<open>\<open>strings.Fields\<close>: the maximal pieces without white space.\<close>

function span_field :: "string \<Rightarrow> string \<times> string" where
  "span_field s =
    (if s = [] \<or> is_space (fst (decode_rune s)) then ([], s)
     else let w = snd (decode_rune s) in apfst (append (take w s)) (span_field (drop w s)))"
  by pat_completeness auto
termination
  by (relation "measure length") (use decode_rune_width in \<open>auto simp: Suc_le_eq\<close>)

declare span_field.simps [simp del]

lemma span_field_shorter: "length (snd (span_field s)) \<le> length s"
proof (induction s rule: span_field.induct)
  case (1 s)
  show ?case
  proof (cases "s = [] \<or> is_space (fst (decode_rune s))")
    case True
    then show ?thesis by (simp add: span_field.simps)
  next
    case False
    with 1 [OF False refl] show ?thesis by (subst span_field.simps) (simp add: Let_def)
  qed
qed

lemma span_field_strict:
  assumes "s \<noteq> []" and "\<not> is_space (fst (decode_rune s))"
  shows "length (snd (span_field s)) < length s"
proof -
  have "0 < snd (decode_rune s)" using decode_rune_width [of s] assms(1) by auto
  then have "length (drop (snd (decode_rune s)) s) < length s" using assms(1) by simp
  moreover have "span_field s = apfst (append (take (snd (decode_rune s)) s)) (span_field (drop (snd (decode_rune s)) s))"
    using assms by (subst span_field.simps) (simp add: Let_def)
  ultimately show ?thesis using span_field_shorter [of "drop (snd (decode_rune s)) s"] by simp
qed

lemma trim_left_shorter: "length (trim_left s) \<le> length s"
proof (induction s rule: trim_left.induct)
  case (1 s)
  then show ?case by (subst trim_left.simps) auto
qed

lemma trim_left_start: "trim_left s \<noteq> [] \<Longrightarrow> \<not> is_space (fst (decode_rune (trim_left s)))"
proof (induction s rule: trim_left.induct)
  case (1 s)
  then show ?case by (subst trim_left.simps, subst (asm) trim_left.simps) (auto split: if_splits)
qed

function Fields :: "string \<Rightarrow> string list" where
  "Fields s = (let t = trim_left s in if t = [] then [] else fst (span_field t) # Fields (snd (span_field t)))"
  by pat_completeness auto
termination
proof (relation "measure length")
  fix s t assume "t = trim_left s" "t \<noteq> []"
  then show "(snd (span_field t), s) \<in> measure length"
    using span_field_strict [of t] trim_left_start [of s] trim_left_shorter [of s] by simp
qed simp

declare Fields.simps [simp del]

fun checksum_scan :: "(rune \<Rightarrow> rune) \<Rightarrow> string \<Rightarrow> string list \<Rightarrow> string option" where
  "checksum_scan lower filename [] = None"
| "checksum_scan lower filename (line # rest) =
    (case Fields line of
       [digest, name] \<Rightarrow>
         if name = filename \<or> name = CHR ''*'' # filename then Some (ToLower lower digest) else checksum_scan lower filename rest
     | _ \<Rightarrow> checksum_scan lower filename rest)"

definition lookupChecksum :: "(rune \<Rightarrow> rune) \<Rightarrow> string \<Rightarrow> string \<Rightarrow> string option" where
  "lookupChecksum lower contents filename = checksum_scan lower filename (split_on (CHR 0x0A) contents)"

section \<open>Unpacking and replacing\<close>

text \<open>An archive that opens as gzip is its entries (a name and, when it can be read, the contents) and whether reading on
  fails after the last of them instead of reaching the end.\<close>

fun extract_loop :: "(string \<Rightarrow> string) \<Rightarrow> string \<Rightarrow> bool \<Rightarrow> (string \<times> string option) list \<Rightarrow> bool \<Rightarrow> extract_error + string" where
  "extract_loop base binName create [] broken = Inl (if broken then ErrTar else ErrBinaryNotFound)"
| "extract_loop base binName create ((name, contents) # rest) broken =
    (if base name \<noteq> binName then extract_loop base binName create rest broken
     else if \<not> create then Inl ErrCreateBinary
     else (case contents of None \<Rightarrow> Inl ErrReadEntry | Some c \<Rightarrow> Inr c))"

definition extractBinary ::
    "(string \<Rightarrow> string) \<Rightarrow> (string \<Rightarrow> ((string \<times> string option) list \<times> bool) option) \<Rightarrow> bool \<Rightarrow> string \<Rightarrow> string \<Rightarrow> bool \<Rightarrow> extract_error + string" where
  "extractBinary base targz opens archive binName create =
    (if \<not> opens then Inl ErrOpenArchive
     else case targz archive of None \<Rightarrow> Inl ErrGzip | Some (entries, broken) \<Rightarrow> extract_loop base binName create entries broken)"

text \<open>Which system calls of \<open>replaceBinary\<close> succeed.\<close>

record replace_env =
  rb_open :: bool
  rb_create :: bool
  rb_copy :: bool
  rb_close :: bool
  rb_rename :: bool

definition replaceBinary :: "replace_env \<Rightarrow> string \<Rightarrow> string \<Rightarrow> string \<Rightarrow> string fs \<Rightarrow> bool \<times> string fs" where
  "replaceBinary env tmp src exePath fs =
    (if \<not> rb_open env \<or> \<not> rb_create env then (False, fs)
     else let created = fs(tmp \<mapsto> Partial); removed = (\<lambda>f. f(tmp := None)) in
       if \<not> rb_copy env then (False, removed created)
       else let copied = created(tmp \<mapsto> Data src) in
         if \<not> rb_close env then (False, removed copied)
         else if \<not> rb_rename env then (False, removed copied)
         else (True, (copied(tmp := None))(exePath \<mapsto> Data src)))"

record upgrade_env =
  ue_version :: string
  ue_force :: bool
  ue_goos :: string
  ue_goarch :: string
  ue_executable :: "string option"
  ue_resolve :: "string \<Rightarrow> string option"
  ue_release :: "(nat \<times> (string \<times> (string \<times> string) list) option) option"
  ue_tempdir :: bool
  ue_web :: "string \<Rightarrow> (nat \<times> string \<times> bool) option"
  ue_create :: "string \<Rightarrow> bool"
  ue_lower :: "rune \<Rightarrow> rune"
  ue_sha256 :: "string \<Rightarrow> string option"
  ue_base :: "string \<Rightarrow> string"
  ue_tmpName :: "string \<Rightarrow> string"
  ue_targz :: "string \<Rightarrow> ((string \<times> string option) list \<times> bool) option"
  ue_open :: bool
  ue_chmod :: bool
  ue_replace :: replace_env

datatype upgrade_result = AlreadyLatest | Installed string

definition same_version :: "string \<Rightarrow> string \<Rightarrow> bool" where
  "same_version tag current \<longleftrightarrow> TrimPrefix ''v'' tag = TrimPrefix ''v'' current"

definition bin_name :: "string \<Rightarrow> string" where
  "bin_name goos = (if goos = ''windows'' then ''opencom.exe'' else ''opencom'')"

text \<open>Steps 3 to 5: the verified binary of an asset.\<close>

definition fetch_binary :: "upgrade_env \<Rightarrow> releaseAsset \<Rightarrow> upgrade_error + string" where
  "fetch_binary v a =
    (case download_to (ue_web v) (ue_create v (ra_tarballName a)) (ra_tarballURL a) of
       None \<Rightarrow> Inl ErrDownloadTarball
     | Some tarball \<Rightarrow>
         (case download_to (ue_web v) (ue_create v ''checksums.txt'') (ra_checksumsURL a) of
            None \<Rightarrow> Inl ErrDownloadChecksums
          | Some sums \<Rightarrow>
              (case lookupChecksum (ue_lower v) sums (ra_tarballName a) of
                 None \<Rightarrow> Inl ErrNoChecksumEntry
               | Some expected \<Rightarrow>
                   (case map_option hex_encode (ue_sha256 v tarball) of
                      None \<Rightarrow> Inl ErrHash
                    | Some got \<Rightarrow>
                        if got \<noteq> expected then Inl (ErrChecksumMismatch got expected)
                        else (case extractBinary (ue_base v) (ue_targz v) (ue_open v) tarball (bin_name (ue_goos v)) (ue_create v (bin_name (ue_goos v))) of
                          Inl e \<Rightarrow> Inl (ErrExtract e)
                        | Inr bin \<Rightarrow> if \<not> ue_chmod v then Inl ErrChmodNew else Inr bin)))))"

definition runUpgrade :: "upgrade_env \<Rightarrow> string fs \<Rightarrow> (upgrade_error + upgrade_result) \<times> string fs" where
  "runUpgrade v fs =
    (if ue_version v = ''dev'' \<and> \<not> ue_force v then (Inl ErrDevBuild, fs)
     else case ue_executable v of
       None \<Rightarrow> (Inl ErrExecutable, fs)
     | Some link \<Rightarrow>
         (case ue_resolve v link of
            None \<Rightarrow> (Inl ErrSymlinks, fs)
          | Some exePath \<Rightarrow>
              (case resolveReleaseAsset (ue_goos v) (ue_goarch v) (ue_release v) of
                 Inl e \<Rightarrow> (Inl e, fs)
               | Inr a \<Rightarrow>
                   if \<not> ue_force v \<and> same_version (ra_tag a) (ue_version v) then (Inr AlreadyLatest, fs)
                   else if \<not> ue_tempdir v then (Inl ErrTempDir, fs)
                   else (case fetch_binary v a of
                      Inl e \<Rightarrow> (Inl e, fs)
                    | Inr bin \<Rightarrow>
                        (case replaceBinary (ue_replace v) (ue_tmpName v exePath) bin exePath fs of
                           (ok, fs') \<Rightarrow> (if ok then Inr (Installed (TrimPrefix ''v'' (ra_tag a))) else Inl ErrReplaceBinary, fs'))))))"

section \<open>Checksum files\<close>

definition graphic :: "string \<Rightarrow> bool" where "graphic s \<longleftrightarrow> s \<noteq> [] \<and> (\<forall>c\<in>set s. 33 \<le> byte c \<and> byte c \<le> 126)"

text \<open>What \<open>sha256sum\<close> writes: a line per file.\<close>

definition checksum_line :: "string \<times> string \<Rightarrow> string" where "checksum_line e = snd e @ ''  '' @ fst e"

lemma not_space_graphic: "33 \<le> b \<Longrightarrow> b \<le> 126 \<Longrightarrow> \<not> is_space b"
  by (auto simp: is_space_def)

lemma span_field_graphic:
  "(\<forall>c\<in>set a. 33 \<le> byte c \<and> byte c \<le> 126) \<Longrightarrow> span_field (a @ s) = apfst (append a) (span_field s)"
proof (induction a)
  case (Cons c a)
  then show ?case by (subst span_field.simps, cases "span_field s") (simp add: Let_def not_space_graphic)
qed (simp add: apfst_def map_prod_def split: prod.split)

lemma trim_left_graphic: "graphic a \<Longrightarrow> trim_left (a @ s) = a @ s"
  by (cases a; subst trim_left.simps) (auto simp: graphic_def not_space_graphic)

lemma Fields_line:
  assumes "graphic d" and "graphic n"
  shows "Fields (checksum_line (n, d)) = [d, n]"
proof -
  have sp: "is_space 32" by (simp add: is_space_def)
  have e: "span_field [] = ([], [])" "trim_left [] = []" by (simp_all add: span_field.simps trim_left.simps)
  have s1: "span_field (d @ ''  '' @ n) = (d, ''  '' @ n)"
    using assms(1) span_field_graphic [of d "''  '' @ n"] by (simp add: graphic_def span_field.simps [of "CHR '' '' # _"] sp)
  have t: "trim_left (''  '' @ n) = n"
    using trim_left_graphic [OF assms(2), of "[]"] by (simp add: trim_left.simps [of "CHR '' '' # _"] sp)
  have s2: "span_field n = (n, [])" using assms(2) span_field_graphic [of n "[]"] by (simp add: graphic_def e)
  have "Fields (''  '' @ n) = [n]"
    using assms(2) by (subst Fields.simps) (simp add: t s2 Fields.simps [of "[]"] e graphic_def del: append_Cons)
  then show ?thesis
    using assms(1) trim_left_graphic [OF assms(1), of "''  '' @ n"]
    by (subst Fields.simps) (simp add: checksum_line_def s1 graphic_def del: append_Cons)
qed

lemma line_no_newline: "graphic d \<Longrightarrow> graphic n \<Longrightarrow> CHR 0x0A \<notin> set (checksum_line (n, d))"
  by (auto simp: graphic_def checksum_line_def)

definition checksum_file :: "(string \<times> string) list \<Rightarrow> string" where
  "checksum_file es = join [CHR 0x0A] (map checksum_line es @ [[]])"

text \<open>A checksums file gives the first digest it lists for a name.\<close>

lemma lookup_listed:
  assumes "\<forall>(n, d)\<in>set es. graphic n \<and> graphic d \<and> n \<noteq> CHR ''*'' # name" and "map_of es name = Some d"
  shows "lookupChecksum lower (checksum_file es) name = Some (ToLower lower d)"
proof -
  have "split_on (CHR 0x0A) (checksum_file es) = map checksum_line es @ [[]]"
    unfolding checksum_file_def using assms(1) line_no_newline by (intro split_join) auto
  moreover have "checksum_scan lower name (map checksum_line es @ [[]]) = Some (ToLower lower d)"
    using assms(1,2) by (induction es) (auto simp: Fields_line split: if_splits)
  ultimately show ?thesis by (simp add: lookupChecksum_def)
qed

section \<open>Properties\<close>

text \<open>What \<open>fetch_binary\<close> returns was checked against the checksums file.\<close>

definition verified :: "upgrade_env \<Rightarrow> releaseAsset \<Rightarrow> string \<Rightarrow> bool" where
  "verified v a bin \<longleftrightarrow>
    (\<exists>tarball sums digest.
       ue_web v (ra_tarballURL a) = Some (200, tarball, True) \<and> ue_web v (ra_checksumsURL a) = Some (200, sums, True) \<and>
       ue_sha256 v tarball = Some digest \<and> lookupChecksum (ue_lower v) sums (ra_tarballName a) = Some (hex_encode digest) \<and>
       (\<exists>entries broken name. ue_targz v tarball = Some (entries, broken) \<and> (name, Some bin) \<in> set entries \<and>
          ue_base v name = bin_name (ue_goos v)))"

lemma extract_loop_entry:
  "extract_loop base b create entries broken = Inr bin \<Longrightarrow> \<exists>name. (name, Some bin) \<in> set entries \<and> base name = b"
  by (induction base b create entries broken rule: extract_loop.induct) (auto split: if_splits option.splits)

lemma fetch_binary_verified: "fetch_binary v a = Inr bin \<Longrightarrow> verified v a bin"
  unfolding verified_def fetch_binary_def extractBinary_def download_to_def
  by (auto split: option.splits sum.splits if_splits prod.splits dest!: extract_loop_entry)

lemma replaceBinary_effect:
  assumes "tmp \<noteq> exePath" and "replaceBinary env tmp src exePath fs = (ok, fs')"
  shows "fs' exePath = (if ok then Some (Data src) else fs exePath) \<and>
    (\<forall>q. q \<noteq> exePath \<and> q \<noteq> tmp \<longrightarrow> fs' q = fs q) \<and> (fs' tmp = None \<or> fs' = fs)"
  using assms by (auto simp: replaceBinary_def Let_def split: if_splits)

text \<open>C6: An upgrade either leaves the installed binary exactly as it was or puts in its place a binary that was unpacked from
  the release asset whose SHA-256 sum the release's checksums file lists, and it reports success just then; no other
  file is touched and no partial file is left.\<close>
theorem upgrade_installs_only_verified:
  assumes "runUpgrade v fs = (r, fs')" and "ue_executable v = Some link" and "ue_resolve v link = Some exePath"
    and "ue_tmpName v exePath \<noteq> exePath"
  shows "(if \<exists>ver. r = Inr (Installed ver)
          then \<exists>a bin. resolveReleaseAsset (ue_goos v) (ue_goarch v) (ue_release v) = Inr a \<and> verified v a bin \<and>
                 r = Inr (Installed (TrimPrefix ''v'' (ra_tag a))) \<and> fs' exePath = Some (Data bin)
          else fs' exePath = fs exePath) \<and>
    (\<forall>q. q \<noteq> exePath \<and> q \<noteq> ue_tmpName v exePath \<longrightarrow> fs' q = fs q) \<and> (fs' (ue_tmpName v exePath) = None \<or> fs' = fs)"
proof (cases "\<exists>a bin. resolveReleaseAsset (ue_goos v) (ue_goarch v) (ue_release v) = Inr a \<and> fetch_binary v a = Inr bin \<and> fs' \<noteq> fs")
  case True
  then obtain a bin where a: "resolveReleaseAsset (ue_goos v) (ue_goarch v) (ue_release v) = Inr a" "fetch_binary v a = Inr bin" "fs' \<noteq> fs"
    by blast
  with assms(1-3) obtain ok where rep: "replaceBinary (ue_replace v) (ue_tmpName v exePath) bin exePath fs = (ok, fs')"
    and r: "r = (if ok then Inr (Installed (TrimPrefix ''v'' (ra_tag a))) else Inl ErrReplaceBinary)"
    by (auto simp: runUpgrade_def split: if_splits prod.splits)
  show ?thesis using replaceBinary_effect [OF assms(4) rep] a fetch_binary_verified [OF a(2)] r by auto
next
  case False
  show ?thesis
  proof (cases "\<exists>ver. r = Inr (Installed ver)")
    case True
    with assms(1-3) obtain a bin where a: "resolveReleaseAsset (ue_goos v) (ue_goarch v) (ue_release v) = Inr a" "fetch_binary v a = Inr bin"
      and rep: "replaceBinary (ue_replace v) (ue_tmpName v exePath) bin exePath fs = (True, fs')"
      and r: "r = Inr (Installed (TrimPrefix ''v'' (ra_tag a)))"
      by (auto simp: runUpgrade_def split: if_splits prod.splits sum.splits)
    show ?thesis using replaceBinary_effect [OF assms(4) rep] a fetch_binary_verified [OF a(2)] r by auto
  next
    case fails: False
    have "fs' = fs"
    proof (rule ccontr)
      assume "fs' \<noteq> fs"
      with assms(1-3) False show False by (auto simp: runUpgrade_def split: if_splits prod.splits sum.splits)
    qed
    with fails show ?thesis by auto
  qed
qed

text \<open>Windows assets are zip files, but they are opened as gzip.\<close>

lemma windows_asset_is_zip: "platformAssetParts ''windows'' goarch = Inr parts \<Longrightarrow> snd (snd parts) = ''zip''"
  by (auto simp: platformAssetParts_def split: if_splits)

text \<open>On Windows an upgrade never installs anything: the release asset for Windows is a zip archive, which the code opens
  as gzip. (gzip accepts only data with its own magic number, which differs from the \<open>PK\<close> of a zip archive.)\<close>
theorem upgrade_never_installs_on_windows:
  assumes "ue_goos v = ''windows''" and "\<And>b. take 2 b = ''PK'' \<Longrightarrow> ue_targz v b = None"
    and "\<And>a tarball. resolveReleaseAsset (ue_goos v) (ue_goarch v) (ue_release v) = Inr a \<Longrightarrow>
      ue_web v (ra_tarballURL a) = Some (200, tarball, True) \<Longrightarrow> take 2 tarball = ''PK''"
  shows "snd (runUpgrade v fs) = fs \<and> (\<nexists>ver. fst (runUpgrade v fs) = Inr (Installed ver))"
proof -
  have no: "fetch_binary v a \<noteq> Inr bin" if "resolveReleaseAsset (ue_goos v) (ue_goarch v) (ue_release v) = Inr a" for a bin
  proof
    assume "fetch_binary v a = Inr bin"
    then obtain tarball entries broken where "ue_web v (ra_tarballURL a) = Some (200, tarball, True)" "ue_targz v tarball = Some (entries, broken)"
      using fetch_binary_verified unfolding verified_def by blast
    with assms(2,3) that show False by force
  qed
  show ?thesis
  proof (cases "resolveReleaseAsset (ue_goos v) (ue_goarch v) (ue_release v)")
    case (Inr a)
    then obtain e where "fetch_binary v a = Inl e" using no [OF Inr] by (cases "fetch_binary v a") auto
    with Inr show ?thesis by (auto simp: runUpgrade_def split: option.split)
  qed (auto simp: runUpgrade_def split: option.split)
qed

definition ex_upgrade :: "string \<Rightarrow> upgrade_env" where
  "ex_upgrade goos =
    \<lparr>ue_version = ''1.0'', ue_force = False, ue_goos = goos, ue_goarch = ''amd64'', ue_executable = Some ''/bin/opencom'', ue_resolve = Some,
     ue_release = Some (200, Some (''v1.2'', [(tarball_name ''v1.2'' (''Linux'', ''x86_64'', ''tar.gz''), ''u1''),
       (tarball_name ''v1.2'' (''Windows'', ''x86_64'', ''zip''), ''u1''), (''checksums.txt'', ''u2'')])),
     ue_tempdir = True,
     ue_web = (\<lambda>u. Some (200, if u = ''u1'' then ''PK'' else checksum_file [(''opencom_1.2_Linux_x86_64.tar.gz'', ''4a'')], True)),
     ue_create = (\<lambda>_. True), ue_lower = id, ue_sha256 = (\<lambda>_. Some [CHR 0x4A]), ue_base = id, ue_tmpName = (\<lambda>e. e @ ''.new''),
     ue_targz = (\<lambda>b. if goos = ''windows'' then None else Some ([(''opencom'', Some ''new'')], False)), ue_open = True, ue_chmod = True,
     ue_replace = \<lparr>rb_open = True, rb_create = True, rb_copy = True, rb_close = True, rb_rename = True\<rparr>\<rparr>"

definition ex_bin_fs :: "string fs" where "ex_bin_fs = [''/bin/opencom'' \<mapsto> Data ''old'']"

definition ex_linux_asset :: releaseAsset where
  "ex_linux_asset = \<lparr>ra_tag = ''v1.2'', ra_tarballName = ''opencom_1.2_Linux_x86_64.tar.gz'', ra_tarballURL = ''u1'', ra_checksumsURL = ''u2''\<rparr>"

lemma ex_linux_resolve:
  "resolveReleaseAsset (ue_goos (ex_upgrade ''linux'')) (ue_goarch (ex_upgrade ''linux'')) (ue_release (ex_upgrade ''linux'')) = Inr ex_linux_asset"
  by (simp add: ex_upgrade_def resolveReleaseAsset_def platformAssetParts_def tarball_name_def TrimPrefix_def ex_linux_asset_def Let_def)

lemma ex_linux_fetch: "fetch_binary (ex_upgrade ''linux'') ex_linux_asset = Inr ''new''"
proof -
  have "lookupChecksum id (checksum_file [(''opencom_1.2_Linux_x86_64.tar.gz'', ''4a'')]) ''opencom_1.2_Linux_x86_64.tar.gz'' = Some (ToLower id ''4a'')"
    by (rule lookup_listed) (simp_all add: graphic_def)
  moreover have "ToLower id ''4a'' = ''4a''" unfolding ToLower_def by (rule str_map_id) (auto simp: ascii_def)
  moreover have "hex_encode [CHR 0x4A] = ''4a''" by code_simp
  ultimately show ?thesis
    by (simp add: fetch_binary_def ex_upgrade_def ex_linux_asset_def download_to_def extractBinary_def bin_name_def)
qed

theorem upgrade_installs_only_verified_witness:
  "\<exists>fs'. runUpgrade (ex_upgrade ''linux'') ex_bin_fs = (Inr (Installed ''1.2''), fs') \<and> fs' ''/bin/opencom'' = Some (Data ''new'') \<and>
     (\<exists>a. verified (ex_upgrade ''linux'') a ''new'')"
proof -
  obtain r fs' where run: "runUpgrade (ex_upgrade ''linux'') ex_bin_fs = (r, fs')" by fastforce
  have ue: "ue_executable (ex_upgrade ''linux'') = Some ''/bin/opencom''" "ue_resolve (ex_upgrade ''linux'') ''/bin/opencom'' = Some ''/bin/opencom''"
    "ue_tmpName (ex_upgrade ''linux'') ''/bin/opencom'' \<noteq> ''/bin/opencom''" "ue_version (ex_upgrade ''linux'') = ''1.0''"
    "ue_tempdir (ex_upgrade ''linux'')"
    by (simp_all add: ex_upgrade_def)
  have same: "\<not> same_version (ra_tag ex_linux_asset) ''1.0''" "TrimPrefix ''v'' (ra_tag ex_linux_asset) = ''1.2''"
    by (simp_all add: same_version_def ex_linux_asset_def TrimPrefix_def)
  have "replaceBinary (ue_replace (ex_upgrade ''linux'')) t b e fs = (True, ((fs(t \<mapsto> Partial, t \<mapsto> Data b))(t := None))(e \<mapsto> Data b))" for t b e fs
    by (simp add: replaceBinary_def ex_upgrade_def Let_def)
  then have r: "r = Inr (Installed ''1.2'')"
    using run by (simp add: runUpgrade_def ue ex_linux_resolve ex_linux_fetch same)
  from upgrade_installs_only_verified [OF run ue(1-3)] r ex_linux_resolve
  obtain bin where b: "verified (ex_upgrade ''linux'') ex_linux_asset bin" "fs' ''/bin/opencom'' = Some (Data bin)" by auto
  then have "bin = ''new''" by (auto simp: verified_def ex_upgrade_def)
  with b r run show ?thesis by blast
qed

theorem upgrade_never_installs_on_windows_witness:
  "snd (runUpgrade (ex_upgrade ''windows'') ex_bin_fs) = ex_bin_fs"
proof -
  have "ue_goos (ex_upgrade ''windows'') = ''windows''" "ue_targz (ex_upgrade ''windows'') b = None" for b
    by (simp_all add: ex_upgrade_def)
  moreover have "take 2 tarball = ''PK''"
    if "resolveReleaseAsset (ue_goos (ex_upgrade ''windows'')) (ue_goarch (ex_upgrade ''windows'')) (ue_release (ex_upgrade ''windows'')) = Inr a"
      "ue_web (ex_upgrade ''windows'') (ra_tarballURL a) = Some (200, tarball, True)" for a tarball
    using that
    by (simp add: ex_upgrade_def resolveReleaseAsset_def platformAssetParts_def tarball_name_def TrimPrefix_def Let_def) auto
  ultimately show ?thesis using upgrade_never_installs_on_windows [of "ex_upgrade ''windows''" ex_bin_fs] by blast
qed

end
