(* ===== verification/Cli_Setup.thy ===== *)
theory Cli_Setup
  imports Identity Config Friends_Store Tui_Modals
begin

text \<open>
  Setting up: \<open>opencom init\<close> (\<open>cli/init.go\<close>), starting the daemon when it is needed (\<open>cli/daemon_ensure.go\<close>) and the
  single listener on the IPC socket (\<open>ipc/transport_unix.go\<close>).
\<close>

section \<open>Files of a new user\<close>

datatype setup_error =
    ErrPaths | ErrConfigDir | ErrStateDir | ErrCheckKey | ErrKey identity_error | ErrConfig config_error | ErrConfigSave io_error
  | ErrCheckFriends | ErrFriendsSave io_error | ErrDaemon

text \<open>\<open>stat\<close> is false when \<open>os.Stat\<close> fails for another reason than a missing file.\<close>

definition ensureKeypair ::
    "('priv, 'pub) keys \<Rightarrow> 'priv privio \<Rightarrow> bool \<Rightarrow> bool \<Rightarrow> nat \<Rightarrow> bool \<Rightarrow> string \<Rightarrow> 'priv option \<Rightarrow> io_env \<Rightarrow> string fs
     \<Rightarrow> (setup_error + ('priv, 'pub) Keypair) \<times> string fs" where
  "ensureKeypair K P windows stat mode readable path gen env fs =
    (if fs path \<noteq> None \<and> stat
     then (case Load_key K P windows (Some mode) readable path fs of Inl e \<Rightarrow> (Inl (ErrKey e), fs) | Inr kp \<Rightarrow> (Inr kp, fs))
     else if \<not> stat then (Inl ErrCheckKey, fs)
     else (case Generate_identity K gen of
        Inl e \<Rightarrow> (Inl (ErrKey e), fs)
      | Inr kp \<Rightarrow> (case Save_key P path kp env fs of (Inl e, fs') \<Rightarrow> (Inl (ErrKey e), fs') | (Inr _, fs') \<Rightarrow> (Inr kp, fs'))))"

definition ensureConfig ::
    "('y \<Rightarrow> Config \<Rightarrow> Config option) \<Rightarrow> (Config \<Rightarrow> 'y) \<Rightarrow> Config \<Rightarrow> string \<Rightarrow> bool \<Rightarrow> string \<Rightarrow> string \<Rightarrow> io_env \<Rightarrow> 'y fs
     \<Rightarrow> (setup_error + Config) \<times> 'y fs" where
  "ensureConfig decode encode zero user readable path name env fs =
    (case Load_config decode zero user readable path fs of
       (cfg, None) \<Rightarrow> (Inr cfg, fs)
     | (cfg, Some ErrConfigMissing) \<Rightarrow>
         (let cfg' = (if name \<noteq> [] then (Default user)\<lparr>cf_UserName := name\<rparr> else Default user)
          in case Save_config encode path cfg' env fs of (Inl e, fs') \<Rightarrow> (Inl (ErrConfigSave e), fs') | (Inr _, fs') \<Rightarrow> (Inr cfg', fs'))
     | (cfg, Some e) \<Rightarrow> (Inl (ErrConfig e), fs))"

definition ensureFriendsFile :: "bool \<Rightarrow> string \<Rightarrow> io_env \<Rightarrow> friends_fs \<Rightarrow> (setup_error + unit) \<times> friends_fs" where
  "ensureFriendsFile stat path env fs =
    (if fs path \<noteq> None \<and> stat then (Inr (), fs)
     else if \<not> stat then (Inl ErrCheckFriends, fs)
     else (case AtomicWriteFile path [] env fs of (Inl e, fs') \<Rightarrow> (Inl (ErrFriendsSave e), fs') | (Inr _, fs') \<Rightarrow> (Inr (), fs')))"

text \<open>What the user of one run has, and what the system calls of the run do.\<close>

record ('priv, 'y) init_env =
  ie_mkConfig :: bool
  ie_mkState :: bool
  ie_windows :: bool
  ie_keyStat :: bool
  ie_keyMode :: nat
  ie_keyReadable :: bool
  ie_gen :: "'priv option"
  ie_keyIO :: io_env
  ie_user :: string
  ie_cfgReadable :: bool
  ie_cfgIO :: io_env
  ie_friendsStat :: bool
  ie_friendsIO :: io_env

record 'y home =
  hm_keys :: "string fs"
  hm_config :: "'y fs"
  hm_friends :: friends_fs

record ('priv, 'pub, 'y) init_lib =
  il_keys :: "('priv, 'pub) keys"
  il_priv :: "'priv privio"
  il_decode :: "'y \<Rightarrow> Config \<Rightarrow> Config option"
  il_encode :: "Config \<Rightarrow> 'y"
  il_zero :: Config

definition init_files ::
    "('priv, 'pub, 'y) init_lib \<Rightarrow> Paths \<Rightarrow> ('priv, 'y) init_env \<Rightarrow> string \<Rightarrow> 'y home
     \<Rightarrow> (setup_error + ('priv, 'pub) Keypair \<times> Config) \<times> 'y home" where
  "init_files L p v name h =
    (if \<not> ie_mkConfig v then (Inl ErrConfigDir, h)
     else if \<not> ie_mkState v then (Inl ErrStateDir, h)
     else case ensureKeypair (il_keys L) (il_priv L) (ie_windows v) (ie_keyStat v) (ie_keyMode v) (ie_keyReadable v) (pa_PrivateKey p)
                 (ie_gen v) (ie_keyIO v) (hm_keys h) of
       (Inl e, k) \<Rightarrow> (Inl e, h\<lparr>hm_keys := k\<rparr>)
     | (Inr kp, k) \<Rightarrow>
         (case ensureConfig (il_decode L) (il_encode L) (il_zero L) (ie_user v) (ie_cfgReadable v) (pa_ConfigFile p) name (ie_cfgIO v) (hm_config h) of
            (Inl e, c) \<Rightarrow> (Inl e, h\<lparr>hm_keys := k, hm_config := c\<rparr>)
          | (Inr cfg, c) \<Rightarrow>
              (case ensureFriendsFile (ie_friendsStat v) (pa_FriendsFile p) (ie_friendsIO v) (hm_friends h) of
                 (Inl e, f) \<Rightarrow> (Inl e, \<lparr>hm_keys = k, hm_config = c, hm_friends = f\<rparr>)
               | (Inr _, f) \<Rightarrow> (Inr (kp, cfg), \<lparr>hm_keys = k, hm_config = c, hm_friends = f\<rparr>))))"

text \<open>The rest of \<open>runInit\<close>: the daemon, the optional service, and a first invite. What follows the daemon never fails it.\<close>

datatype init_line =
    LineIdentity string string | LineDaemonFailed | LineDaemonRunning | LineServiceUnavailable | LineServiceInstalled
  | LineServiceFailed | LineNoClient | LineInviteFailed | LineInvite string | LineTip

datatype service_outcome = SvcUnavailable | SvcInstalled | SvcAlready | SvcFailed

definition init_service_lines :: "bool \<Rightarrow> service_outcome \<Rightarrow> init_line list" where
  "init_service_lines withService svc =
    (if \<not> withService then []
     else case svc of
       SvcUnavailable \<Rightarrow> [LineServiceUnavailable]
     | SvcInstalled \<Rightarrow> [LineServiceInstalled]
     | SvcAlready \<Rightarrow> [LineServiceInstalled]
     | SvcFailed \<Rightarrow> [LineServiceFailed])"

text \<open>\<open>conn\<close> is whether the client connects; \<open>resp\<close> what \<open>invite.create\<close> answers.\<close>

definition init_invite_lines :: "bool \<Rightarrow> bool \<Rightarrow> InviteCreateResult option \<Rightarrow> init_line list" where
  "init_invite_lines withService conn resp =
    (if \<not> conn then [LineNoClient]
     else case resp of
       None \<Rightarrow> [LineInviteFailed]
     | Some r \<Rightarrow> LineInvite (ic_Code r) # (if withService then [] else [LineTip]))"

definition runInit ::
    "('priv, 'pub, 'y) init_lib \<Rightarrow> Paths option \<Rightarrow> ('priv, 'y) init_env \<Rightarrow> string \<Rightarrow> bool \<Rightarrow> bool \<Rightarrow> service_outcome \<Rightarrow> bool \<Rightarrow> InviteCreateResult option
     \<Rightarrow> 'y home \<Rightarrow> setup_error option \<times> init_line list \<times> 'y home" where
  "runInit L paths v name withService daemon svc conn resp h =
    (case paths of
       None \<Rightarrow> (Some ErrPaths, [], h)
     | Some p \<Rightarrow>
         (case init_files L p v name h of
            (Inl e, h') \<Rightarrow> (Some e, [], h')
          | (Inr (kp, cfg), h') \<Rightarrow>
              (let who = LineIdentity (k_idStr (il_keys L) (kp_PeerID kp)) (cf_UserName cfg) in
               if \<not> daemon then (Some ErrDaemon, [who, LineDaemonFailed], h')
               else (None, who # LineDaemonRunning # init_service_lines withService svc @ init_invite_lines withService conn resp, h'))))"

section \<open>Initialising again\<close>

lemma AtomicWriteFile_grows:
  "fresh_temp path env fs \<Longrightarrow> fs path = None \<Longrightarrow> AtomicWriteFile path d env fs = (r, fs') \<Longrightarrow> fs \<subseteq>\<^sub>m fs'"
  by (erule AtomicWriteFile_cases [of path env fs d]) (auto simp: map_le_def)

lemma AtomicWriteFile_stores:
  "fresh_temp path env fs \<Longrightarrow> AtomicWriteFile path d env fs = (Inr u, fs') \<Longrightarrow> fs' path = Some (Data d)"
  by (erule AtomicWriteFile_cases [of path env fs d]) auto

text \<open>The run's temporary names are new.\<close>

definition temps_fresh :: "Paths \<Rightarrow> ('priv, 'y) init_env \<Rightarrow> 'y home \<Rightarrow> bool" where
  "temps_fresh p v h \<longleftrightarrow>
    fresh_temp (pa_PrivateKey p) (ie_keyIO v) (hm_keys h) \<and> fresh_temp (pa_ConfigFile p) (ie_cfgIO v) (hm_config h) \<and>
    fresh_temp (pa_FriendsFile p) (ie_friendsIO v) (hm_friends h)"

definition keeps :: "'y home \<Rightarrow> 'y home \<Rightarrow> bool" where
  "keeps h h' \<longleftrightarrow> hm_keys h \<subseteq>\<^sub>m hm_keys h' \<and> hm_config h \<subseteq>\<^sub>m hm_config h' \<and> hm_friends h \<subseteq>\<^sub>m hm_friends h'"

lemma ensureKeypair_keeps:
  "fresh_temp path env fs \<Longrightarrow> ensureKeypair K P w st mode rd path gen env fs = (r, fs') \<Longrightarrow> fs \<subseteq>\<^sub>m fs'"
  by (auto simp: ensureKeypair_def Save_key_def map_le_refl split: if_splits sum.splits prod.splits option.splits
      dest: AtomicWriteFile_grows)

lemma ensureConfig_keeps:
  assumes "fresh_temp path env fs" and "ensureConfig de en z u rd path name env fs = (r, fs')"
  shows "fs \<subseteq>\<^sub>m fs'"
proof (cases "fs path")
  case None
  then obtain c where "AtomicWriteFile path (en c) env fs = (Inr (), fs') \<or> (\<exists>e. AtomicWriteFile path (en c) env fs = (Inl e, fs'))"
    using assms(2) by (auto simp: ensureConfig_def Load_config_def Save_config_def Let_def split: prod.splits sum.splits)
  then show ?thesis using AtomicWriteFile_grows [OF assms(1) None] by blast
next
  case (Some x)
  then show ?thesis using assms
    by (auto simp: ensureConfig_def Load_config_def map_le_refl split: if_splits content.splits option.splits)
qed

lemma ensureFriendsFile_keeps:
  "fresh_temp path env fs \<Longrightarrow> ensureFriendsFile st path env fs = (r, fs') \<Longrightarrow> fs \<subseteq>\<^sub>m fs'"
  by (auto simp: ensureFriendsFile_def map_le_refl split: if_splits sum.splits prod.splits dest: AtomicWriteFile_grows)

lemma init_files_keeps:
  assumes "temps_fresh p v h" and "init_files L p v name h = (r, h')"
  shows "keeps h h'"
proof -
  obtain kr k where k: "ensureKeypair (il_keys L) (il_priv L) (ie_windows v) (ie_keyStat v) (ie_keyMode v) (ie_keyReadable v)
      (pa_PrivateKey p) (ie_gen v) (ie_keyIO v) (hm_keys h) = (kr, k)" by fastforce
  obtain cr c where c: "ensureConfig (il_decode L) (il_encode L) (il_zero L) (ie_user v) (ie_cfgReadable v) (pa_ConfigFile p) name
      (ie_cfgIO v) (hm_config h) = (cr, c)" by fastforce
  obtain fr f where f: "ensureFriendsFile (ie_friendsStat v) (pa_FriendsFile p) (ie_friendsIO v) (hm_friends h) = (fr, f)" by fastforce
  have "hm_keys h \<subseteq>\<^sub>m k" "hm_config h \<subseteq>\<^sub>m c" "hm_friends h \<subseteq>\<^sub>m f"
    using assms(1) ensureKeypair_keeps [OF _ k] ensureConfig_keeps [OF _ c] ensureFriendsFile_keeps [OF _ f] by (simp_all add: temps_fresh_def)
  then show ?thesis using assms(2)
    by (auto simp: init_files_def keeps_def map_le_refl k c f split: if_splits sum.splits prod.splits)
qed

text \<open>After a first run the key file holds the key of the identity it returned, the config file what it returned, and
  the friends file exists.\<close>

definition initialised :: "('priv, 'pub, 'y) init_lib \<Rightarrow> Paths \<Rightarrow> string \<Rightarrow> ('priv, 'pub) Keypair \<Rightarrow> Config \<Rightarrow> 'y home \<Rightarrow> bool" where
  "initialised L p user kp cfg h \<longleftrightarrow>
    (\<exists>data. hm_keys h (pa_PrivateKey p) = Some (Data data) \<and> pv_unmarshal (il_priv L) data = Some (kp_Priv kp)) \<and>
    keypair_of (il_keys L) (kp_Priv kp) = Inr kp \<and> pv_isEd25519 (il_priv L) (kp_Priv kp) \<and>
    (\<exists>y. hm_config h (pa_ConfigFile p) = Some (Data y) \<and> il_decode L y (Default user) = Some cfg) \<and>
    hm_friends h (pa_FriendsFile p) \<noteq> None"

text \<open>A run whose system calls succeed and that finds the key file private.\<close>

definition undisturbed :: "('priv, 'y) init_env \<Rightarrow> bool" where
  "undisturbed v \<longleftrightarrow> ie_mkConfig v \<and> ie_mkState v \<and> ie_keyStat v \<and> ie_keyMode v = 384 \<and> ie_keyReadable v \<and> ie_cfgReadable v
    \<and> ie_friendsStat v"

text \<open>Such a run on a home that is initialised changes nothing and finds the same identity and configuration.\<close>

lemma init_files_again:
  assumes "initialised L p (ie_user v) kp cfg h" and "undisturbed v"
  shows "init_files L p v name h = (Inr (kp, cfg), h)"
  using assms
  by (auto simp: initialised_def undisturbed_def init_files_def ensureKeypair_def Load_key_def ensureConfig_def Load_config_def
      ensureFriendsFile_def)

lemma keypair_of_priv: "keypair_of K priv = Inr kp \<Longrightarrow> kp_Priv kp = priv"
  by (auto simp: keypair_of_def split: option.splits)

text \<open>What a generated key is marshalled to is read back as that key.\<close>

definition key_reloads :: "'priv privio \<Rightarrow> 'priv \<Rightarrow> bool" where
  "key_reloads P priv \<longleftrightarrow> pv_isEd25519 P priv \<and> (case pv_marshal P priv of None \<Rightarrow> True | Some d \<Rightarrow> pv_unmarshal P d = Some priv)"

lemma ensureKeypair_stored:
  assumes "ensureKeypair K P w st mode rd path gen env fs = (Inr kp, fs')" and "fresh_temp path env fs"
    and "\<And>priv. gen = Some priv \<Longrightarrow> key_reloads P priv"
  shows "(\<exists>data. fs' path = Some (Data data) \<and> pv_unmarshal P data = Some (kp_Priv kp)) \<and> keypair_of K (kp_Priv kp) = Inr kp
    \<and> pv_isEd25519 P (kp_Priv kp)"
proof (cases "fs path \<noteq> None \<and> st")
  case True
  then show ?thesis using assms(1)
    by (auto simp: ensureKeypair_def Load_key_def split: sum.splits option.splits content.splits if_splits dest: keypair_of_priv)
next
  case False
  then have st: "st" "fs path = None" using assms(1) by (auto simp: ensureKeypair_def split: if_splits)
  then obtain priv where g: "gen = Some priv" "keypair_of K priv = Inr kp" and sv: "Save_key P path kp env fs = (Inr (), fs')"
    using assms(1) by (auto simp: ensureKeypair_def Generate_identity_def split: sum.splits option.splits prod.splits)
  then obtain d where d: "pv_marshal P priv = Some d" "AtomicWriteFile path d env fs = (Inr (), fs')"
    using keypair_of_priv [OF g(2)] by (auto simp: Save_key_def split: option.splits prod.splits sum.splits)
  have "fs' path = Some (Data d)" by (rule AtomicWriteFile_stores [OF assms(2) d(2)])
  with assms(3) [OF g(1)] d(1) g keypair_of_priv [OF g(2)] show ?thesis by (simp add: key_reloads_def)
qed

lemma ensureConfig_stored:
  assumes "ensureConfig de en z u rd path name env fs = (Inr cfg, fs')" and "fresh_temp path env fs" and "\<And>c seed. de (en c) seed = Some c"
  shows "\<exists>y. fs' path = Some (Data y) \<and> de y (Default u) = Some cfg"
proof (cases "fs path")
  case None
  then have "Save_config en path cfg env fs = (Inr (), fs')"
    using assms(1) by (auto simp: ensureConfig_def Load_config_def Let_def split: prod.splits sum.splits if_splits)
  then have "fs' path = Some (Data (en cfg))"
    using AtomicWriteFile_stores [OF assms(2), of "en cfg"] by (simp add: Save_config_def)
  then show ?thesis using assms(3) by blast
next
  case (Some x)
  then obtain y where "x = Data y" "de y (Default u) = Some cfg" "fs' = fs"
    using assms(1) by (auto simp: ensureConfig_def Load_config_def split: if_splits content.splits option.splits)
  then show ?thesis using Some by blast
qed

lemma ensureFriendsFile_stored:
  "ensureFriendsFile st path env fs = (Inr (), fs') \<Longrightarrow> fresh_temp path env fs \<Longrightarrow> fs' path \<noteq> None"
  by (auto simp: ensureFriendsFile_def split: if_splits sum.splits prod.splits dest: AtomicWriteFile_stores)

lemma init_files_stored:
  assumes "init_files L p v name h = (Inr (kp, cfg), h')" and "temps_fresh p v h"
    and "\<And>priv. ie_gen v = Some priv \<Longrightarrow> key_reloads (il_priv L) priv" and "\<And>c seed. il_decode L (il_encode L c) seed = Some c"
  shows "initialised L p (ie_user v) kp cfg h'"
proof -
  obtain k c f where
      k: "ensureKeypair (il_keys L) (il_priv L) (ie_windows v) (ie_keyStat v) (ie_keyMode v) (ie_keyReadable v)
        (pa_PrivateKey p) (ie_gen v) (ie_keyIO v) (hm_keys h) = (Inr kp, k)"
    and c: "ensureConfig (il_decode L) (il_encode L) (il_zero L) (ie_user v) (ie_cfgReadable v) (pa_ConfigFile p) name
        (ie_cfgIO v) (hm_config h) = (Inr cfg, c)"
    and f: "ensureFriendsFile (ie_friendsStat v) (pa_FriendsFile p) (ie_friendsIO v) (hm_friends h) = (Inr (), f)"
    and h': "h' = \<lparr>hm_keys = k, hm_config = c, hm_friends = f\<rparr>"
    using assms(1) by (auto simp: init_files_def split: if_splits sum.splits prod.splits)
  show ?thesis
    using assms(2) ensureKeypair_stored [OF k _ assms(3)] ensureConfig_stored [OF c _ assms(4)] ensureFriendsFile_stored [OF f]
    by (simp add: initialised_def h' temps_fresh_def)
qed


text \<open>A first run in an empty home by alice, and a second one with another name.\<close>

definition init_ex_lib :: "(string, string, Config) init_lib" where
  "init_ex_lib =
    \<lparr>il_keys = \<lparr>k_sign = (\<lambda>_ m. Some m), k_verify = (\<lambda>_ _ _. True), k_public = (\<lambda>k. ''pub-'' @ k), k_marshalPub = Some,
       k_unmarshalPub = Some, k_idFromPub = (\<lambda>k. Some (''12D3'' @ k)), k_idStr = (\<lambda>i. i)\<rparr>,
     il_priv = \<lparr>pv_marshal = (\<lambda>k. Some (''key '' @ k)), pv_unmarshal = (\<lambda>d. Some (drop 4 d)), pv_isEd25519 = (\<lambda>_. True)\<rparr>,
     il_decode = (\<lambda>y _. Some y), il_encode = (\<lambda>c. c), il_zero = Default []\<rparr>"

definition init_ex_paths :: Paths where
  "init_ex_paths =
    \<lparr>pa_ConfigDir = ''c'', pa_StateDir = ''s'', pa_RuntimeDir = [], pa_ConfigFile = ''c/config.yaml'', pa_PrivateKey = ''c/priv.key'',
     pa_FriendsFile = ''c/friends.json'', pa_SocketPath = ''s/sock'', pa_Peerstore = ''s/peers'', pa_LogFile = ''s/log'',
     pa_PeerCache = ''s/cache'', pa_ActiveInvites = ''s/invites''\<rparr>"

definition init_ex_env :: "string \<Rightarrow> (string, Config) init_env" where
  "init_ex_env key =
    \<lparr>ie_mkConfig = True, ie_mkState = True, ie_windows = False, ie_keyStat = True, ie_keyMode = 384, ie_keyReadable = True,
     ie_gen = Some key, ie_keyIO = ex_io, ie_user = ''alice'', ie_cfgReadable = True, ie_cfgIO = ex_io, ie_friendsStat = True,
     ie_friendsIO = ex_io\<rparr>"

definition init_ex_home :: "Config home" where
  "init_ex_home = \<lparr>hm_keys = Map.empty, hm_config = Map.empty, hm_friends = Map.empty\<rparr>"

definition init_ex_invite :: InviteCreateResult where
  "init_ex_invite = \<lparr>ic_Code = ''A7B2-X9K4'', ic_URL = ''opencom://x'', ic_ExpiresAt = 1800, ic_DHTPublishWarning = [],
     ic_ReachableAddrs = [''/ip4/1.2.3.4'']\<rparr>"

lemmas init_ex_defs = init_ex_lib_def init_ex_paths_def init_ex_env_def init_ex_home_def ex_io_def


end
