(* ===== verification/Cli_Daemon.thy ===== *)
theory Cli_Daemon
  imports Cli_Setup Tui_Panes
begin

text \<open>
  Starting and stopping the daemon: starting it when a command needs it (\<open>cli/daemon_ensure.go\<close>), the single listener on the
  IPC socket (\<open>ipc/transport_unix.go\<close>), \<open>daemon start\<close>, \<open>stop\<close> and \<open>status\<close> (\<open>cli/daemon.go\<close>) and the service wrapper
  (\<open>cli/service.go\<close>).
\<close>

section \<open>Starting the daemon when it is needed\<close>

text \<open>One turn of the polling loop: whether the socket answers, how long that took, whether the context is found done
  while waiting, and how much longer than 100 ms the wait lasts.\<close>

record probe =
  pb_reach :: bool
  pb_took :: nat
  pb_done :: bool
  pb_late :: nat

datatype ensure_error = EnPaths | EnExe | EnStateDir | EnSpawn | EnContext | EnTimeout

definition daemonProbeTimeout :: time where
  "daemonProbeTimeout = 3000000000"

definition pollInterval :: time where
  "pollInterval = 100000000"

function poll :: "(nat \<Rightarrow> probe) \<Rightarrow> time \<Rightarrow> time \<Rightarrow> nat \<Rightarrow> (ensure_error + unit) \<times> nat \<times> time" where
  "poll w deadline now i =
    (if now < deadline
     then (let t = w i; after = now + int (pb_took t) in
       if pb_reach t then (Inr (), i + 1, after)
       else if pb_done t then (Inl EnContext, i + 1, after)
       else poll w deadline (after + pollInterval + int (pb_late t)) (i + 1))
     else (Inl EnTimeout, i, now))"
  by pat_completeness auto

termination
  by (relation "measure (\<lambda>(w, deadline, now, i). nat (deadline - now))") (auto simp: pollInterval_def)

declare poll.simps [simp del]

record ensure_env =
  en_paths :: bool
  en_first :: bool
  en_exe :: bool
  en_mkState :: bool
  en_spawn :: bool
  en_now :: time
  en_probes :: "nat \<Rightarrow> probe"

text \<open>The result, whether a daemon was spawned, the number of probes after that, and the time at the end.\<close>

definition EnsureDaemonRunning :: "ensure_env \<Rightarrow> (ensure_error + unit) \<times> bool \<times> nat \<times> time" where
  "EnsureDaemonRunning v =
    (if \<not> en_paths v then (Inl EnPaths, False, 0, en_now v)
     else if en_first v then (Inr (), False, 0, en_now v)
     else if \<not> en_exe v then (Inl EnExe, False, 0, en_now v)
     else if \<not> en_mkState v then (Inl EnStateDir, False, 0, en_now v)
     else if \<not> en_spawn v then (Inl EnSpawn, False, 0, en_now v)
     else (case poll (en_probes v) (en_now v + daemonProbeTimeout) (en_now v) 0 of (r, n, t) \<Rightarrow> (r, True, n, t)))"

text \<open>What the loop returns: \<open>j\<close> probes have been made in all, every one before the last failed, and the verdict is that
  of the last.\<close>

lemma poll_count:
  "poll w dl now i = (r, j, t) \<Longrightarrow> i \<le> j \<and> (j = i \<or> now + (int j - int i - 1) * pollInterval < dl)"
proof (induction w dl now i arbitrary: j rule: poll.induct)
  case (1 w dl now i)
  show ?case
  proof (cases "now < dl \<and> \<not> pb_reach (w i) \<and> \<not> pb_done (w i)")
    case True
    then have "poll w dl (now + int (pb_took (w i)) + pollInterval + int (pb_late (w i))) (i + 1) = (r, j, t)"
      using "1.prems" by (subst (asm) poll.simps) (simp add: Let_def)
    from "1.IH" [OF _ refl refl _ _ this] True show ?thesis by (auto simp: pollInterval_def)
  next
    case False
    then show ?thesis using "1.prems" by (subst (asm) poll.simps) (auto simp: Let_def split: if_splits)
  qed
qed

lemma poll_verdict:
  "poll w dl now i = (r, j, t) \<Longrightarrow>
    (\<forall>k. i \<le> k \<and> k + 1 < j \<longrightarrow> \<not> pb_reach (w k) \<and> \<not> pb_done (w k)) \<and>
    (case r of Inr _ \<Rightarrow> i < j \<and> pb_reach (w (j - 1))
     | Inl e \<Rightarrow> (i < j \<longrightarrow> \<not> pb_reach (w (j - 1))) \<and> (e = EnTimeout \<and> dl \<le> t \<or> e = EnContext \<and> i < j \<and> pb_done (w (j - 1))))"
proof (induction w dl now i arbitrary: j rule: poll.induct)
  case (1 w dl now i)
  show ?case
  proof (cases "now < dl \<and> \<not> pb_reach (w i) \<and> \<not> pb_done (w i)")
    case True
    then have more: "poll w dl (now + int (pb_took (w i)) + pollInterval + int (pb_late (w i))) (i + 1) = (r, j, t)"
      using "1.prems" by (subst (asm) poll.simps) (simp add: Let_def)
    have step: "i \<le> k \<and> k + 1 < j \<longrightarrow> k = i \<or> i + 1 \<le> k \<and> k + 1 < j" for k by linarith
    have "i + 1 \<le> j" using poll_count [OF more] by simp
    with "1.IH" [OF _ refl refl _ _ more] True step show ?thesis
      by (cases "j = i + 1") (auto split: sum.splits)
  next
    case False
    then show ?thesis using "1.prems" by (subst (asm) poll.simps) (auto simp: Let_def split: if_splits)
  qed
qed

lemma poll_time:
  "\<forall>k. pb_took (w k) \<le> 200000000 \<and> pb_late (w k) = 0 \<Longrightarrow> now < dl + 300000000 \<Longrightarrow> poll w dl now i = (r, j, t) \<Longrightarrow> t < dl + 300000000"
proof (induction w dl now i arbitrary: j rule: poll.induct)
  case (1 w dl now i)
  have took: "int (pb_took (w i)) \<le> 200000000" using spec [OF "1.prems"(1), of i] by linarith
  show ?case
  proof (cases "now < dl \<and> \<not> pb_reach (w i) \<and> \<not> pb_done (w i)")
    case True
    then have "poll w dl (now + int (pb_took (w i)) + pollInterval + int (pb_late (w i))) (i + 1) = (r, j, t)"
      using "1.prems"(3) by (subst (asm) poll.simps) (simp add: Let_def)
    from "1.IH" [OF _ refl refl _ _ "1.prems"(1) _ this] True took "1.prems"(1) show ?thesis by (auto simp: pollInterval_def)
  next
    case False
    then show ?thesis using "1.prems"(2,3) took by (subst (asm) poll.simps) (auto simp: Let_def split: if_splits)
  qed
qed


text \<open>A daemon that answers the third probe.\<close>

definition ensure_ex :: ensure_env where
  "ensure_ex = \<lparr>en_paths = True, en_first = False, en_exe = True, en_mkState = True, en_spawn = True, en_now = 0,
     en_probes = (\<lambda>k. \<lparr>pb_reach = 2 \<le> k, pb_took = 1000, pb_done = False, pb_late = 0\<rparr>)\<rparr>"


section \<open>Running the daemon\<close>

datatype start_error =
    StExclusive | StPaths | StNoConfig | StConfig config_error | StIdentity identity_error | StConfigDir | StStateDir | StLogFile

text \<open>Loading the key and then the configuration, as \<open>identity show\<close> and \<open>identity export\<close> do.\<close>

definition load_identity ::
    "('priv, 'pub, 'y) init_lib \<Rightarrow> Paths \<Rightarrow> ('priv, 'y) init_env \<Rightarrow> 'y home \<Rightarrow> start_error + ('priv, 'pub) Keypair \<times> Config" where
  "load_identity L p v h =
    (case Load_key (il_keys L) (il_priv L) (ie_windows v)
        (if hm_keys h (pa_PrivateKey p) \<noteq> None \<and> ie_keyStat v then Some (ie_keyMode v) else None) (ie_keyReadable v)
        (pa_PrivateKey p) (hm_keys h) of
       Inl e \<Rightarrow> Inl (StIdentity e)
     | Inr kp \<Rightarrow>
         (case Load_config (il_decode L) (il_zero L) (ie_user v) (ie_cfgReadable v) (pa_ConfigFile p) (hm_config h) of
            (_, Some e) \<Rightarrow> Inl (StConfig e)
          | (cfg, None) \<Rightarrow> Inr (kp, cfg)))"

text \<open>What a start of the daemon hands to \<open>app.Run\<close>. \<open>logOK\<close> is whether the log file opens.\<close>

definition load_options ::
    "('priv, 'pub, 'y) init_lib \<Rightarrow> Paths \<Rightarrow> ('priv, 'y) init_env \<Rightarrow> 'y home \<Rightarrow> (config_error + (identity_error + ('priv, 'pub) Keypair \<times> Config))" where
  "load_options L p v h =
    (case Load_config (il_decode L) (il_zero L) (ie_user v) (ie_cfgReadable v) (pa_ConfigFile p) (hm_config h) of
       (_, Some e) \<Rightarrow> Inl e
     | (cfg, None) \<Rightarrow>
         (case Load_key (il_keys L) (il_priv L) (ie_windows v)
             (if hm_keys h (pa_PrivateKey p) \<noteq> None \<and> ie_keyStat v then Some (ie_keyMode v) else None) (ie_keyReadable v)
             (pa_PrivateKey p) (hm_keys h) of
            Inl e \<Rightarrow> Inr (Inl e)
          | Inr kp \<Rightarrow> Inr (Inr (kp, cfg))))"

definition runDaemonStart ::
    "('priv, 'pub, 'y) init_lib \<Rightarrow> Paths option \<Rightarrow> ('priv, 'y) init_env \<Rightarrow> bool \<Rightarrow> 'y home \<Rightarrow> start_error + ('priv, 'pub) Keypair \<times> Config" where
  "runDaemonStart L paths v logOK h =
    (case paths of
       None \<Rightarrow> Inl StPaths
     | Some p \<Rightarrow>
         (case load_options L p v h of
            Inl e \<Rightarrow> Inl (if e = ErrConfigMissing then StNoConfig else StConfig e)
          | Inr (Inl e) \<Rightarrow> Inl (StIdentity e)
          | Inr (Inr opts) \<Rightarrow>
              if \<not> ie_mkState v then Inl StStateDir
              else if \<not> logOK then Inl StLogFile
              else Inr opts))"

text \<open>\<open>daemon start\<close>: the two flags exclude each other, and neither changes what runs.\<close>

definition daemon_start ::
    "('priv, 'pub, 'y) init_lib \<Rightarrow> Paths option \<Rightarrow> ('priv, 'y) init_env \<Rightarrow> bool \<Rightarrow> 'y home \<Rightarrow> bool \<Rightarrow> bool
     \<Rightarrow> start_error + ('priv, 'pub) Keypair \<times> Config" where
  "daemon_start L paths v logOK h foreground background =
    (if foreground \<and> background then Inl StExclusive else runDaemonStart L paths v logOK h)"

text \<open>The start of the service makes both directories first and reports a missing configuration like any other error.\<close>

definition service_Start ::
    "('priv, 'pub, 'y) init_lib \<Rightarrow> Paths option \<Rightarrow> ('priv, 'y) init_env \<Rightarrow> bool \<Rightarrow> 'y home \<Rightarrow> start_error + ('priv, 'pub) Keypair \<times> Config" where
  "service_Start L paths v logOK h =
    (case paths of
       None \<Rightarrow> Inl StPaths
     | Some p \<Rightarrow>
         if \<not> ie_mkConfig v then Inl StConfigDir
         else if \<not> ie_mkState v then Inl StStateDir
         else (case load_options L p v h of
            Inl e \<Rightarrow> Inl (StConfig e)
          | Inr (Inl e) \<Rightarrow> Inl (StIdentity e)
          | Inr (Inr opts) \<Rightarrow> if \<not> logOK then Inl StLogFile else Inr opts))"

text \<open>An initialised home starts, from the command and from the service, with the identity and configuration of the
  initialisation; both agree whenever one of them starts.\<close>

lemma initialised_starts:
  assumes "initialised L p (ie_user v) kp cfg h" and "undisturbed v"
  shows "runDaemonStart L (Some p) v True h = Inr (kp, cfg)" and "service_Start L (Some p) v True h = Inr (kp, cfg)"
  using assms by (auto simp: initialised_def undisturbed_def runDaemonStart_def service_Start_def load_options_def Load_config_def Load_key_def)

lemma initialised_loads:
  "initialised L p (ie_user v) kp cfg h \<Longrightarrow> undisturbed v \<Longrightarrow> load_identity L p v h = Inr (kp, cfg)"
  by (auto simp: initialised_def undisturbed_def load_identity_def Load_config_def Load_key_def)

lemma service_starts_like_command:
  "ie_mkConfig v \<Longrightarrow> service_Start L paths v logOK h = Inr opts \<longleftrightarrow> runDaemonStart L paths v logOK h = Inr opts"
  by (auto simp: service_Start_def runDaemonStart_def split: option.splits sum.splits if_splits)

lemma uninitialised_does_not_start:
  "hm_config h (pa_ConfigFile p) = None \<Longrightarrow> runDaemonStart L (Some p) v logOK h = Inl StNoConfig"
  by (simp add: runDaemonStart_def load_options_def Load_config_def)

text \<open>\<open>daemon stop\<close>: the error, the lines on the error output, the lines on the output, and whether the daemon was asked.
  \<open>running\<close> is the service's state when it can be queried.\<close>

datatype stop_error = StopConnect | StopRequest

definition runDaemonStop :: "bool \<Rightarrow> bool \<Rightarrow> bool \<Rightarrow> stop_error option \<times> string list \<times> string list \<times> bool" where
  "runDaemonStop running reachable answered =
    (let warn = (if running then
           [''warning: opencom is installed as a service; the service manager may auto-restart the daemon.'',
            ''         To stop without restart, use `opencom service stop`.''] else [])
     in if \<not> reachable then (Some StopConnect, warn, [], False)
        else if \<not> answered then (Some StopRequest, warn, [], True)
        else (None, warn, [''daemon: stopping''], True))"

end
