(* ===== verification/Cli_Calls.thy ===== *)
theory Cli_Calls
  imports Client_Requests Cli_Daemon
begin

text \<open>
  The \<open>opencom call\<close> commands (\<open>cli/call.go\<close>): which call a command acts on, the loop that follows a call until it ends,
  and the sequence of requests of each command. A command's outcome is what it prints, the requests it sends in order, and
  its error; \<open>None\<close> for the result of a loop that still waits.
\<close>

section \<open>Which call\<close>

datatype cli_error =
    ErrBothCurrentAndID | ErrListCalls | ErrNoActiveCalls | ErrCallIDRequired | ErrConnect | ErrSubscribe | ErrCallRequest
  | ErrWaitTimeout | ErrSubClosed | ErrCtxDeadline

fun newest_call :: "CallsListEntry \<Rightarrow> CallsListEntry list \<Rightarrow> CallsListEntry" where
  "newest_call newest [] = newest"
| "newest_call newest (e # es) = newest_call (if ce_StartedAt e > ce_StartedAt newest then e else newest) es"

text \<open>\<open>calls\<close> is the answer of \<open>calls.list\<close>, \<open>None\<close> when the request fails.\<close>

definition resolveCallID :: "CallsListEntry list option \<Rightarrow> string list \<Rightarrow> bool \<Rightarrow> (cli_error + string) \<times> cli_call list" where
  "resolveCallID calls args useCurrent =
    (if useCurrent
     then (if args \<noteq> [] then (Inl ErrBothCurrentAndID, [])
       else (case calls of
          None \<Rightarrow> (Inl ErrListCalls, [CliCallsList])
        | Some [] \<Rightarrow> (Inl ErrNoActiveCalls, [CliCallsList])
        | Some (c # cs) \<Rightarrow> (Inr (ce_CallID (newest_call c cs)), [CliCallsList])))
     else (case args of [] \<Rightarrow> (Inl ErrCallIDRequired, []) | a # _ \<Rightarrow> (Inr a, [])))"

section \<open>Following a call\<close>

record change =
  cg_SessionID :: string
  cg_State :: string
  cg_Reason :: string

datatype ctx_error = Canceled | DeadlineExceeded

text \<open>What the \<open>select\<close> of the loop takes: the context is done, the channel is closed, or an event, \<open>None\<close> when it
  does not decode. A loop that has taken all of its inputs waits.\<close>

datatype stream_input = InCtx ctx_error | InClosed | InEvent "change option"

definition change_line :: "change \<Rightarrow> string" where
  "change_line c =
    (if cg_Reason c \<noteq> [] then ''['' @ cg_State c @ ''] '' @ cg_Reason c else ''['' @ cg_State c @ '']'')"

fun streamCallEvents :: "string \<Rightarrow> stream_input list \<Rightarrow> string list \<times> cli_call list \<times> ctx_error option option" where
  "streamCallEvents callID [] = ([], [], None)"
| "streamCallEvents callID (InCtx e # xs) =
    ([], if callID \<noteq> [] then [CliCallsAction callID ''hangup'' ''user requested''] else [],
     Some (if e = Canceled then None else Some e))"
| "streamCallEvents callID (InClosed # xs) = ([], [], Some None)"
| "streamCallEvents callID (InEvent None # xs) = streamCallEvents callID xs"
| "streamCallEvents callID (InEvent (Some c) # xs) =
    (let i = (if callID = [] \<and> cg_SessionID c \<noteq> [] then cg_SessionID c else callID) in
     if cg_State c = ''ended'' then ([change_line c], [], Some None)
     else (case streamCallEvents i xs of (ls, q, r) \<Rightarrow> (change_line c # ls, q, r)))"

datatype wait_input = WDeadline | WClosed | WEvent "string option"

fun waitForCallID :: "wait_input list \<Rightarrow> (cli_error + string) option" where
  "waitForCallID [] = None"
| "waitForCallID (WDeadline # xs) = Some (Inl ErrWaitTimeout)"
| "waitForCallID (WClosed # xs) = Some (Inl ErrSubClosed)"
| "waitForCallID (WEvent None # xs) = waitForCallID xs"
| "waitForCallID (WEvent (Some i) # xs) = (if i \<noteq> [] then Some (Inr i) else waitForCallID xs)"

section \<open>The commands\<close>

text \<open>What the daemon does for a command: whether it can be reached, the answers to its requests, and the events of its
  subscription.\<close>

record call_env =
  cv_dial :: bool
  cv_calls :: "CallsListEntry list option"
  cv_subscribe :: bool
  cv_action :: bool
  cv_events :: "stream_input list"
  cv_wait :: "wait_input list"

datatype finish = Waiting | Done "cli_error option"

type_synonym call_run = "string list \<times> cli_call list \<times> finish"

definition attach_hint :: "string \<Rightarrow> string list" where
  "attach_hint callID = [''  attach: opencom call attach '' @ callID, ''  hang up: opencom call hangup '' @ callID]"

definition follow :: "string list \<Rightarrow> cli_call list \<Rightarrow> string \<Rightarrow> call_env \<Rightarrow> call_run" where
  "follow ls qs callID v =
    (case streamCallEvents callID (cv_events v) of
       (l, q, r) \<Rightarrow> (ls @ l, qs @ q,
         case r of None \<Rightarrow> Waiting | Some None \<Rightarrow> Done None | Some (Some _) \<Rightarrow> Done (Some ErrCtxDeadline)))"

definition runCallStart :: "call_env \<Rightarrow> string \<Rightarrow> bool \<Rightarrow> call_run" where
  "runCallStart v target background =
    (if \<not> cv_dial v then ([], [], Done (Some ErrConnect))
     else if \<not> cv_subscribe v then ([], [CliCallsStart target], Done (Some ErrSubscribe))
     else let calling = ''Calling '' @ target @ ''...'' in
       if background
       then (case waitForCallID (cv_wait v) of
          None \<Rightarrow> ([calling], [CliCallsStart target], Waiting)
        | Some (Inl e) \<Rightarrow> ([calling], [CliCallsStart target], Done (Some e))
        | Some (Inr i) \<Rightarrow> ([calling, ''Backgrounded. Call ID: '' @ i] @ attach_hint i, [CliCallsStart target], Done None))
       else follow [calling] [CliCallsStart target] [] v)"

text \<open>\<open>mute\<close>, \<open>unmute\<close> and \<open>hangup\<close> send one action, and print one line.\<close>

definition call_action :: "string \<Rightarrow> string \<Rightarrow> string \<Rightarrow> call_env \<Rightarrow> string list \<Rightarrow> bool \<Rightarrow> call_run" where
  "call_action action reason verb v args useCurrent =
    (if \<not> cv_dial v then ([], [], Done (Some ErrConnect))
     else case resolveCallID (cv_calls v) args useCurrent of
       (Inl e, q) \<Rightarrow> ([], q, Done (Some e))
     | (Inr i, q) \<Rightarrow>
         if cv_action v then ([verb @ '' '' @ i], q @ [CliCallsAction i action reason], Done None)
         else ([], q @ [CliCallsAction i action reason], Done (Some ErrCallRequest)))"

definition call_mute :: "call_env \<Rightarrow> string list \<Rightarrow> bool \<Rightarrow> call_run" where
  "call_mute = call_action ''mute'' [] ''Muted''"

definition call_unmute :: "call_env \<Rightarrow> string list \<Rightarrow> bool \<Rightarrow> call_run" where
  "call_unmute = call_action ''unmute'' [] ''Unmuted''"

definition call_hangup :: "string \<Rightarrow> call_env \<Rightarrow> string list \<Rightarrow> bool \<Rightarrow> call_run" where
  "call_hangup reason = call_action ''hangup'' reason ''Hung up''"

definition call_accept :: "call_env \<Rightarrow> string list \<Rightarrow> bool \<Rightarrow> bool \<Rightarrow> call_run" where
  "call_accept v args background useCurrent =
    (if \<not> cv_dial v then ([], [], Done (Some ErrConnect))
     else case resolveCallID (cv_calls v) args useCurrent of
       (Inl e, q) \<Rightarrow> ([], q, Done (Some e))
     | (Inr i, q) \<Rightarrow>
         let accept = CliCallsAction i ''accept'' [] in
         if background
         then (if cv_action v then ((''Accepted '' @ i @ '' (backgrounded)'') # attach_hint i, q @ [accept], Done None)
               else ([], q @ [accept], Done (Some ErrCallRequest)))
         else if \<not> cv_subscribe v then ([], q @ [CliCallsAttach i], Done (Some ErrSubscribe))
         else if \<not> cv_action v then ([], q @ [CliCallsAttach i, accept], Done (Some ErrCallRequest))
         else follow [''Accepted '' @ i] (q @ [CliCallsAttach i, accept]) i v)"

definition call_attach :: "call_env \<Rightarrow> string \<Rightarrow> call_run" where
  "call_attach v callID =
    (if \<not> cv_dial v then ([], [], Done (Some ErrConnect))
     else if \<not> cv_subscribe v then ([], [CliCallsAttach callID], Done (Some ErrSubscribe))
     else follow [''Attached to '' @ callID] [CliCallsAttach callID] callID v)"

section \<open>Properties\<close>

lemma newest_call_in: "newest_call e es \<in> set (e # es)"
  by (induction e es rule: newest_call.induct) auto

lemma newest_call_max: "x \<in> set (e # es) \<Longrightarrow> ce_StartedAt x \<le> ce_StartedAt (newest_call e es)"
proof (induction e es arbitrary: x rule: newest_call.induct)
  case (2 newest e es)
  let ?m = "if ce_StartedAt e > ce_StartedAt newest then e else newest"
  have m: "ce_StartedAt e \<le> ce_StartedAt ?m" "ce_StartedAt newest \<le> ce_StartedAt ?m" by simp_all
  then have "ce_StartedAt y \<le> ce_StartedAt (newest_call ?m es)" if "y = e \<or> y = newest" for y
    using that "2.IH" [of ?m] by fastforce
  then show ?case using "2.prems" "2.IH" by auto
qed simp

text \<open>An action with \<open>--current\<close> asks for the calls first and then acts on a newest one, once.\<close>

lemma current_acts_on_newest:
  assumes "cv_dial v" and "cv_action v" and "cv_calls v = Some (c # cs)"
  shows "\<exists>x \<in> set (c # cs). (\<forall>y \<in> set (c # cs). ce_StartedAt y \<le> ce_StartedAt x) \<and>
    call_action action reason verb v [] True = ([verb @ '' '' @ ce_CallID x], [CliCallsList, CliCallsAction (ce_CallID x) action reason], Done None)"
  using assms newest_call_in [of c cs] newest_call_max [of _ c cs]
  by (intro bexI [of _ "newest_call c cs"]) (auto simp: call_action_def resolveCallID_def)

text \<open>The events of the daemon as the command decodes them.\<close>

definition decoded :: "StateChange \<Rightarrow> change" where
  "decoded e = \<lparr>cg_SessionID = sc_SessionID e, cg_State = sc_State e, cg_Reason = sc_Reason e\<rparr>"

definition as_input :: "StateChange \<Rightarrow> stream_input" where
  "as_input e = InEvent (Some (decoded e))"

lemma stream_events:
  assumes "\<forall>e \<in> set (butlast evs). sc_State e \<noteq> ''ended''" and "\<forall>e \<in> set evs. sc_SessionID e = i" and "i \<noteq> []" and "callID = [] \<or> callID = i"
  shows "streamCallEvents callID (map as_input evs @ rest) =
    (if evs \<noteq> [] \<and> sc_State (last evs) = ''ended'' then (map (change_line \<circ> decoded) evs, [], Some None)
     else (case streamCallEvents (if evs = [] then callID else i) rest of
       (ls, q, r) \<Rightarrow> (map (change_line \<circ> decoded) evs @ ls, q, r)))"
  using assms
proof (induction evs arbitrary: callID)
  case (Cons e es)
  have id: "(if callID = [] \<and> cg_SessionID (decoded e) \<noteq> [] then cg_SessionID (decoded e) else callID) = i"
    using Cons.prems by (auto simp: decoded_def)
  show ?case
  proof (cases "es = []")
    case True
    then show ?thesis using id by (auto simp: as_input_def Let_def decoded_def split: prod.splits)
  next
    case False
    then have "cg_State (decoded e) \<noteq> ''ended''" using Cons.prems(1) by (simp add: decoded_def)
    moreover have "\<forall>x \<in> set (butlast es). sc_State x \<noteq> ''ended''" using Cons.prems(1) False by simp
    ultimately show ?thesis
      using id False Cons.IH [of i] Cons.prems by (auto simp: as_input_def Let_def split: prod.splits)
  qed
qed simp

text \<open>What \<open>pipeStateChanges\<close> writes: nothing after an end, each event of the session's own id, and last the state the
  session is in.\<close>

lemma pipe_forward_ended_last: "\<forall>e \<in> set (butlast (pipe_forward b cur evs)). sc_State e \<noteq> ''ended''"
  by (induction b cur evs rule: pipe_forward.induct) auto

lemma pipe_ended_last: "\<forall>e \<in> set (butlast (pipeStateChanges race later now s)). sc_State e \<noteq> ''ended''"
  using pipe_forward_ended_last by (auto simp: pipeStateChanges_def Let_def)

lemma pipe_forward_subset: "set (pipe_forward b cur evs) \<subseteq> set evs"
  by (induction b cur evs rule: pipe_forward.induct) auto

lemma run_events_id: "e \<in> set (run_events xs s) \<Longrightarrow> sc_SessionID e = sess_id s"
proof (induction xs arbitrary: s)
  case (Cons x xs)
  have "sc_SessionID e = sess_id s" if "e \<in> set (op_events x s)"
    using that by (auto simp: op_events_def change_of_def split: if_splits option.splits)
  then show ?case using Cons by fastforce
qed simp

lemma session_Subscribe_id: "sess_id (snd (session_Subscribe s)) = sess_id s"
  by (simp add: session_Subscribe_def Let_def)

lemma fold_sess_step_id: "sess_id (fold sess_step xs s) = sess_id s"
  by (induction xs arbitrary: s) simp_all

lemma pipe_ids: "e \<in> set (pipeStateChanges race later now s) \<Longrightarrow> sc_SessionID e = sess_id s"
  using pipe_forward_subset run_events_id
  by (fastforce simp: pipeStateChanges_def Let_def pipe_current_def fold_sess_step_id session_Subscribe_id split: if_splits)

lemma pipe_last_state:
  "sc_State (last (pipeStateChanges race later now s)) = State_String (sess_state (fold sess_step (race @ later) (snd (session_Subscribe s))))"
proof -
  let ?s1 = "snd (session_Subscribe s)" and ?cur = "State_String (sess_state (fold sess_step race (snd (session_Subscribe s))))"
  obtain zs where z: "map sc_State (run_events (race @ later) ?s1) = map State_String zs"
    "sorted_wrt (\<lambda>a b. state_num a < state_num b) (sess_state ?s1 # zs)"
    "last (sess_state ?s1 # zs) = sess_state (fold sess_step (race @ later) ?s1)" using run_states by blast
  obtain as where a: "map sc_State (run_events race ?s1) = map State_String as"
    "last (sess_state ?s1 # as) = sess_state (fold sess_step race ?s1)" using run_states by blast
  let ?evs = "run_events (race @ later) ?s1"
  have fwd: "pipe_forward True ?cur ?evs = (if ?evs \<noteq> [] \<and> sc_State (hd ?evs) = ?cur then tl ?evs else ?evs)"
    using pipe_forward_first [OF z(1)] z(2) by simp
  have lastz: "sc_State (last ?evs) = State_String (sess_state (fold sess_step (race @ later) ?s1))" if "?evs \<noteq> []"
  proof -
    have "zs \<noteq> []" using that z(1) by auto
    then have "sc_State (last ?evs) = State_String (last zs)" using that z(1) by (metis last_map)
    then show ?thesis using \<open>zs \<noteq> []\<close> z(3) by simp
  qed
  have none: "?cur = State_String (sess_state (fold sess_step (race @ later) ?s1))" if "?evs = []"
  proof -
    have "as = []" "zs = []" using that z(1) a(1) by (auto simp: run_events_append)
    with z(3) a(2) show ?thesis by simp
  qed
  show ?thesis
  proof (cases "?cur = ''ended''")
    case True
    then have "sess_state (fold sess_step race ?s1) = StateEnded" by (cases "sess_state (fold sess_step race ?s1)") auto
    then show ?thesis using True sess_run_ended [of "fold sess_step race ?s1" later] by (simp add: pipeStateChanges_def pipe_current_def Let_def)
  next
    case False
    then have "sc_State (last (pipeStateChanges race later now s)) = (if pipe_forward True ?cur ?evs = [] then ?cur else sc_State (last (pipe_forward True ?cur ?evs)))"
      by (simp add: pipeStateChanges_def pipe_current_def Let_def)
    then show ?thesis using fwd lastz none by (cases ?evs) (auto split: if_splits)
  qed
qed



end
