(* ===== verification/Cli_Status.thy ===== *)
theory Cli_Status
  imports Cli_Calls Daemon
begin

text \<open>
  What the commands print: calls, friends, invites and the status of the daemon (\<open>cli/call.go\<close>, \<open>cli/friends.go\<close>,
  \<open>cli/invite.go\<close>, \<open>cli/add.go\<close>, \<open>cli/status.go\<close>, \<open>cli/daemon.go\<close>, \<open>cli/root.go\<close>, \<open>cli/service.go\<close>). A printed line is a
  text, a row of a table the list of its cells; the column layout of \<open>text/tabwriter\<close> is not modelled. \<open>rfc\<close> formats a
  time as RFC 3339 and \<open>str\<close> is the text of a peer ID.
\<close>

section \<open>Durations and names\<close>

text \<open>\<open>Duration.String\<close> of a whole number of seconds.\<close>

definition second :: time where "second = 1000000000"

definition round_second :: "time \<Rightarrow> time" where
  "round_second d = (if d < 0 then - ((- d + second div 2) div second * second) else (d + second div 2) div second * second)"

definition duration_text :: "time \<Rightarrow> string" where
  "duration_text d =
    (let t = \<bar>d\<bar> div second; h = t div 3600; m = t div 60 mod 60; s = FormatInt (t mod 60) @ ''s'' in
     (if d < 0 then ''-'' else []) @
     (if h > 0 then FormatInt h @ ''h'' @ FormatInt m @ ''m'' @ s else if m > 0 then FormatInt m @ ''m'' @ s else s))"

definition shortenPeerID :: "string \<Rightarrow> string" where
  "shortenPeerID s = (if length s > 12 then take 6 s @ ellipsis @ drop (length s - 6) s else s)"

definition shortPeerID :: "string \<Rightarrow> string" where
  "shortPeerID i = (if length i \<le> 18 then i else take 12 i @ ellipsis @ drop (length i - 4) i)"

section \<open>Calls\<close>

definition level_text :: "int \<Rightarrow> string" where
  "level_text l = (if l > - 100 then FormatInt l @ '' dB'' else ''-'' @ encode_rune 8734)"

text \<open>A call without an audio session has the zero values in its fields.\<close>

definition call_row :: "(peer_id \<Rightarrow> string) \<Rightarrow> CallsListEntry \<Rightarrow> string list" where
  "call_row str c =
    (let a = ce_Audio c;
         muted = (case a of Some st \<Rightarrow> sx_Muted st | None \<Rightarrow> False);
         peer = (case a of Some st \<Rightarrow> sx_PeerMuted st | None \<Rightarrow> False);
         media = (case a of Some st \<Rightarrow> sx_MediaMode st | None \<Rightarrow> []);
         rx = (case a of Some st \<Rightarrow> sx_RxPeakDBFS st | None \<Rightarrow> 0);
         tx = (case a of Some st \<Rightarrow> sx_TxPeakDBFS st | None \<Rightarrow> 0)
     in [ce_CallID c, ce_State c, ce_Direction c, str (ce_Remote c), if muted then ''yes'' else if peer then ''peer'' else ''no'',
         if a = None then ''-'' else ''ok'', if media = [] then ''-'' else media, level_text rx, level_text tx])"

definition call_table :: "(peer_id \<Rightarrow> string) \<Rightarrow> CallsListEntry list \<Rightarrow> string list + string list list" where
  "call_table str cs =
    (if cs = [] then Inl [''no active calls'']
     else Inr ([''CALL ID'', ''STATE'', ''DIRECTION'', ''REMOTE'', ''MUTE'', ''AUDIO'', ''MEDIA'', ''RX-LVL'', ''TX-LVL''] # map (call_row str) cs))"

text \<open>A call that carries no audio is shown at full scale, one whose audio is silent as silent.\<close>

lemma FormatInt_0 [simp]: "FormatInt 0 = ''0''" by code_simp

lemma call_row_levels:
  "ce_Audio c = None \<Longrightarrow> drop 7 (call_row str c) = [''0 dB'', ''0 dB'']"
  "ce_Audio c = Some st \<Longrightarrow> sx_RxPeakDBFS st \<le> - 100 \<Longrightarrow> call_row str c ! 7 = ''-'' @ encode_rune 8734"
  by (simp_all add: call_row_def level_text_def Let_def)

section \<open>Friends\<close>

definition online_text :: "bool \<Rightarrow> string" where
  "online_text b = (if b then ''online'' else ''offline'')"

definition last_seen_text :: "(time \<Rightarrow> string) \<Rightarrow> time option \<Rightarrow> string" where
  "last_seen_text rfc t = (case t of None \<Rightarrow> ''never'' | Some t \<Rightarrow> rfc t)"

definition friend_cells :: "(time \<Rightarrow> string) \<Rightarrow> (peer_id \<Rightarrow> string) \<Rightarrow> FriendsListEntry \<Rightarrow> string list" where
  "friend_cells rfc str f =
    [fe_Name f, online_text (fe_Online f), last_seen_text rfc (fe_LastSeen f), shortPeerID (str (fe_PeerID f))]"

definition friends_table :: "(time \<Rightarrow> string) \<Rightarrow> (peer_id \<Rightarrow> string) \<Rightarrow> FriendsListEntry list \<Rightarrow> string list + string list list" where
  "friends_table rfc str fs =
    (if fs = [] then Inl [''no friends yet '' @ encode_rune 8212 @ '' add one with `opencom friends add ./their.pub.key`'']
     else Inr ([''NAME'', ''STATUS'', ''LAST SEEN'', ''PEER ID''] # map (friend_cells rfc str) fs))"

definition friend_show_lines :: "(time \<Rightarrow> string) \<Rightarrow> (peer_id \<Rightarrow> string) \<Rightarrow> Friend \<times> bool \<times> time option \<Rightarrow> string list" where
  "friend_show_lines rfc str r =
    (case r of (f, on, seen_at) \<Rightarrow>
       [''Name        : '' @ fr_Name f, ''Peer ID     : '' @ str (fr_PeerID f), ''Public key  : '' @ fr_PublicKey f,
        ''Added at    : '' @ rfc (fr_AddedAt f), ''Status      : '' @ online_text on, ''Last seen   : '' @ last_seen_text rfc seen_at])"

definition add_line :: "(peer_id \<Rightarrow> string) \<Rightarrow> FriendsListEntry \<Rightarrow> string" where
  "add_line str f = encode_rune 10003 @ '' Added '' @ fe_Name f @ '' ('' @ shortenPeerID (str (fe_PeerID f)) @ '') as a friend.''"

section \<open>The own identity\<close>

text \<open>\<open>identity show\<close> and \<open>identity export\<close> work on the files of the home, without the daemon.\<close>

definition identity_show ::
    "('priv, 'pub, 'y) init_lib \<Rightarrow> Paths option \<Rightarrow> ('priv, 'y) init_env \<Rightarrow> 'y home \<Rightarrow> start_error + string list" where
  "identity_show L paths v h =
    (case paths of
       None \<Rightarrow> Inl StPaths
     | Some p \<Rightarrow>
         (case load_identity L p v h of
            Inl e \<Rightarrow> Inl e
          | Inr (kp, cfg) \<Rightarrow>
              (let i = k_idStr (il_keys L) (kp_PeerID kp) in
               Inr [''Display name : '' @ cf_UserName cfg, ''Peer ID      : '' @ i,
                 ''Fingerprint  : '' @ (if length i > 12 then take 12 i else i) @ ellipsis])))"

datatype export_error = ExStart start_error | ExExport identity_error | ExWrite io_error

definition identity_export ::
    "('priv, 'pub, 'y) init_lib \<Rightarrow> Paths option \<Rightarrow> ('priv, 'y) init_env \<Rightarrow> 'y home \<Rightarrow> string \<Rightarrow> io_env \<Rightarrow> PublicIdentity fs
     \<Rightarrow> (export_error + string) \<times> PublicIdentity fs" where
  "identity_export L paths v h dest env fs =
    (case paths of
       None \<Rightarrow> (Inl (ExStart StPaths), fs)
     | Some p \<Rightarrow>
         (case load_identity L p v h of
            Inl e \<Rightarrow> (Inl (ExStart e), fs)
          | Inr (kp, cfg) \<Rightarrow>
              (case Export (il_keys L) kp (cf_UserName cfg) of
                 Inl e \<Rightarrow> (Inl (ExExport e), fs)
               | Inr ident \<Rightarrow>
                   (case WriteExport dest ident env fs of
                      (Inl e, fs') \<Rightarrow> (Inl (ExWrite e), fs')
                    | (Inr _, fs') \<Rightarrow> (Inr (''Wrote '' @ dest), fs')))))"

section \<open>Invites\<close>

definition expires_in :: "time \<Rightarrow> time \<Rightarrow> time" where
  "expires_in now t = (let d = round_minute (t - now) in if d < 0 then 0 else d)"

definition invite_cells :: "time \<Rightarrow> InviteListEntry \<Rightarrow> string list" where
  "invite_cells now e =
    [ie_Pretty e, duration_text (expires_in now (ie_ExpiresAt e)),
     if ie_Consumed e then ''consumed ('' @ shortenPeerID (ie_ConsumedBy e) @ '')'' else if \<not> ie_Active e then ''expired'' else ''active'']"

definition invites_table :: "time \<Rightarrow> InviteListEntry list \<Rightarrow> string list + string list list" where
  "invites_table now es =
    (if es = [] then Inl [''no invite codes''] else Inr ([''CODE'', ''EXPIRES IN'', ''STATUS''] # map (invite_cells now) es))"

text \<open>The answer of \<open>invite.create\<close>; the times are seconds since the epoch there, nanoseconds in \<open>now\<close>.\<close>

definition no_address_note :: "string list" where
  "no_address_note =
    [[], encode_rune 9888 @ ''  No cross-network address yet '' @ encode_rune 8212 @ '' AutoRelay hasn't reserved a'',
     ''   relay slot, and your daemon has no directly-routable public'',
     ''   address. The URL above will only work for friends on the'',
     ''   same LAN (mDNS) until reachability improves.'',
     ''   Run `opencom status` in ~30s; if reachability shows'',
     ''   '' @ [CHR 34] @ ''directly reachable'' @ [CHR 34] @ '' or '' @ [CHR 34] @ ''via relay'' @ [CHR 34] @ '', re-run `opencom invite`'',
     ''   to get a cross-network-redeemable URL.'']"

definition invite_lines :: "time \<Rightarrow> InviteCreateResult \<Rightarrow> string list" where
  "invite_lines now r =
    (let expires = ''Expires in:  '' @ duration_text (round_minute (ic_ExpiresAt r * second - now)) in
     (if ic_DHTPublishWarning r = []
      then [''Invite code: '' @ ic_Code r, ''Or URL:      '' @ ic_URL r, expires, [], ''Share this with a friend. They run:'',
        ''  opencom add '' @ ic_Code r, ''    or'', ''  opencom add '' @ [CHR 39] @ ic_URL r @ [CHR 39]]
      else [''Invite URL:  '' @ ic_URL r, expires, [], ''Note: short code ('' @ ic_Code r @ '') couldn't be published to the DHT'',
        ''      ('' @ ic_DHTPublishWarning r @ '').'', ''      The URL form above is self-contained and works without DHT.'', [],
        ''Share the URL with a friend. They run:'', ''  opencom add '' @ [CHR 39] @ ic_URL r @ [CHR 39]]) @
     (if ic_ReachableAddrs r = [] then no_address_note else []))"

section \<open>The status of the daemon\<close>

definition reachabilitySummary :: "string \<Rightarrow> string list \<Rightarrow> string" where
  "reachabilitySummary r listenAddrs =
    (if r = ''public'' then ''directly reachable''
     else if list_ex (\<lambda>a. str_contains a ''/p2p-circuit/'') listenAddrs then ''via relay''
     else if r = ''private'' then ''LAN-only (no relay reservation yet '' @ encode_rune 8212 @ '' try again in ~30s)''
     else ''checking...'')"

text \<open>\<open>daemon status\<close>: \<open>None\<close> when the daemon cannot be reached.\<close>

definition daemon_status_lines :: "(time \<Rightarrow> string) \<Rightarrow> (peer_id \<Rightarrow> string) \<Rightarrow> time \<Rightarrow> DaemonStatusResult option \<Rightarrow> string list" where
  "daemon_status_lines rfc str now st =
    (case st of
       None \<Rightarrow> [''daemon: not running'']
     | Some s \<Rightarrow>
         [''daemon: running'', ''version : '' @ ds_Version s, ''peer id : '' @ str (ds_PeerID s), ''started : '' @ rfc (ds_StartedAt s),
          ''uptime  : '' @ duration_text (round_second (now - ds_StartedAt s))] @
         (if ds_Reachability s \<noteq> [] then [''reach   : '' @ ds_Reachability s] else []) @
         (if ds_Relays s = [] then [''relays  : no reservations'']
          else ''relays  :'' # map (\<lambda>r. ''          reserved on '' @ str r) (ds_Relays s)) @
         (if ds_ListenAddrs s \<noteq> [] then ''listen  :'' # map (\<lambda>a. ''          '' @ a) (ds_ListenAddrs s) else []))"

text \<open>The service manager's answer. An error is whether it is \<open>ErrNotInstalled\<close>, and its text.\<close>

datatype service_state = SvcRunning | SvcStopped | SvcUnknown

definition isAlreadyInstalled :: "string option \<Rightarrow> bool" where
  "isAlreadyInstalled e =
    (case e of None \<Rightarrow> False
     | Some s \<Rightarrow> list_ex (str_contains s) [''already exists'', ''already installed'', ''File exists'', ''already enabled''])"

definition isNotInstalled :: "(bool \<times> string) option \<Rightarrow> bool" where
  "isNotInstalled e =
    (case e of None \<Rightarrow> False
     | Some (notInstalled, s) \<Rightarrow> notInstalled \<or> list_ex (str_contains s) [''not installed'', ''service does not exist''])"

definition init_service :: "string option option \<Rightarrow> service_outcome" where
  "init_service install =
    (case install of
       None \<Rightarrow> SvcUnavailable
     | Some None \<Rightarrow> SvcInstalled
     | Some (Some e) \<Rightarrow> if isAlreadyInstalled (Some e) then SvcAlready else SvcFailed)"

text \<open>\<open>service status\<close>; an error it cannot explain is returned, \<open>None\<close> here.\<close>

definition service_status_line :: "(bool \<times> string) option \<Rightarrow> service_state \<Rightarrow> string option" where
  "service_status_line err st =
    (if err \<noteq> None then (if isNotInstalled err then Some ''service: not installed'' else None)
     else Some (case st of SvcRunning \<Rightarrow> ''service: running'' | SvcStopped \<Rightarrow> ''service: installed (stopped)''
       | SvcUnknown \<Rightarrow> ''service: installed (state unknown)''))"

definition service_install :: "string option \<Rightarrow> string list option" where
  "service_install err =
    (case err of
       None \<Rightarrow> Some [''Service installed. It will start at next user login.'', ''Run `opencom service start` to start it now.'']
     | Some e \<Rightarrow> if isAlreadyInstalled err then Some [''Service already installed.''] else None)"

definition service_uninstall :: "(bool \<times> string) option \<Rightarrow> string list option" where
  "service_uninstall err =
    (case err of
       None \<Rightarrow> Some [''Service uninstalled.'']
     | Some e \<Rightarrow> if isNotInstalled err then Some [''Service was not installed.''] else None)"

definition status_service_lines :: "((bool \<times> string) option \<times> service_state) option \<Rightarrow> string list" where
  "status_service_lines svc =
    (case svc of
       None \<Rightarrow> []
     | Some (err, st) \<Rightarrow>
         [''Service         : '' @
          (case err of
             Some (n, e) \<Rightarrow> if isNotInstalled err then ''not installed'' else ''unknown ('' @ e @ '')''
           | None \<Rightarrow> (case st of SvcRunning \<Rightarrow> ''installed (running)'' | SvcStopped \<Rightarrow> ''installed (stopped)''
               | SvcUnknown \<Rightarrow> ''installed (state unknown)''))])"

definition status_friend_line :: "time \<Rightarrow> FriendsListEntry \<Rightarrow> string" where
  "status_friend_line now f =
    (let state = (if fe_Online f then ''online''
       else case fe_LastSeen f of None \<Rightarrow> ''offline'' | Some t \<Rightarrow> ''last seen '' @ duration_text (round_minute (now - t)) @ '' ago'')
     in ''  - '' @ (if fe_Name f = [] then ''(unnamed)'' else fe_Name f) @ '' ('' @ state @ '')'')"

definition active_invites :: "InviteListEntry list \<Rightarrow> InviteListEntry list" where
  "active_invites es = filter ie_Active es"

definition status_lines :: "(peer_id \<Rightarrow> string) \<Rightarrow> time \<Rightarrow> ((bool \<times> string) option \<times> service_state) option \<Rightarrow> DaemonStatusSummaryResult \<Rightarrow> string list" where
  "status_lines str now svc r =
    (let i = ss_Identity r; active = active_invites (ss_Invites r) in
     [''Identity        : '' @ str (ds_PeerID i),
      ''Daemon          : running ('' @ duration_text (round_second (now - ds_StartedAt i)) @ '' uptime)'',
      ''Reachability    : '' @ reachabilitySummary (ds_Reachability i) (ds_ListenAddrs i)] @
     status_service_lines svc @
     (if ss_Friends r = [] then [''Friends         : 0'']
      else (''Friends         : '' @ FormatInt (int (length (ss_Friends r)))) # map (status_friend_line now) (ss_Friends r)) @
     [''Active calls    : '' @ FormatInt (int (length (ss_Calls r)))] @
     (if active = [] then [''Active invites  : 0'']
      else (''Active invites  : '' @ FormatInt (int (length active))) #
        map (\<lambda>e. ''  - '' @ ie_Pretty e @ '' (expires in '' @ duration_text (expires_in now (ie_ExpiresAt e)) @ '')'') active) @
     (if ds_ListenAddrs i \<noteq> [] then ''Listen          :'' # map (\<lambda>a. ''  '' @ a) (ds_ListenAddrs i) else []))"

section \<open>The notice of a new version\<close>

text \<open>\<open>chain\<close> are the names of the command and its parents, \<open>check\<close> the answer of \<open>version.check\<close> when the daemon gives one.\<close>

definition maybePrintUpgradeAvailable :: "string \<Rightarrow> string list \<Rightarrow> version_Result option \<Rightarrow> string option" where
  "maybePrintUpgradeAvailable version chain check =
    (if version = ''dev'' then None
     else if chain \<noteq> [] \<and> hd chain \<in> {''upgrade'', ''version'', ''start'', ''stop'', ''status''} then None
     else if ''upgrade'' \<in> set chain then None
     else (case check of
        None \<Rightarrow> None
      | Some r \<Rightarrow>
          if \<not> vr_UpgradeAvailable r then None
          else Some (encode_rune 9888 @ '' opencom v'' @ vr_Latest r @ '' is available (you have v'' @ vr_Current r @ '') '' @ encode_rune 8212 @
            '' run '' @ [CHR 39] @ TrimSpace (last chain) @ '' upgrade'' @ [CHR 39] @ '' to install'')))"

section \<open>Properties\<close>

definition add_code_line :: "string \<Rightarrow> string" where
  "add_code_line code = ''  opencom add '' @ code"

lemma invite_lines_unpublished:
  assumes "ic_DHTPublishWarning r \<noteq> []" and "ic_Code r \<noteq> []" and "hd (ic_Code r) \<noteq> CHR 39"
  shows "add_code_line (ic_Code r) \<notin> set (invite_lines now r)"
proof -
  obtain c cs where c: "ic_Code r = c # cs" "c \<noteq> CHR 39" using assms(2,3) by (cases "ic_Code r") auto
  have "add_code_line (ic_Code r) \<notin> set no_address_note"
    by (simp add: no_address_note_def add_code_line_def encode_rune_def)
  then show ?thesis using assms(1) c by (simp add: invite_lines_def add_code_line_def Let_def)
qed

text \<open>A code that nobody can look up is still handed out by \<open>init\<close>. When publishing an invite to the DHT failed, the
  daemon answers with a warning because only the URL can be redeemed; \<open>opencom invite\<close> then tells the user to share the URL and
  never to run \<open>opencom add\<close> with the code, while \<open>opencom init\<close> prints the code, and nothing else of the invite, as if it
  were published.\<close>

theorem init_hands_out_unpublished_code:
  assumes "ic_DHTPublishWarning r \<noteq> []" and "ic_Code r \<noteq> []" and "hd (ic_Code r) \<noteq> CHR 39"
    and "init_files L p v name h = (Inr kc, h')"
  shows "add_code_line (ic_Code r) \<notin> set (invite_lines now r) \<and>
    (case runInit L (Some p) v name ws True svc True (Some r) h of
       (err, ls, _) \<Rightarrow> err = None \<and> LineInvite (ic_Code r) \<in> set ls
         \<and> runInit L (Some p) v name ws True svc True (Some (r\<lparr>ic_DHTPublishWarning := []\<rparr>)) h = (err, ls, h'))"
  using invite_lines_unpublished [OF assms(1-3)] assms(4) by (cases kc) (simp add: runInit_def init_invite_lines_def Let_def)

theorem init_hands_out_unpublished_code_witness:
  "\<exists>ls. fst (snd (runInit init_ex_lib (Some init_ex_paths) (init_ex_env ''k1'') ''al'' False True SvcFailed True
      (Some (init_ex_invite\<lparr>ic_DHTPublishWarning := ''no peers''\<rparr>)) init_ex_home)) = ls \<and> LineInvite ''A7B2-X9K4'' \<in> set ls
    \<and> add_code_line ''A7B2-X9K4'' \<notin> set (invite_lines 0 (init_ex_invite\<lparr>ic_DHTPublishWarning := ''no peers''\<rparr>))"
proof -
  obtain kc h' where "init_files init_ex_lib init_ex_paths (init_ex_env ''k1'') ''al'' init_ex_home = (Inr kc, h')"
    by (simp add: init_ex_defs init_files_def ensureKeypair_def Generate_identity_def keypair_of_def Save_key_def
        AtomicWriteFile_def ensureConfig_def Load_config_def Save_config_def ensureFriendsFile_def Default_def Let_def)
  from init_hands_out_unpublished_code [OF _ _ _ this, of "init_ex_invite\<lparr>ic_DHTPublishWarning := ''no peers''\<rparr>" 0 False SvcFailed]
  show ?thesis by (auto simp: init_ex_invite_def split: prod.splits)
qed

text \<open>What a user exports after initialising, another user adds and can call: the file \<open>identity export\<close> writes is
  accepted by the other daemon, and the name in it resolves to the exporter's peer ID.\<close>

lemma export_after_init:
  assumes "initialised L p (ie_user v) kp cfg h" and "undisturbed v" and "keys_ok (il_keys L)" and "fresh_temp dest env files" and "io_success env"
    and "Export (il_keys L) kp (cf_UserName cfg) = Inr ident"
  shows "\<exists>files'. identity_export L (Some p) v h dest env files = (Inr (''Wrote '' @ dest), files') \<and> ReadExport (il_keys L) dest files' = Inr ident"
proof -
  have w: "WriteExport dest ident env files = (Inr (), files(dest \<mapsto> Data ident))"
    unfolding WriteExport_def by (rule AtomicWriteFile_ok [OF assms(4,5)])
  have "keypair_of (il_keys L) (kp_Priv kp) = Inr kp" using assms(1) by (simp add: initialised_def)
  from Read_Export [OF assms(3) this assms(6)] have "ReadExport (il_keys L) dest (files(dest \<mapsto> Data ident)) = Inr ident" by simp
  then show ?thesis using w by (simp add: identity_export_def initialised_loads [OF assms(1,2)] assms(6))
qed

end
