(* ===== verification/Ipc_Socket.thy ===== *)
theory Ipc_Socket
  imports Prelude
begin

text \<open>
  The IPC socket on Unix (\<open>ipc/transport_unix.go\<close>): \<open>Listen\<close>, call by call, for several processes that share one path.
  A socket file belongs to the process that bound it; it is stale when that process listens no more. Closing a listener
  unlinks the path, as Go's Unix listeners do, whoever's file is there by then; a crash leaves the file.
\<close>

datatype listen_error = ErrInUse | ErrRemoveStale | ErrBind | ErrChmodSocket

datatype phase = Idle | Dialed | Removed | Bound | Ready | Gone | Failed listen_error

record socket =
  sk_file :: "nat option"
  sk_live :: "nat list"

record listen_env =
  le_remove :: bool
  le_bind :: bool
  le_chmod :: bool

text \<open>The process that answers a connection to the path.\<close>

definition responder :: "socket \<Rightarrow> nat option" where
  "responder s = (case sk_file s of None \<Rightarrow> None | Some q \<Rightarrow> if q \<in> set (sk_live s) then Some q else None)"

definition close_listener :: "nat \<Rightarrow> socket \<Rightarrow> socket" where
  "close_listener p s = \<lparr>sk_file = None, sk_live = removeAll p (sk_live s)\<rparr>"

text \<open>One system call of \<open>Listen\<close> in process \<open>p\<close>.\<close>

definition listen_step :: "listen_env \<Rightarrow> nat \<Rightarrow> phase \<times> socket \<Rightarrow> phase \<times> socket" where
  "listen_step v p x = (let s = snd x in
    (case fst x of
       Idle \<Rightarrow> if responder s \<noteq> None then (Failed ErrInUse, s) else (Dialed, s)
     | Dialed \<Rightarrow>
         if sk_file s = None then (Removed, s)
         else if le_remove v then (Removed, s\<lparr>sk_file := None\<rparr>)
         else (Failed ErrRemoveStale, s)
     | Removed \<Rightarrow>
         if sk_file s \<noteq> None \<or> \<not> le_bind v then (Failed ErrBind, s)
         else (Bound, \<lparr>sk_file = Some p, sk_live = p # sk_live s\<rparr>)
     | Bound \<Rightarrow>
         if sk_file s \<noteq> None \<and> le_chmod v then (Ready, s) else (Failed ErrChmodSocket, close_listener p s)
     | ph \<Rightarrow> (ph, s)))"

text \<open>\<open>Listen\<close> run without any other process in between.\<close>

definition Listen :: "listen_env \<Rightarrow> nat \<Rightarrow> socket \<Rightarrow> phase \<times> socket" where
  "Listen v p s = (listen_step v p ^^ 4) (Idle, s)"

text \<open>\<open>dialTransport\<close> and \<open>PathReachable\<close>: whether somebody answers.\<close>

definition PathReachable :: "socket \<Rightarrow> bool" where
  "PathReachable s \<longleftrightarrow> responder s \<noteq> None"

lemmas listen_defs = listen_step_def responder_def close_listener_def Let_def

section \<open>One process after another\<close>

datatype socket_op = OpListen nat listen_env | OpClose nat | OpCrash nat

definition socket_step :: "socket_op \<Rightarrow> socket \<Rightarrow> socket" where
  "socket_step a s =
    (case a of
       OpListen p v \<Rightarrow> if p \<in> set (sk_live s) then s else snd (Listen v p s)
     | OpClose p \<Rightarrow> if p \<in> set (sk_live s) then close_listener p s else s
     | OpCrash p \<Rightarrow> s\<lparr>sk_live := removeAll p (sk_live s)\<rparr>)"

text \<open>At most one process listens, and the path leads to it.\<close>

definition exclusive :: "socket \<Rightarrow> bool" where
  "exclusive s \<longleftrightarrow> length (sk_live s) \<le> 1 \<and> (\<forall>q \<in> set (sk_live s). sk_file s = Some q)"

lemma exclusive_cases:
  assumes "exclusive s"
  obtains "sk_live s = []" | q where "sk_live s = [q]" "sk_file s = Some q"
  using assms by (cases "sk_live s") (auto simp: exclusive_def)

lemma Listen_calls: "Listen v p s = listen_step v p (listen_step v p (listen_step v p (listen_step v p (Idle, s))))"
  by (simp add: Listen_def eval_nat_numeral)

lemma listen_step_Failed [simp]: "listen_step v p (Failed e, s) = (Failed e, s)"
  by (simp add: listen_step_def)

lemma Listen_live: "responder s \<noteq> None \<Longrightarrow> Listen v p s = (Failed ErrInUse, s)"
  by (simp add: Listen_calls) (simp add: listen_step_def Let_def)

lemma Listen_free:
  assumes "sk_live s = []"
  shows "Listen v p s =
    (if sk_file s \<noteq> None \<and> \<not> le_remove v then (Failed ErrRemoveStale, s)
     else if \<not> le_bind v then (Failed ErrBind, s\<lparr>sk_file := None\<rparr>)
     else if \<not> le_chmod v then (Failed ErrChmodSocket, \<lparr>sk_file = None, sk_live = []\<rparr>)
     else (Ready, \<lparr>sk_file = Some p, sk_live = [p]\<rparr>))"
proof -
  have 1: "listen_step v p (Idle, s) = (Dialed, s)" using assms by (simp add: listen_defs split: option.splits)
  have 2: "listen_step v p (Dialed, s) =
      (if sk_file s \<noteq> None \<and> \<not> le_remove v then (Failed ErrRemoveStale, s) else (Removed, s\<lparr>sk_file := None\<rparr>))"
    by (cases s) (simp add: listen_step_def Let_def)
  have 3: "listen_step v p (Removed, s\<lparr>sk_file := None\<rparr>) =
      (if \<not> le_bind v then (Failed ErrBind, s\<lparr>sk_file := None\<rparr>) else (Bound, \<lparr>sk_file = Some p, sk_live = [p]\<rparr>))"
    using assms by (simp add: listen_step_def Let_def)
  have 4: "listen_step v p (Bound, \<lparr>sk_file = Some p, sk_live = [p]\<rparr>) =
      (if \<not> le_chmod v then (Failed ErrChmodSocket, \<lparr>sk_file = None, sk_live = []\<rparr>) else (Ready, \<lparr>sk_file = Some p, sk_live = [p]\<rparr>))"
    by (simp add: listen_defs)
  show ?thesis by (simp add: Listen_calls 1 2 3 4)
qed

lemma Listen_exclusive:
  assumes "exclusive s" shows "exclusive (snd (Listen v p s))"
  using assms
proof (rule exclusive_cases)
  assume "sk_live s = []"
  then show ?thesis using assms by (simp add: Listen_free exclusive_def)
next
  fix q assume "sk_live s = [q]" "sk_file s = Some q"
  then show ?thesis using assms by (simp add: Listen_live responder_def)
qed

lemma socket_step_exclusive:
  assumes "exclusive s" shows "exclusive (socket_step a s)"
proof (cases a)
  case (OpListen p v)
  then show ?thesis using assms by (simp add: socket_step_def Listen_exclusive)
next
  case (OpClose p)
  from assms show ?thesis by (rule exclusive_cases) (auto simp: OpClose socket_step_def close_listener_def exclusive_def)
next
  case (OpCrash p)
  from assms show ?thesis by (rule exclusive_cases) (auto simp: OpCrash socket_step_def exclusive_def)
qed



section \<open>Two processes at once\<close>

text \<open>Any process makes its next call, closes its listener, or dies.\<close>

inductive socket_world :: "(nat \<Rightarrow> listen_env) \<Rightarrow> (nat \<Rightarrow> phase) \<times> socket \<Rightarrow> (nat \<Rightarrow> phase) \<times> socket \<Rightarrow> bool"
  for E :: "nat \<Rightarrow> listen_env" where
    sw_call: "listen_step (E p) p (ph p, s) = (x, s') \<Longrightarrow> socket_world E (ph, s) (ph(p := x), s')"
  | sw_close: "ph p = Ready \<Longrightarrow> socket_world E (ph, s) (ph(p := Gone), close_listener p s)"
  | sw_crash: "socket_world E (ph, s) (ph(p := Gone), s\<lparr>sk_live := removeAll p (sk_live s)\<rparr>)"

inductive_cases socket_worldE: "socket_world E (ph, s) (ph', s')"

text \<open>A process that makes its four calls in a row does what \<open>Listen\<close> does.\<close>

lemma socket_world_calls:
  "(listen_step (E p) p ^^ n) (ph p, s) = (x, s') \<Longrightarrow> (socket_world E)\<^sup>*\<^sup>* (ph, s) (ph(p := x), s')"
proof (induction n arbitrary: x s')
  case 0
  have "ph(p := ph p) = ph" by (rule fun_upd_triv)
  with 0 show ?case by (metis funpow_0 prod.inject rtranclp.rtrancl_refl)
next
  case (Suc n)
  obtain y t where y: "(listen_step (E p) p ^^ n) (ph p, s) = (y, t)" by fastforce
  then have "socket_world E (ph(p := y), t) ((ph(p := y))(p := x), s')"
    using Suc.prems by (intro sw_call) simp
  then have "socket_world E (ph(p := y), t) (ph(p := x), s')" by (simp only: fun_upd_upd)
  with Suc.IH [OF y] show ?case by (rule rtranclp.rtrancl_into_rtrancl)
qed

lemma Listen_in_world: "ph p = Idle \<Longrightarrow> Listen (E p) p s = (x, s') \<Longrightarrow> (socket_world E)\<^sup>*\<^sup>* (ph, s) (ph(p := x), s')"
  by (rule socket_world_calls [where n = 4]) (simp add: Listen_def)

text \<open>Two daemons starting at once both believe to own the socket. Between the dial of \<open>Listen\<close> and its bind
  another process may do all of its calls: from any state in which nobody listens, two processes whose system calls
  succeed can both get their listener. The second has then removed the first one's live socket file, so the first is
  running but cannot be reached; and when the first closes, it unlinks the file of the second, which then cannot be
  reached either.\<close>

theorem concurrent_listeners_both_start:
  assumes "p \<noteq> q" and "sk_live s = []" and "\<And>x. E x = \<lparr>le_remove = True, le_bind = True, le_chmod = True\<rparr>"
  shows "\<exists>ph t. (socket_world E)\<^sup>*\<^sup>* (\<lambda>_. Idle, s) (ph, t) \<and> ph p = Ready \<and> ph q = Ready \<and> responder t = Some q
    \<and> p \<in> set (sk_live t) \<and> socket_world E (ph, t) (ph(p := Gone), close_listener p t)
    \<and> \<not> PathReachable (close_listener p t) \<and> q \<in> set (sk_live (close_listener p t))"
proof -
  define ph0 :: "nat \<Rightarrow> phase" where "ph0 = (\<lambda>_. Idle)"
  define t where "t = \<lparr>sk_file = Some q, sk_live = [q, p]\<rparr>"
  have a: "(socket_world E)\<^sup>*\<^sup>* (ph0, s) (ph0(q := Dialed), s)"
    by (rule socket_world_calls [where n = 1]) (simp add: ph0_def assms(2) listen_defs split: option.splits)
  have b: "(socket_world E)\<^sup>*\<^sup>* (ph0(q := Dialed), s) ((ph0(q := Dialed))(p := Ready), \<lparr>sk_file = Some p, sk_live = [p]\<rparr>)"
    using assms by (intro Listen_in_world) (simp_all add: ph0_def Listen_free)
  have c: "(socket_world E)\<^sup>*\<^sup>* ((ph0(q := Dialed))(p := Ready), \<lparr>sk_file = Some p, sk_live = [p]\<rparr>)
      ((ph0(q := Dialed, p := Ready))(q := Ready), t)"
    using assms by (intro socket_world_calls [where n = 3]) (simp add: t_def numeral_eq_Suc listen_defs)
  have run: "(socket_world E)\<^sup>*\<^sup>* (ph0, s) ((ph0(q := Dialed, p := Ready))(q := Ready), t)"
    by (rule rtranclp_trans [OF rtranclp_trans [OF a b] c])
  have fin: "((ph0(q := Dialed, p := Ready))(q := Ready)) p = Ready" using assms(1) by simp
  have "socket_world E ((ph0(q := Dialed, p := Ready))(q := Ready), t)
      (((ph0(q := Dialed, p := Ready))(q := Ready))(p := Gone), close_listener p t)"
    by (rule sw_close) (rule fin)
  with run fin assms(1) show ?thesis
    by (intro exI [of _ "(ph0(q := Dialed, p := Ready))(q := Ready)"] exI [of _ t])
      (simp add: ph0_def t_def responder_def PathReachable_def close_listener_def)
qed

theorem concurrent_listeners_both_start_witness:
  "\<exists>ph t. (socket_world (\<lambda>_. \<lparr>le_remove = True, le_bind = True, le_chmod = True\<rparr>))\<^sup>*\<^sup>*
      (\<lambda>_. Idle, \<lparr>sk_file = Some 7, sk_live = []\<rparr>) (ph, t) \<and> ph 1 = Ready \<and> ph 2 = Ready \<and> responder t = Some 2"
  using concurrent_listeners_both_start [of 1 2 "\<lparr>sk_file = Some 7, sk_live = []\<rparr>"
      "\<lambda>_. \<lparr>le_remove = True, le_bind = True, le_chmod = True\<rparr>"] by auto

end
