(* ===== verification/Ipc_Serve.thy ===== *)
theory Ipc_Serve
  imports Ipc
begin

text \<open>
  \<open>Server.Serve\<close> (\<open>internal/ipc/server.go\<close>): the accept loop, the watcher that closes the listener, one goroutine per
  connection, and the shutdown that \<open>daemon.shutdown\<close> (\<open>internal/ipc/methods/daemon.go\<close>) asks for.

  \<open>serve_do\<close> makes one step of one of these goroutines, or says that the step is not possible now. The model of a single
  connection (\<open>handle_line\<close>) is that of Ipc; here the connections share the daemon's state and interleave freely.
  The generic part on infinite runs and weak fairness comes first.
\<close>

section \<open>Runs and weak fairness\<close>

text \<open>A run of a system: its states and the action taken at each moment, if any.\<close>

definition run_of :: "('a \<Rightarrow> 's \<Rightarrow> 's option) \<Rightarrow> (nat \<Rightarrow> 'a option) \<Rightarrow> (nat \<Rightarrow> 's) \<Rightarrow> bool" where
  "run_of act \<alpha> \<sigma> \<longleftrightarrow> (\<forall>i. case \<alpha> i of None \<Rightarrow> \<sigma> (Suc i) = \<sigma> i | Some a \<Rightarrow> act a (\<sigma> i) = Some (\<sigma> (Suc i)))"

definition weakly_fair :: "('a \<Rightarrow> 's \<Rightarrow> 's option) \<Rightarrow> (nat \<Rightarrow> 'a option) \<Rightarrow> (nat \<Rightarrow> 's) \<Rightarrow> 'a \<Rightarrow> bool" where
  "weakly_fair act \<alpha> \<sigma> a \<longleftrightarrow> (\<forall>i. (\<forall>j \<ge> i. act a (\<sigma> j) \<noteq> None) \<longrightarrow> (\<exists>j \<ge> i. \<alpha> j = Some a))"

lemma run_of_step:
  assumes "run_of act \<alpha> \<sigma>"
  obtains "\<alpha> i = None" "\<sigma> (Suc i) = \<sigma> i" | a where "\<alpha> i = Some a" "act a (\<sigma> i) = Some (\<sigma> (Suc i))"
  using assms unfolding run_of_def by (cases "\<alpha> i") (auto dest: spec [of _ i])

text \<open>What every step keeps holds from then on.\<close>

lemma run_stable:
  assumes run: "run_of act \<alpha> \<sigma>" and stable: "\<And>a s s'. P s \<Longrightarrow> act a s = Some s' \<Longrightarrow> P s'"
    and "P (\<sigma> i)" and "i \<le> j"
  shows "P (\<sigma> j)"
  using \<open>i \<le> j\<close>
proof (induction j rule: dec_induct)
  case base
  show ?case by fact
next
  case (step n)
  from run show ?case by (rule run_of_step [of _ _ _ n]) (use step.IH stable in auto)
qed

text \<open>While \<open>P\<close> holds and \<open>Q\<close> does not, every step keeps \<open>P\<close> or establishes \<open>Q\<close>, the action \<open>a\<close> is possible and
  establishes \<open>Q\<close>: then \<open>P\<close> leads to \<open>Q\<close> when \<open>a\<close> is not held up forever.\<close>

lemma leads_to_by:
  assumes run: "run_of act \<alpha> \<sigma>" and fair: "weakly_fair act \<alpha> \<sigma> a"
    and keeps: "\<And>b s s'. P s \<Longrightarrow> act b s = Some s' \<Longrightarrow> P s' \<or> Q s'"
    and enabled: "\<And>s. P s \<Longrightarrow> act a s \<noteq> None"
    and helps: "\<And>s s'. P s \<Longrightarrow> act a s = Some s' \<Longrightarrow> Q s'"
    and "P (\<sigma> i)"
  shows "\<exists>j \<ge> i. Q (\<sigma> j)"
proof (rule ccontr)
  assume never: "\<not> (\<exists>j \<ge> i. Q (\<sigma> j))"
  have P: "P (\<sigma> j)" if "i \<le> j" for j
    using that
  proof (induction j rule: dec_induct)
    case base
    show ?case by fact
  next
    case (step n)
    from run show ?case
    proof (rule run_of_step [of _ _ _ n])
      fix b assume "act b (\<sigma> n) = Some (\<sigma> (Suc n))"
      then show ?thesis using keeps [OF step.IH] never step.hyps by (metis le_SucI)
    qed (use step.IH in simp)
  qed
  then obtain j where j: "i \<le> j" "\<alpha> j = Some a" using fair enabled unfolding weakly_fair_def by blast
  from run have "Q (\<sigma> (Suc j))"
    by (rule run_of_step [of _ _ _ j]) (use j helps [OF P] in auto)
  then show False using never j(1) by (metis le_SucI)
qed

section \<open>Serve\<close>

datatype accept_error = ErrListenerClosed | ErrAccept string

datatype serve_phase = Accepting | Draining accept_error | Served "accept_error option"

text \<open>\<open>se_timers\<close> counts the cancellations \<open>DaemonShutdown\<close> has scheduled; \<open>se_conns\<close> are the connections whose
  goroutine runs (what the wait group counts). \<open>se_in\<close> and \<open>se_out\<close> record the lines read from and the messages written to
  each connection.\<close>

record ('j, 'd) Serve =
  se_cancelled :: bool
  se_listening :: bool
  se_watching :: bool
  se_phase :: serve_phase
  se_timers :: nat
  se_data :: 'd
  se_next :: nat
  se_conns :: "nat list"
  se_in :: "nat \<Rightarrow> 'j Message option list"
  se_out :: "nat \<Rightarrow> 'j Message list"

definition Serve_start :: "'d \<Rightarrow> ('j, 'd) Serve" where
  "Serve_start d =
    \<lparr>se_cancelled = False, se_listening = True, se_watching = True, se_phase = Accepting, se_timers = 0, se_data = d,
     se_next = 0, se_conns = [], se_in = (\<lambda>_. []), se_out = (\<lambda>_. [])\<rparr>"

text \<open>\<open>DaemonShutdown\<close>: the answer, and a cancellation fifty milliseconds later. \<open>ok\<close> is the encoded answer
  \<open>{"status":"shutting down"}\<close>.\<close>

definition DaemonShutdown :: "'j \<Rightarrow> ('j, nat \<times> 'd) handler" where
  "DaemonShutdown ok _ s = (Inr (Some ok), (Suc (fst s), snd s), [])"

datatype 'j serve_act =
    Interrupt
  | TimerFires
  | WatcherCloses
  | WatcherExits
  | Accepts
  | AcceptFails accept_error
  | Greets nat
  | ReadsLine nat "'j Message option"
  | EmitsEvent nat "'j Event"
  | ConnEnds nat
  | Returns

definition serve_result :: "bool \<Rightarrow> accept_error \<Rightarrow> accept_error option" where
  "serve_result cancelled e = (if cancelled \<or> e = ErrListenerClosed then None else Some e)"

definition writes :: "nat \<Rightarrow> 'j Message list \<Rightarrow> ('j, 'd) Serve \<Rightarrow> ('j, 'd) Serve" where
  "writes c ms s = s\<lparr>se_out := (se_out s)(c := se_out s c @ ms)\<rparr>"

text \<open>A line is read only after the hello frame was written; a connection ends when the hello cannot be written or the
  client has gone. Nothing else ends it: the read has no deadline and cancelling the context does not close it.\<close>

definition serve_do :: "'j codec \<Rightarrow> ('j, nat \<times> 'd) Server \<Rightarrow> 'j serve_act \<Rightarrow> ('j, 'd) Serve \<Rightarrow> ('j, 'd) Serve option" where
  "serve_do C sv a s =
    (case a of
       Interrupt \<Rightarrow> Some (s\<lparr>se_cancelled := True\<rparr>)
     | TimerFires \<Rightarrow> if se_timers s = 0 then None else Some (s\<lparr>se_cancelled := True, se_timers := se_timers s - 1\<rparr>)
     | WatcherCloses \<Rightarrow>
         if se_watching s \<and> se_cancelled s then Some (s\<lparr>se_listening := False, se_watching := False\<rparr>) else None
     | WatcherExits \<Rightarrow>
         if se_watching s \<and> (case se_phase s of Served _ \<Rightarrow> True | _ \<Rightarrow> False) then Some (s\<lparr>se_watching := False\<rparr>) else None
     | Accepts \<Rightarrow>
         if se_phase s = Accepting \<and> se_listening s
         then Some (s\<lparr>se_next := Suc (se_next s), se_conns := se_next s # se_conns s\<rparr>) else None
     | AcceptFails e \<Rightarrow>
         if se_phase s = Accepting \<and> (se_listening s \<longleftrightarrow> e \<noteq> ErrListenerClosed) then Some (s\<lparr>se_phase := Draining e\<rparr>) else None
     | Greets c \<Rightarrow>
         if c \<in> set (se_conns s) \<and> se_out s c = [] then Some (writes c [sendHelloLocked C sv] s) else None
     | ReadsLine c l \<Rightarrow>
         if c \<in> set (se_conns s) \<and> se_out s c \<noteq> [] then
           (case handle_line sv l (se_timers s, se_data s) of
              (ms, (k, d)) \<Rightarrow>
                Some (writes c ms (s\<lparr>se_timers := k, se_data := d, se_in := (se_in s)(c := se_in s c @ [l])\<rparr>)))
         else None
     | EmitsEvent c ev \<Rightarrow>
         if c \<in> set (se_conns s) \<and> se_out s c \<noteq> [] then Some (writes c [EmitEvent C (ev_Sub ev) (ev_Kind ev) (ev_Data ev)] s) else None
     | ConnEnds c \<Rightarrow>
         if c \<in> set (se_conns s) then Some (s\<lparr>se_conns := removeAll c (se_conns s)\<rparr>) else None
     | Returns \<Rightarrow>
         (case se_phase s of
            Draining e \<Rightarrow> if se_conns s = [] then Some (s\<lparr>se_phase := Served (serve_result (se_cancelled s) e)\<rparr>) else None
          | _ \<Rightarrow> None))"

lemma writes_sel [simp]:
  "se_cancelled (writes c ms s) = se_cancelled s" "se_listening (writes c ms s) = se_listening s"
  "se_watching (writes c ms s) = se_watching s" "se_phase (writes c ms s) = se_phase s" "se_conns (writes c ms s) = se_conns s"
  "se_next (writes c ms s) = se_next s" "se_in (writes c ms s) = se_in s" "se_timers (writes c ms s) = se_timers s"
  "se_out (writes c ms s) = (se_out s)(c := se_out s c @ ms)"
  by (simp_all add: writes_def)

text \<open>What a step does to the accept loop: the part of the state the shutdown depends on.\<close>

lemma serve_do_control:
  assumes "serve_do C sv a s = Some s'"
  shows "se_cancelled s \<Longrightarrow> se_cancelled s'"
    and "se_phase s \<noteq> Accepting \<Longrightarrow> set (se_conns s') \<subseteq> set (se_conns s)"
    and "\<not> se_listening s \<Longrightarrow> \<not> se_listening s'"
    and "se_phase s = Served r \<Longrightarrow> se_phase s' = Served r"
    and "se_phase s = Draining e \<Longrightarrow> se_phase s' = Draining e \<or> se_conns s = [] \<and> se_conns s' = []
           \<and> se_phase s' = Served (serve_result (se_cancelled s) e)"
    and "se_phase s = Accepting \<Longrightarrow> se_phase s' = Accepting \<or>
           (\<exists>e. se_phase s' = Draining e \<and> (se_listening s \<longleftrightarrow> e \<noteq> ErrListenerClosed) \<and> se_conns s' = se_conns s)"
    and "c \<in> set (se_conns s) \<Longrightarrow> a \<noteq> ConnEnds c \<Longrightarrow> c \<in> set (se_conns s')"
    and "se_watching s \<Longrightarrow> (\<forall>r. se_phase s \<noteq> Served r) \<Longrightarrow> se_watching s' \<or> \<not> se_listening s'"
  using assms
  by (cases a; auto simp: serve_do_def split: if_splits serve_phase.splits prod.splits)+

section \<open>What holds while it serves\<close>

text \<open>The listener is closed only after a cancellation, and while Serve runs the watcher is there to close it; a Serve
  that returned has no connection left, and returned no error exactly when it was cancelled.\<close>

definition serve_inv :: "('j, 'd) Serve \<Rightarrow> bool" where
  "serve_inv s \<longleftrightarrow>
    (\<not> se_listening s \<longrightarrow> se_cancelled s) \<and>
    (case se_phase s of
       Accepting \<Rightarrow> se_watching s \<or> \<not> se_listening s
     | Draining e \<Rightarrow> (e = ErrListenerClosed \<longrightarrow> \<not> se_listening s)
     | Served r \<Rightarrow> se_conns s = [] \<and> (case r of None \<Rightarrow> se_cancelled s | Some e \<Rightarrow> e \<noteq> ErrListenerClosed))"

lemma serve_inv_start: "serve_inv (Serve_start d)"
  by (simp add: serve_inv_def Serve_start_def)

lemma serve_inv_step:
  assumes "serve_inv s" and "serve_do C sv a s = Some s'"
  shows "serve_inv s'"
proof (cases a)
  case Returns
  with assms show ?thesis
    by (auto simp: serve_do_def serve_inv_def serve_result_def split: serve_phase.splits if_splits option.splits)
next
  case (ReadsLine c l)
  with assms show ?thesis by (auto simp: serve_do_def serve_inv_def split: if_splits prod.splits serve_phase.splits option.splits)
qed (use assms in \<open>auto simp: serve_do_def serve_inv_def split: if_splits serve_phase.splits option.splits\<close>)

lemma serve_run_inv: "run_of (serve_do C sv) \<alpha> \<sigma> \<Longrightarrow> \<sigma> 0 = Serve_start d \<Longrightarrow> serve_inv (\<sigma> i)"
  by (rule run_stable [where i = 0]) (auto intro: serve_inv_step simp: serve_inv_start)

section \<open>Shutdown\<close>

text \<open>The stages of a cancelled Serve: the watcher closes the listener, Accept fails, the connections end, Serve returns.\<close>

definition unserved :: "('j, 'd) Serve \<Rightarrow> bool" where
  "unserved s \<longleftrightarrow> se_cancelled s \<and> serve_inv s \<and> (\<forall>r. se_phase s \<noteq> Served r)"

lemma unserved_step:
  assumes "unserved s" and "serve_do C sv a s = Some s'"
  shows "unserved s' \<or> se_phase s' = Served None"
proof -
  have "se_cancelled s'" "serve_inv s'"
    using assms serve_do_control(1) serve_inv_step unfolding unserved_def by blast+
  moreover have "se_phase s' = Served r \<Longrightarrow> r = None" for r
    using assms serve_do_control(5,6) [OF assms(2)] unfolding unserved_def
    by (cases "se_phase s") (auto simp: serve_result_def)
  ultimately show ?thesis unfolding unserved_def by blast
qed

lemma listener_closes:
  fixes C :: "'j codec" and sv :: "('j, nat \<times> 'd) Server" and \<sigma> :: "nat \<Rightarrow> ('j, 'd) Serve"
  assumes run: "run_of (serve_do C sv) \<alpha> \<sigma>" and fair: "weakly_fair (serve_do C sv) \<alpha> \<sigma> WatcherCloses"
    and "unserved (\<sigma> i)"
  shows "\<exists>j \<ge> i. unserved (\<sigma> j) \<and> (se_phase (\<sigma> j) \<noteq> Accepting \<or> \<not> se_listening (\<sigma> j)) \<or> se_phase (\<sigma> j) = Served None"
proof (cases "se_phase (\<sigma> i) \<noteq> Accepting \<or> \<not> se_listening (\<sigma> i)")
  case True
  with assms(3) show ?thesis by blast
next
  case False
  let ?P = "\<lambda>s. unserved s \<and> se_phase s = Accepting \<and> se_listening s"
  let ?Q = "\<lambda>s. unserved s \<and> (se_phase s \<noteq> Accepting \<or> \<not> se_listening s) \<or> se_phase s = Served None"
  show ?thesis
  proof (rule leads_to_by [where P = ?P, OF run fair])
    fix b and s s' :: "('j, 'd) Serve" assume "?P s" "serve_do C sv b s = Some s'"
    then show "?P s' \<or> ?Q s'" using unserved_step by blast
  next
    fix s :: "('j, 'd) Serve" assume "?P s"
    then show "serve_do C sv WatcherCloses s \<noteq> None" by (auto simp: serve_do_def unserved_def serve_inv_def)
  next
    fix s s' :: "('j, 'd) Serve" assume P: "?P s" and step: "serve_do C sv WatcherCloses s = Some s'"
    from step have "\<not> se_listening s'" by (auto simp: serve_do_def split: if_splits)
    with P step show "?Q s'" using unserved_step by blast
  next
    show "?P (\<sigma> i)" using assms(3) False by blast
  qed
qed

lemma accepting_ends:
  fixes C :: "'j codec" and sv :: "('j, nat \<times> 'd) Server" and \<sigma> :: "nat \<Rightarrow> ('j, 'd) Serve"
  assumes run: "run_of (serve_do C sv) \<alpha> \<sigma>" and fair: "weakly_fair (serve_do C sv) \<alpha> \<sigma> (AcceptFails ErrListenerClosed)"
    and "unserved (\<sigma> i)" and "\<not> se_listening (\<sigma> i)"
  shows "\<exists>j \<ge> i. unserved (\<sigma> j) \<and> se_phase (\<sigma> j) \<noteq> Accepting \<or> se_phase (\<sigma> j) = Served None"
proof (cases "se_phase (\<sigma> i) = Accepting")
  case False
  with assms(3) show ?thesis by blast
next
  case True
  let ?P = "\<lambda>s. unserved s \<and> se_phase s = Accepting \<and> \<not> se_listening s"
  let ?Q = "\<lambda>s. unserved s \<and> se_phase s \<noteq> Accepting \<or> se_phase s = Served None"
  show ?thesis
  proof (rule leads_to_by [where P = ?P, OF run fair])
    fix b and s s' :: "('j, 'd) Serve" assume "?P s" "serve_do C sv b s = Some s'"
    then show "?P s' \<or> ?Q s'" using unserved_step serve_do_control(3) by blast
  next
    fix s :: "('j, 'd) Serve" assume "?P s"
    then show "serve_do C sv (AcceptFails ErrListenerClosed) s \<noteq> None" by (simp add: serve_do_def)
  next
    fix s s' :: "('j, 'd) Serve" assume P: "?P s" and step: "serve_do C sv (AcceptFails ErrListenerClosed) s = Some s'"
    from step have "se_phase s' \<noteq> Accepting" by (auto simp: serve_do_def split: if_splits)
    with P step show "?Q s'" using unserved_step by blast
  next
    show "?P (\<sigma> i)" using assms(3,4) True by blast
  qed
qed

text \<open>After Accept failed no connection is added, so when each of them ends there comes a moment with none.\<close>

lemma connections_end:
  fixes C :: "'j codec" and sv :: "('j, nat \<times> 'd) Server" and \<sigma> :: "nat \<Rightarrow> ('j, 'd) Serve"
  assumes run: "run_of (serve_do C sv) \<alpha> \<sigma>" and "se_phase (\<sigma> i) \<noteq> Accepting"
    and leave: "\<And>k c. i \<le> k \<Longrightarrow> c \<in> set (se_conns (\<sigma> k)) \<Longrightarrow> \<exists>j \<ge> k. c \<notin> set (se_conns (\<sigma> j))"
  shows "\<exists>j \<ge> i. se_conns (\<sigma> j) = []"
proof -
  have shrink: "se_phase (\<sigma> n) \<noteq> Accepting \<and> set (se_conns (\<sigma> n)) \<subseteq> set (se_conns (\<sigma> m))"
    if "i \<le> m" "m \<le> n" "se_phase (\<sigma> m) \<noteq> Accepting" for m n
  proof (rule run_stable [where P = "\<lambda>s. se_phase s \<noteq> Accepting \<and> set (se_conns s) \<subseteq> set (se_conns (\<sigma> m))" and i = m, OF run])
    fix a and s s' :: "('j, 'd) Serve"
    assume P: "se_phase s \<noteq> Accepting \<and> set (se_conns s) \<subseteq> set (se_conns (\<sigma> m))" and step: "serve_do C sv a s = Some s'"
    from P serve_do_control(4,5) [OF step] have "se_phase s' \<noteq> Accepting" by (cases "se_phase s") auto
    with P serve_do_control(2) [OF step] show "se_phase s' \<noteq> Accepting \<and> set (se_conns s') \<subseteq> set (se_conns (\<sigma> m))" by blast
  qed (use that in auto)
  have "\<exists>j \<ge> m. se_conns (\<sigma> j) = []" if "i \<le> m" "se_phase (\<sigma> m) \<noteq> Accepting" for m
    using that
  proof (induction "card (set (se_conns (\<sigma> m)))" arbitrary: m rule: less_induct)
    case less
    show ?case
    proof (cases "se_conns (\<sigma> m)")
      case Nil
      then show ?thesis by blast
    next
      case (Cons c cs)
      then obtain j where j: "m \<le> j" "c \<notin> set (se_conns (\<sigma> j))" using leave [of m c] less.prems(1) by auto
      have "set (se_conns (\<sigma> j)) \<subset> set (se_conns (\<sigma> m))"
        using shrink [OF less.prems(1) j(1) less.prems(2)] j(2) Cons by auto
      then have "card (set (se_conns (\<sigma> j))) < card (set (se_conns (\<sigma> m)))" by (simp add: psubset_card_mono)
      then show ?thesis
        using less.hyps [of j] shrink [OF less.prems(1) j(1) less.prems(2)] less.prems(1) j(1) by (meson le_trans)
    qed
  qed
  then show ?thesis using assms(2) by blast
qed

lemma drained_returns:
  fixes C :: "'j codec" and sv :: "('j, nat \<times> 'd) Server" and \<sigma> :: "nat \<Rightarrow> ('j, 'd) Serve"
  assumes run: "run_of (serve_do C sv) \<alpha> \<sigma>" and fair: "weakly_fair (serve_do C sv) \<alpha> \<sigma> Returns"
    and "unserved (\<sigma> i)" and "se_phase (\<sigma> i) \<noteq> Accepting" and "se_conns (\<sigma> i) = []"
  shows "\<exists>j \<ge> i. se_phase (\<sigma> j) = Served None"
proof (rule leads_to_by [where P = "\<lambda>s. unserved s \<and> se_phase s \<noteq> Accepting \<and> se_conns s = []", OF run fair])
  fix b and s s' :: "('j, 'd) Serve" assume P: "unserved s \<and> se_phase s \<noteq> Accepting \<and> se_conns s = []" and step: "serve_do C sv b s = Some s'"
  from P serve_do_control(4,5) [OF step] have "se_phase s' \<noteq> Accepting" by (cases "se_phase s") auto
  with P step show "(unserved s' \<and> se_phase s' \<noteq> Accepting \<and> se_conns s' = []) \<or> se_phase s' = Served None"
    using unserved_step [OF _ step] serve_do_control(2) [OF step] by auto
next
  fix s :: "('j, 'd) Serve" assume "unserved s \<and> se_phase s \<noteq> Accepting \<and> se_conns s = []"
  then show "serve_do C sv Returns s \<noteq> None" by (auto simp: serve_do_def unserved_def split: serve_phase.splits)
next
  fix s s' :: "('j, 'd) Serve" assume P: "unserved s \<and> se_phase s \<noteq> Accepting \<and> se_conns s = []" and step: "serve_do C sv Returns s = Some s'"
  then show "se_phase s' = Served None"
    by (auto simp: serve_do_def serve_result_def unserved_def split: serve_phase.splits if_splits)
qed (use assms in blast)

text \<open>C9: Stopping the daemon waits for its clients. Take any run of Serve in which the watcher, a failing Accept and the
  return are not held up forever, and a moment at which the context is cancelled and Serve has not returned. Serve returns,
  and then without an error, if and only if every connection that is open from then on ends by itself: one client that
  stays connected keeps the daemon alive for as long as it stays, though the listener is closed.\<close>

theorem shutdown_iff_clients_leave:
  fixes C :: "'j codec" and sv :: "('j, nat \<times> 'd) Server" and \<sigma> :: "nat \<Rightarrow> ('j, 'd) Serve"
  assumes run: "run_of (serve_do C sv) \<alpha> \<sigma>" and init: "\<sigma> 0 = Serve_start d"
    and fair: "weakly_fair (serve_do C sv) \<alpha> \<sigma> WatcherCloses" "weakly_fair (serve_do C sv) \<alpha> \<sigma> (AcceptFails ErrListenerClosed)"
      "weakly_fair (serve_do C sv) \<alpha> \<sigma> Returns"
    and cancelled: "se_cancelled (\<sigma> i)" "\<And>r. se_phase (\<sigma> i) \<noteq> Served r"
  shows "(\<exists>j \<ge> i. se_phase (\<sigma> j) = Served None) \<longleftrightarrow>
    (\<forall>k c. i \<le> k \<longrightarrow> c \<in> set (se_conns (\<sigma> k)) \<longrightarrow> (\<exists>j \<ge> k. c \<notin> set (se_conns (\<sigma> j))))"
proof
  assume "\<exists>j \<ge> i. se_phase (\<sigma> j) = Served None"
  then obtain j where j: "se_phase (\<sigma> j) = Served None" by blast
  have "se_conns (\<sigma> n) = []" if "j \<le> n" for n
  proof -
    have "se_phase (\<sigma> n) = Served None"
      by (rule run_stable [where P = "\<lambda>s. se_phase s = Served None", OF run _ j that]) (rule serve_do_control(4))
    then show ?thesis using serve_run_inv [OF run init, of n] by (simp add: serve_inv_def)
  qed
  then show "\<forall>k c. i \<le> k \<longrightarrow> c \<in> set (se_conns (\<sigma> k)) \<longrightarrow> (\<exists>j \<ge> k. c \<notin> set (se_conns (\<sigma> j)))"
    by (metis empty_iff empty_set max.cobounded1 max.cobounded2)
next
  assume leave: "\<forall>k c. i \<le> k \<longrightarrow> c \<in> set (se_conns (\<sigma> k)) \<longrightarrow> (\<exists>j \<ge> k. c \<notin> set (se_conns (\<sigma> j)))"
  have "unserved (\<sigma> i)" using cancelled serve_run_inv [OF run init] by (simp add: unserved_def)
  then obtain a where a: "i \<le> a"
    "unserved (\<sigma> a) \<and> (se_phase (\<sigma> a) \<noteq> Accepting \<or> \<not> se_listening (\<sigma> a)) \<or> se_phase (\<sigma> a) = Served None"
    using listener_closes [OF run fair(1)] by blast
  show "\<exists>j \<ge> i. se_phase (\<sigma> j) = Served None"
  proof (cases "se_phase (\<sigma> a) = Served None")
    case True
    with a(1) show ?thesis by blast
  next
    case False
    then obtain b where b: "a \<le> b" "unserved (\<sigma> b) \<and> se_phase (\<sigma> b) \<noteq> Accepting \<or> se_phase (\<sigma> b) = Served None"
      using a(2) accepting_ends [OF run fair(2), of a] by blast
    obtain e where e: "b \<le> e" "se_conns (\<sigma> e) = []"
      using connections_end [OF run, of b] leave a(1) b by (metis le_trans serve_phase.distinct(3))
    have "unserved (\<sigma> e) \<and> se_phase (\<sigma> e) \<noteq> Accepting \<or> se_phase (\<sigma> e) = Served None"
    proof (rule run_stable [where P = "\<lambda>s. unserved s \<and> se_phase s \<noteq> Accepting \<or> se_phase s = Served None", OF run _ b(2) e(1)])
      fix x and s s' :: "('j, 'd) Serve"
      assume "unserved s \<and> se_phase s \<noteq> Accepting \<or> se_phase s = Served None" and step: "serve_do C sv x s = Some s'"
      then show "unserved s' \<and> se_phase s' \<noteq> Accepting \<or> se_phase s' = Served None"
        using unserved_step [OF _ step] serve_do_control(4,5) [OF step] by (cases "se_phase s") auto
    qed
    then show ?thesis using drained_returns [OF run fair(3), of e] e a(1) b(1) by (meson le_trans)
  qed
qed

text \<open>A run with one client, which asks the daemon to stop, reads the answer and leaves.\<close>

definition sx_codec :: "nat codec" where
  "sx_codec = \<lparr>co_hello = (\<lambda>_. 0), co_unhello = (\<lambda>_. None), co_event = (\<lambda>_. 0), co_unevent = (\<lambda>_. None)\<rparr>"

definition ex_serve_server :: "(nat, nat \<times> unit) Server" where
  "ex_serve_server = Register_method ''daemon.shutdown'' (DaemonShutdown 7) (NewServer ''v'')"

definition ex_request :: "int \<Rightarrow> string \<Rightarrow> nat Message" where
  "ex_request i m = \<lparr>ms_JSONRPC = ''2.0'', ms_ID = Some i, ms_Method = m, ms_Params = None, ms_Result = None, ms_Error = None\<rparr>"

definition ex_serve_acts :: "nat serve_act list" where
  "ex_serve_acts = [Accepts, Greets 0, ReadsLine 0 (Some (ex_request 1 ''daemon.shutdown'')), TimerFires, WatcherCloses,
     AcceptFails ErrListenerClosed, ConnEnds 0, Returns]"

primrec ex_serve_run :: "nat \<Rightarrow> (nat, unit) Serve" where
  "ex_serve_run 0 = Serve_start ()"
| "ex_serve_run (Suc i) =
    (if i < length ex_serve_acts
     then the (serve_do sx_codec ex_serve_server (ex_serve_acts ! i) (ex_serve_run i)) else ex_serve_run i)"

lemma ex_shutdown_line:
  "handle_line ex_serve_server (Some (ex_request i ''daemon.shutdown'')) (k, d) = ([respondOKLocked (Some i) (Some 7)], (Suc k, d))"
  by (simp add: handle_line_def ex_request_def IsRequest_def IsNotification_def ex_serve_server_def NewServer_def Register_method_def
      DaemonShutdown_def)

lemma ex_serve_run_end: "8 \<le> i \<Longrightarrow> ex_serve_run i = ex_serve_run 8"
  by (induction i rule: dec_induct) (simp_all add: ex_serve_acts_def)

definition ex_at :: "bool \<times> bool \<times> bool \<Rightarrow> serve_phase \<Rightarrow> nat \<Rightarrow> nat list \<Rightarrow> nat Message option list \<Rightarrow> nat Message list \<Rightarrow> (nat, unit) Serve" where
  "ex_at f ph k cs ins outs =
    \<lparr>se_cancelled = fst f, se_listening = fst (snd f), se_watching = snd (snd f), se_phase = ph, se_timers = k, se_data = (),
     se_next = 1, se_conns = cs, se_in = (\<lambda>_. [])(0 := ins), se_out = (\<lambda>_. [])(0 := outs)\<rparr>"

lemma ex_serve_states:
  defines "q \<equiv> [Some (ex_request 1 ''daemon.shutdown'')]" and "hi \<equiv> sendHelloLocked sx_codec ex_serve_server"
    and "r \<equiv> respondOKLocked (Some 1) (Some 7)"
  shows "ex_serve_run 1 = ex_at (False, True, True) Accepting 0 [0] [] []"
    and "ex_serve_run 2 = ex_at (False, True, True) Accepting 0 [0] [] [hi]"
    and "ex_serve_run 3 = ex_at (False, True, True) Accepting 1 [0] q [hi, r]"
    and "ex_serve_run 4 = ex_at (True, True, True) Accepting 0 [0] q [hi, r]"
    and "ex_serve_run 5 = ex_at (True, False, False) Accepting 0 [0] q [hi, r]"
    and "ex_serve_run 6 = ex_at (True, False, False) (Draining ErrListenerClosed) 0 [0] q [hi, r]"
    and "ex_serve_run 7 = ex_at (True, False, False) (Draining ErrListenerClosed) 0 [] q [hi, r]"
    and "ex_serve_run 8 = ex_at (True, False, False) (Served None) 0 [] q [hi, r]"
proof -
  have step: "ex_serve_run (Suc i) = the (serve_do sx_codec ex_serve_server (ex_serve_acts ! i) (ex_serve_run i))" if "i < 8" for i
    using that by (simp add: ex_serve_acts_def)
  note defs = ex_serve_acts_def ex_at_def serve_do_def writes_def fun_eq_iff ex_shutdown_line serve_result_def q_def hi_def r_def
  show 1: "ex_serve_run 1 = ex_at (False, True, True) Accepting 0 [0] [] []"
    using step [of 0] by (simp add: defs Serve_start_def)
  show 2: "ex_serve_run 2 = ex_at (False, True, True) Accepting 0 [0] [] [hi]" using step [of 1] 1 by (simp add: defs eval_nat_numeral)
  show 3: "ex_serve_run 3 = ex_at (False, True, True) Accepting 1 [0] q [hi, r]" using step [of 2] 2 by (simp add: defs eval_nat_numeral)
  show 4: "ex_serve_run 4 = ex_at (True, True, True) Accepting 0 [0] q [hi, r]" using step [of 3] 3 by (simp add: defs eval_nat_numeral)
  show 5: "ex_serve_run 5 = ex_at (True, False, False) Accepting 0 [0] q [hi, r]" using step [of 4] 4 by (simp add: defs eval_nat_numeral)
  show 6: "ex_serve_run 6 = ex_at (True, False, False) (Draining ErrListenerClosed) 0 [0] q [hi, r]" using step [of 5] 5 by (simp add: defs eval_nat_numeral)
  show 7: "ex_serve_run 7 = ex_at (True, False, False) (Draining ErrListenerClosed) 0 [] q [hi, r]" using step [of 6] 6 by (simp add: defs eval_nat_numeral)
  show "ex_serve_run 8 = ex_at (True, False, False) (Served None) 0 [] q [hi, r]" using step [of 7] 7 by (simp add: defs eval_nat_numeral)
qed

lemma ex_serve_run_8: "se_phase (ex_serve_run 8) = Served None" "se_watching (ex_serve_run 8) = False" "se_conns (ex_serve_run 8) = []"
  "se_phase (ex_serve_run 4) = Accepting" "se_cancelled (ex_serve_run 4)"
  by (simp_all add: ex_serve_states ex_at_def del: ex_serve_run.simps)

lemma ex_serve_run_ok:
  "run_of (serve_do sx_codec ex_serve_server) (\<lambda>i. if i < 8 then Some (ex_serve_acts ! i) else None) ex_serve_run"
proof -
  have "serve_do sx_codec ex_serve_server (ex_serve_acts ! i) (ex_serve_run i) \<noteq> None" if "i < 8" for i
  proof -
    from that have "i = 0 \<or> i = 1 \<or> i = 2 \<or> i = 3 \<or> i = 4 \<or> i = 5 \<or> i = 6 \<or> i = 7" by auto
    then show ?thesis
      by (elim disjE; simp add: ex_serve_states ex_serve_acts_def serve_do_def ex_at_def ex_shutdown_line Serve_start_def del: One_nat_def ex_serve_run.simps(2))
  qed
  moreover have "length ex_serve_acts = 8" by (simp add: ex_serve_acts_def)
  ultimately show ?thesis by (auto simp: run_of_def)
qed

lemma ex_serve_fair:
  assumes "serve_do sx_codec ex_serve_server a (ex_serve_run 8) = None"
  shows "weakly_fair (serve_do sx_codec ex_serve_server) \<alpha> ex_serve_run a"
  unfolding weakly_fair_def using assms ex_serve_run_end by (metis linear)

theorem shutdown_iff_clients_leave_witness:
  "\<exists>j \<ge> 4. se_phase (ex_serve_run j) = Served None"
proof -
  have idle: "serve_do sx_codec ex_serve_server a (ex_serve_run 8) = None"
    if "a \<in> {WatcherCloses, AcceptFails ErrListenerClosed, Returns}" for a
    using that ex_serve_run_8 by (auto simp: serve_do_def)
  have gone: "\<exists>j \<ge> k. c \<notin> set (se_conns (ex_serve_run j))" for k c
    using ex_serve_run_end [of "max k 8"] ex_serve_run_8 by (intro exI [of _ "max k 8"]) simp
  show ?thesis
    using shutdown_iff_clients_leave [OF ex_serve_run_ok, of "()" 4] ex_serve_fair idle ex_serve_run_8 gone by simp
qed

section \<open>Answers\<close>

text \<open>What a handler emits before it returns are events.\<close>

definition handlers_emit_events :: "('j, 's) Server \<Rightarrow> bool" where
  "handlers_emit_events sv \<longleftrightarrow>
    (\<forall>(m, h) \<in> set (sv_handlers sv). \<forall>p s. \<forall>e \<in> set (snd (snd (h p s))). \<not> IsResponse e)"

definition requests_of :: "'j Message option list \<Rightarrow> 'j Message list" where
  "requests_of ls = filter IsRequest (List.map_filter id ls)"

lemma response_ids [simp]:
  "IsResponse (respondErrLocked i e) \<longleftrightarrow> i \<noteq> None" "ms_ID (respondErrLocked i e) = i"
  "IsResponse (respondOKLocked i r) \<longleftrightarrow> i \<noteq> None" "ms_ID (respondOKLocked i r) = i"
  "\<not> IsResponse (EmitEvent C sub kind data)" "\<not> IsResponse (sendHelloLocked C sv)"
  by (auto simp: respondErrLocked_def respondOKLocked_def IsResponse_def EmitEvent_def sendHelloLocked_def split: option.splits)

lemma handle_line_answers:
  assumes "handlers_emit_events sv"
  shows "map ms_ID (filter IsResponse (fst (handle_line sv l s))) = map ms_ID (requests_of [l])"
proof (cases l)
  case None
  then show ?thesis by (simp add: handle_line_def requests_of_def map_filter_def)
next
  case (Some req)
  show ?thesis
  proof (cases "map_of (sv_handlers sv) (ms_Method req)")
    case None
    with Some show ?thesis by (auto simp: handle_line_def requests_of_def map_filter_def IsRequest_def IsNotification_def)
  next
    case (Some h)
    obtain r s' evs where h: "h (ms_Params req) s = (r, s', evs)" by (cases "h (ms_Params req) s") auto
    have "(ms_Method req, h) \<in> set (sv_handlers sv)" using Some by (rule map_of_SomeD)
    with assms have "\<forall>e \<in> set (snd (snd (h (ms_Params req) s))). \<not> IsResponse e"
      unfolding handlers_emit_events_def by blast
    with h have "filter IsResponse evs = []" by (simp add: filter_empty_conv)
    with \<open>l = Some req\<close> Some h show ?thesis
      by (auto simp: handle_line_def requests_of_def map_filter_def IsRequest_def IsNotification_def split: sum.splits handler_error.splits)
  qed
qed

lemma requests_of_snoc: "requests_of (ls @ [l]) = requests_of ls @ requests_of [l]"
  by (simp add: requests_of_def map_filter_def)

definition answered :: "('j, 'd) Serve \<Rightarrow> nat \<Rightarrow> bool" where
  "answered s c \<longleftrightarrow> map ms_ID (filter IsResponse (se_out s c)) = map ms_ID (requests_of (se_in s c))"

lemma answered_start: "answered (Serve_start d) c"
  by (simp add: answered_def Serve_start_def requests_of_def map_filter_def)

lemma answered_step:
  assumes "handlers_emit_events sv" and "serve_do C sv a s = Some s'" and "answered s c"
  shows "answered s' c"
proof (cases a)
  case (ReadsLine k l)
  obtain ms t d where h: "handle_line sv l (se_timers s, se_data s) = (ms, (t, d))" by (metis prod.exhaust)
  have "map ms_ID (filter IsResponse ms) = map ms_ID (requests_of [l])"
    using handle_line_answers [OF assms(1), of l "(se_timers s, se_data s)"] h by simp
  with assms(2,3) ReadsLine h show ?thesis
    by (auto simp: serve_do_def answered_def requests_of_snoc split: if_splits)
qed (use assms in \<open>auto simp: serve_do_def answered_def split: if_splits serve_phase.splits\<close>)

primrec serve_all :: "'j codec \<Rightarrow> ('j, nat \<times> 'd) Server \<Rightarrow> 'j serve_act list \<Rightarrow> ('j, 'd) Serve \<Rightarrow> ('j, 'd) Serve option" where
  "serve_all C sv [] s = Some s"
| "serve_all C sv (a # as) s = (case serve_do C sv a s of None \<Rightarrow> None | Some s' \<Rightarrow> serve_all C sv as s')"

lemma serve_all_inv:
  assumes "serve_all C sv as s = Some s'" and "P s" and "\<And>a s s'. serve_do C sv a s = Some s' \<Longrightarrow> P s \<Longrightarrow> P s'"
  shows "P s'"
  using assms(1,2) by (induction as arbitrary: s) (auto intro: assms(3) split: option.splits)

text \<open>C19: Each connection gets its own answers. However connections, their requests, the events of their subscriptions
  and a shutdown interleave, the responses written to a connection are those to the requests read from it: one for each,
  with its id, in the order in which they were read; and the first message on it is the hello frame.\<close>

theorem connections_get_their_answers:
  assumes "handlers_emit_events sv" and "serve_all C sv as (Serve_start d) = Some s"
  shows "map ms_ID (filter IsResponse (se_out s c)) = map ms_ID (requests_of (se_in s c))
    \<and> (se_out s c \<noteq> [] \<longrightarrow> hd (se_out s c) = sendHelloLocked C sv)"
proof -
  have "answered s c"
    by (rule serve_all_inv [where P = "\<lambda>s. answered s c", OF assms(2)])
      (simp_all add: answered_start answered_step [OF assms(1)])
  moreover have "se_out s c \<noteq> [] \<longrightarrow> hd (se_out s c) = sendHelloLocked C sv"
  proof (rule serve_all_inv [where P = "\<lambda>s. se_out s c \<noteq> [] \<longrightarrow> hd (se_out s c) = sendHelloLocked C sv", OF assms(2)])
    fix a s s'
    assume "serve_do C sv a s = Some s'" and "se_out s c \<noteq> [] \<longrightarrow> hd (se_out s c) = sendHelloLocked C sv"
    then show "se_out s' c \<noteq> [] \<longrightarrow> hd (se_out s' c) = sendHelloLocked C sv"
      by (cases a) (auto simp: serve_do_def hd_append split: if_splits serve_phase.splits prod.splits)
  qed (simp add: Serve_start_def)
  ultimately show ?thesis by (simp add: answered_def)
qed

text \<open>Two clients: the second one's unknown method is refused between the first one's greeting and its request.\<close>

definition ex_two_clients :: "nat serve_act list" where
  "ex_two_clients = [Accepts, Accepts, Greets 1, Greets 0, ReadsLine 1 (Some (ex_request 5 ''nope'')),
     ReadsLine 0 (Some (ex_request 9 ''daemon.shutdown'')), TimerFires, WatcherCloses]"

theorem connections_get_their_answers_witness:
  "\<exists>s. serve_all sx_codec ex_serve_server ex_two_clients (Serve_start ()) = Some s
    \<and> map ms_ID (filter IsResponse (se_out s 0)) = [Some 9] \<and> map ms_ID (filter IsResponse (se_out s 1)) = [Some 5]"
proof -
  have emit: "handlers_emit_events ex_serve_server"
    by (simp add: handlers_emit_events_def ex_serve_server_def Register_method_def NewServer_def DaemonShutdown_def)
  have nope: "handle_line ex_serve_server (Some (ex_request i ''nope'')) t
      = ([respondErrLocked (Some i) (NewError ErrCodeMethodNotFound (not_found ''nope''))], t)" for i t
    by (simp add: handle_line_def ex_request_def IsRequest_def IsNotification_def ex_serve_server_def NewServer_def Register_method_def)
  obtain s where s: "serve_all sx_codec ex_serve_server ex_two_clients (Serve_start ()) = Some s"
    "se_in s 0 = [Some (ex_request 9 ''daemon.shutdown'')]" "se_in s 1 = [Some (ex_request 5 ''nope'')]"
    by (simp add: ex_two_clients_def serve_do_def Serve_start_def ex_shutdown_line nope)
  show ?thesis
    using connections_get_their_answers [OF emit s(1), of 0] connections_get_their_answers [OF emit s(1), of 1] s
    by (simp add: requests_of_def map_filter_def ex_request_def IsRequest_def)
qed

end
