(* ===== verification/Go_Scanner.thy ===== *)
theory Go_Scanner
  imports Go_Strings
begin

text \<open>
  \<open>bufio.Scanner\<close> splitting into lines, with the limit of one mebibyte that every protocol of the program sets
  (\<open>scanner.Buffer(.., 1<<20)\<close> in \<open>internal/ipc/server.go\<close>, \<open>internal/ipc/client.go\<close>, \<open>internal/invite/handshake.go\<close>,
  \<open>internal/call/streams.go\<close> and \<open>internal/audio/transport.go\<close>).

  The stream is the list of pieces its reads return, and how it ends. The scanner keeps a buffer of what it has read and not
  returned; how the buffer grows up to its limit is left open, since the pieces are arbitrary.
\<close>

definition maxToken :: nat where "maxToken = 2 ^ 20"

abbreviation nl :: char where "nl \<equiv> CHR 0x0A"

datatype read_end = ReadEOF | ReadErr string

datatype scan_error = ErrTooLong | ErrRead string

datatype scan_result = ScanLine string | ScanStop "scan_error option"

definition stop_of :: "read_end \<Rightarrow> scan_error option" where
  "stop_of fin = (case fin of ReadEOF \<Rightarrow> None | ReadErr e \<Rightarrow> Some (ErrRead e))"

text \<open>\<open>ScanLines\<close> drops the line feed and one carriage return before it.\<close>

definition dropCR :: "string \<Rightarrow> string" where
  "dropCR l = (if l \<noteq> [] \<and> last l = CHR 0x0D then butlast l else l)"

definition before_nl :: "string \<Rightarrow> string" where "before_nl s = takeWhile (\<lambda>c. c \<noteq> nl) s"
definition after_nl :: "string \<Rightarrow> string" where "after_nl s = tl (dropWhile (\<lambda>c. c \<noteq> nl) s)"

text \<open>One call of \<open>Scan\<close>: the line or the end, the buffer and the pieces that are left. What was read before the stream ended
  or failed is returned as a last line.\<close>

function Scan :: "read_end \<Rightarrow> string \<Rightarrow> string list \<Rightarrow> scan_result \<times> string \<times> string list" where
  "Scan fin buf pieces =
    (if nl \<in> set buf then (ScanLine (dropCR (before_nl buf)), after_nl buf, pieces)
     else if maxToken \<le> length buf then (ScanStop (Some ErrTooLong), [], pieces)
     else case pieces of
       [] \<Rightarrow> if buf = [] then (ScanStop (stop_of fin), [], []) else (ScanLine (dropCR buf), [], [])
     | p # ps \<Rightarrow>
         (let free = maxToken - length buf in
          if length p \<le> free then Scan fin (buf @ p) ps else Scan fin (buf @ take free p) (drop free p # ps)))"
  by pat_completeness auto
termination
  by (relation "measure (\<lambda>(fin, buf, pieces). length (concat pieces) + length pieces)") auto

declare Scan.simps [simp del]

section \<open>Lines of a whole stream\<close>

text \<open>What one call should do, on all that is still to come.\<close>

definition first_line :: "read_end \<Rightarrow> string \<Rightarrow> scan_result \<times> string" where
  "first_line fin s =
    (if nl \<in> set (take maxToken s) then (ScanLine (dropCR (before_nl s)), after_nl s)
     else if maxToken \<le> length s then (ScanStop (Some ErrTooLong), [])
     else if s = [] then (ScanStop (stop_of fin), [])
     else (ScanLine (dropCR s), []))"

lemma nl_append: "nl \<in> set x \<Longrightarrow> before_nl (x @ y) = before_nl x" "nl \<in> set x \<Longrightarrow> after_nl (x @ y) = after_nl x @ y"
  by (induction x) (auto simp: before_nl_def after_nl_def)

lemma length_after_nl: "length (after_nl s) \<le> length s"
  using length_dropWhile_le [of "\<lambda>c. c \<noteq> nl" s] by (simp add: after_nl_def)

lemma length_after_nl_less: "nl \<in> set s \<Longrightarrow> length (after_nl s) < length s"
  by (induction s) (auto simp: after_nl_def)

lemma maxToken_pos [simp]: "0 < maxToken"
  by (simp add: maxToken_def)

text \<open>Pieces do not matter: a call of \<open>Scan\<close> sees the next line of the whole stream and leaves the rest of it.\<close>

definition scan_spec :: "read_end \<Rightarrow> string \<Rightarrow> scan_result \<times> string \<times> string list \<Rightarrow> bool" where
  "scan_spec fin s out \<longleftrightarrow>
    (case out of
       (ScanLine l, b, ps) \<Rightarrow> length b \<le> maxToken \<and> first_line fin s = (ScanLine l, b @ concat ps)
     | (ScanStop e, _) \<Rightarrow> fst (first_line fin s) = ScanStop e)"

lemma Scan_first_line:
  "length buf \<le> maxToken \<Longrightarrow> scan_spec fin (buf @ concat pieces) (Scan fin buf pieces)"
proof (induction fin buf pieces rule: Scan.induct)
  case (1 fin buf pieces)
  consider (line) "nl \<in> set buf" | (full) "nl \<notin> set buf" "length buf = maxToken"
    | (short) "nl \<notin> set buf" "length buf < maxToken"
    using 1(3) by linarith
  then show ?case
  proof cases
    case line
    then have "nl \<in> set (take maxToken (buf @ concat pieces))" using 1(3) by simp
    then show ?thesis
      using line 1(3) order.trans [OF length_after_nl 1(3)] by (simp add: Scan.simps [of fin buf] scan_spec_def first_line_def nl_append)
  next
    case full
    then show ?thesis by (simp add: Scan.simps [of fin buf] scan_spec_def first_line_def)
  next
    case short
    show ?thesis
    proof (cases pieces)
      case Nil
      with short show ?thesis by (auto simp: Scan.simps [of fin buf] scan_spec_def first_line_def)
    next
      case (Cons p qs)
      let ?free = "maxToken - length buf"
      show ?thesis
      proof (cases "length p \<le> ?free")
        case True
        then have "length (buf @ p) \<le> maxToken" using short by simp
        then show ?thesis using 1(1) [of p qs ?free] short True Cons by (simp add: Scan.simps [of fin buf])
      next
        case False
        have "(buf @ take ?free p) @ concat (drop ?free p # qs) = buf @ concat pieces"
          unfolding Cons by (metis append_assoc append_take_drop_id concat.simps(2))
        moreover have "length (buf @ take ?free p) \<le> maxToken" using short by simp
        ultimately have "scan_spec fin (buf @ concat pieces) (Scan fin (buf @ take ?free p) (drop ?free p # qs))"
          using 1(2) [of p qs ?free] short False Cons by (metis leD)
        then show ?thesis using short False Cons by (simp add: Scan.simps [of fin buf] Let_def)
      qed
    qed
  qed
qed

lemma Scan_shrinks:
  "Scan fin buf pieces = (ScanLine l, b, ps) \<Longrightarrow> length b + length (concat ps) < length buf + length (concat pieces)"
proof (induction fin buf pieces rule: Scan.induct)
  case (1 fin buf pieces)
  show ?case
  proof (cases "nl \<in> set buf \<or> maxToken \<le> length buf \<or> pieces = []")
    case True
    then show ?thesis
      using 1(3) length_after_nl_less [of buf] by (auto simp: Scan.simps [of fin buf] split: if_splits)
  next
    case False
    then obtain p qs where p: "pieces = p # qs" by (cases pieces) auto
    let ?free = "maxToken - length buf"
    show ?thesis
    proof (cases "length p \<le> ?free")
      case True
      then have "Scan fin (buf @ p) qs = (ScanLine l, b, ps)" using 1(3) False p by (simp add: Scan.simps [of fin buf])
      then show ?thesis using 1(1) [of p qs ?free] False p True by simp
    next
      case short: False
      then have "Scan fin (buf @ take ?free p) (drop ?free p # qs) = (ScanLine l, b, ps)"
        using 1(3) False p by (simp add: Scan.simps [of fin buf] Let_def)
      then have "length b + length (concat ps) < length (buf @ take ?free p) + length (concat (drop ?free p # qs))"
        using 1(2) [of p qs ?free] False p short by (metis (no_types, lifting))
      then show ?thesis unfolding p by simp
    qed
  qed
qed

lemma first_line_shrinks: "first_line fin s = (ScanLine l, t) \<Longrightarrow> length t < length s"
  using length_after_nl_less [of s] in_set_takeD [of nl maxToken s] by (auto simp: first_line_def split: if_splits)

text \<open>The loop \<open>for scanner.Scan()\<close>: the lines and how it ended.\<close>

function scan_lines :: "read_end \<Rightarrow> string \<Rightarrow> string list \<Rightarrow> string list \<times> scan_error option" where
  "scan_lines fin buf pieces =
    (case Scan fin buf pieces of
       (ScanStop e, _) \<Rightarrow> ([], e)
     | (ScanLine l, b, ps) \<Rightarrow> (case scan_lines fin b ps of (ls, e) \<Rightarrow> (l # ls, e)))"
  by pat_completeness auto
termination
  by (relation "measure (\<lambda>(fin, buf, pieces). length buf + length (concat pieces))") (auto dest: Scan_shrinks [OF sym])

declare scan_lines.simps [simp del]

function lines_of :: "read_end \<Rightarrow> string \<Rightarrow> string list \<times> scan_error option" where
  "lines_of fin s =
    (case first_line fin s of
       (ScanStop e, _) \<Rightarrow> ([], e)
     | (ScanLine l, t) \<Rightarrow> (case lines_of fin t of (ls, e) \<Rightarrow> (l # ls, e)))"
  by pat_completeness auto
termination
  by (relation "measure (\<lambda>(fin, s). length s)") (auto dest: first_line_shrinks [OF sym])

declare lines_of.simps [simp del]

lemma scan_lines_of:
  assumes "length buf \<le> maxToken"
  shows "scan_lines fin buf pieces = lines_of fin (buf @ concat pieces)"
  using assms
proof (induction fin buf pieces rule: scan_lines.induct)
  case (1 fin buf pieces)
  obtain r b ps where s: "Scan fin buf pieces = (r, b, ps)" by (metis prod.exhaust)
  note spec = Scan_first_line [OF 1(2), of fin pieces, unfolded s scan_spec_def]
  show ?case
  proof (cases r)
    case (ScanLine l)
    with spec have f: "length b \<le> maxToken" "first_line fin (buf @ concat pieces) = (ScanLine l, b @ concat ps)" by simp_all
    have "scan_lines fin b ps = lines_of fin (b @ concat ps)"
      by (rule 1(1) [OF s [symmetric] ScanLine refl f(1)])
    then show ?thesis
      using s ScanLine f(2) by (simp add: scan_lines.simps [of fin buf] lines_of.simps [of fin "buf @ concat pieces"])
  next
    case (ScanStop e)
    then show ?thesis
      using spec s by (auto simp: scan_lines.simps [of fin buf] lines_of.simps [of fin "buf @ concat pieces"] split: prod.splits)
  qed
qed

section \<open>Frames\<close>

text \<open>A line that arrives as it was sent: no line feed in it, no carriage return at its end, and short enough.\<close>

definition line_ok :: "string \<Rightarrow> bool" where
  "line_ok l \<longleftrightarrow> nl \<notin> set l \<and> length l < maxToken \<and> (l = [] \<or> last l \<noteq> CHR 0x0D)"

definition frames :: "string list \<Rightarrow> string" where
  "frames ls = concat (map (\<lambda>l. l @ [nl]) ls)"

lemma first_line_frame:
  assumes "line_ok l" shows "first_line fin (l @ nl # s) = (ScanLine l, s)"
proof -
  have l: "nl \<notin> set l" "length l < maxToken" "dropCR l = l" using assms by (auto simp: line_ok_def dropCR_def)
  have "take maxToken (l @ nl # s) = l @ nl # take (maxToken - Suc (length l)) s"
    using l(2) by (simp add: take_Cons')
  moreover have "before_nl (l @ nl # s) = l" "after_nl (l @ nl # s) = s"
    using l(1) by (induction l) (auto simp: before_nl_def after_nl_def)
  ultimately show ?thesis using l(3) by (simp add: first_line_def)
qed

lemma lines_of_frames: "list_all line_ok ls \<Longrightarrow> lines_of fin (frames ls) = (ls, stop_of fin)"
proof (induction ls)
  case Nil
  show ?case by (simp add: frames_def lines_of.simps [of fin "[]"] first_line_def maxToken_def)
next
  case (Cons l ls)
  then show ?case by (simp add: frames_def lines_of.simps [of fin "l @ nl # concat (map (\<lambda>l. l @ [nl]) ls)"] first_line_frame)
qed

text \<open>Lines arrive as they were sent: whatever pieces the network cuts a stream into, the scanner's loop returns the
  lines of the whole stream.\<close>

lemma scan_lines_pieces: "scan_lines fin [] pieces = lines_of fin (concat pieces)"
  using scan_lines_of [of "[]" fin pieces] by simp

lemma scan_lines_frames:
  "list_all line_ok ls \<Longrightarrow> concat pieces = frames ls \<Longrightarrow> scan_lines fin [] pieces = (ls, stop_of fin)"
  by (simp add: scan_lines_pieces lines_of_frames)

section \<open>JSON lines\<close>

text \<open>\<open>json.Encoder.Encode\<close> writes a value and a line feed, \<open>json.Unmarshal\<close> reads a line; the encoding is a parameter.
  \<open>json_line\<close>: the value fits on a line and is read back.\<close>

record 'm json =
  js_enc :: "'m \<Rightarrow> string"
  js_dec :: "string \<Rightarrow> 'm option"

definition json_line :: "'m json \<Rightarrow> 'm \<Rightarrow> bool" where
  "json_line J m \<longleftrightarrow> js_dec J (js_enc J m) = Some m \<and> line_ok (js_enc J m)"

definition send_json :: "'m json \<Rightarrow> 'm \<Rightarrow> string" where
  "send_json J m = js_enc J m @ [nl]"

datatype recv_error = ErrReading scan_error | ErrClosedBefore | ErrUnmarshal

text \<open>One message from a fresh scanner.\<close>

definition recv_json :: "'m json \<Rightarrow> read_end \<Rightarrow> string list \<Rightarrow> recv_error + 'm" where
  "recv_json J fin pieces =
    (case fst (Scan fin [] pieces) of
       ScanStop (Some e) \<Rightarrow> Inl (ErrReading e)
     | ScanStop None \<Rightarrow> Inl ErrClosedBefore
     | ScanLine l \<Rightarrow> (case js_dec J l of None \<Rightarrow> Inl ErrUnmarshal | Some m \<Rightarrow> Inr m))"

lemma recv_json_sent:
  assumes "json_line J m" and "concat pieces = send_json J m @ rest"
  shows "recv_json J fin pieces = Inr m"
proof -
  have "concat pieces = js_enc J m @ nl # rest" using assms(2) by (simp add: send_json_def)
  then have "first_line fin (concat pieces) = (ScanLine (js_enc J m), rest)"
    using assms(1) first_line_frame by (simp add: json_line_def)
  then have "fst (Scan fin [] pieces) = ScanLine (js_enc J m)"
    using Scan_first_line [of "[]" fin pieces] by (auto simp: scan_spec_def split: prod.splits scan_result.splits)
  then show ?thesis using assms(1) by (simp add: recv_json_def json_line_def)
qed

lemma json_lines_sent:
  assumes "list_all (json_line J) ms" and "concat pieces = concat (map (send_json J) ms)"
  shows "map (js_dec J) (fst (scan_lines fin [] pieces)) = map Some ms"
proof -
  have "frames (map (js_enc J) ms) = concat pieces" using assms(2) by (simp add: frames_def send_json_def [abs_def] comp_def)
  moreover have "list_all line_ok (map (js_enc J) ms)" using assms(1) by (simp add: list_all_iff json_line_def)
  ultimately have "fst (scan_lines fin [] pieces) = map (js_enc J) ms" by (simp add: scan_lines_frames)
  then show ?thesis using assms(1) by (simp add: list_all_iff json_line_def)
qed

end
