(* ===== verification/Ipc_Wire.thy ===== *)
theory Ipc_Wire
  imports Ipc Go_Scanner
begin

text \<open>
  The IPC protocol as bytes on the socket (the scanner loops of \<open>handleConn\<close> in \<open>internal/ipc/server.go\<close> and of \<open>Dial\<close> and
  \<open>readLoop\<close> in \<open>internal/ipc/client.go\<close>). Ipc works on the lines; here the lines are cut out of a stream.
\<close>

definition socket_lines :: "'j Message json \<Rightarrow> read_end \<Rightarrow> string list \<Rightarrow> 'j Message option list" where
  "socket_lines J fin pieces = map (js_dec J) (fst (scan_lines fin [] pieces))"

text \<open>A whole connection on the server's side: the bytes it writes, and the state it leaves.\<close>

definition serve_socket ::
    "'j codec \<Rightarrow> 'j Message json \<Rightarrow> ('j, 's) Server \<Rightarrow> read_end \<Rightarrow> string list \<Rightarrow> 's \<Rightarrow> string \<times> 's" where
  "serve_socket C J sv fin pieces s =
    (case handleConn C sv (socket_lines J fin pieces) s of (outs, s') \<Rightarrow> (concat (map (send_json J) outs), s'))"

text \<open>The client's reading side: the first line is the hello, one goroutine reads the others until the stream ends.\<close>

definition client_socket :: "'j codec \<Rightarrow> 'j Message json \<Rightarrow> read_end \<Rightarrow> string list \<Rightarrow> ('j Client \<Rightarrow> 'j Client) \<Rightarrow> dial_error + 'j Client" where
  "client_socket C J fin pieces begin_calls =
    (case socket_lines J fin pieces of
       [] \<Rightarrow> Dial C None
     | l # ls \<Rightarrow>
         (case Dial C (Some l) of
            Inl e \<Rightarrow> Inl e
          | Inr c \<Rightarrow> Inr (readLoop_end (fold (readLoop_line C) ls (begin_calls c)))))"

text \<open>C20: Messages survive the socket. A client writes requests as JSON lines, the server answers, and both sides read from a stream
  that delivers the bytes in any pieces whatever: the server handles exactly the client's requests, in order, and the client reads exactly
  the messages the server wrote, first the hello and then the rest. (The encoding is read back and every message fits into the
  mebibyte a line may have.)\<close>

theorem messages_survive_the_socket:
  assumes "list_all (json_line J) ms" and "concat pieces = concat (map (send_json J) ms)"
    and "list_all (json_line J) (fst (handleConn C sv (map Some ms) s))"
    and "concat pieces' = fst (serve_socket C J sv fin pieces s)"
  shows "snd (serve_socket C J sv fin pieces s) = snd (handleConn C sv (map Some ms) s)
    \<and> client_socket C J fin' pieces' calls =
        (case Dial C (Some (Some (sendHelloLocked C sv))) of
           Inl e \<Rightarrow> Inl e
         | Inr c \<Rightarrow> Inr (readLoop_end (fold (readLoop_line C) (map Some (fst (serve_lines sv (map Some ms) s))) (calls c))))"
proof -
  have lines: "socket_lines J fin pieces = map Some ms" unfolding socket_lines_def using assms(1,2) by (rule json_lines_sent)
  have serve: "serve_socket C J sv fin pieces s =
      (concat (map (send_json J) (fst (handleConn C sv (map Some ms) s))), snd (handleConn C sv (map Some ms) s))"
    by (simp add: serve_socket_def lines split: prod.split)
  then have "concat pieces' = concat (map (send_json J) (fst (handleConn C sv (map Some ms) s)))" using assms(4) by simp
  then have "socket_lines J fin' pieces' = map Some (fst (handleConn C sv (map Some ms) s))"
    unfolding socket_lines_def by (rule json_lines_sent [OF assms(3)])
  moreover have "fst (handleConn C sv (map Some ms) s) = sendHelloLocked C sv # fst (serve_lines sv (map Some ms) s)"
    by (simp add: handleConn_def split: prod.split)
  ultimately show ?thesis by (simp add: client_socket_def serve)
qed

text \<open>A request and its error answer, each byte in a piece of its own.\<close>

definition wx_codec :: "nat codec" where
  "wx_codec = \<lparr>co_hello = (\<lambda>_. 0), co_unhello = (\<lambda>_. Some \<lparr>hp_Version = ''1'', hp_DaemonVersion = ''v''\<rparr>), co_event = (\<lambda>_. 0), co_unevent = (\<lambda>_. None)\<rparr>"

definition wx_server :: "(nat, unit) Server" where "wx_server = NewServer ''v''"

definition wx_request :: "nat Message" where
  "wx_request = \<lparr>ms_JSONRPC = ''2.0'', ms_ID = Some 1, ms_Method = ''m'', ms_Params = None, ms_Result = None, ms_Error = None\<rparr>"

definition wx_refused :: "nat Message" where
  "wx_refused = respondErrLocked (Some 1) (NewError ErrCodeMethodNotFound (not_found ''m''))"

definition wx_json :: "nat Message json" where
  "wx_json = \<lparr>js_enc = (\<lambda>m. if m = wx_request then ''{q}'' else if m = wx_refused then ''{e}'' else ''{h}''),
     js_dec = (\<lambda>l. if l = ''{q}'' then Some wx_request else if l = ''{e}'' then Some wx_refused
                   else if l = ''{h}'' then Some (sendHelloLocked wx_codec wx_server) else None)\<rparr>"

definition bytewise :: "string \<Rightarrow> string list" where "bytewise s = map (\<lambda>c. [c]) s"

lemma concat_bytewise [simp]: "concat (bytewise s) = s"
  by (induction s) (simp_all add: bytewise_def)

lemma wx_distinct: "wx_request \<noteq> wx_refused" "sendHelloLocked wx_codec wx_server \<noteq> wx_request" "sendHelloLocked wx_codec wx_server \<noteq> wx_refused"
  by (simp_all add: wx_request_def wx_refused_def respondErrLocked_def sendHelloLocked_def)

lemma wx_lines: "json_line wx_json m" if "m \<in> {wx_request, wx_refused, sendHelloLocked wx_codec wx_server}" for m
  using that wx_distinct by (auto simp: json_line_def wx_json_def line_ok_def maxToken_def)

lemma wx_line: "handle_line wx_server (Some wx_request) () = ([wx_refused], ())"
  by (simp add: handle_line_def wx_request_def IsRequest_def IsNotification_def wx_server_def NewServer_def wx_refused_def)

lemma wx_call:
  assumes "Dial wx_codec (Some (Some (sendHelloLocked wx_codec wx_server))) = Inr c"
  shows "Call_end 1 (readLoop_end (readLoop_line wx_codec (Some wx_refused) (snd (Call_begin ''m'' None c))))
    = CallRpcError (NewError ErrCodeMethodNotFound (not_found ''m''))"
  using assms
  by (auto simp: Dial_def sendHelloLocked_def wx_codec_def ProtocolVersion_def Call_begin_def Let_def readLoop_line_def wx_refused_def respondErrLocked_def
      IsResponse_def readLoop_end_def Call_end_def make_chan_def send_nb_def ch_full_def)

theorem messages_survive_the_socket_witness:
  "\<exists>c. client_socket wx_codec wx_json ReadEOF (bytewise (fst (serve_socket wx_codec wx_json wx_server ReadEOF (bytewise (''{q}'' @ [nl])) ())))
      (\<lambda>c. snd (Call_begin ''m'' None c)) = Inr c \<and> Call_end 1 c = CallRpcError (NewError ErrCodeMethodNotFound (not_found ''m''))"
proof -
  have sent: "concat (bytewise (''{q}'' @ [nl])) = concat (map (send_json wx_json) [wx_request])"
    by (simp add: send_json_def wx_json_def)
  have out: "handleConn wx_codec wx_server (map Some [wx_request]) () = ([sendHelloLocked wx_codec wx_server, wx_refused], ())"
    by (simp add: handleConn_def wx_line)
  obtain c where c: "Dial wx_codec (Some (Some (sendHelloLocked wx_codec wx_server))) = Inr c"
    by (simp add: Dial_def sendHelloLocked_def wx_codec_def ProtocolVersion_def)
  show ?thesis
    using messages_survive_the_socket [OF _ sent, of wx_codec wx_server "()"
        "bytewise (fst (serve_socket wx_codec wx_json wx_server ReadEOF (bytewise (''{q}'' @ [nl])) ()))" ReadEOF ReadEOF
        "\<lambda>c. snd (Call_begin ''m'' None c)"] out wx_lines c wx_call [OF c]
    by (simp add: wx_line)
qed

end
