(* ===== verification/Subscription_Ids.thy ===== *)
theory Subscription_Ids
  imports Go_Strings "HOL-Library.Word"
begin

text \<open>
  The identifiers of subscriptions (\<open>newSubscriptionID\<close> in \<open>internal/ipc/methods/friends.go\<close>, \<open>newCallSubID\<close> in
  \<open>internal/ipc/methods/calls.go\<close>): a prefix, the clock in nanoseconds and a process-wide 64-bit counter.
\<close>

record id_counters =
  subCounter :: "64 word"
  callSubCounter :: "64 word"

definition sub_id :: "string \<Rightarrow> time \<Rightarrow> 64 word \<Rightarrow> string" where
  "sub_id prefix now n = prefix @ ''-'' @ FormatInt now @ ''-'' @ FormatInt (uint n)"

definition newSubscriptionID :: "time \<Rightarrow> id_counters \<Rightarrow> string \<times> id_counters" where
  "newSubscriptionID now c = (let n = subCounter c + 1 in (sub_id ''s'' now n, c\<lparr>subCounter := n\<rparr>))"

definition newCallSubID :: "time \<Rightarrow> id_counters \<Rightarrow> string \<times> id_counters" where
  "newCallSubID now c = (let n = callSubCounter c + 1 in (sub_id ''cs'' now n, c\<lparr>callSubCounter := n\<rparr>))"

text \<open>The handlers of a daemon in any order: each takes an identifier of its kind, at some time.\<close>

datatype id_request = PlainID time | CallID time

fun take_id :: "id_request \<Rightarrow> id_counters \<Rightarrow> string \<times> id_counters" where
  "take_id (PlainID now) c = newSubscriptionID now c"
| "take_id (CallID now) c = newCallSubID now c"

fun subscription_ids :: "id_request list \<Rightarrow> id_counters \<Rightarrow> string list" where
  "subscription_ids [] c = []"
| "subscription_ids (r # rs) c = (case take_id r c of (i, c') \<Rightarrow> i # subscription_ids rs c')"

text \<open>The counter can be read off an identifier: it follows the last dash.\<close>

lemma FormatInt_uint: "FormatInt (uint n) = fmt_nat (unat n)"
proof -
  have "\<not> uint n < 0" by simp
  then show ?thesis by (simp only: FormatInt_def if_False unat_eq_nat_uint)
qed

lemma sub_id_suffix: "rev (takeWhile (\<lambda>c. c \<noteq> CHR ''-'') (rev (sub_id prefix now n))) = fmt_nat (unat n)"
proof -
  have digits: "\<forall>c \<in> set (rev (fmt_nat (unat n))). c \<noteq> CHR ''-''"
    using fmt_nat_ok [of "unat n"] digit_not_sign unfolding list_all_iff by auto
  have "rev (sub_id prefix now n) = rev (fmt_nat (unat n)) @ CHR ''-'' # rev (prefix @ ''-'' @ FormatInt now)"
    by (simp add: sub_id_def FormatInt_uint)
  then show ?thesis using digits by (simp add: takeWhile_append2 del: rev_append set_rev)
qed

lemma sub_id_counter: "sub_id p now n = sub_id q now' m \<Longrightarrow> n = m"
  by (metis sub_id_suffix fmt_nat_ok word_unat_eq_iff)

lemma sub_id_kind: "sub_id ''s'' now n \<noteq> sub_id ''cs'' now' m"
  by (simp add: sub_id_def)

lemma counter_up: "unat a + 1 < 2 ^ 64 \<Longrightarrow> unat (a + 1) = unat a + 1" for a :: "64 word"
  by (simp add: unat_word_ariths(1))

definition later_id :: "id_counters \<Rightarrow> string \<Rightarrow> bool" where
  "later_id c i \<longleftrightarrow>
    (\<exists>now n. i = sub_id ''s'' now n \<and> unat (subCounter c) < unat n) \<or> (\<exists>now n. i = sub_id ''cs'' now n \<and> unat (callSubCounter c) < unat n)"

lemma take_id_later:
  assumes "take_id r c = (i, c')" and "unat (subCounter c) + 1 < 2 ^ 64" "unat (callSubCounter c) + 1 < 2 ^ 64"
  shows "later_id c i" and "later_id c' j \<Longrightarrow> later_id c j" and "\<not> later_id c' i"
    and "unat (subCounter c') \<le> unat (subCounter c) + 1" and "unat (callSubCounter c') \<le> unat (callSubCounter c) + 1"
proof -
  have plain: "i = sub_id ''s'' now (subCounter c + 1) \<and> c' = c\<lparr>subCounter := subCounter c + 1\<rparr>" if "r = PlainID now" for now
    using assms(1) that by (auto simp: newSubscriptionID_def Let_def)
  have call: "i = sub_id ''cs'' now (callSubCounter c + 1) \<and> c' = c\<lparr>callSubCounter := callSubCounter c + 1\<rparr>" if "r = CallID now" for now
    using assms(1) that by (auto simp: newCallSubID_def Let_def)
  note up = counter_up [OF assms(2)] counter_up [OF assms(3)]
  show "later_id c i"
    using plain call up by (cases r) (auto simp: later_id_def intro!: exI)
  show "later_id c j" if "later_id c' j"
    using plain call up that by (cases r) (force simp: later_id_def)+
  show "\<not> later_id c' i"
    using plain call sub_id_kind sub_id_kind [THEN not_sym] by (cases r) (auto simp: later_id_def dest: sub_id_counter)
  show "unat (subCounter c') \<le> unat (subCounter c) + 1" and "unat (callSubCounter c') \<le> unat (callSubCounter c) + 1"
    using plain call up by (cases r; simp)+
qed

lemma subscription_ids_later:
  "unat (subCounter c) + length rs < 2 ^ 64 \<Longrightarrow> unat (callSubCounter c) + length rs < 2 ^ 64 \<Longrightarrow>
    distinct (subscription_ids rs c) \<and> list_all (later_id c) (subscription_ids rs c)"
proof (induction rs arbitrary: c)
  case Nil
  show ?case by simp
next
  case (Cons r rs)
  obtain i c' where new: "take_id r c = (i, c')" by (metis prod.exhaust)
  have room: "unat (subCounter c) + 1 < 2 ^ 64" "unat (callSubCounter c) + 1 < 2 ^ 64" using Cons.prems by simp_all
  note step = take_id_later [OF new room]
  have "distinct (subscription_ids rs c') \<and> list_all (later_id c') (subscription_ids rs c')"
    using Cons.prems step(4,5) by (intro Cons.IH) simp_all
  then show ?case using step(1-3) new unfolding list_all_iff by auto
qed

text \<open>No two subscriptions share an identifier. Whatever handlers take identifiers, in whatever order, and whatever the clock says,
  also when it stands still or goes backwards, fewer than \<open>2 ^ 64\<close> identifiers of one process are pairwise distinct.\<close>

theorem subscription_ids_distinct:
  assumes "length rs < 2 ^ 64"
  shows "distinct (subscription_ids rs \<lparr>subCounter = 0, callSubCounter = 0\<rparr>)"
  using subscription_ids_later [of "\<lparr>subCounter = 0, callSubCounter = 0\<rparr>" rs] assms by simp

theorem subscription_ids_distinct_witness:
  "distinct (subscription_ids [PlainID 5, CallID 5, PlainID 5, PlainID (- 2)] \<lparr>subCounter = 0, callSubCounter = 0\<rparr>)"
  using subscription_ids_distinct [of "[PlainID 5, CallID 5, PlainID 5, PlainID (- 2)]"] by simp

end
