(* ===== verification/Go_Ticker.thy ===== *)
theory Go_Ticker
  imports Prelude
begin

text \<open>
  \<open>time.Ticker\<close> and the loop the daemon's background jobs share: do the job once, make a ticker, then wait in a
  \<open>select\<close> for the context or the next tick, and do the job again (\<open>Publisher.Run\<close> of \<open>internal/discovery/publisher.go\<close>,
  \<open>runVersionChecker\<close> of \<open>internal/app/daemon.go\<close>).

  A ticker made at \<open>t0\<close> with interval \<open>I\<close> ticks at \<open>t0 + I\<close>, \<open>t0 + 2 I\<close> and so on; a tick nobody was waiting for
  is kept until it is received, later ones are dropped. So the receiver that received at \<open>prev\<close> and asks again at \<open>now\<close> gets the first tick
  after \<open>prev\<close>, at once when it is past.
\<close>

definition next_tick :: "time \<Rightarrow> time \<Rightarrow> time \<Rightarrow> time" where
  "next_tick t0 I prev = t0 + I * ((prev - t0) div I + 1)"

text \<open>The \<open>select\<close> on \<open>ctx.Done()\<close> and the ticker: the time of the tick it took, or \<open>None\<close> when it took the context.
  \<open>pick\<close> is the choice between two channels that are both ready.\<close>

definition tick_or_done :: "time \<Rightarrow> time \<Rightarrow> time \<Rightarrow> time \<Rightarrow> time option \<Rightarrow> bool \<Rightarrow> time option" where
  "tick_or_done t0 I prev now cancel pick =
    (let tick = max now (next_tick t0 I prev) in
     case cancel of
       None \<Rightarrow> Some tick
     | Some c \<Rightarrow>
         if max now c < tick then None
         else if tick < max now c then Some tick
         else if pick then Some tick else None)"

text \<open>The times at which the job starts, in at most \<open>n\<close> turns of the loop; job \<open>i\<close> takes \<open>dur i\<close>.\<close>

fun loop_rounds :: "time \<Rightarrow> (nat \<Rightarrow> time) \<Rightarrow> time option \<Rightarrow> (nat \<Rightarrow> bool) \<Rightarrow> time \<Rightarrow> nat \<Rightarrow> nat \<Rightarrow> time \<Rightarrow> time \<Rightarrow> time list" where
  "loop_rounds I dur cancel pick t0 0 i prev now = []"
| "loop_rounds I dur cancel pick t0 (Suc n) i prev now =
    (case tick_or_done t0 I prev now cancel (pick i) of
       None \<Rightarrow> []
     | Some s \<Rightarrow> s # loop_rounds I dur cancel pick t0 n (Suc i) s (s + dur i))"

definition ticker_run :: "time \<Rightarrow> (nat \<Rightarrow> time) \<Rightarrow> time option \<Rightarrow> (nat \<Rightarrow> bool) \<Rightarrow> nat \<Rightarrow> time \<Rightarrow> time list" where
  "ticker_run I dur cancel pick n T = T # loop_rounds I dur cancel pick (T + dur 0) n 1 (T + dur 0) (T + dur 0)"

text \<open>Round \<open>i\<close> of a loop that is never cancelled.\<close>

fun round_start :: "time \<Rightarrow> (nat \<Rightarrow> time) \<Rightarrow> time \<Rightarrow> nat \<Rightarrow> time" where
  "round_start I dur T 0 = T"
| "round_start I dur T (Suc i) =
    max (round_start I dur T i + dur i) (next_tick (T + dur 0) I (if i = 0 then T + dur 0 else round_start I dur T i))"

definition round_end :: "time \<Rightarrow> (nat \<Rightarrow> time) \<Rightarrow> time \<Rightarrow> nat \<Rightarrow> time" where
  "round_end I dur T i = round_start I dur T i + dur i"

declare round_start.simps(2) [simp del]

lemmas round_start_Suc = round_start.simps(2)

lemma next_tick_after:
  assumes "0 < I"
  shows "prev < next_tick t0 I prev" and "next_tick t0 I prev \<le> prev + I"
proof -
  have eq: "next_tick t0 I prev = prev - (prev - t0) mod I + I"
    using minus_mod_eq_mult_div [of "prev - t0" I] by (simp add: next_tick_def distrib_left)
  show "prev < next_tick t0 I prev" and "next_tick t0 I prev \<le> prev + I"
    using pos_mod_bound [OF assms, of "prev - t0"] pos_mod_sign [OF assms, of "prev - t0"] by (simp_all add: eq)
qed

lemma next_tick_grid: "0 < I \<Longrightarrow> next_tick t0 I (t0 + I * k) = t0 + I * (k + 1)"
  by (simp add: next_tick_def)

section \<open>A loop against its ideal\<close>

lemma loop_rounds_nth:
  assumes "k < length (loop_rounds I dur cancel pick t0 n (Suc i) prev now)"
    and "prev = (if i = 0 then T + dur 0 else round_start I dur T i)" and "now = round_end I dur T i" and "t0 = T + dur 0"
  shows "loop_rounds I dur cancel pick t0 n (Suc i) prev now ! k = round_start I dur T (Suc (i + k))"
  using assms
proof (induction n arbitrary: i prev now k)
  case 0
  then show ?case by simp
next
  case (Suc n)
  then obtain s where s: "tick_or_done t0 I prev now cancel (pick (Suc i)) = Some s" by (auto split: option.splits)
  then have start: "s = round_start I dur T (Suc i)"
    using Suc.prems(2-4) by (auto simp: tick_or_done_def Let_def round_end_def round_start_Suc split: option.splits if_splits)
  show ?case
  proof (cases k)
    case 0
    then show ?thesis using s start by simp
  next
    case (Suc m)
    then have "m < length (loop_rounds I dur cancel pick t0 n (Suc (Suc i)) s (s + dur (Suc i)))" using Suc.prems(1) s by simp
    then have "loop_rounds I dur cancel pick t0 n (Suc (Suc i)) s (s + dur (Suc i)) ! m = round_start I dur T (Suc (Suc i + m))"
      by (rule Suc.IH) (simp_all only: start round_end_def Suc.prems(4) nat.distinct if_False)
    then show ?thesis using s Suc by simp
  qed
qed

lemma ticker_run_nth:
  assumes "k < length (ticker_run I dur cancel pick n T)"
  shows "ticker_run I dur cancel pick n T ! k = round_start I dur T k"
proof (cases k)
  case 0
  then show ?thesis by (simp add: ticker_run_def)
next
  case (Suc m)
  then have "m < length (loop_rounds I dur cancel pick (T + dur 0) n (Suc 0) (T + dur 0) (T + dur 0))"
    using assms by (simp add: ticker_run_def)
  then have "loop_rounds I dur cancel pick (T + dur 0) n (Suc 0) (T + dur 0) (T + dur 0) ! m = round_start I dur T (Suc (0 + m))"
    by (rule loop_rounds_nth) (simp_all add: round_end_def)
  then show ?thesis by (simp add: ticker_run_def Suc)
qed

text \<open>Every round that starts before the context is cancelled is made.\<close>

lemma loop_rounds_reaches:
  assumes "k < n" and "\<forall>j \<le> k. \<forall>c. cancel = Some c \<longrightarrow> round_start I dur T (Suc (i + j)) < c"
    and "prev = (if i = 0 then T + dur 0 else round_start I dur T i)" and "now = round_end I dur T i" and "t0 = T + dur 0"
  shows "k < length (loop_rounds I dur cancel pick t0 n (Suc i) prev now)"
  using assms
proof (induction n arbitrary: i prev now k)
  case 0
  then show ?case by simp
next
  case (Suc n)
  have "\<forall>c. cancel = Some c \<longrightarrow> round_start I dur T (Suc i) < c" using Suc.prems(2) by (metis add_0_right le0)
  then have s: "tick_or_done t0 I prev now cancel (pick (Suc i)) = Some (round_start I dur T (Suc i))"
    using Suc.prems(3-5) by (cases cancel; cases "i = 0") (auto simp: tick_or_done_def Let_def round_end_def round_start_Suc)
  show ?case
  proof (cases k)
    case 0
    then show ?thesis using s by simp
  next
    case (Suc m)
    have "m < length (loop_rounds I dur cancel pick t0 n (Suc (Suc i)) (round_start I dur T (Suc i)) (round_start I dur T (Suc i) + dur (Suc i)))"
    proof (rule Suc.IH)
      show "\<forall>j \<le> m. \<forall>c. cancel = Some c \<longrightarrow> round_start I dur T (Suc (Suc i + j)) < c"
        using Suc.prems(2) Suc by (metis Suc_le_mono add_Suc add_Suc_right)
    qed (use Suc.prems Suc in \<open>simp_all add: round_end_def\<close>)
    then show ?thesis using s Suc by simp
  qed
qed

lemma length_loop_rounds: "length (loop_rounds I dur cancel pick t0 n i prev now) \<le> n"
  by (induction n arbitrary: i prev now) (auto split: option.splits)

lemma length_ticker_run: "length (ticker_run I dur cancel pick n T) \<le> Suc n"
  using length_loop_rounds by (simp add: ticker_run_def)

section \<open>How far apart rounds are\<close>

text \<open>What a client of such a loop relies on: the interval is positive and a round takes at most \<open>D\<close>.\<close>

locale ticker_loop =
  fixes I D :: time and dur :: "nat \<Rightarrow> time" and T :: time
  assumes interval: "0 < I"
    and duration: "0 \<le> dur i" "dur i \<le> D"
begin

lemma start_after_end: "round_end I dur T i \<le> round_start I dur T (Suc i)"
  by (simp add: round_end_def round_start_Suc)

lemma start_progress: "round_start I dur T i < round_start I dur T (Suc i)"
  using next_tick_after(1) [OF interval, of "round_start I dur T i"] next_tick_after(1) [OF interval, of "T + dur 0" "T + dur 0"] duration(1) [of 0]
  by (auto simp: less_max_iff_disj round_start_Suc)

lemma start_lower: "T + int i \<le> round_start I dur T i"
proof (induction i)
  case (Suc i)
  then show ?case using start_progress [of i] by simp
qed simp

lemma start_gap: "round_start I dur T (Suc i) \<le> round_start I dur T i + I + D"
proof (cases i)
  case 0
  then show ?thesis using next_tick_after(2) [OF interval, of "T + dur 0" "T + dur 0"] duration [of 0] interval by (simp add: round_start_Suc)
next
  case (Suc j)
  then show ?thesis
    using next_tick_after(2) [OF interval, of "T + dur 0" "round_start I dur T i"] duration [of i] interval by (simp add: round_start_Suc)
qed

text \<open>Between the end of the first round and any later time lies the end of a round that started at most an interval
  and two durations before that time.\<close>

lemma recent_round:
  assumes "round_end I dur T 0 \<le> t"
  obtains i where "round_end I dur T i \<le> t" and "t < round_end I dur T (Suc i)" and "t - round_start I dur T i < I + 2 * D"
proof -
  have "t < round_end I dur T (nat (t - T) + 1)"
    using start_lower [of "nat (t - T) + 1"] duration(1) [of "nat (t - T) + 1"] unfolding round_end_def by linarith
  then have ex: "\<exists>k. t < round_end I dur T k" by blast
  define k where "k = (LEAST k. t < round_end I dur T k)"
  have k: "\<not> t < round_end I dur T j" if "j < k" for j
    using that unfolding k_def by (rule not_less_Least)
  have k0: "t < round_end I dur T k" unfolding k_def by (rule LeastI_ex [OF ex])
  with assms k0 obtain i where i: "k = Suc i" by (cases k) auto
  show ?thesis
  proof (rule that [of i])
    show "round_end I dur T i \<le> t" using k [of i] i by simp
    show after: "t < round_end I dur T (Suc i)" using k0 i by simp
    show "t - round_start I dur T i < I + 2 * D"
      using after start_gap [of i] duration(2) [of "Suc i"] unfolding round_end_def by linarith
  qed
qed

text \<open>Rounds shorter than the interval start on the ticks.\<close>

lemma punctual:
  assumes "D < I"
  shows "round_start I dur T (Suc i) = T + dur 0 + I * int (Suc i)"
proof (induction i)
  case 0
  show ?case using interval duration(1) [of 0] by (simp add: next_tick_def round_start_Suc)
next
  case (Suc i)
  then have "next_tick (T + dur 0) I (round_start I dur T (Suc i)) = T + dur 0 + I * int (Suc (Suc i))"
    using next_tick_grid [OF interval, of "T + dur 0" "int (Suc i)"] by (simp add: add.commute)
  moreover have "dur (Suc i) \<le> I" using duration(2) [of "Suc i"] assms by simp
  ultimately show ?case using Suc.IH by (simp add: distrib_left max_def round_start_Suc [of I dur T "Suc i"])
qed

text \<open>A round that starts before the cancellation is made by the loop itself.\<close>

lemma run_reaches:
  assumes "k \<le> n" and "\<And>c. cancel = Some c \<Longrightarrow> round_start I dur T k < c"
  shows "k < length (ticker_run I dur cancel pick n T)"
proof (cases k)
  case 0
  then show ?thesis by (simp add: ticker_run_def)
next
  case (Suc m)
  have mono: "round_start I dur T (Suc (0 + j)) \<le> round_start I dur T k" if "j \<le> m" for j
    using that unfolding Suc add_0
  proof (induction m rule: dec_induct)
    case (step n)
    then show ?case using start_progress [of "Suc n"] by simp
  qed simp
  have "m < length (loop_rounds I dur cancel pick (T + dur 0) n (Suc 0) (T + dur 0) (T + dur 0))"
    by (rule loop_rounds_reaches [where T = T]) (use assms Suc mono in \<open>force simp: round_end_def\<close>)+
  then show ?thesis using Suc by (simp add: ticker_run_def)
qed

end

end
