(* ===== verification/Discovery_Loops.thy ===== *)
theory Discovery_Loops
  imports Discovery Version Go_Ticker
begin

text \<open>
  The background jobs of discovery and of the version check: the constructors with their defaults
  (\<open>NewPublisher\<close>, \<open>NewResolver\<close>), \<open>Publisher.Run\<close>, the re-publication when the host's addresses change
  (\<open>internal/app/daemon.go\<close>) and \<open>runVersionChecker\<close>.

  An interface value of the options is there or not; the libraries behind the keys are the parameters of Discovery.
\<close>

section \<open>Constructors\<close>

definition seconds :: "int \<Rightarrow> time" where "seconds n = n * 1000000000"

definition DefaultRefreshInterval :: time where "DefaultRefreshInterval = seconds (4 * 3600)"
definition DefaultLookupTTL :: time where "DefaultLookupTTL = seconds (24 * 3600)"
definition DefaultLookupTimeout :: time where "DefaultLookupTimeout = seconds 10"

datatype option_error =
  ErrDHTRequired | ErrFriendsRequired | ErrSignerRequired | ErrAddressesRequired | ErrIdentityRequired

record ('priv, 'pub) PublisherOptions =
  po_DHT :: bool
  po_Friends :: bool
  po_Signer :: "'priv option"
  po_SignerPub :: "'pub option"
  po_AddressProvider :: bool
  po_RefreshInterval :: time

text \<open>A publisher with the interval of its loop.\<close>

definition NewPublisher ::
    "('priv, 'pub) keys \<Rightarrow> ('priv, 'pub) ecdh \<Rightarrow> DiscRecord aead \<Rightarrow> ('priv, 'pub) PublisherOptions \<Rightarrow> option_error + ('priv, 'pub) Publisher \<times> time" where
  "NewPublisher K E A opts =
    (if \<not> po_DHT opts then Inl ErrDHTRequired
     else if \<not> po_Friends opts then Inl ErrFriendsRequired
     else case (po_Signer opts, po_SignerPub opts) of
       (Some signer, Some pub) \<Rightarrow>
         if \<not> po_AddressProvider opts then Inl ErrAddressesRequired
         else Inr (\<lparr>pu_keys = K, pu_ecdh = E, pu_aead = A, pu_signer = signer, pu_signerPub = pub\<rparr>,
                   if po_RefreshInterval opts = 0 then DefaultRefreshInterval else po_RefreshInterval opts)
     | _ \<Rightarrow> Inl ErrSignerRequired)"

record ('priv, 'pub) ResolverOptions =
  ro_DHT :: bool
  ro_Friends :: bool
  ro_MyPriv :: "'priv option"
  ro_MyPub :: "'pub option"
  ro_LookupTTL :: time
  ro_Timeout :: time

text \<open>A resolver with the deadline of its lookups.\<close>

definition NewResolver ::
    "('priv, 'pub) keys \<Rightarrow> ('priv, 'pub) ecdh \<Rightarrow> DiscRecord aead \<Rightarrow> (string \<Rightarrow> addr option) \<Rightarrow> ('priv, 'pub) ResolverOptions
      \<Rightarrow> option_error + ('priv, 'pub) Resolver \<times> time" where
  "NewResolver K E A multiaddr opts =
    (if \<not> ro_DHT opts then Inl ErrDHTRequired
     else if \<not> ro_Friends opts then Inl ErrFriendsRequired
     else case (ro_MyPriv opts, ro_MyPub opts) of
       (Some priv, Some pub) \<Rightarrow>
         Inr (\<lparr>rs_keys = K, rs_ecdh = E, rs_aead = A, rs_multiaddr = multiaddr, rs_myPriv = priv, rs_myPub = pub,
               rs_ttl = (if ro_LookupTTL opts = 0 then DefaultLookupTTL else ro_LookupTTL opts)\<rparr>,
              if ro_Timeout opts = 0 then DefaultLookupTimeout else ro_Timeout opts)
     | _ \<Rightarrow> Inl ErrIdentityRequired)"

section \<open>The publisher's loop\<close>

text \<open>The rounds of \<open>Run\<close> with their start times, in at most \<open>n\<close> turns of the loop: \<open>friends\<close> and \<open>addrs\<close> are what the
  store and the host return at a time, \<open>env i\<close> the randomness and the outcomes of the puts of round \<open>i\<close>.\<close>

definition publish_round ::
    "('priv, 'pub) Publisher \<Rightarrow> (time \<Rightarrow> Friend list) \<Rightarrow> (time \<Rightarrow> string list) \<Rightarrow> (nat \<Rightarrow> string option \<times> bool) \<Rightarrow> time \<Rightarrow> (string \<times> string) list" where
  "publish_round P friends addrs env s = PublishOnce P (friends s) (addrs s) s env"

definition Publisher_Run ::
    "('priv, 'pub) Publisher \<Rightarrow> time \<Rightarrow> (time \<Rightarrow> Friend list) \<Rightarrow> (time \<Rightarrow> string list) \<Rightarrow> (nat \<Rightarrow> nat \<Rightarrow> string option \<times> bool)
      \<Rightarrow> (nat \<Rightarrow> time) \<Rightarrow> time option \<Rightarrow> (nat \<Rightarrow> bool) \<Rightarrow> nat \<Rightarrow> time \<Rightarrow> (time \<times> (string \<times> string) list) list" where
  "Publisher_Run P interval friends addrs env dur cancel pick n T =
    map (\<lambda>(i, s). (s, publish_round P friends addrs (env i) s)) (List.enumerate 0 (ticker_run interval dur cancel pick n T))"

text \<open>The goroutine that publishes when the host's addresses change: events of the bus until the context is cancelled or
  the bus closes the subscription.\<close>

datatype addr_event = AddrsUpdated time | BusClosed | CtxDone

fun address_watcher ::
    "('priv, 'pub) Publisher \<Rightarrow> (time \<Rightarrow> Friend list) \<Rightarrow> (time \<Rightarrow> string list) \<Rightarrow> (time \<Rightarrow> nat \<Rightarrow> string option \<times> bool)
      \<Rightarrow> addr_event list \<Rightarrow> (time \<times> (string \<times> string) list) list" where
  "address_watcher P friends addrs env [] = []"
| "address_watcher P friends addrs env (AddrsUpdated s # evs) =
    (s, publish_round P friends addrs (env s) s) # address_watcher P friends addrs env evs"
| "address_watcher P friends addrs env (BusClosed # evs) = []"
| "address_watcher P friends addrs env (CtxDone # evs) = []"

section \<open>The version checker's loop\<close>

definition CheckInterval :: time where "CheckInterval = seconds (6 * 3600)"
definition HTTPTimeout :: time where "HTTPTimeout = seconds 10"

text \<open>One refresh under its deadline: \<open>x\<close> is how long the answer takes.\<close>

definition refresh_dur :: "(nat \<Rightarrow> time) \<Rightarrow> nat \<Rightarrow> time" where
  "refresh_dur x i = min HTTPTimeout (x i)"

definition timed_refresh ::
    "(nat \<times> string option) option \<Rightarrow> time \<Rightarrow> time \<Rightarrow> cache_env \<Rightarrow> Checker \<Rightarrow> version_Cache fs \<Rightarrow> version_Cache fs" where
  "timed_refresh resp x s env c fs =
    snd (Refresh (if x < HTTPTimeout then resp else None) (s + min HTTPTimeout x) env c fs)"

primrec version_loop ::
    "(nat \<Rightarrow> (nat \<times> string option) option) \<Rightarrow> (nat \<Rightarrow> time) \<Rightarrow> (nat \<Rightarrow> cache_env) \<Rightarrow> Checker \<Rightarrow> time list \<Rightarrow> nat \<Rightarrow> version_Cache fs \<Rightarrow> version_Cache fs" where
  "version_loop resp x env c [] i fs = fs"
| "version_loop resp x env c (s # ss) i fs = version_loop resp x env c ss (Suc i) (timed_refresh (resp i) (x i) s (env i) c fs)"

definition runVersionChecker ::
    "(nat \<Rightarrow> (nat \<times> string option) option) \<Rightarrow> (nat \<Rightarrow> time) \<Rightarrow> (nat \<Rightarrow> cache_env) \<Rightarrow> Checker \<Rightarrow> time option \<Rightarrow> (nat \<Rightarrow> bool) \<Rightarrow> nat \<Rightarrow> time
      \<Rightarrow> version_Cache fs \<Rightarrow> version_Cache fs" where
  "runVersionChecker resp x env c cancel pick n T fs =
    version_loop resp x env c (ticker_run CheckInterval (refresh_dur x) cancel pick n T) 0 fs"

section \<open>The loops keep their contracts\<close>

lemma intervals_pos [simp]: "0 < DefaultRefreshInterval" "0 < CheckInterval" "0 < HTTPTimeout"
  by (simp_all add: DefaultRefreshInterval_def CheckInterval_def HTTPTimeout_def seconds_def)

definition capped :: "time \<Rightarrow> (nat \<Rightarrow> time) \<Rightarrow> nat \<Rightarrow> time" where
  "capped D dur i = max 0 (min D (dur i))"

lemma capped_id: "(\<And>i. 0 \<le> dur i \<and> dur i \<le> D) \<Longrightarrow> capped D dur = dur"
  by (auto simp: capped_def fun_eq_iff)

interpretation pub: ticker_loop DefaultRefreshInterval "max 0 D" "capped D dur" T for D :: time and dur :: "nat \<Rightarrow> time" and T :: time
  by unfold_locales (auto simp: capped_def)

interpretation vchk: ticker_loop CheckInterval HTTPTimeout "\<lambda>i. max 0 (refresh_dur x i)" T for x :: "nat \<Rightarrow> time" and T :: time
  by unfold_locales (auto simp: refresh_dur_def less_imp_le)

lemma version_loop_last:
  "version_loop resp x env c (ss @ [s]) i fs =
    timed_refresh (resp (i + length ss)) (x (i + length ss)) s (env (i + length ss)) c (version_loop resp x env c ss i fs)"
  by (induction ss arbitrary: i fs) simp_all

text \<open>A refresh that is answered in time leaves a cache entry of the moment it ended.\<close>

lemma timed_refresh_ok:
  assumes "x < HTTPTimeout" and "resp = Some (200, Some tag)" and "vw_dir env \<longrightarrow> vw_mkdir env" "vw_write env" "vw_rename env"
  shows "timed_refresh resp x s env c fs (ck_CachePath c) =
    Some (Data \<lparr>vc_Latest = TrimPrefix ''v'' tag, vc_FetchedAt = s + x, vc_Repo = ck_Repo c\<rparr>)"
  using assms by (auto simp: timed_refresh_def Refresh_def writeCacheAtomic_def Let_def)

text \<open>While the daemon runs and its requests are answered, the cached version is at most six hours and twenty seconds old.\<close>

lemma version_cache_kept_fresh:
  assumes ok: "\<And>i. 0 \<le> x i \<and> x i < HTTPTimeout" "\<And>i. \<exists>tag. resp i = Some (200, Some tag)"
      "\<And>i. (vw_dir (env i) \<longrightarrow> vw_mkdir (env i)) \<and> vw_write (env i) \<and> vw_rename (env i)"
    and t: "T + x 0 \<le> t" "\<And>c. cancel = Some c \<Longrightarrow> t < c"
  shows "\<exists>n. let rounds = ticker_run CheckInterval (refresh_dur x) cancel pick n T in
    last rounds + x n \<le> t \<and>
    t - (CheckInterval + 2 * HTTPTimeout) < vc_FetchedAt (fst (ReadCache True c (runVersionChecker resp x env c cancel pick n T fs)))"
proof -
  have d: "(\<lambda>i. max 0 (refresh_dur x i)) = x" using ok(1) by (simp add: refresh_dur_def fun_eq_iff less_imp_le)
  have d': "refresh_dur x = x" using ok(1) by (simp add: refresh_dur_def fun_eq_iff less_imp_le)
  obtain k where k: "round_end CheckInterval x T k \<le> t" "t - round_start CheckInterval x T k < CheckInterval + 2 * HTTPTimeout"
    using vchk.recent_round [of x T t, unfolded d] t(1) by (auto simp: round_end_def)
  have before: "round_start CheckInterval x T k < c" if "cancel = Some c" for c
    using t(2) [OF that] k(1) ok(1) [of k] by (simp add: round_end_def)
  have len: "k < length (ticker_run CheckInterval x cancel pick k T)"
    using vchk.run_reaches [of k k cancel x T pick, unfolded d] before by blast
  define rounds where "rounds = ticker_run CheckInterval x cancel pick k T"
  have "length rounds = Suc k" using len length_ticker_run [of CheckInterval x cancel pick k T] by (simp add: rounds_def)
  then obtain ss where ss: "rounds = ss @ [rounds ! k]" "length ss = k" by (metis length_append_singleton append_butlast_last_id
      diff_Suc_1 last_conv_nth length_butlast length_greater_0_conv nat.inject zero_less_Suc)
  have start: "rounds ! k = round_start CheckInterval x T k" using ticker_run_nth [OF len] by (simp add: rounds_def)
  obtain tag where tag: "resp k = Some (200, Some tag)" using ok(2) by blast
  have "runVersionChecker resp x env c cancel pick k T fs (ck_CachePath c) =
      Some (Data \<lparr>vc_Latest = TrimPrefix ''v'' tag, vc_FetchedAt = rounds ! k + x k, vc_Repo = ck_Repo c\<rparr>)"
    using timed_refresh_ok [OF _ tag, of "x k" "env k"] ok(1,3) version_loop_last [of resp x env c ss "rounds ! k" 0 fs] ss
    by (simp add: runVersionChecker_def d' flip: rounds_def)
  then have "vc_FetchedAt (fst (ReadCache True c (runVersionChecker resp x env c cancel pick k T fs))) = rounds ! k + x k"
    by (simp add: ReadCache_def)
  moreover have "last rounds = rounds ! k" by (metis ss(1) last_snoc)
  ultimately show ?thesis
    using k start ok(1) [of k] by (intro exI [of _ k]) (simp add: Let_def d' round_end_def flip: rounds_def)
qed

section \<open>What is published stays resolvable\<close>

text \<open>A publisher and a friend's resolver over the same libraries, with identities in the shape libp2p makes them; \<open>fa\<close> is the
  publisher's entry for the friend, \<open>fb\<close> the friend's entry for the publisher.\<close>

definition linked :: "('priv, 'pub) Publisher \<Rightarrow> ('priv, 'pub) Resolver \<Rightarrow> Friend \<Rightarrow> Friend \<Rightarrow> bool" where
  "linked P R fa fb \<longleftrightarrow>
    rs_keys R = pu_keys P \<and> rs_ecdh R = pu_ecdh P \<and> rs_aead R = pu_aead P \<and> keys_ok (pu_keys P) \<and>
    dh_commutes (pu_ecdh P) (pu_signer P) (rs_myPriv R) \<and> ed_identity (pu_ecdh P) (pu_signer P) \<and> ed_identity (pu_ecdh P) (rs_myPriv R) \<and>
    (\<forall>s. length (discovery_DeriveEncryptionKey (pu_ecdh P) s) = 32) \<and>
    ec_getPublic (pu_ecdh P) (pu_signer P) = pu_signerPub P \<and> k_public (pu_keys P) (pu_signer P) = pu_signerPub P \<and>
    ec_getPublic (pu_ecdh P) (rs_myPriv R) = rs_myPub R \<and> (\<forall>m. k_sign (pu_keys P) (pu_signer P) m \<noteq> None) \<and>
    DeriveSharedSecret (pu_ecdh P) (rs_myPriv R) (pu_signerPub P) \<noteq> None \<and>
    (\<exists>b. k_marshalPub (pu_keys P) (rs_myPub R) = Some b \<and> b \<noteq> [] \<and> fr_PublicKey fa = std_encode b) \<and>
    (\<exists>b. k_marshalPub (pu_keys P) (pu_signerPub P) = Some b \<and> b \<noteq> [] \<and> fr_PublicKey fb = std_encode b)"

definition record_at :: "(time \<Rightarrow> string list) \<Rightarrow> time \<Rightarrow> DiscRecord" where
  "record_at addrs s = \<lparr>dr_Version = discovery_RecordVersion, dr_Addresses = addrs s, dr_Timestamp = s div 1000000000\<rparr>"

lemma linked_resolves:
  assumes linked: "linked P R (friends s ! i) fb" and "i < length (friends s)" and "aead_ok (pu_aead P) (record_at addrs s)"
    and "env i = (Some n, True)" "length n = nonceLen" and "findFriend fs target = Some fb"
    and "cached R (rz_now z) target cache = None" "since (rz_decodeAt z) (s div 1000000000 * 1000000000) \<le> rs_ttl R"
  shows "\<exists>key blob. (key, blob) \<in> set (publish_round P friends addrs env s)
    \<and> (rz_get z key = Some blob \<longrightarrow>
         Resolve R z fs target cache =
           (Inr (parseMultiaddrs (rs_multiaddr R) (addrs s)), map_option (cache_Set target (addrs s) (rz_setAt z) (rz_io z)) cache))"
proof -
  from linked obtain a b where
    "k_marshalPub (pu_keys P) (rs_myPub R) = Some a" "a \<noteq> []" "fr_PublicKey (friends s ! i) = std_encode a"
    "k_marshalPub (pu_keys P) (pu_signerPub P) = Some b" "b \<noteq> []" "fr_PublicKey fb = std_encode b"
    unfolding linked_def by blast
  with assms show ?thesis
    unfolding publish_round_def linked_def record_at_def
    by (intro published_addresses_resolve [where K = "pu_keys P" and E = "pu_ecdh P" and A = "pu_aead P" and bb = a and ab = b and f = fb and n = n
          and i = i, OF refl _ refl _ refl]) auto
qed

text \<open>The age of a record a round wrote, as the resolver sees it: seconds are cut off from its time stamp.\<close>

lemma record_age:
  assumes "t - s < DefaultRefreshInterval + 2 * D" and "DefaultRefreshInterval + 2 * D + seconds 1 \<le> DefaultLookupTTL"
  shows "since t (s div 1000000000 * 1000000000) \<le> DefaultLookupTTL"
proof -
  have "s - s div 1000000000 * 1000000000 = s mod 1000000000" by (simp add: minus_div_mult_eq_mod)
  then have "t - s div 1000000000 * 1000000000 < DefaultLookupTTL"
    using assms pos_mod_bound [of 1000000000 s] unfolding seconds_def by linarith
  then show ?thesis by (simp add: since_def DefaultLookupTTL_def seconds_def)
qed

lemma Publisher_Run_nth:
  assumes "k < length (Publisher_Run P I friends addrs env dur cancel pick n T)"
  shows "Publisher_Run P I friends addrs env dur cancel pick n T ! k =
    (round_start I dur T k, publish_round P friends addrs (env k) (round_start I dur T k))"
  using assms ticker_run_nth [of k I dur cancel pick n T] by (simp add: Publisher_Run_def nth_enumerate_eq)


text \<open>Five hours after the start the record of the round at four hours is looked up.\<close>

definition lx_aead :: "DiscRecord aead" where
  "lx_aead = \<lparr>a_seal = (\<lambda>_ _ r. replicate (16 + nat (dr_Timestamp r)) (CHR ''c'')),
     a_open = (\<lambda>_ _ c. Some (Some \<lparr>dr_Version = discovery_RecordVersion, dr_Addresses = [''/ip4/a''], dr_Timestamp = int (length c) - 16\<rparr>))\<rparr>"

definition lx_publisher :: "(char, char) Publisher" where
  "lx_publisher = (dx_publisher (CHR ''a''))\<lparr>pu_aead := lx_aead\<rparr>"

definition lx_resolver :: "(char, char) Resolver" where
  "lx_resolver = (dx_resolver (CHR ''b''))\<lparr>rs_aead := lx_aead, rs_ttl := DefaultLookupTTL\<rparr>"

definition lx_puts :: "(string \<times> string) list" where
  "lx_puts = publish_round lx_publisher (\<lambda>_. [dx_friend (CHR ''b'')]) (\<lambda>_. [''/ip4/a'']) (\<lambda>_. (Some (replicate 24 (CHR ''n'')), True)) (seconds (4 * 3600))"

definition lx_env :: resolve_env where
  "lx_env = dx_env\<lparr>rz_get := map_of lx_puts, rz_decodeAt := seconds (5 * 3600)\<rparr>"

lemma lx_rounds: "round_start DefaultRefreshInterval (\<lambda>_. 0) 0 k = seconds (4 * 3600) * int k"
  using pub.punctual [of 0 "\<lambda>_. 0" 0] by (cases k) (simp_all add: capped_id DefaultRefreshInterval_def seconds_def)

lemma lx_linked: "linked lx_publisher lx_resolver (dx_friend (CHR ''b'')) (dx_friend (CHR ''a''))"
  by (simp add: linked_def lx_publisher_def lx_resolver_def dx_ok dx_secret del: b64_encode.simps)

lemma lx_aead_ok: "0 \<le> s \<Longrightarrow> aead_ok lx_aead (record_at (\<lambda>_. [''/ip4/a'']) s)"
  by (simp add: aead_ok_def lx_aead_def record_at_def)


end
