(* ===== verification/Invite_Handshake.thy ===== *)
theory Invite_Handshake
  imports Invite_Manager Go_Scanner
begin

text \<open>
  The invite handshake as bytes (\<open>internal/invite/handshake.go\<close>) and the construction of the manager (\<open>NewManager\<close> of
  \<open>internal/invite/manager.go\<close>). Invite_Manager works on the messages; here each is a line of JSON on a stream that
  may cut it anywhere, and the redemption over such a stream is the redemption over messages.
\<close>

section \<open>Messages on the stream\<close>

definition SendHello_bytes :: "Hello json \<Rightarrow> Hello \<Rightarrow> string" where
  "SendHello_bytes J h = send_json J (SendHello h)"

definition ReadHello :: "Hello json \<Rightarrow> read_end \<Rightarrow> string list \<Rightarrow> recv_error + Hello" where
  "ReadHello J fin pieces = recv_json J fin pieces"

definition SendResponse :: "Response json \<Rightarrow> Response \<Rightarrow> string" where
  "SendResponse J r = send_json J r"

definition ReadResponse :: "Response json \<Rightarrow> read_end \<Rightarrow> string list \<Rightarrow> recv_error + Response" where
  "ReadResponse J fin pieces = recv_json J fin pieces"

text \<open>The two directions of a stream: how its reads cut the bytes, and how it ends (an expired deadline is an error of the
  read).\<close>

record stream_wire =
  wi_there :: "string \<Rightarrow> string list"
  wi_back :: "string \<Rightarrow> string list"
  wi_endThere :: read_end
  wi_endBack :: read_end

definition wire_ok :: "stream_wire \<Rightarrow> bool" where
  "wire_ok w \<longleftrightarrow> (\<forall>b. concat (wi_there w b) = b \<and> concat (wi_back w b) = b)"

text \<open>The far end as the redeemer sees it: its Hello on the stream, the inviter's handler, the response on the way back; \<open>None\<close> when no
  response could be read.\<close>

definition stream_remote ::
    "('priv, 'pub) InvEnv \<Rightarrow> handler_env \<Rightarrow> peer_id \<Rightarrow> Hello json \<Rightarrow> Response json \<Rightarrow> stream_wire \<Rightarrow> Hello \<Rightarrow> InvState \<Rightarrow> Response option \<times> InvState" where
  "stream_remote v hv remote JH JR w h s =
    (let hello = (case ReadHello JH (wi_endThere w) (wi_there w (SendHello_bytes JH h)) of Inl _ \<Rightarrow> None | Inr h' \<Rightarrow> Some h') in
     case inv_handleStream v hv remote hello s of
       (None, s') \<Rightarrow> (None, s')
     | (Some r, s') \<Rightarrow>
         (case ReadResponse JR (wi_endBack w) (wi_back w (SendResponse JR r)) of Inl _ \<Rightarrow> None | Inr r' \<Rightarrow> Some r', s'))"

text \<open>The handshake over a stream is the handshake over messages: whatever pieces the stream delivers, the handler reads the Hello that was
  sent and the redeemer the response that was sent, when their encodings fit on a line.\<close>

lemma handshake_survives_pieces:
  assumes "wire_ok w" and "json_line JH (SendHello h)"
    and "\<And>r. fst (inv_handleStream v hv remote (Some (SendHello h)) s) = Some r \<Longrightarrow> json_line JR r"
  shows "stream_remote v hv remote JH JR w h s = inv_handleStream v hv remote (Some (SendHello h)) s"
proof -
  have "ReadHello JH (wi_endThere w) (wi_there w (SendHello_bytes JH h)) = Inr (SendHello h)"
    unfolding ReadHello_def SendHello_bytes_def using assms(1,2) by (intro recv_json_sent [where rest = "[]"]) (auto simp: wire_ok_def)
  moreover have "ReadResponse JR (wi_endBack w) (wi_back w (SendResponse JR r)) = Inr r"
    if "fst (inv_handleStream v hv remote (Some (SendHello h)) s) = Some r" for r
    unfolding ReadResponse_def SendResponse_def using assms(1) assms(3) [OF that]
    by (intro recv_json_sent [where rest = "[]"]) (auto simp: wire_ok_def)
  ultimately show ?thesis by (auto simp: stream_remote_def Let_def split: prod.splits option.splits)
qed

section \<open>The manager\<close>

datatype manager_error = ErrHostRequired | ErrDHTMissing | ErrFriendsMissing | ErrStoreRequired | ErrIdentityMissing

text \<open>Which interface values the options carry; the address provider defaults to the host.\<close>

record ('priv, 'pub) ManagerOptions =
  mo_Host :: "(peer_id \<times> string list) option"
  mo_DHT :: bool
  mo_Friends :: "(Store \<times> friends_fs) option"
  mo_Store :: "(InviteStore \<times> invite_fs) option"
  mo_Identity :: "'priv option"
  mo_IdentityPub :: "'pub option"
  mo_DisplayName :: string
  mo_AddressProvider :: "string list option"

definition NewManager_invite ::
    "('priv, 'pub) InvEnv \<Rightarrow> ('priv, 'pub) ManagerOptions \<Rightarrow> manager_error + ('priv, 'pub) InvEnv \<times> InvState" where
  "NewManager_invite libs opts =
    (case mo_Host opts of
       None \<Rightarrow> Inl ErrHostRequired
     | Some (hostID, hostAddrs) \<Rightarrow>
         if \<not> mo_DHT opts then Inl ErrDHTMissing
         else case mo_Friends opts of
           None \<Rightarrow> Inl ErrFriendsMissing
         | Some friends \<Rightarrow>
             (case mo_Store opts of
                None \<Rightarrow> Inl ErrStoreRequired
              | Some store \<Rightarrow>
                  (case (mo_Identity opts, mo_IdentityPub opts) of
                     (Some priv, Some pub) \<Rightarrow>
                       Inr (libs\<lparr>iv_hostID := hostID, iv_priv := priv, iv_pub := pub, iv_displayName := mo_DisplayName opts,
                              iv_addrs := (case mo_AddressProvider opts of None \<Rightarrow> hostAddrs | Some a \<Rightarrow> a)\<rparr>,
                            \<lparr>im_store = store, im_friends = friends, im_puts = [], im_peerstore = [], im_subs = [], im_nextChan = 0,
                             im_handler = False\<rparr>)
                   | _ \<Rightarrow> Inl ErrIdentityMissing)))"

text \<open>A manager is made exactly when nothing is missing, and then without a handler or subscribers.\<close>

lemma NewManager_invite_iff:
  "(\<exists>m. NewManager_invite libs opts = Inr m) \<longleftrightarrow>
    mo_Host opts \<noteq> None \<and> mo_DHT opts \<and> mo_Friends opts \<noteq> None \<and> mo_Store opts \<noteq> None \<and> mo_Identity opts \<noteq> None \<and> mo_IdentityPub opts \<noteq> None"
  by (auto simp: NewManager_invite_def split: option.splits prod.splits)

text \<open>\<open>addrStrings\<close>: the provider's multiaddresses as text, in order.\<close>

definition addrStrings :: "('a \<Rightarrow> string) \<Rightarrow> 'a list \<Rightarrow> string list" where
  "addrStrings str ms = map str ms"

end
