(* ===== verification/Process_Glue.thy ===== *)
theory Process_Glue
  imports Cli_Daemon Go_Chan
begin

text \<open>
  The process around the components: the life cycle of the service implementation and its commands (\<open>cli/service.go\<close>), connecting to a
  daemon that may have to be started (\<open>cli/daemon.go\<close>, \<open>cli/daemon_spawn_unix.go\<close>, \<open>cli/daemon_spawn_windows.go\<close>), the entry points
  (\<open>cmd/cli/main.go\<close>, \<open>cli/tui_cmd.go\<close>, \<open>cli/tui/tui.go\<close>), the logger's level (\<open>log/log.go\<close>), the two values that are
  initialised once (\<open>cli/tui/clipboard.go\<close>, \<open>audio/devices.go\<close>), and the deadline of a dial on Windows.

  The service manager, the terminal library and the process calls are outcomes that the definitions take as arguments.
\<close>

section \<open>The service implementation\<close>

datatype app_state = AppIdle | AppRuns | AppExited "string option"

record service_impl =
  so_cancel :: bool
  so_cancelled :: bool
  so_app :: app_state
  so_done :: "string option chan"
  so_logger :: bool
  so_reports :: "string list"

definition new_service :: service_impl where
  "new_service = \<lparr>so_cancel = False, so_cancelled = False, so_app = AppIdle, so_done = make_chan 0, so_logger = False, so_reports = []\<rparr>"

text \<open>\<open>Start\<close>: what \<open>service_Start\<close> loads goes to \<open>app.Run\<close> in a goroutine. \<open>logger\<close> is whether the manager has one.\<close>

definition opencomService_Start :: "bool \<Rightarrow> start_error + 'a \<Rightarrow> service_impl \<Rightarrow> start_error option \<times> service_impl" where
  "opencomService_Start logger loaded s =
    (let s1 = (if logger then s\<lparr>so_logger := True\<rparr> else s) in
     case loaded of
       Inl e \<Rightarrow> (Some e, s1)
     | Inr _ \<Rightarrow> (None, s1\<lparr>so_cancel := True, so_cancelled := False, so_app := AppRuns, so_done := make_chan 1\<rparr>))"

text \<open>\<open>app.Run\<close> returns.\<close>

definition app_exits :: "string option \<Rightarrow> service_impl \<Rightarrow> service_impl" where
  "app_exits err s =
    s\<lparr>so_app := AppExited err, so_done := send_nb err (so_done s),
      so_reports := (case err of Some e \<Rightarrow> if so_logger s then so_reports s @ [''opencom daemon exited with error: '' @ e] else so_reports s
                                 | None \<Rightarrow> so_reports s)\<rparr>"

definition stopGrace :: time where "stopGrace = 10000000000"

text \<open>\<open>Stop\<close>: how long it took, and the state. \<open>exits\<close> says after how long, and how, \<open>app.Run\<close> returns once it is cancelled,
  if it does. Whatever happens, the error it returns is nil.\<close>

definition opencomService_Stop :: "(time \<times> string option) option \<Rightarrow> service_impl \<Rightarrow> time \<times> service_impl" where
  "opencomService_Stop exits s =
    (if \<not> so_cancel s then (0, s)
     else let s1 = s\<lparr>so_cancelled := True\<rparr> in
       case ch_buf (so_done s) of
         _ # rest \<Rightarrow> (0, s1\<lparr>so_done := (so_done s)\<lparr>ch_buf := rest\<rparr>\<rparr>)
       | [] \<Rightarrow>
           (case (so_app s, exits) of
              (AppRuns, Some (t, err)) \<Rightarrow>
                if t < stopGrace then (t, (app_exits err s1)\<lparr>so_done := so_done s\<rparr>) else (stopGrace, s1)
            | _ \<Rightarrow> (stopGrace, s1)))"

text \<open>Stopping is over in ten seconds, the daemon has been told to stop, and it has stopped if it does so within that time.\<close>

lemma service_stop_bounded:
  assumes "opencomService_Stop exits s = (t, s')" and "\<And>d e. exits = Some (d, e) \<Longrightarrow> 0 \<le> d" and "so_cancel s"
  shows "0 \<le> t \<and> t \<le> stopGrace \<and> so_cancelled s' \<and>
    (so_app s = AppRuns \<longrightarrow> ch_buf (so_done s) = [] \<longrightarrow> (so_app s' \<noteq> AppRuns \<longleftrightarrow> (\<exists>d e. exits = Some (d, e) \<and> d < stopGrace)))"
  using assms
  by (auto simp: opencomService_Stop_def Let_def app_exits_def stopGrace_def split: if_splits list.splits app_state.splits option.splits)

text \<open>A daemon that ended by itself leaves the service implementation waiting: only \<open>Stop\<close> learns of it, at once.\<close>

lemma service_stop_after_exit:
  assumes "opencomService_Start logger (Inr opts) s = (None, s1)"
  shows "fst (opencomService_Stop exits (app_exits err s1)) = 0"
  using assms by (auto simp: opencomService_Start_def opencomService_Stop_def app_exits_def make_chan_def send_nb_def ch_full_def Let_def)

text \<open>The commands \<open>service start\<close> and \<open>service stop\<close>.\<close>

datatype service_cmd_error = SvcBuild | SvcStart | SvcStop

definition service_start_cmd :: "bool \<Rightarrow> bool \<Rightarrow> service_cmd_error option \<times> string list" where
  "service_start_cmd built ok =
    (if \<not> built then (Some SvcBuild, []) else if \<not> ok then (Some SvcStart, []) else (None, [''Service started.'']))"

definition service_stop_cmd :: "bool \<Rightarrow> bool \<Rightarrow> service_cmd_error option \<times> string list" where
  "service_stop_cmd built ok =
    (if \<not> built then (Some SvcBuild, []) else if \<not> ok then (Some SvcStop, []) else (None, [''Service stopped.'']))"

section \<open>A daemon to talk to\<close>

datatype 'd dial_daemon_error = DdEnsure ensure_error | DdPaths | DdDial 'd

definition dialDaemon :: "bool \<Rightarrow> 'd + 'c \<Rightarrow> 'd dial_daemon_error + 'c" where
  "dialDaemon paths dialled = (if \<not> paths then Inl DdPaths else case dialled of Inl e \<Rightarrow> Inl (DdDial e) | Inr c \<Rightarrow> Inr c)"

definition dialDaemonOrStart :: "ensure_env \<Rightarrow> bool \<Rightarrow> 'd + 'c \<Rightarrow> 'd dial_daemon_error + 'c" where
  "dialDaemonOrStart v paths dialled =
    (case EnsureDaemonRunning v of
       (Inl e, _) \<Rightarrow> Inl (DdEnsure e)
     | (Inr _, _) \<Rightarrow> dialDaemon paths dialled)"

text \<open>Starting the process: the log file is opened for it and closed again by the parent on every path. The result, the
  arguments the process runs with, and the handles the parent keeps.\<close>

datatype spawn_error = SpLog | SpStart

definition spawnDaemon :: "bool \<Rightarrow> bool \<Rightarrow> string \<Rightarrow> spawn_error option \<times> string list option \<times> nat" where
  "spawnDaemon logOK startOK execPath =
    (if \<not> logOK then (Some SpLog, None, 0)
     else let opened = 1 in
       if \<not> startOK then (Some SpStart, None, opened - 1)
       else (None, Some [execPath, ''daemon'', ''start'', ''--background''], opened - 1))"

text \<open>The flags of the arguments after \<open>daemon start\<close>.\<close>

definition start_flags :: "string list \<Rightarrow> bool \<times> bool" where
  "start_flags args = (''--foreground'' \<in> set args, ''--background'' \<in> set args)"

text \<open>A spawned process runs what \<open>daemon start\<close> runs in the foreground, with an initialised home.\<close>

lemma spawned_runs_daemon:
  assumes "spawnDaemon True True exe = (err, Some (e # c # d # args), k)"
  shows "err = None \<and> k = 0 \<and>
    (case start_flags args of (fg, bg) \<Rightarrow> daemon_start L paths v logOK h fg bg = runDaemonStart L paths v logOK h)"
  using assms by (auto simp: spawnDaemon_def start_flags_def daemon_start_def)

section \<open>Entry points\<close>

text \<open>\<open>tui.Run\<close>: the result and whether the client was closed; the configuration path is empty when it cannot be resolved.\<close>

datatype 'e tui_error = TuiDial 'e | TuiProgram string

definition tui_Run :: "'e + 'c \<Rightarrow> string option \<Rightarrow> 'e tui_error option \<times> bool" where
  "tui_Run dialled program =
    (case dialled of Inl e \<Rightarrow> (Some (TuiDial e), False) | Inr _ \<Rightarrow> (map_option TuiProgram program, True))"

definition runTUI :: "Paths option \<Rightarrow> 'e + 'c \<Rightarrow> string option \<Rightarrow> string \<times> 'e tui_error option \<times> bool" where
  "runTUI paths dialled program =
    ((case paths of None \<Rightarrow> [] | Some p \<Rightarrow> pa_ConfigFile p), tui_Run dialled program)"

datatype dispatch = RanNothing | RanService | RanCommand

text \<open>\<open>main\<close>: what ran and the exit status.\<close>

definition main_dispatch :: "bool \<Rightarrow> bool \<Rightarrow> bool \<Rightarrow> bool \<Rightarrow> dispatch \<times> nat" where
  "main_dispatch built interactive serviceOK commandOK =
    (if \<not> built then (RanNothing, 1)
     else if \<not> interactive then (RanService, if serviceOK then 0 else 1)
     else (RanCommand, if commandOK then 0 else 1))"

definition version_line :: "string \<Rightarrow> string \<Rightarrow> string \<Rightarrow> string" where
  "version_line version commit built = ''opencom '' @ version @ '' (commit '' @ commit @ '', built '' @ built @ '')''"

text \<open>A command with its parents, innermost first.\<close>

fun rootName :: "string list \<Rightarrow> string" where
  "rootName [] = ''opencom''"
| "rootName [c] = c"
| "rootName (c # p # ps) = rootName (p # ps)"

lemma rootName_last: "rootName cs = (if cs = [] then ''opencom'' else last cs)"
  by (induction cs rule: rootName.induct) simp_all

section \<open>Logging\<close>

datatype zap_level = DebugLevel | InfoLevel | WarnLevel | ErrorLevel

definition level_num :: "zap_level \<Rightarrow> int" where
  "level_num l = (case l of DebugLevel \<Rightarrow> - 1 | InfoLevel \<Rightarrow> 0 | WarnLevel \<Rightarrow> 1 | ErrorLevel \<Rightarrow> 2)"

definition parseLevel :: "(rune \<Rightarrow> rune) \<Rightarrow> string \<Rightarrow> zap_level \<times> bool" where
  "parseLevel uni s =
    (let t = ToLower uni s in
     if t = ''debug'' then (DebugLevel, True)
     else if t = ''info'' then (InfoLevel, True)
     else if t = ''warn'' \<or> t = ''warning'' then (WarnLevel, True)
     else if t = ''error'' then (ErrorLevel, True)
     else (InfoLevel, False))"

text \<open>Levels are ordered by severity.\<close>

instantiation zap_level :: linorder
begin

definition "l \<le> m \<longleftrightarrow> level_num l \<le> level_num m"
definition "l < m \<longleftrightarrow> level_num l < level_num m" for l m :: zap_level

instance
proof
  fix l m k :: zap_level
  show "l < m \<longleftrightarrow> l \<le> m \<and> \<not> m \<le> l" by (auto simp: less_eq_zap_level_def less_zap_level_def)
  show "l \<le> l" by (simp add: less_eq_zap_level_def)
  show "l \<le> m \<Longrightarrow> m \<le> k \<Longrightarrow> l \<le> k" by (simp add: less_eq_zap_level_def)
  show "l \<le> m \<Longrightarrow> m \<le> l \<Longrightarrow> l = m" by (auto simp: less_eq_zap_level_def level_num_def split: zap_level.splits)
  show "l \<le> m \<or> m \<le> l" by (auto simp: less_eq_zap_level_def)
qed

end

text \<open>A logger is its level; it writes the entries that are at least as severe. \<open>New\<close> also gives what it has written already.\<close>

definition log_writes :: "zap_level \<Rightarrow> zap_level \<Rightarrow> bool" where
  "log_writes lvl l \<longleftrightarrow> lvl \<le> l"

definition New_logger :: "(rune \<Rightarrow> rune) \<Rightarrow> string \<Rightarrow> zap_level \<times> (zap_level \<times> string) list" where
  "New_logger uni level =
    (case parseLevel uni level of
       (lvl, ok) \<Rightarrow>
         (lvl, filter (\<lambda>(l, _). log_writes lvl l) (if ok then [] else [(WarnLevel, ''unknown log level, defaulting to info'')])))"

text \<open>A level that is not known is always reported, and errors are never silenced.\<close>

lemma New_logger_reports:
  "New_logger uni level = (lvl, written) \<Longrightarrow>
    (written = [] \<longleftrightarrow> snd (parseLevel uni level)) \<and> (written \<noteq> [] \<longrightarrow> lvl = InfoLevel) \<and> log_writes lvl ErrorLevel"
  by (auto simp: New_logger_def parseLevel_def log_writes_def less_eq_zap_level_def level_num_def Let_def split: if_splits zap_level.splits)

section \<open>Initialised once\<close>

text \<open>\<open>sync.Once\<close> with the result it leaves: \<open>None\<close> before the first call.\<close>

definition once_do :: "'r \<Rightarrow> 'r option \<Rightarrow> 'r \<times> 'r option" where
  "once_do init st = (case st of None \<Rightarrow> (init, Some init) | Some r \<Rightarrow> (r, st))"

definition clipboard_Read :: "string option \<Rightarrow> string \<Rightarrow> string option option \<Rightarrow> (string + string) \<times> string option option" where
  "clipboard_Read initErr contents st =
    (case once_do initErr st of (Some e, st') \<Rightarrow> (Inl e, st') | (None, st') \<Rightarrow> (Inr contents, st'))"

definition clipboard_Write :: "string option \<Rightarrow> string \<Rightarrow> string \<Rightarrow> string option option \<Rightarrow> string option \<times> string \<times> string option option" where
  "clipboard_Write initErr s contents st =
    (case once_do initErr st of (Some e, st') \<Rightarrow> (Some e, contents, st') | (None, st') \<Rightarrow> (None, s, st'))"

definition sharedMalgoCtx :: "'x + 'y \<Rightarrow> ('x + 'y) option \<Rightarrow> ('x + 'y) \<times> ('x + 'y) option" where
  "sharedMalgoCtx init st = once_do init st"

text \<open>The first outcome stays: an initialisation that failed is not tried again while the process runs.\<close>

lemma once_do_stays: "once_do i st = (r, st') \<Longrightarrow> once_do j st' = (r, st')"
  by (auto simp: once_do_def split: option.splits)

lemma clipboard_failure_stays:
  assumes "clipboard_Read (Some e) c None = (r, st)"
  shows "fst (clipboard_Read None c' st) = Inl e" and "fst (clipboard_Write None s c' st) = Some e"
  using assms by (auto simp: clipboard_Read_def clipboard_Write_def once_do_def)

section \<open>Named pipes on Windows\<close>

text \<open>The time a dial may take: ten seconds, or what the context has left, which can be negative.\<close>

definition pipe_dial_deadline :: "time option \<Rightarrow> time" where
  "pipe_dial_deadline remaining =
    (case remaining of None \<Rightarrow> 10000000000 | Some rem \<Rightarrow> if rem < 10000000000 then rem else 10000000000)"

lemma pipe_dial_deadline_bound: "remaining = Some rem \<Longrightarrow> pipe_dial_deadline remaining = min rem 10000000000"
  by (simp add: pipe_dial_deadline_def)

end
