(* ===== verification/Pid_File.thy ===== *)
theory Pid_File
  imports Go_Strings
begin

text \<open>
  \<open>internal/app/pidfile.go\<close>: the PID file, system call by system call, for several processes over one path. (The program does not call it:
  a single instance is enforced by the IPC socket.) A file is the process that made it, which is the one whose writes go to it, and its
  text. \<open>alive\<close> says which process ids belong to a running process, also one of another user.
\<close>

datatype pid_error = ErrAlreadyRunning int | ErrRemoveStalePid | ErrCreatePid | ErrWritePid | ErrClosePid

datatype pid_phase = PidRead | PidRemove | PidCreate | PidWrite | PidClose | PidHeld | PidFailed pid_error

record pid_env =
  pe_readable :: bool
  pe_remove :: bool
  pe_create :: bool
  pe_write :: bool
  pe_close :: bool

definition processIsRunning :: "(int \<Rightarrow> bool) \<Rightarrow> int \<Rightarrow> bool" where
  "processIsRunning alive pid = alive pid"

text \<open>The process a file names, when it is a positive number.\<close>

definition named_pid :: "string \<Rightarrow> int option" where
  "named_pid data = (case ParseInt (TrimSpace data) of None \<Rightarrow> None | Some pid \<Rightarrow> if 0 < pid then Some pid else None)"

definition pid_step :: "pid_env \<Rightarrow> (int \<Rightarrow> bool) \<Rightarrow> int \<Rightarrow> pid_phase \<times> (int \<times> string) option \<Rightarrow> pid_phase \<times> (int \<times> string) option" where
  "pid_step v alive self x = (let file = snd x in
    (case fst x of
       PidRead \<Rightarrow>
         (case file of
            None \<Rightarrow> (PidCreate, file)
          | Some (_, data) \<Rightarrow>
              if \<not> pe_readable v then (PidCreate, file)
              else (case named_pid data of
                 None \<Rightarrow> (PidRemove, file)
               | Some pid \<Rightarrow> if processIsRunning alive pid then (PidFailed (ErrAlreadyRunning pid), file) else (PidRemove, file)))
     | PidRemove \<Rightarrow> if file = None then (PidCreate, file) else if pe_remove v then (PidCreate, None) else (PidFailed ErrRemoveStalePid, file)
     | PidCreate \<Rightarrow> if file \<noteq> None \<or> \<not> pe_create v then (PidFailed ErrCreatePid, file) else (PidWrite, Some (self, []))
     | PidWrite \<Rightarrow> if pe_write v then (PidClose, case file of Some (q, _) \<Rightarrow> if q = self then Some (self, FormatInt self @ [CHR 0x0A]) else file | None \<Rightarrow> None) else (PidFailed ErrWritePid, None)
     | PidClose \<Rightarrow> if pe_close v then (PidHeld, file) else (PidFailed ErrClosePid, None)
     | ph \<Rightarrow> (ph, file)))"

text \<open>\<open>AcquirePIDFile\<close> without another process in between, and the release it returns (whether it reports an error).\<close>

definition AcquirePIDFile :: "pid_env \<Rightarrow> (int \<Rightarrow> bool) \<Rightarrow> int \<Rightarrow> (int \<times> string) option \<Rightarrow> pid_phase \<times> (int \<times> string) option" where
  "AcquirePIDFile v alive self file = (pid_step v alive self ^^ 5) (PidRead, file)"

definition release_pid :: "bool \<Rightarrow> (int \<times> string) option \<Rightarrow> bool \<times> (int \<times> string) option" where
  "release_pid removeOK file = (if file = None then (False, None) else if removeOK then (False, None) else (True, file))"

lemma AcquirePIDFile_steps:
  "AcquirePIDFile v alive self file =
    pid_step v alive self (pid_step v alive self (pid_step v alive self (pid_step v alive self (pid_step v alive self (PidRead, file)))))"
  by (simp add: AcquirePIDFile_def eval_nat_numeral)

lemma pid_step_failed [simp]: "pid_step v alive self (PidFailed e, file) = (PidFailed e, file)"
  by (simp add: pid_step_def)

lemma pid_step_held [simp]: "pid_step v alive self (PidHeld, file) = (PidHeld, file)"
  by (simp add: pid_step_def)

definition all_pid_ok :: pid_env where
  "all_pid_ok = \<lparr>pe_readable = True, pe_remove = True, pe_create = True, pe_write = True, pe_close = True\<rparr>"

text \<open>Alone: a file that names a running process is respected, every other is replaced by one that names the caller.\<close>

lemma acquire_respects_running:
  assumes "named_pid data = Some pid" and "alive pid" and "pe_readable v"
  shows "AcquirePIDFile v alive self (Some (q, data)) = (PidFailed (ErrAlreadyRunning pid), Some (q, data))"
proof -
  have "pid_step v alive self (PidRead, Some (q, data)) = (PidFailed (ErrAlreadyRunning pid), Some (q, data))"
    using assms by (simp add: pid_step_def processIsRunning_def)
  then show ?thesis by (simp add: AcquirePIDFile_steps)
qed

lemma acquire_replaces_stale:
  assumes "\<And>q data pid. file = Some (q, data) \<Longrightarrow> named_pid data = Some pid \<Longrightarrow> \<not> alive pid"
  shows "AcquirePIDFile all_pid_ok alive self file = (PidHeld, Some (self, FormatInt self @ [CHR 0x0A]))"
proof -
  have last: "pid_step all_pid_ok alive self (pid_step all_pid_ok alive self (pid_step all_pid_ok alive self (PidCreate, None)))
      = (PidHeld, Some (self, FormatInt self @ [CHR 0x0A]))"
    by (simp add: pid_step_def all_pid_ok_def)
  show ?thesis
  proof (cases "file")
    case None
    then have "pid_step all_pid_ok alive self (PidRead, file) = (PidCreate, None)" by (simp add: pid_step_def)
    then show ?thesis by (simp add: AcquirePIDFile_steps last)
  next
    case (Some a)
    then obtain q data where Some: "file = Some (q, data)" by (cases a) auto
    have "pid_step all_pid_ok alive self (PidRead, file) = (PidRemove, file)"
      using assms Some by (cases "named_pid data") (simp_all add: pid_step_def processIsRunning_def all_pid_ok_def)
    moreover have "pid_step all_pid_ok alive self (PidRemove, file) = (PidCreate, None)"
      using Some by (simp add: pid_step_def all_pid_ok_def)
    ultimately show ?thesis by (simp add: AcquirePIDFile_steps last)
  qed
qed

text \<open>Two processes that both read the stale file of a third before either removes it both hold the file in the end: the slower one
  removes the file of the faster one.\<close>

fun pid_pair :: "(int \<Rightarrow> bool) \<Rightarrow> int \<Rightarrow> int \<Rightarrow> bool list \<Rightarrow> pid_phase \<times> pid_phase \<times> (int \<times> string) option \<Rightarrow> pid_phase \<times> pid_phase \<times> (int \<times> string) option" where
  "pid_pair alive p q [] x = x"
| "pid_pair alive p q (b # bs) (a, c, file) =
    pid_pair alive p q bs
      (if b then (case pid_step all_pid_ok alive p (a, file) of (a', f) \<Rightarrow> (a', c, f))
       else (case pid_step all_pid_ok alive q (c, file) of (c', f) \<Rightarrow> (a, c', f)))"

lemma stale_pid_file_race:
  assumes "named_pid data = Some pid" and "\<not> alive pid"
  shows "pid_pair alive p q [False, True, True, True, True, True, False, False, False, False] (PidRead, PidRead, Some (r, data))
    = (PidHeld, PidHeld, Some (q, FormatInt q @ [CHR 0x0A]))"
  using assms by (simp add: pid_step_def processIsRunning_def all_pid_ok_def)

end
