(* ===== verification/Spec2Isabelle.thy ===== *)
theory Spec2Isabelle
  imports Discovery Daemon Tui_Calls Tui_View Client_Requests Cli_Upgrade Cli_Setup Cli_Daemon Cli_Calls Cli_Status Ipc_Socket
    Ipc_Serve Ipc_Wire Subscription_Ids Discovery_Loops Invite_Handshake Process_Glue Pid_File
begin

text \<open>
  A verification development of opencom, a program for peer-to-peer voice calls from the terminal. The sources are Go, under
  \<open>src/internal\<close>; paths below are relative to it.

  \<^bold>\<open>The program.\<close> One daemon per user owns the libp2p host, the friend list, the invites, the calls and the audio sessions. It
  serves a JSON protocol on a local socket. The commands of \<open>opencom\<close> and its terminal interface are clients of
  that socket. Two daemons find each other by addresses from invites, by signed records in a DHT, or by mDNS; they speak an
  invite protocol, a call control protocol and a media protocol over libp2p streams and datagrams.

  \<^bold>\<open>How it is modelled.\<close> A struct is a record, an enumeration a datatype, an error a value of a sum or option. State is passed
  explicitly. A mutex-protected operation is one step; goroutines are steps of an \<open>inductive\<close> relation or the operations of
  an arbitrary list, so that theorems quantify over interleavings. What a system call, the network or a
  library answers is an argument (an environment record), with the laws relied on as named predicates such as \<open>keys_ok\<close>. Times are
  nanoseconds, packet numbers and samples are machine words, bytes are characters.

  \<^bold>\<open>Foundations.\<close> \<open>Prelude\<close> (generic lemmas, the locale \<open>machine\<close> of invariants along runs), \<open>Go_Strings\<close> (runes, case
  mapping, trimming, splitting, integers as text), \<open>Go_Encoding\<close> (base64, hexadecimal), \<open>Go_Chan\<close> (buffered channels; the locale
  \<open>event_bus\<close> for every publisher with subscriber channels), \<open>Go_Scanner\<close> (lines out of a stream that arrives in pieces),
  \<open>Go_Ticker\<close> (a job on a ticker, with the locale \<open>ticker_loop\<close> on how far apart its rounds are), \<open>Iox\<close> (\<open>iox/atomicfile.go\<close>: each system call may
  fail; a file that was not completely written is \<open>Partial\<close>), \<open>Disk_Mirror\<close> (the locale of a store whose file
  holds its last successful state).

  \<^bold>\<open>Friends.\<close> \<open>Friends_Store\<close> (\<open>friends/store.go\<close>): every operation with its persistence; it refines a finite map, and
  nothing is lost on disk. \<open>Friends_Presence\<close> (\<open>friends/presence.go\<close>): online states and their subscribers.

  \<^bold>\<open>Invites.\<close> \<open>Invite_Code\<close>, \<open>Invite_Record\<close>, \<open>Sealed\<close>, \<open>Invite_Url\<close>, \<open>Invite_Store\<close>, \<open>Invite_Manager\<close> and \<open>Invite_Handshake\<close>
  (\<open>invite/\<close>): codes and
  their parsing, the sealed DHT record, the signed URL and its round trip, the store across restarts, and the handshake
  of redemption, on messages and on the bytes of a stream. The lemmas show single use under every interleaving, that both sides become friends, that only the
  signer is befriended, and that a refused redemption changes nothing.

  \<^bold>\<open>Calls.\<close> \<open>Call_Session\<close>, \<open>Call_Manager\<close> and \<open>Call_Engine\<close> (\<open>call/\<close>): the state machine of a session, the registry with its
  forwarders over a heap of sessions, and the control protocol between two engines: admission, agreement of both sides, set
  up, and clean up whatever the peer sends.

  \<^bold>\<open>Audio.\<close> \<open>Audio_Jitter\<close> (the 16-bit buffer refines one over unbounded numbers; the eviction loop is a
  \<open>partial_function (option)\<close>, so that it not returning for a negative limit is the value \<open>None\<close>), \<open>Audio_Stats\<close>,
  \<open>Audio_Transport\<close> (queues, the switch from stream to datagrams), \<open>Audio_Pipeline\<close>, \<open>Audio_Devices\<close> and \<open>Audio_Session\<close>
  (\<open>audio/\<close>): in-order playout, delivery on the stream, sessions exactly while a call is connected, and the release of resources.

  \<^bold>\<open>Finding each other.\<close> \<open>Discovery_Cache\<close>, \<open>Discovery\<close> (\<open>discovery/\<close>): keys, records, publishing and resolving.
  \<open>Discovery_Loops\<close> (\<open>Publisher.Run\<close>, the address watcher and \<open>runVersionChecker\<close> of \<open>app/daemon.go\<close>): the rounds of the loops, which
  are close enough together that what is published stays resolvable. \<open>P2p\<close>
  (\<open>transport/p2p/\<close>): addresses, reachability, and presence from connection notifications.

  \<^bold>\<open>The daemon and its socket.\<close> \<open>Ipc\<close> (\<open>ipc/\<close>: the message protocol, server and client), \<open>Ipc_Methods\<close> (\<open>ipc/methods/\<close>: what each
  method does to the daemon's state), \<open>Ipc_Serve\<close> (the accept loop with its connections as one system of steps, its runs under weak fairness,
  and when a shutdown ends), \<open>Ipc_Wire\<close> (both sides on the bytes of the socket), \<open>Subscription_Ids\<close>, \<open>Ipc_Socket\<close> (\<open>ipc/transport_unix.go\<close>: who gets to listen, one process after another
  and several at once), \<open>Pid_File\<close>, \<open>Config\<close>, \<open>Identity\<close>, \<open>Version\<close>, \<open>Notify\<close> (the packages of those names) and \<open>Daemon\<close>
  (\<open>app/daemon.go\<close>: start, the order of releases, status).

  \<^bold>\<open>The terminal interface.\<close> \<open>Tui_Panes\<close>, \<open>Tui_Modals\<close>, \<open>Tui\<close>, \<open>Tui_Run\<close>, \<open>Tui_Calls\<close>, \<open>Tui_View\<close> (\<open>cli/tui/\<close>): the panes and
  dialogs, the update function message by message, the commands with the Bubble Tea loop as a step relation, and the layout. The
  locale \<open>budget\<close> in \<open>Tui_Run\<close> counts what a run can still do (events read, ticks under way); its interpretations give
  that every subscription is read once and that the status is polled for ever. \<open>Client_Requests\<close> (\<open>cli/tui/ipc_client.go\<close> and
  the requests of \<open>cli/\<close>): all requests of the clients are well typed against the daemon's table of methods, and the forwarding goroutine keeps order.

  \<^bold>\<open>The commands.\<close> \<open>Cli_Setup\<close> (\<open>cli/init.go\<close>), \<open>Cli_Daemon\<close> (\<open>cli/daemon.go\<close>, \<open>cli/daemon_ensure.go\<close>, \<open>cli/service.go\<close>), \<open>Cli_Calls\<close>
  (\<open>cli/call.go\<close>), \<open>Cli_Status\<close> (what the other commands print), \<open>Cli_Upgrade\<close> (\<open>cli/upgrade.go\<close>) and \<open>Process_Glue\<close> (the service's life cycle, the entry
  points, the logger's level, values initialised once): initialising is safe to repeat
  and what it made is what the daemon starts with; waiting for the daemon is bounded; a call is followed to its end;
  an upgrade installs verified binaries only.

  \<^bold>\<open>Bounds.\<close> Loops are structural recursion or have a measure (the polling loop of \<open>Cli_Daemon\<close> measures the time left, as each
  turn waits at least 100 ms). Only the eviction loop of the jitter buffer can run for ever, and its returning is proved
  for the limits that allow it. The loops on a ticker run until they are cancelled: \<open>ticker_run\<close> takes a number of turns, and
  \<open>run_reaches\<close> shows that \<open>k\<close> turns are enough for every round up to \<open>k\<close> that starts before the cancellation. The accept loop is a relation on infinite runs.

  \<^bold>\<open>Not modelled.\<close> libp2p, the DHT and mDNS, Opus, the audio devices, the cryptographic primitives, JSON, YAML, gzip, tar, HTTP and
  lipgloss are parameters. The wording of most error messages, log output, the column layout of tables, flag
  parsing and help texts by cobra, colours, the Windows pipe (but for the deadline of a dial) and the system calls that detach a process
  are left out, as is the test double of the terminal interface's client. Timeouts are the environment's choice to fail.
\<close>

end
